(* ===== verification/Prelude.thy ===== *)
theory Prelude
  imports Main "HOL-Library.Sublist"
begin

text \<open>
  Shared vocabulary of the development: the two lifting monads (a pure result that may
  throw, and an effectful computation over the trace of driver calls), ECMAScript string
  primitives, and the collections of rewrite rules the component theories add to.

  Strings are lists of UTF-16 code units below 256 (the Latin-1 range, one HOL character
  per code unit).  On this range every primitive below agrees with ECMAScript:
  \<open>trim\<close> strips TAB, LF, VT, FF, CR, SPACE and NO-BREAK SPACE; \<open>toLowerCase\<close> maps the
  ASCII and Latin-1 capitals; NFC normalisation is the identity; every code unit is one
  code point; the UTF-8 length of a code unit is one below 128 and two otherwise.
\<close>

named_theorems res_simps \<open>rewriting with pure results\<close>
named_theorems io_simps \<open>rewriting with effectful computations\<close>
named_theorems io_intros \<open>trace properties of effectful computations\<close>

subsection \<open>Results: a thrown value or a returned one\<close>

fun bindR :: "'e + 'a \<Rightarrow> ('a \<Rightarrow> 'e + 'b) \<Rightarrow> 'e + 'b" where
  "bindR (Inl e) f = Inl e"
| "bindR (Inr x) f = f x"

lemma bindR_Inr_iff [res_simps]: "bindR m f = Inr y \<longleftrightarrow> (\<exists>x. m = Inr x \<and> f x = Inr y)"
  by (cases m) auto

lemma bindR_Inl_iff [res_simps]:
  "bindR m f = Inl e \<longleftrightarrow> m = Inl e \<or> (\<exists>x. m = Inr x \<and> f x = Inl e)"
  by (cases m) auto

lemma bindR_return [simp]: "bindR m Inr = m"
  by (cases m) auto

lemma bindR_assoc: "bindR (bindR m f) g = bindR m (\<lambda>x. bindR (f x) g)"
  by (cases m) auto

lemma bindR_cong [fundef_cong]:
  "m = m' \<Longrightarrow> (\<And>x. m' = Inr x \<Longrightarrow> f x = g x) \<Longrightarrow> bindR m f = bindR m' g"
  by (cases m') auto

text \<open>A guard clause: throw when the condition holds, otherwise go on.\<close>

definition throwIf :: "bool \<Rightarrow> 'e \<Rightarrow> 'e + 'a \<Rightarrow> 'e + 'a" where
  "throwIf b e k = (if b then Inl e else k)"

lemma throwIf_simps [simp]: "throwIf True e k = Inl e" "throwIf False e k = k"
  by (simp_all add: throwIf_def)

lemma throwIf_Inr_iff [res_simps]: "throwIf b e k = Inr y \<longleftrightarrow> \<not> b \<and> k = Inr y"
  by (simp add: throwIf_def)

text \<open>The left-to-right traversal of a list by a function that may throw.\<close>

fun mapR :: "('a \<Rightarrow> 'e + 'b) \<Rightarrow> 'a list \<Rightarrow> 'e + 'b list" where
  "mapR f [] = Inr []"
| "mapR f (x # xs) = bindR (f x) (\<lambda>y. bindR (mapR f xs) (\<lambda>ys. Inr (y # ys)))"

lemma mapR_cong [fundef_cong]:
  "xs = ys \<Longrightarrow> (\<And>x. x \<in> set ys \<Longrightarrow> f x = g x) \<Longrightarrow> mapR f xs = mapR g ys"
  by (induction xs arbitrary: ys) auto

lemma mapR_Inr_length: "mapR f xs = Inr ys \<Longrightarrow> length ys = length xs"
  by (induction xs arbitrary: ys) (auto simp: res_simps)

lemma mapR_Inr_list_all2: "mapR f xs = Inr ys \<longleftrightarrow> list_all2 (\<lambda>x y. f x = Inr y) xs ys"
  by (induction xs arbitrary: ys) (auto simp: res_simps list_all2_Cons1)

lemma mapR_transfer:
  "mapR f xs = Inr ys \<Longrightarrow> (\<And>x y. x \<in> set xs \<Longrightarrow> f x = Inr y \<Longrightarrow> g x = Inr y) \<Longrightarrow> mapR g xs = Inr ys"
  unfolding mapR_Inr_list_all2 by (erule list.rel_mono_strong) auto

lemma mapR_Inr_set: "mapR f xs = Inr ys \<Longrightarrow> y \<in> set ys \<Longrightarrow> \<exists>x\<in>set xs. f x = Inr y"
  by (induction xs arbitrary: ys) (auto simp: res_simps)

subsection \<open>String primitives\<close>

abbreviation ccode :: "char \<Rightarrow> nat" where
  "ccode c \<equiv> of_char c"

abbreviation dquote :: char where
  "dquote \<equiv> CHR 0x22"

definition between :: "nat \<Rightarrow> nat \<Rightarrow> char \<Rightarrow> bool" where
  "between lo hi c \<longleftrightarrow> lo \<le> ccode c \<and> ccode c \<le> hi"

definition isLowerAZ :: "char \<Rightarrow> bool" where "isLowerAZ = between 97 122"
definition isUpperAZ :: "char \<Rightarrow> bool" where "isUpperAZ = between 65 90"
definition isDigit :: "char \<Rightarrow> bool" where "isDigit = between 48 57"
definition isHexLower :: "char \<Rightarrow> bool" where
  "isHexLower c \<longleftrightarrow> isDigit c \<or> between 97 102 c"

definition isWhite :: "char \<Rightarrow> bool" where
  "isWhite c \<longleftrightarrow> between 9 13 c \<or> ccode c = 32 \<or> ccode c = 160"

text \<open>Unicode category Cc on this range: C0 controls, DEL and C1 controls.\<close>

definition isControl :: "char \<Rightarrow> bool" where
  "isControl c \<longleftrightarrow> ccode c \<le> 31 \<or> between 127 159 c"

definition lowerChar :: "char \<Rightarrow> char" where
  "lowerChar c =
     (if isUpperAZ c \<or> (between 192 222 c \<and> ccode c \<noteq> 215) then char_of (ccode c + 32) else c)"

definition toLowerCase :: "string \<Rightarrow> string" where
  "toLowerCase = map lowerChar"

text \<open>
  \<open>toUpperCase\<close> sends sharp s to SS; the capitals of the micro sign and of y diaeresis lie
  outside the range, and both are kept: neither can then match an ASCII pattern, as in the
  source.
\<close>

definition upperChar :: "char \<Rightarrow> string" where
  "upperChar c =
     (if isLowerAZ c \<or> (between 224 254 c \<and> ccode c \<noteq> 247) then [char_of (ccode c - 32)]
      else if ccode c = 223 then ''SS'' else [c])"

definition toUpperCase :: "string \<Rightarrow> string" where
  "toUpperCase s = concat (map upperChar s)"

definition trimBy :: "(char \<Rightarrow> bool) \<Rightarrow> string \<Rightarrow> string" where
  "trimBy p s = rev (dropWhile p (rev (dropWhile p s)))"

definition trim :: "string \<Rightarrow> string" where
  "trim = trimBy isWhite"

definition startsWith :: "string \<Rightarrow> string \<Rightarrow> bool" where
  "startsWith s p \<longleftrightarrow> take (length p) s = p"

text \<open>\<open>s.includes(p)\<close>.\<close>

fun strIncludes :: "string \<Rightarrow> string \<Rightarrow> bool" where
  "strIncludes [] p = (p = [])"
| "strIncludes (c # s) p = (startsWith (c # s) p \<or> strIncludes s p)"

text \<open>\<open>s.split(c)\<close> for a one-character separator: always at least one part.\<close>

fun splitOn :: "char \<Rightarrow> string \<Rightarrow> string list" where
  "splitOn c [] = [[]]"
| "splitOn c (x # xs) =
     (if x = c then [] # splitOn c xs
      else (case splitOn c xs of [] \<Rightarrow> [[x]] | p # ps \<Rightarrow> (x # p) # ps))"

fun joinWith :: "string \<Rightarrow> string list \<Rightarrow> string" where
  "joinWith sep [] = []"
| "joinWith sep [s] = s"
| "joinWith sep (s # t # ss) = s @ sep @ joinWith sep (t # ss)"

text \<open>\<open>s.indexOf(c)\<close> for one character; \<open>None\<close> stands for \<open>-1\<close>.\<close>

fun indexOf :: "char \<Rightarrow> string \<Rightarrow> nat option" where
  "indexOf c [] = None"
| "indexOf c (x # xs) = (if x = c then Some 0 else map_option Suc (indexOf c xs))"

text \<open>Decimal rendering of a natural number, as in a template literal.\<close>

fun natStr :: "nat \<Rightarrow> string" where
  "natStr n = (if n < 10 then [char_of (48 + n)] else natStr (n div 10) @ [char_of (48 + n mod 10)])"

declare natStr.simps [simp del]

definition utf8Length :: "string \<Rightarrow> nat" where
  "utf8Length s = sum_list (map (\<lambda>c. if ccode c < 128 then 1 else 2) s)"

text \<open>The pattern \<open>[a-z_][a-z0-9_]*\<close> with the \<open>i\<close> flag, anchored at both ends.\<close>

definition identStart :: "char \<Rightarrow> bool" where
  "identStart c \<longleftrightarrow> isLowerAZ c \<or> isUpperAZ c \<or> c = CHR ''_''"

definition identChar :: "char \<Rightarrow> bool" where
  "identChar c \<longleftrightarrow> identStart c \<or> isDigit c"

fun simpleIdentifier :: "string \<Rightarrow> bool" where
  "simpleIdentifier [] = False"
| "simpleIdentifier (c # cs) = (identStart c \<and> list_all identChar cs)"

text \<open>The alias pattern \<open>[a-z][a-z0-9_]{0,62}\<close>, anchored.\<close>

fun aliasPattern :: "string \<Rightarrow> bool" where
  "aliasPattern [] = False"
| "aliasPattern (c # cs) =
     (isLowerAZ c \<and> length cs \<le> 62 \<and>
      list_all (\<lambda>x. isLowerAZ x \<or> isDigit x \<or> x = CHR ''_'') cs)"

lemmas char_class_defs =
  between_def isLowerAZ_def isUpperAZ_def isDigit_def isHexLower_def isWhite_def
  isControl_def identStart_def identChar_def

subsection \<open>Facts about the string primitives\<close>

lemma splitOn_nonempty [simp]: "splitOn c s \<noteq> []"
  by (induction s) (auto split: list.splits)

lemma joinWith_Cons:
  "joinWith sep (s # ss) = (if ss = [] then s else s @ sep @ joinWith sep ss)"
  by (cases ss) auto

lemma joinWith_splitOn: "joinWith [c] (splitOn c s) = s"
  by (induction s) (auto split: list.splits simp: joinWith_Cons)

lemma splitOn_no_sep: "p \<in> set (splitOn c s) \<Longrightarrow> c \<notin> set p"
  by (induction s arbitrary: p) (auto split: list.splits if_splits)

lemma splitOn_id: "c \<notin> set s \<Longrightarrow> splitOn c s = [s]"
  by (induction s) auto

lemma splitOn_append: "c \<notin> set p \<Longrightarrow> splitOn c (p @ c # s) = p # splitOn c s"
  by (induction p) auto

lemma splitOn_joinWith:
  "ps \<noteq> [] \<Longrightarrow> (\<And>p. p \<in> set ps \<Longrightarrow> c \<notin> set p) \<Longrightarrow> splitOn c (joinWith [c] ps) = ps"
proof (induction ps)
  case Nil
  then show ?case by simp
next
  case (Cons p ps)
  then show ?case by (cases ps) (auto simp: splitOn_id splitOn_append)
qed

lemma indexOf_Some: "indexOf c s = Some i \<Longrightarrow> i < length s \<and> s ! i = c \<and> c \<notin> set (take i s)"
  by (induction s arbitrary: i) (auto split: if_splits)

lemma indexOf_None: "indexOf c s = None \<longleftrightarrow> c \<notin> set s"
  by (induction s) auto

lemma indexOf_append: "c \<notin> set p \<Longrightarrow> indexOf c (p @ c # s) = Some (length p)"
  by (induction p) auto

lemma set_trimBy: "set (trimBy p s) \<subseteq> set s"
  unfolding trimBy_def by (auto dest!: set_dropWhileD)

lemma trimBy_id: "s = [] \<or> (\<not> p (hd s) \<and> \<not> p (last s)) \<Longrightarrow> trimBy p s = s"
  unfolding trimBy_def
  by (metis dropWhile_eq_Nil_conv dropWhile_eq_self_iff hd_rev rev_rev_ident rev.simps(1))

lemma trimBy_idem: "trimBy p (trimBy p s) = trimBy p s"
proof (rule trimBy_id)
  define u where "u = dropWhile p s"
  have t: "trimBy p s = rev (dropWhile p (rev u))" by (simp add: trimBy_def u_def)
  have "rev u = takeWhile p (rev u) @ dropWhile p (rev u)" by simp
  then have "u = trimBy p s @ rev (takeWhile p (rev u))"
    unfolding t by (metis rev_append rev_rev_ident)
  then have "trimBy p s \<noteq> [] \<Longrightarrow> hd (trimBy p s) = hd u \<and> u \<noteq> []" by (metis append_is_Nil_conv hd_append2)
  moreover have "u \<noteq> [] \<Longrightarrow> \<not> p (hd u)" unfolding u_def by (rule hd_dropWhile)
  moreover have "trimBy p s \<noteq> [] \<Longrightarrow> \<not> p (last (trimBy p s))"
    unfolding t using hd_dropWhile [of p "rev u"] by (simp add: last_rev del: dropWhile_eq_Nil_conv)
  ultimately show "trimBy p s = [] \<or> \<not> p (hd (trimBy p s)) \<and> \<not> p (last (trimBy p s))" by auto
qed

lemma strIncludes_iff: "strIncludes s p \<longleftrightarrow> (\<exists>u v. s = u @ p @ v)"
proof (induction s)
  case Nil
  then show ?case by simp
next
  case (Cons c s)
  have pre: "startsWith (c # s) p \<longleftrightarrow> (\<exists>v. c # s = p @ v)"
    unfolding startsWith_def by (metis append_eq_conv_conj append_take_drop_id)
  show ?case
    unfolding strIncludes.simps pre Cons.IH
    by (auto simp: Cons_eq_append_conv)
qed

lemma startsWith_append [simp]: "startsWith (p @ s) p"
  by (simp add: startsWith_def)

lemma simpleIdentifier_chars: "simpleIdentifier s \<Longrightarrow> c \<in> set s \<Longrightarrow> identChar c"
  by (cases s) (auto simp: identChar_def list_all_iff)

lemma simpleIdentifier_nonempty: "simpleIdentifier s \<Longrightarrow> s \<noteq> []"
  by (cases s) auto

lemma identChar_not_special:
  "identChar c \<Longrightarrow> c \<noteq> dquote \<and> c \<noteq> CHR ''.'' \<and> c \<noteq> CHR '','' \<and> c \<noteq> CHR ''='' \<and> c \<noteq> CHR '' '' \<and>
   c \<noteq> CHR ''$'' \<and> c \<noteq> CHR 0x00 \<and> c \<noteq> CHR 0x27"
  by (auto simp: char_class_defs)

lemma aliasPattern_simpleIdentifier: "aliasPattern s \<Longrightarrow> simpleIdentifier s"
  by (cases s) (auto simp: identChar_def identStart_def list_all_iff)

lemma natStr_digits: "\<forall>c\<in>set (natStr n). isDigit c"
proof (induction n rule: natStr.induct)
  case (1 n)
  have d: "isDigit (char_of (48 + m))" if "m < 10" for m :: nat
    using that by (simp add: isDigit_def between_def)
  show ?case
  proof (cases "n < 10")
    case True
    then show ?thesis by (simp add: natStr.simps [of n] d)
  next
    case False
    with 1 d [of "n mod 10"] show ?thesis by (auto simp: natStr.simps [of n])
  qed
qed

lemma natStr_nonempty [simp]: "natStr n \<noteq> []"
  by (subst natStr.simps) simp

text \<open>Reading a decimal rendering back.\<close>

definition digitsVal :: "string \<Rightarrow> nat" where
  "digitsVal s = foldl (\<lambda>a c. 10 * a + (ccode c - 48)) 0 s"

lemma digitsVal_natStr [simp]: "digitsVal (natStr n) = n"
proof (induction n rule: natStr.induct)
  case (1 n)
  show ?case
  proof (cases "n < 10")
    case True
    then show ?thesis by (simp add: natStr.simps [of n] digitsVal_def)
  next
    case False
    with 1 have "digitsVal (natStr (n div 10)) = n div 10" by simp
    with False show ?thesis by (simp add: natStr.simps [of n] digitsVal_def)
  qed
qed

lemma natStr_inject [simp]: "natStr m = natStr n \<longleftrightarrow> m = n"
  by (metis digitsVal_natStr)

subsection \<open>Maps with an insertion order\<close>

text \<open>\<open>Map.prototype.set\<close>: in place when the key exists, at the end otherwise.\<close>

fun mapSet :: "'k \<Rightarrow> 'v \<Rightarrow> ('k \<times> 'v) list \<Rightarrow> ('k \<times> 'v) list" where
  "mapSet k v [] = [(k, v)]"
| "mapSet k v ((k', v') # m) = (if k' = k then (k, v) # m else (k', v') # mapSet k v m)"

lemma map_of_mapSet [simp]: "map_of (mapSet k v m) = (map_of m)(k \<mapsto> v)"
  by (induction m) auto

lemma dom_mapSet: "fst ` set (mapSet k v m) = insert k (fst ` set m)"
  by (induction k v m rule: mapSet.induct) auto

lemma distinct_mapSet: "distinct (map fst m) \<Longrightarrow> distinct (map fst (mapSet k v m))"
  by (induction k v m rule: mapSet.induct) (auto simp: dom_mapSet)

lemma length_mapSet:
  "length (mapSet k v m) = (if k \<in> fst ` set m then length m else Suc (length m))"
  by (induction k v m rule: mapSet.induct) auto

lemma set_mapSet: "set (mapSet k v m) \<subseteq> insert (k, v) (set m)"
  by (induction k v m rule: mapSet.induct) (auto split: if_splits)

end
