(* ===== verification/JsValues.thy ===== *)
theory JsValues
  imports Prelude Complex_Main "HOL-Library.Word"
begin

text \<open>
  ECMAScript values as the program sees them.  Objects live in a heap, so that identity
  and cycles can be spoken of; a request never mutates an object it did not create, so
  the heap is one immutable parameter of the operations.  Finite numbers are rationals
  (every finite double is one); a plain object is its prototype kind and its own
  enumerable string-keyed properties in \<open>Object.keys\<close> order.
\<close>

type_synonym addr = nat
type_synonym byte = "8 word"
type_synonym bytes = "byte list"

datatype jnum = JFin rat | JNaN | JInf bool

datatype jsval =
    VUndef
  | VNull
  | VBool bool
  | VNum jnum
  | VStr string
  | VRef addr
  | VExotic \<comment> \<open>function, symbol, bigint\<close>
  | VBytes bytes \<comment> \<open>a buffer the program itself made\<close>
  | VDate "int option" \<comment> \<open>a date the program itself made; \<open>None\<close> is an invalid date\<close>

datatype proto = ObjectProto | NullProto | OtherProto

datatype obj =
    OArr "jsval option list" \<comment> \<open>\<open>None\<close> is a hole\<close>
  | OBuffer bytes
  | ODate "int option" \<comment> \<open>milliseconds since the epoch; \<open>None\<close> is an invalid date\<close>
  | OObj proto "(string \<times> jsval) list"

type_synonym heap = "obj list"

definition deref :: "heap \<Rightarrow> jsval \<Rightarrow> obj option" where
  "deref h v = (case v of VRef a \<Rightarrow> if a < length h then Some (h ! a) else None | _ \<Rightarrow> None)"

lemma deref_simps [simp]:
  "deref h (VBytes bs) = None" "deref h (VDate d) = None" "deref h VUndef = None" "deref h VNull = None" "deref h (VBool b) = None"
  "deref h (VNum n) = None" "deref h (VStr s) = None" "deref h VExotic = None"
  "deref h (VRef a) = (if a < length h then Some (h ! a) else None)"
  by (simp_all add: deref_def)

text \<open>\<open>typeof v === "object"\<close> holds of \<open>null\<close> and of every reference.\<close>

fun typeofObject :: "jsval \<Rightarrow> bool" where
  "typeofObject VNull = True"
| "typeofObject (VRef a) = True"
| "typeofObject (VBytes bs) = True"
| "typeofObject (VDate d) = True"
| "typeofObject _ = False"

definition isArray :: "heap \<Rightarrow> jsval \<Rightarrow> bool" where
  "isArray h v = (case deref h v of Some (OArr xs) \<Rightarrow> True | _ \<Rightarrow> False)"

text \<open>The time value of a \<open>Date\<close> object, whether found or made.\<close>

definition dateOf :: "heap \<Rightarrow> jsval \<Rightarrow> int option option" where
  "dateOf h v =
     (case v of
        VDate d \<Rightarrow> Some d
      | _ \<Rightarrow> (case deref h v of Some (ODate d) \<Rightarrow> Some d | _ \<Rightarrow> None))"

text \<open>\<open>new Date(ms)\<close>.\<close>

definition newDate :: "int \<Rightarrow> int option" where
  "newDate ms = (if \<bar>ms\<bar> \<le> 8640000000000000 then Some ms else None)"

definition ownProps :: "heap \<Rightarrow> jsval \<Rightarrow> (string \<times> jsval) list" where
  "ownProps h v = (case deref h v of Some (OObj p ps) \<Rightarrow> ps | _ \<Rightarrow> [])"

abbreviation objectKeys :: "heap \<Rightarrow> jsval \<Rightarrow> string list" where
  "objectKeys h v \<equiv> map fst (ownProps h v)"

text \<open>
  \<open>v[key]\<close> for a key that is not a member of \<open>Object.prototype\<close>: all fixed keys of the
  program are of this kind, so the prototype chain yields \<open>undefined\<close>.
\<close>

definition propOf :: "(string \<times> jsval) list \<Rightarrow> string \<Rightarrow> jsval" where
  "propOf ps k = (case map_of ps k of Some v \<Rightarrow> v | None \<Rightarrow> VUndef)"

definition hasOwn :: "(string \<times> jsval) list \<Rightarrow> string \<Rightarrow> bool" where
  "hasOwn ps k \<longleftrightarrow> k \<in> set (map fst ps)"

fun numIsInteger :: "jnum \<Rightarrow> bool" where
  "numIsInteger (JFin q) = (of_int \<lfloor>q\<rfloor> = q)"
| "numIsInteger _ = False"

fun numIsFinite :: "jnum \<Rightarrow> bool" where
  "numIsFinite (JFin q) = True"
| "numIsFinite _ = False"

text \<open>\<open>Number.isInteger(v) && lo <= v && v <= hi\<close>, and the integer it denotes.\<close>

fun intInRange :: "int \<Rightarrow> int \<Rightarrow> jsval \<Rightarrow> int option" where
  "intInRange lo hi (VNum (JFin q)) =
     (if of_int \<lfloor>q\<rfloor> = q \<and> lo \<le> \<lfloor>q\<rfloor> \<and> \<lfloor>q\<rfloor> \<le> hi then Some \<lfloor>q\<rfloor> else None)"
| "intInRange lo hi _ = None"

lemma intInRange_Some:
  "intInRange lo hi v = Some n \<longleftrightarrow> v = VNum (JFin (of_int n)) \<and> lo \<le> n \<and> n \<le> hi"
  by (cases v; cases "case v of VNum m \<Rightarrow> m | _ \<Rightarrow> JNaN") auto

lemma intInRange_of_int [simp]:
  "intInRange lo hi (VNum (JFin (of_int n))) = (if lo \<le> n \<and> n \<le> hi then Some n else None)"
  by simp

text \<open>\<open>a === b\<close>: references by identity, \<open>NaN\<close> unequal to itself.\<close>

fun strictEq :: "jsval \<Rightarrow> jsval \<Rightarrow> bool" where
  "strictEq (VNum JNaN) b = False"
| "strictEq VExotic b = False"
| "strictEq (VBytes bs) b = False"
| "strictEq (VDate d) b = False"
| "strictEq a b = (a = b)"

fun truthy :: "jsval \<Rightarrow> bool" where
  "truthy VUndef = False"
| "truthy VNull = False"
| "truthy (VBool b) = b"
| "truthy (VNum (JFin q)) = (q \<noteq> 0)"
| "truthy (VNum JNaN) = False"
| "truthy (VNum (JInf b)) = True"
| "truthy (VStr s) = (s \<noteq> [])"
| "truthy (VRef a) = True"
| "truthy VExotic = True"
| "truthy (VBytes bs) = True"
| "truthy (VDate d) = True"

lemma strictEq_VStr [simp]: "strictEq v (VStr s) \<longleftrightarrow> v = VStr s"
  by (cases v) (auto elim: strictEq.elims)

end
