(* ===== verification/AppErrors.thy ===== *)
theory AppErrors
  imports JsValues
begin

text \<open>
  The application errors of \<open>src/core/errors.ts\<close>, \<open>src/auth/errors.ts\<close> and
  \<open>src/data/errors.ts\<close>, the values the program throws, and the mapping of a thrown value
  to the public error.
\<close>

datatype ErrorCode =
    VALIDATION_ERROR
  | EMAIL_ALREADY_REGISTERED
  | INVALID_CREDENTIALS
  | AUTH_REQUIRED
  | RATE_LIMITED
  | TABLE_NOT_FOUND
  | ROW_NOT_FOUND
  | CONFLICT
  | DATABASE_UNAVAILABLE
  | INTERNAL_ERROR

fun codeString :: "ErrorCode \<Rightarrow> string" where
  "codeString VALIDATION_ERROR = ''VALIDATION_ERROR''"
| "codeString EMAIL_ALREADY_REGISTERED = ''EMAIL_ALREADY_REGISTERED''"
| "codeString INVALID_CREDENTIALS = ''INVALID_CREDENTIALS''"
| "codeString AUTH_REQUIRED = ''AUTH_REQUIRED''"
| "codeString RATE_LIMITED = ''RATE_LIMITED''"
| "codeString TABLE_NOT_FOUND = ''TABLE_NOT_FOUND''"
| "codeString ROW_NOT_FOUND = ''ROW_NOT_FOUND''"
| "codeString CONFLICT = ''CONFLICT''"
| "codeString DATABASE_UNAVAILABLE = ''DATABASE_UNAVAILABLE''"
| "codeString INTERNAL_ERROR = ''INTERNAL_ERROR''"

text \<open>The list \<open>ERROR_CODES\<close>, and the code a string names.\<close>

definition ERROR_CODES :: "ErrorCode list" where
  "ERROR_CODES =
     [VALIDATION_ERROR, EMAIL_ALREADY_REGISTERED, INVALID_CREDENTIALS, AUTH_REQUIRED,
      RATE_LIMITED, TABLE_NOT_FOUND, ROW_NOT_FOUND, CONFLICT, DATABASE_UNAVAILABLE,
      INTERNAL_ERROR]"

fun isErrorCode :: "jsval \<Rightarrow> ErrorCode option" where
  "isErrorCode (VStr s) = find (\<lambda>c. codeString c = s) ERROR_CODES"
| "isErrorCode _ = None"

lemma codeString_inject [simp]: "codeString c = codeString d \<longleftrightarrow> c = d"
  by (cases c; cases d) simp_all

lemma isErrorCode_codeString [simp]: "isErrorCode (VStr (codeString c)) = Some c"
  by (cases c) (simp_all add: ERROR_CODES_def)

text \<open>
  An error's \<open>details\<close> record: values taken from a request, or arrays of strings the
  program itself builds.
\<close>

datatype detail = DVal jsval | DStrs "string list"

abbreviation dstr :: "string \<Rightarrow> detail" where "dstr s \<equiv> DVal (VStr s)"

record app_error =
  ae_code :: ErrorCode
  ae_message :: string
  ae_status :: int
  ae_details :: "(string \<times> detail) list option"

abbreviation mkErr ::
  "ErrorCode \<Rightarrow> string \<Rightarrow> int \<Rightarrow> (string \<times> detail) list option \<Rightarrow> app_error" where
  "mkErr c m s d \<equiv> \<lparr>ae_code = c, ae_message = m, ae_status = s, ae_details = d\<rparr>"

text \<open>
  What the program may throw: an \<open>AppError\<close> of the core module, an \<open>AuthError\<close> or
  \<open>DataError\<close> of the domain modules (not instances of the core class), an \<open>Error\<close>
  instance of the runtime or a driver with its own properties, or any other value.
\<close>

datatype thrown =
    AppErr app_error
  | DomErr app_error
  | ErrObj string "(string \<times> jsval) list"
  | ThrownVal jsval

abbreviation validationError :: "(string \<times> detail) list \<Rightarrow> app_error" where
  "validationError ds \<equiv> mkErr VALIDATION_ERROR ''Request validation failed'' 400 (Some ds)"

subsection \<open>Mapping a thrown value to the public error\<close>

definition isClientErrorStatus :: "jsval \<Rightarrow> int option" where
  "isClientErrorStatus v = intInRange 400 599 v"

definition isRecord :: "heap \<Rightarrow> jsval \<Rightarrow> bool" where
  "isRecord h v =
     (if \<not> typeofObject v \<or> v = VNull \<or> isArray h v then False
      else (case deref h v of Some (OObj ObjectProto ps) \<Rightarrow> True | _ \<Rightarrow> False))"

text \<open>
  \<open>looksLikeAppError\<close> on the properties of an object; it answers the error the caller
  rebuilds from those properties.
\<close>

definition looksLikeProps :: "heap \<Rightarrow> (string \<Rightarrow> jsval) \<Rightarrow> app_error option" where
  "looksLikeProps h candidate =
     (case isErrorCode (candidate ''code'') of
        None \<Rightarrow> None
      | Some c \<Rightarrow>
          (case candidate ''message'' of
             VStr m \<Rightarrow>
               (case isClientErrorStatus (candidate ''status'') of
                  None \<Rightarrow> None
                | Some st \<Rightarrow>
                    (let details = candidate ''details'' in
                     if details \<noteq> VUndef \<and> \<not> isRecord h details then None
                     else Some (mkErr c m st
                       (if details = VUndef then None
                        else Some (map (\<lambda>(k, v). (k, DVal v)) (ownProps h details))))))
           | _ \<Rightarrow> None))"

text \<open>
  The domain classes carry their fields as own properties; their \<open>details\<close> is the object
  literal the throwing code built, a record.
\<close>

fun looksLikeAppError :: "heap \<Rightarrow> thrown \<Rightarrow> app_error option" where
  "looksLikeAppError h (AppErr e) =
     (if 400 \<le> ae_status e \<and> ae_status e \<le> 599 then Some e else None)"
| "looksLikeAppError h (DomErr e) =
     (if 400 \<le> ae_status e \<and> ae_status e \<le> 599 then Some e else None)"
| "looksLikeAppError h (ErrObj m ps) =
     looksLikeProps h (\<lambda>k. if k = ''message'' then VStr m else propOf ps k)"
| "looksLikeAppError h (ThrownVal v) =
     (if \<not> typeofObject v \<or> v = VNull then None
      else looksLikeProps h (propOf (ownProps h v)))"

definition toPublicError :: "heap \<Rightarrow> thrown \<Rightarrow> app_error" where
  "toPublicError h error =
     (case error of
        AppErr e \<Rightarrow> e
      | _ \<Rightarrow>
        (case looksLikeAppError h error of
           Some e \<Rightarrow> e
         | None \<Rightarrow> mkErr INTERNAL_ERROR ''An unexpected error occurred'' 500 None))"

definition isAppError :: "heap \<Rightarrow> thrown \<Rightarrow> bool" where
  "isAppError h error =
     (case error of AppErr e \<Rightarrow> True | _ \<Rightarrow> looksLikeAppError h error \<noteq> None)"

text \<open>The serialisation of an application error, its members in order.\<close>

datatype json_field = JStrField string | JIntField int | JDetails "(string \<times> detail) list"

definition appErrorToJSON :: "app_error \<Rightarrow> (string \<times> json_field) list" where
  "appErrorToJSON e =
     [(''code'', JStrField (codeString (ae_code e))), (''message'', JStrField (ae_message e)),
      (''status'', JIntField (ae_status e))] @
     (case ae_details e of None \<Rightarrow> [] | Some d \<Rightarrow> [(''details'', JDetails d)])"

text \<open>\<open>isAppErrorLike\<close> of the auth module: a weaker shape test, answering the code string.\<close>

fun isAppErrorLike :: "heap \<Rightarrow> thrown \<Rightarrow> string option" where
  "isAppErrorLike h (AppErr e) = Some (codeString (ae_code e))"
| "isAppErrorLike h (DomErr e) = Some (codeString (ae_code e))"
| "isAppErrorLike h (ErrObj m ps) =
     (case (propOf ps ''code'', propOf ps ''status'') of
        (VStr c, VNum n) \<Rightarrow> Some c | _ \<Rightarrow> None)"
| "isAppErrorLike h (ThrownVal v) =
     (if \<not> typeofObject v \<or> v = VNull then None
      else (case (propOf (ownProps h v) ''code'', propOf (ownProps h v) ''message'',
                  propOf (ownProps h v) ''status'') of
              (VStr c, VStr m, VNum n) \<Rightarrow> Some c | _ \<Rightarrow> None))"

subsection \<open>Facts\<close>

lemma looksLikeProps_status:
  "looksLikeProps h f = Some e \<Longrightarrow> 400 \<le> ae_status e \<and> ae_status e \<le> 599"
  by (auto simp: looksLikeProps_def isClientErrorStatus_def intInRange_Some Let_def
      split: option.splits jsval.splits if_splits)

lemma looksLikeAppError_status:
  "looksLikeAppError h t = Some e \<Longrightarrow> 400 \<le> ae_status e \<and> ae_status e \<le> 599"
  by (cases t) (auto dest: looksLikeProps_status split: if_splits)

lemma toPublicError_AppErr [simp]: "toPublicError h (AppErr e) = e"
  by (simp add: toPublicError_def)

lemma toPublicError_DomErr [simp]:
  "400 \<le> ae_status e \<Longrightarrow> ae_status e \<le> 599 \<Longrightarrow> toPublicError h (DomErr e) = e"
  by (simp add: toPublicError_def)

lemma toPublicError_total:
  "toPublicError h t = mkErr INTERNAL_ERROR ''An unexpected error occurred'' 500 None \<or>
   (\<exists>e. t = AppErr e \<and> toPublicError h t = e) \<or>
   looksLikeAppError h t = Some (toPublicError h t)"
  by (cases t) (auto simp: toPublicError_def split: option.splits)

lemma toPublicError_status:
  assumes "\<And>e. t = AppErr e \<Longrightarrow> 400 \<le> ae_status e \<and> ae_status e \<le> 599"
  shows "400 \<le> ae_status (toPublicError h t) \<and> ae_status (toPublicError h t) \<le> 599"
proof (cases t)
  case (AppErr e)
  then show ?thesis using assms by simp
next
  case (DomErr e)
  then show ?thesis by (auto simp: toPublicError_def)
next
  case (ErrObj m ps)
  then show ?thesis
    by (auto simp: toPublicError_def split: option.splits dest: looksLikeProps_status)
next
  case (ThrownVal v)
  then show ?thesis
    by (auto simp: toPublicError_def split: option.splits dest: looksLikeProps_status)
qed

text \<open>
  A thrown value the shape test refuses never reaches a client: only the constant generic
  error does.
\<close>

lemma toPublicError_opaque:
  "looksLikeAppError h (ErrObj m ps) = None \<Longrightarrow>
   toPublicError h (ErrObj m ps) = mkErr INTERNAL_ERROR ''An unexpected error occurred'' 500 None"
  by (simp add: toPublicError_def)

section \<open>Properties\<close>

text \<open>A thrown value that is no core error reaches the client with a status between 400 and
  599: as the error it spells out when it has the full shape of one, and otherwise as the constant
  generic error.\<close>
theorem toPublicError_safe:
  assumes "\<And>e. t \<noteq> AppErr e"
  shows "400 \<le> ae_status (toPublicError h t) \<and> ae_status (toPublicError h t) \<le> 599 \<and>
    toPublicError h t =
      (case looksLikeAppError h t of
         Some e \<Rightarrow> e | None \<Rightarrow> mkErr INTERNAL_ERROR ''An unexpected error occurred'' 500 None)"
  using toPublicError_status [of t h] assms by (cases t) (auto simp: toPublicError_def)

theorem toPublicError_safe_witness:
  "400 \<le> ae_status (toPublicError [] (ErrObj ''boom'' [(''code'', VStr ''23505'')])) \<and>
   toPublicError [] (ErrObj ''boom'' [(''code'', VStr ''23505'')]) =
     mkErr INTERNAL_ERROR ''An unexpected error occurred'' 500 None"
proof -
  have n: "looksLikeAppError [] (ErrObj ''boom'' [(''code'', VStr ''23505'')]) = None" by code_simp
  show ?thesis
    using toPublicError_safe [of "ErrObj ''boom'' [(''code'', VStr ''23505'')]" "[]"] by (simp add: n del: looksLikeAppError.simps)
qed

end
