(* ===== verification/Driver.thy ===== *)
theory Driver
  imports AppErrors
begin

text \<open>
  Effectful computations.  The program's only effects on the database are the calls it
  makes on the \<open>pg\<close> driver: check a client out, query on a client, give a client back,
  query on the pool, end the pool; one costly library call, an Argon2 verification, is recorded beside
  them.  A computation maps the history of driver calls to a result and a
  longer history.  The driver and the database behind it are a parameter \<open>db\<close>: the answer
  to a call may be any function of the whole history, so every property holds for every
  behaviour of the server and for every interleaving with other clients.
\<close>

datatype event =
    EvConnect
  | EvQuery string "jsval list"
  | EvExtended string \<comment> \<open>\<open>client.query\<close> of one statement under the extended protocol\<close>
  | EvRelease bool \<comment> \<open>\<open>True\<close>: with an error, so the client is destroyed\<close>
  | EvPool string "jsval list"
  | EvEnd \<comment> \<open>\<open>pool.end()\<close>\<close>
  | EvVerify jsval string \<comment> \<open>one Argon2 verification of a password against a hash\<close>

record qresult =
  qr_rows :: "(string \<times> jsval) list list"
  qr_count :: "nat option"

record runtime =
  heap :: heap
  strOf :: "jsval \<Rightarrow> string" \<comment> \<open>\<open>String(v)\<close> of objects and of numbers that are no small integers\<close>
  stackDepth :: nat \<comment> \<open>recursion depth of the engine's call stack\<close>
  db :: "event list \<Rightarrow> thrown + qresult"

type_synonym 'a io = "event list \<Rightarrow> (thrown + 'a) \<times> event list"

definition returnM :: "'a \<Rightarrow> 'a io" where
  "returnM x w = (Inr x, w)"

definition throwM :: "thrown \<Rightarrow> 'a io" where
  "throwM e w = (Inl e, w)"

definition liftR :: "thrown + 'a \<Rightarrow> 'a io" where
  "liftR r w = (r, w)"

definition bindM :: "'a io \<Rightarrow> ('a \<Rightarrow> 'b io) \<Rightarrow> 'b io" where
  "bindM m f w = (case m w of (Inl e, w') \<Rightarrow> (Inl e, w') | (Inr x, w') \<Rightarrow> f x w')"

text \<open>\<open>try m catch (e) h\<close>.\<close>

definition catchM :: "'a io \<Rightarrow> (thrown \<Rightarrow> 'a io) \<Rightarrow> 'a io" where
  "catchM m k w = (case m w of (Inl e, w') \<Rightarrow> k e w' | (Inr x, w') \<Rightarrow> (Inr x, w'))"

definition perform :: "runtime \<Rightarrow> event \<Rightarrow> qresult io" where
  "perform R ev w = (db R (w @ [ev]), w @ [ev])"

definition emptyResult :: qresult where
  "emptyResult = \<lparr>qr_rows = [], qr_count = Some 0\<rparr>"

text \<open>A concrete runtime: no objects, and a server that answers every call with no rows.\<close>

definition okRuntime :: runtime where
  "okRuntime = \<lparr>heap = [], strOf = (\<lambda>_. []), stackDepth = 64, db = (\<lambda>_. Inr emptyResult)\<rparr>"

lemma returnM_run [io_simps]: "returnM x w = (Inr x, w)" by (simp add: returnM_def)
lemma throwM_run [io_simps]: "throwM e w = (Inl e, w)" by (simp add: throwM_def)
lemma liftR_run [io_simps]: "liftR r w = (r, w)" by (simp add: liftR_def)
lemma perform_run [io_simps]: "perform R ev w = (db R (w @ [ev]), w @ [ev])"
  by (simp add: perform_def)

lemma bindM_run [io_simps]:
  "bindM m f w = (case m w of (Inl e, w') \<Rightarrow> (Inl e, w') | (Inr x, w') \<Rightarrow> f x w')"
  by (simp add: bindM_def)

lemma catchM_run [io_simps]:
  "catchM m k w = (case m w of (Inl e, w') \<Rightarrow> k e w' | (Inr x, w') \<Rightarrow> (Inr x, w'))"
  by (simp add: catchM_def)

lemma bindM_Inr_iff:
  "bindM m f w = (Inr y, w') \<longleftrightarrow> (\<exists>x w1. m w = (Inr x, w1) \<and> f x w1 = (Inr y, w'))"
  by (auto simp: bindM_def split: prod.splits sum.splits)

lemma liftR_Inr_iff: "liftR r w = (Inr y, w') \<longleftrightarrow> r = Inr y \<and> w' = w"
  by (auto simp: liftR_def)

text \<open>\<open>yields m P\<close>: whatever \<open>m\<close> returns, from whatever history, satisfies \<open>P\<close>.\<close>

definition yields :: "'a io \<Rightarrow> ('a \<Rightarrow> bool) \<Rightarrow> bool" where
  "yields m P \<longleftrightarrow> (\<forall>w y w'. m w = (Inr y, w') \<longrightarrow> P y)"

lemma yieldsD: "yields m P \<Longrightarrow> m w = (Inr y, w') \<Longrightarrow> P y"
  by (auto simp: yields_def)

lemma yields_bind: "(\<And>x. yields (f x) P) \<Longrightarrow> yields (bindM m f) P"
  by (auto simp: yields_def bindM_Inr_iff)

lemma yields_bind_of: "yields m Q \<Longrightarrow> (\<And>x. Q x \<Longrightarrow> yields (f x) P) \<Longrightarrow> yields (bindM m f) P"
  unfolding yields_def bindM_Inr_iff by meson

lemma yields_liftR: "(\<And>x. r = Inr x \<Longrightarrow> P x) \<Longrightarrow> yields (liftR r) P"
  by (auto simp: yields_def liftR_Inr_iff)

lemma yields_throw: "yields (throwM e) P"
  by (simp add: yields_def throwM_def)

lemma yields_return: "P x \<Longrightarrow> yields (returnM x) P"
  by (simp add: yields_def returnM_def)

text \<open>Traversal of a list, stopping at the first throw.\<close>

fun mapM :: "('a \<Rightarrow> 'b io) \<Rightarrow> 'a list \<Rightarrow> 'b list io" where
  "mapM f [] = returnM []"
| "mapM f (x # xs) = bindM (f x) (\<lambda>y. bindM (mapM f xs) (\<lambda>ys. returnM (y # ys)))"

text \<open>
  \<open>String(v)\<close>.  Objects, and numbers outside the safe integers, are left to the runtime's
  conversion \<open>strOf\<close>; the driver hands out no object whose conversion throws.
\<close>

definition intStr :: "int \<Rightarrow> string" where
  "intStr n = (if n < 0 then CHR ''-'' # natStr (nat (- n)) else natStr (nat n))"

fun jsString :: "runtime \<Rightarrow> jsval \<Rightarrow> string" where
  "jsString R VUndef = ''undefined''"
| "jsString R VNull = ''null''"
| "jsString R (VBool b) = (if b then ''true'' else ''false'')"
| "jsString R (VStr s) = s"
| "jsString R (VNum (JFin q)) =
     (if of_int \<lfloor>q\<rfloor> = q \<and> \<bar>q\<bar> \<le> 9007199254740991 then intStr \<lfloor>q\<rfloor> else strOf R (VNum (JFin q)))"
| "jsString R (VNum JNaN) = ''NaN''"
| "jsString R (VNum (JInf b)) = (if b then ''Infinity'' else ''-Infinity'')"
| "jsString R v = strOf R v"

subsection \<open>What a computation adds to the history\<close>

text \<open>
  \<open>outcome m P\<close>: from every history, \<open>m\<close> only appends calls, and the appended calls and
  the result satisfy \<open>P\<close>.
\<close>

definition outcome :: "'a io \<Rightarrow> (event list \<Rightarrow> thrown + 'a \<Rightarrow> bool) \<Rightarrow> bool" where
  "outcome m P \<longleftrightarrow> (\<forall>w. \<exists>es r. m w = (r, w @ es) \<and> P es r)"

lemma outcomeD: "outcome m P \<Longrightarrow> m w = (r, w') \<Longrightarrow> \<exists>es. w' = w @ es \<and> P es r"
  unfolding outcome_def by (metis Pair_inject)

lemma outcome_run: "outcome m P \<Longrightarrow> \<exists>es r. m w = (r, w @ es) \<and> P es r"
  unfolding outcome_def by blast

lemma outcome_weaken: "outcome m P \<Longrightarrow> (\<And>es r. P es r \<Longrightarrow> Q es r) \<Longrightarrow> outcome m Q"
  unfolding outcome_def by meson

lemma outcome_conj: "outcome m P \<Longrightarrow> outcome m Q \<Longrightarrow> outcome m (\<lambda>es r. P es r \<and> Q es r)"
  unfolding outcome_def by (metis Pair_inject same_append_eq)

lemma outcome_return: "P [] (Inr x) \<Longrightarrow> outcome (returnM x) P"
  by (auto simp: outcome_def returnM_def)

lemma outcome_throw: "P [] (Inl e) \<Longrightarrow> outcome (throwM e) P"
  by (auto simp: outcome_def throwM_def)

lemma outcome_liftR: "P [] r \<Longrightarrow> outcome (liftR r) P"
  by (auto simp: outcome_def liftR_def)

lemma outcome_perform: "(\<And>r. P [ev] r) \<Longrightarrow> outcome (perform R ev) P"
  by (auto simp: outcome_def perform_def)

lemma outcome_bind:
  assumes "outcome m P"
    and "\<And>es e. P es (Inl e) \<Longrightarrow> Q es (Inl e)"
    and "\<And>es x. P es (Inr x) \<Longrightarrow> outcome (f x) (\<lambda>es'. Q (es @ es'))"
  shows "outcome (bindM m f) Q"
  unfolding outcome_def
proof
  fix w
  obtain es r where m: "m w = (r, w @ es)" "P es r" using outcome_run [OF assms(1)] by blast
  show "\<exists>es r. bindM m f w = (r, w @ es) \<and> Q es r"
  proof (cases r)
    case (Inl e)
    then show ?thesis using m assms(2) by (auto simp: bindM_def)
  next
    case (Inr x)
    with m have "outcome (f x) (\<lambda>es'. Q (es @ es'))" using assms(3) by blast
    then obtain es' r' where "f x (w @ es) = (r', (w @ es) @ es')" "Q (es @ es') r'"
      using outcome_run by blast
    then show ?thesis using m Inr by (auto simp: bindM_def)
  qed
qed

lemma outcome_catch:
  assumes "outcome m P"
    and "\<And>es x. P es (Inr x) \<Longrightarrow> Q es (Inr x)"
    and "\<And>es e. P es (Inl e) \<Longrightarrow> outcome (k e) (\<lambda>es'. Q (es @ es'))"
  shows "outcome (catchM m k) Q"
  unfolding outcome_def
proof
  fix w
  obtain es r where m: "m w = (r, w @ es)" "P es r" using outcome_run [OF assms(1)] by blast
  show "\<exists>es r. catchM m k w = (r, w @ es) \<and> Q es r"
  proof (cases r)
    case (Inr x)
    then show ?thesis using m assms(2) by (auto simp: catchM_def)
  next
    case (Inl e)
    with m have "outcome (k e) (\<lambda>es'. Q (es @ es'))" using assms(3) by blast
    then obtain es' r' where "k e (w @ es) = (r', (w @ es) @ es')" "Q (es @ es') r'"
      using outcome_run by blast
    then show ?thesis using m Inl by (auto simp: catchM_def)
  qed
qed

lemma outcome_liftR_bind:
  assumes "\<And>t. r = Inl t \<Longrightarrow> Q [] (Inl t)" and "\<And>x. r = Inr x \<Longrightarrow> outcome (f x) Q"
  shows "outcome (bindM (liftR r) f) Q"
  by (rule outcome_bind [OF outcome_liftR [where P = "\<lambda>es r'. es = [] \<and> r' = r"]])
     (auto intro: assms)

text \<open>
  The weakest form: every appended call satisfies \<open>p\<close>.  Such a set of calls is closed
  under sequencing, so whole operations inherit it from their parts.
\<close>

definition emitsOnly :: "(event \<Rightarrow> bool) \<Rightarrow> 'a io \<Rightarrow> bool" where
  "emitsOnly p m \<longleftrightarrow> outcome m (\<lambda>es r. list_all p es)"

lemma emitsOnly_return [io_intros]: "emitsOnly p (returnM x)"
  by (simp add: emitsOnly_def outcome_return)

lemma emitsOnly_throw [io_intros]: "emitsOnly p (throwM e)"
  by (simp add: emitsOnly_def outcome_throw)

lemma emitsOnly_liftR [io_intros]: "emitsOnly p (liftR r)"
  by (simp add: emitsOnly_def outcome_liftR)

lemma emitsOnly_perform [io_intros]: "p ev \<Longrightarrow> emitsOnly p (perform R ev)"
  by (simp add: emitsOnly_def outcome_perform)

lemma emitsOnly_bind [io_intros]:
  "emitsOnly p m \<Longrightarrow> (\<And>x. emitsOnly p (f x)) \<Longrightarrow> emitsOnly p (bindM m f)"
  unfolding emitsOnly_def
  by (rule outcome_bind, assumption) (auto intro: outcome_weaken)

lemma emitsOnly_catch [io_intros]:
  "emitsOnly p m \<Longrightarrow> (\<And>e. emitsOnly p (k e)) \<Longrightarrow> emitsOnly p (catchM m k)"
  unfolding emitsOnly_def
  by (rule outcome_catch, assumption) (auto intro: outcome_weaken)

lemma emitsOnly_mono: "emitsOnly p m \<Longrightarrow> (\<And>e. p e \<Longrightarrow> q e) \<Longrightarrow> emitsOnly q m"
  unfolding emitsOnly_def by (erule outcome_weaken) (auto simp: list_all_iff)

lemma emitsOnly_mapM [io_intros]:
  "(\<And>x. x \<in> set xs \<Longrightarrow> emitsOnly p (f x)) \<Longrightarrow> emitsOnly p (mapM f xs)"
  by (induction xs) (auto intro!: io_intros)

end
