(* ===== verification/Pool.thy ===== *)
theory Pool
  imports Driver
begin

text \<open>
  The bounded connection pool of \<open>src/database/pool.ts\<close>: its option defaults, its closed
  flag, and the translation of every driver error to a public error.
\<close>

definition positiveIntOrDefault :: "jsval \<Rightarrow> int \<Rightarrow> string \<Rightarrow> thrown + int" where
  "positiveIntOrDefault v defaultValue name =
     (if v = VUndef then Inr defaultValue
      else (case v of
              VNum (JFin q) \<Rightarrow>
                if of_int \<lfloor>q\<rfloor> = q \<and> 1 \<le> q then Inr \<lfloor>q\<rfloor>
                else Inl (AppErr (mkErr VALIDATION_ERROR (name @ '' must be a positive integer'') 400
                            (Some [(''variable'', dstr name)])))
            | _ \<Rightarrow> Inl (AppErr (mkErr VALIDATION_ERROR (name @ '' must be a positive integer'') 400
                            (Some [(''variable'', dstr name)])))))"

record pool_options =
  maxConnections :: int
  acquireTimeoutMs :: int
  queryTimeoutMs :: int

text \<open>The constructor's options, each checked in order.\<close>

definition poolConfig :: "jsval \<Rightarrow> jsval \<Rightarrow> jsval \<Rightarrow> thrown + pool_options" where
  "poolConfig maxC acq qt =
     bindR (positiveIntOrDefault maxC 10 ''maxConnections'') (\<lambda>m.
     bindR (positiveIntOrDefault acq 10000 ''acquireTimeoutMs'') (\<lambda>a.
     bindR (positiveIntOrDefault qt 10000 ''queryTimeoutMs'') (\<lambda>q.
       Inr \<lparr>maxConnections = m, acquireTimeoutMs = a, queryTimeoutMs = q\<rparr>)))"

definition DATABASE_UNAVAILABLE_CODES :: "string list" where
  "DATABASE_UNAVAILABLE_CODES =
     [''08000'', ''08003'', ''08006'', ''08001'', ''08004'', ''08007'', ''08P01'',
      ''53300'', ''57000'', ''57014'',
      ''57P01'', ''57P02'', ''57P03'',
      ''28P01'', ''28000'']"

definition DATABASE_UNAVAILABLE_NODE_CODES :: "string list" where
  "DATABASE_UNAVAILABLE_NODE_CODES =
     [''ECONNREFUSED'', ''ECONNRESET'', ''ENOTFOUND'', ''EAI_AGAIN'', ''ETIMEDOUT'',
      ''EHOSTUNREACH'', ''ENETUNREACH'', ''EPIPE'']"

text \<open>Reading a thrown value: is it an object, its own property \<open>k\<close>, its message text.\<close>

fun errIsObject :: "thrown \<Rightarrow> bool" where
  "errIsObject (ThrownVal v) = (typeofObject v \<and> v \<noteq> VNull)"
| "errIsObject _ = True"

fun errProp :: "runtime \<Rightarrow> thrown \<Rightarrow> string \<Rightarrow> jsval" where
  "errProp R (AppErr e) k =
     (if k = ''code'' then VStr (codeString (ae_code e))
      else if k = ''message'' then VStr (ae_message e) else VUndef)"
| "errProp R (DomErr e) k =
     (if k = ''code'' then VStr (codeString (ae_code e))
      else if k = ''message'' then VStr (ae_message e) else VUndef)"
| "errProp R (ErrObj m ps) k = (if k = ''message'' then VStr m else propOf ps k)"
| "errProp R (ThrownVal v) k = propOf (ownProps (heap R) v) k"

text \<open>\<open>error instanceof Error ? error.message : String(error)\<close>.\<close>

fun errMessage :: "runtime \<Rightarrow> thrown \<Rightarrow> string" where
  "errMessage R (AppErr e) = ae_message e"
| "errMessage R (DomErr e) = ae_message e"
| "errMessage R (ErrObj m ps) = m"
| "errMessage R (ThrownVal v) = jsString R v"

definition isDatabaseUnavailableError :: "runtime \<Rightarrow> thrown \<Rightarrow> bool" where
  "isDatabaseUnavailableError R error =
     (if \<not> errIsObject error then False
      else if (case errProp R error ''code'' of
                 VStr code \<Rightarrow> List.member DATABASE_UNAVAILABLE_CODES code \<or>
                              List.member DATABASE_UNAVAILABLE_NODE_CODES code
               | _ \<Rightarrow> False) then True
      else if (case errProp R error ''sqlState'' of
                 VStr s \<Rightarrow> startsWith s ''08'' | _ \<Rightarrow> False) then True
      else
        (let message = errMessage R error;
             upper = toUpperCase message;
             lower = toLowerCase message
         in if list_ex (strIncludes upper) DATABASE_UNAVAILABLE_NODE_CODES then True
            else if strIncludes lower ''password authentication failed'' \<or>
                    strIncludes lower ''authentication failed'' then True
            else if strIncludes lower ''connect'' \<and> strIncludes lower ''refused'' then True
            else if strIncludes lower ''connection terminated'' then True
            else if strIncludes lower ''timeout'' \<and> strIncludes lower ''database'' then True
            else False))"

definition translatePoolError :: "runtime \<Rightarrow> thrown \<Rightarrow> app_error" where
  "translatePoolError R error =
     (case error of
        AppErr e \<Rightarrow> e
      | _ \<Rightarrow>
        (if isDatabaseUnavailableError R error then
           (let lower = toLowerCase (errMessage R error)
            in if strIncludes lower ''password authentication failed'' then
                 mkErr DATABASE_UNAVAILABLE ''Database authentication failed'' 503 None
               else if strIncludes lower ''timeout'' then
                 mkErr DATABASE_UNAVAILABLE ''Database operation timed out'' 503 None
               else if strIncludes lower ''connection terminated'' then
                 mkErr DATABASE_UNAVAILABLE ''Database connection was terminated unexpectedly'' 503 None
               else mkErr DATABASE_UNAVAILABLE ''Database is unavailable'' 503 None)
         else mkErr INTERNAL_ERROR ''An unexpected database error occurred'' 500 None))"

subsection \<open>The pool object\<close>

definition poolClosedError :: app_error where
  "poolClosedError = mkErr INTERNAL_ERROR ''Database pool has already been closed'' 500 None"

text \<open>The operations on a pool, its closed flag explicit.\<close>

definition guardNotClosed :: "bool \<Rightarrow> unit io" where
  "guardNotClosed isClosed = (if isClosed then throwM (AppErr poolClosedError) else returnM ())"

definition poolQuery :: "runtime \<Rightarrow> bool \<Rightarrow> string \<Rightarrow> jsval list \<Rightarrow> qresult io" where
  "poolQuery R isClosed text values =
     bindM (guardNotClosed isClosed) (\<lambda>_.
       catchM (perform R (EvPool text values)) (\<lambda>e. throwM (AppErr (translatePoolError R e))))"

definition poolConnect :: "runtime \<Rightarrow> bool \<Rightarrow> unit io" where
  "poolConnect R isClosed =
     bindM (guardNotClosed isClosed) (\<lambda>_.
       catchM (bindM (perform R EvConnect) (\<lambda>_. returnM ()))
         (\<lambda>e. throwM (AppErr (translatePoolError R e))))"

text \<open>\<open>close\<close> sets the flag before it awaits \<open>end()\<close>; the new flag is returned beside it.\<close>

definition poolClose :: "runtime \<Rightarrow> bool \<Rightarrow> bool \<times> unit io" where
  "poolClose R isClosed =
     (if isClosed then (isClosed, returnM ())
      else (True, bindM (perform R EvEnd) (\<lambda>_. returnM ())))"

subsection \<open>Facts\<close>

lemma translatePoolError_AppErr [simp]: "translatePoolError R (AppErr e) = e"
  by (simp add: translatePoolError_def)

definition poolPublicErrors :: "app_error list" where
  "poolPublicErrors =
     [mkErr DATABASE_UNAVAILABLE ''Database authentication failed'' 503 None,
      mkErr DATABASE_UNAVAILABLE ''Database operation timed out'' 503 None,
      mkErr DATABASE_UNAVAILABLE ''Database connection was terminated unexpectedly'' 503 None,
      mkErr DATABASE_UNAVAILABLE ''Database is unavailable'' 503 None,
      mkErr INTERNAL_ERROR ''An unexpected database error occurred'' 500 None]"

lemma translatePoolError_range:
  "(\<exists>e. t = AppErr e \<and> translatePoolError R t = e) \<or> translatePoolError R t \<in> set poolPublicErrors"
  by (cases t) (simp_all add: translatePoolError_def poolPublicErrors_def Let_def)

text \<open>No driver error text and no value of the error object reaches a public error.\<close>

lemma translatePoolError_details:
  "(\<And>e. t \<noteq> AppErr e) \<Longrightarrow> ae_details (translatePoolError R t) = None"
  by (cases t) (auto simp: translatePoolError_def Let_def)

lemma translatePoolError_idem:
  "translatePoolError R (AppErr (translatePoolError R t)) = translatePoolError R t"
  by simp

lemma outcome_guardNotClosed:
  "outcome (guardNotClosed c) (\<lambda>es r. es = [] \<and> (r = Inr () \<longleftrightarrow> \<not> c))"
  by (auto simp: guardNotClosed_def intro: outcome_return outcome_throw)

text \<open>
  The pool's contract: once closed, no call reaches the driver again, whatever the
  operation, and a second close does nothing.
\<close>

lemma poolQuery_closed: "poolQuery R True text vs w = (Inl (AppErr poolClosedError), w)"
  by (simp add: poolQuery_def guardNotClosed_def io_simps)

lemma poolConnect_closed: "poolConnect R True w = (Inl (AppErr poolClosedError), w)"
  by (simp add: poolConnect_def guardNotClosed_def io_simps)

lemma poolClose_sets: "fst (poolClose R c)"
  by (simp add: poolClose_def)

lemma poolClose_twice: "snd (poolClose R (fst (poolClose R c))) w = (Inr (), w)"
  by (simp add: poolClose_def io_simps)

text \<open>Every failure of a pool operation is a core \<open>AppError\<close>.\<close>

lemma outcome_poolQuery:
  "outcome (poolQuery R False text vs)
     (\<lambda>es r. es = [EvPool text vs] \<and> (\<forall>t. r = Inl t \<longrightarrow> (\<exists>e. t = AppErr e)))"
  by (auto simp: outcome_def poolQuery_def guardNotClosed_def io_simps split: sum.splits)

lemma poolConfig_positive:
  "poolConfig a b c = Inr p \<Longrightarrow>
   1 \<le> maxConnections p \<and> 1 \<le> acquireTimeoutMs p \<and> 1 \<le> queryTimeoutMs p"
  by (auto simp: poolConfig_def positiveIntOrDefault_def res_simps
      split: if_splits jsval.splits jnum.splits)

section \<open>Properties\<close>

text \<open>Every error of the driver becomes one of five constant public errors, so no text, code or
  detail of the server's error crosses the pool; an error that is already public is kept.\<close>
theorem pool_errors_are_public:
  "translatePoolError R t \<in> set poolPublicErrors \<or> (\<exists>e. t = AppErr e \<and> translatePoolError R t = e)"
  using translatePoolError_range [of t R] by blast

text \<open>After \<open>close\<close> no operation of the pool reaches the driver again: queries and checkouts
  fail with the same error without a call, and a second close does nothing.\<close>
theorem closed_pool_is_silent:
  "poolQuery R (fst (poolClose R c)) q vals w = (Inl (AppErr poolClosedError), w) \<and>
   poolConnect R (fst (poolClose R c)) w = (Inl (AppErr poolClosedError), w) \<and>
   snd (poolClose R (fst (poolClose R c))) w = (Inr (), w)"
proof -
  have "fst (poolClose R c) = True" using poolClose_sets by simp
  then show ?thesis
    by (simp add: poolQuery_closed poolConnect_closed poolClose_def io_simps)
qed

end
