(* ===== verification/Transactions.thy ===== *)
theory Transactions
  imports Pool
begin

text \<open>
  The transaction helper of \<open>src/database/transaction.ts\<close>: one checked-out client, BEGIN,
  the transaction-local identity, the block, COMMIT, release; ROLLBACK and release on every
  failure.  SQL text is written with its white space collapsed.
\<close>

definition SET_IDENTITY_SQL :: string where
  "SET_IDENTITY_SQL = ''SELECT set_config('' @ [CHR 0x27] @ ''microjbase.user_id'' @ [CHR 0x27] @ '', $1, true)''"

abbreviation clientQuery :: "runtime \<Rightarrow> string \<Rightarrow> jsval list \<Rightarrow> qresult io" where
  "clientQuery R text values \<equiv> perform R (EvQuery text values)"

text \<open>\<open>client.release(err)\<close>: giving a held client back does not throw.\<close>

definition releaseClient :: "bool \<Rightarrow> unit io" where
  "releaseClient destroy w = (Inr (), w @ [EvRelease destroy])"

definition withTransaction :: "runtime \<Rightarrow> unit io \<Rightarrow> string option \<Rightarrow> 'a io \<Rightarrow> 'a io" where
  "withTransaction R connect userId block =
     bindM connect (\<lambda>_.
       catchM
         (bindM (clientQuery R ''BEGIN'' []) (\<lambda>_.
          bindM (case userId of
                   None \<Rightarrow> returnM emptyResult
                 | Some u \<Rightarrow> clientQuery R SET_IDENTITY_SQL [VStr u]) (\<lambda>_.
          bindM block (\<lambda>result.
          bindM (clientQuery R ''COMMIT'' []) (\<lambda>_.
          bindM (releaseClient False) (\<lambda>_.
            returnM result))))))
         (\<lambda>error.
            bindM (catchM (clientQuery R ''ROLLBACK'' [])
                     (\<lambda>rollbackError.
                        bindM (releaseClient True) (\<lambda>_.
                          throwM (AppErr (translatePoolError R rollbackError))))) (\<lambda>_.
            bindM (releaseClient False) (\<lambda>_.
              throwM (AppErr (translatePoolError R error))))))"

subsection \<open>The shape of a transaction's calls\<close>

abbreviation evBegin :: event where "evBegin \<equiv> EvQuery ''BEGIN'' []"
abbreviation evCommit :: event where "evCommit \<equiv> EvQuery ''COMMIT'' []"
abbreviation evRollback :: event where "evRollback \<equiv> EvQuery ''ROLLBACK'' []"

definition evIdentity :: "string option \<Rightarrow> event list" where
  "evIdentity u = (case u of None \<Rightarrow> [] | Some i \<Rightarrow> [EvQuery SET_IDENTITY_SQL [VStr i]])"

text \<open>
  The possible histories of a transaction whose block has outcome \<open>P\<close>.  The last rule of
  each failure: the released client is destroyed exactly when ROLLBACK itself failed.
\<close>

inductive txShape ::
  "runtime \<Rightarrow> string option \<Rightarrow> (event list \<Rightarrow> thrown + 'a \<Rightarrow> bool) \<Rightarrow>
   event list \<Rightarrow> thrown + 'a \<Rightarrow> bool"
  for R :: runtime and u :: "string option" and P :: "event list \<Rightarrow> thrown + 'a \<Rightarrow> bool" where
  tx_closed: "txShape R u P [] (Inl (AppErr poolClosedError))"
| tx_connect_failed: "txShape R u P [EvConnect] (Inl (AppErr e))"
| tx_begin_failed: "txShape R u P ([EvConnect, evBegin, evRollback, EvRelease b]) (Inl (AppErr e))"
| tx_identity_failed: "evIdentity u \<noteq> [] \<Longrightarrow>
    txShape R u P ([EvConnect, evBegin] @ evIdentity u @ [evRollback, EvRelease b]) (Inl (AppErr e))"
| tx_block_failed: "P qs (Inl t) \<Longrightarrow> b \<or> e = translatePoolError R t \<Longrightarrow>
    txShape R u P ([EvConnect, evBegin] @ evIdentity u @ qs @ [evRollback, EvRelease b])
      (Inl (AppErr e))"
| tx_commit_failed: "P qs (Inr v) \<Longrightarrow>
    txShape R u P ([EvConnect, evBegin] @ evIdentity u @ qs @ [evCommit, evRollback, EvRelease b])
      (Inl (AppErr e))"
| tx_committed: "P qs (Inr v) \<Longrightarrow>
    txShape R u P ([EvConnect, evBegin] @ evIdentity u @ qs @ [evCommit, EvRelease False]) (Inr v)"

inductive_cases txShape_Inr: "txShape R u P es (Inr v)"

text \<open>
  The interface the repositories rely on: a runner whose calls always have that shape.
  The client's lemmas are proved once here, for any runner that keeps the contract.
\<close>

locale transaction_runner =
  fixes R :: runtime and run :: "string option \<Rightarrow> 'a io \<Rightarrow> 'a io"
  assumes run_shape: "outcome block P \<Longrightarrow> outcome (run u block) (txShape R u P)"
begin

lemma run_success:
  assumes "outcome block P" and "run u block w = (Inr v, w')"
  shows "\<exists>qs. P qs (Inr v) \<and>
    w' = w @ [EvConnect, evBegin] @ evIdentity u @ qs @ [evCommit, EvRelease False]"
proof -
  from outcomeD [OF run_shape [OF assms(1)] assms(2)]
  obtain es where "w' = w @ es" "txShape R u P es (Inr v)" by blast
  then show ?thesis by (auto elim: txShape_Inr)
qed

lemma run_failure_AppErr:
  assumes "outcome block P" and "run u block w = (Inl t, w')"
  shows "\<exists>e. t = AppErr e"
proof -
  from outcomeD [OF run_shape [OF assms(1)] assms(2)]
  obtain es where "txShape R u P es (Inl t)" by blast
  then show ?thesis by (cases rule: txShape.cases) auto
qed

text \<open>A checked-out client is given back exactly once, and last.\<close>

lemma run_releases_once:
  assumes "emitsOnly (\<lambda>e. \<exists>t vs. e = EvQuery t vs) block" and "run u block w = (r, w')"
  shows "\<exists>es. w' = w @ es \<and>
    (es = [] \<or> es = [EvConnect] \<or>
     (\<exists>qs b. es = EvConnect # qs @ [EvRelease b] \<and>
        list_all (\<lambda>e. \<exists>t vs. e = EvQuery t vs) qs))"
proof -
  have i: "list_all (\<lambda>e. \<exists>t vs. e = EvQuery t vs) (evIdentity u)"
    by (simp add: evIdentity_def split: option.split)
  from outcomeD [OF run_shape [OF assms(1) [unfolded emitsOnly_def]] assms(2)]
  obtain es where w': "w' = w @ es"
    and sh: "txShape R u (\<lambda>es r. list_all (\<lambda>e. \<exists>t vs. e = EvQuery t vs) es) es r" by blast
  from sh have "es = [] \<or> es = [EvConnect] \<or>
     (\<exists>qs b. es = EvConnect # qs @ [EvRelease b] \<and>
        list_all (\<lambda>e. \<exists>t vs. e = EvQuery t vs) qs)"
  proof (cases rule: txShape.cases)
    case (tx_begin_failed b e)
    then show ?thesis
      by (intro disjI2 exI [where x = "[evBegin, evRollback]"] exI [where x = b]) simp
  next
    case (tx_identity_failed b e)
    then show ?thesis
      by (intro disjI2 exI [where x = "evBegin # evIdentity u @ [evRollback]"] exI [where x = b])
         (simp add: i)
  next
    case (tx_block_failed qs t b e)
    then show ?thesis
      by (intro disjI2 exI [where x = "evBegin # evIdentity u @ qs @ [evRollback]"] exI [where x = b])
         (simp add: i)
  next
    case (tx_commit_failed qs v b e)
    then show ?thesis
      by (intro disjI2 exI [where x = "evBegin # evIdentity u @ qs @ [evCommit, evRollback]"]
            exI [where x = b]) (simp add: i)
  next
    case (tx_committed qs v)
    then show ?thesis
      by (intro disjI2 exI [where x = "evBegin # evIdentity u @ qs @ [evCommit]"]
            exI [where x = False]) (simp add: i)
  qed auto
  with w' show ?thesis by blast
qed

end

subsection \<open>The pooled runner keeps the contract\<close>

lemma outcome_poolConnect:
  "outcome (poolConnect R c)
     (\<lambda>es r. (es = [] \<and> r = Inl (AppErr poolClosedError)) \<or>
             (es = [EvConnect] \<and> (r = Inr () \<or> (\<exists>e. r = Inl (AppErr e)))))"
  by (auto simp: outcome_def poolConnect_def guardNotClosed_def io_simps split: sum.splits)

lemma outcome_rollback:
  "outcome (bindM (catchM (clientQuery R ''ROLLBACK'' [])
              (\<lambda>rb. bindM (releaseClient True) (\<lambda>_. throwM (AppErr (translatePoolError R rb))))) (\<lambda>_.
            bindM (releaseClient False) (\<lambda>_. throwM (AppErr (translatePoolError R t)))))
     (\<lambda>es r. \<exists>b e. es = [evRollback, EvRelease b] \<and> r = Inl (AppErr e) \<and>
                   (b \<or> e = translatePoolError R t))"
  by (auto simp: outcome_def io_simps releaseClient_def split: sum.splits)

lemma outcome_tx_body:
  assumes "outcome block P"
  shows "outcome
     (bindM (clientQuery R ''BEGIN'' []) (\<lambda>_.
      bindM (case u of None \<Rightarrow> returnM emptyResult
                     | Some u \<Rightarrow> clientQuery R SET_IDENTITY_SQL [VStr u]) (\<lambda>_.
      bindM block (\<lambda>result.
      bindM (clientQuery R ''COMMIT'' []) (\<lambda>_.
      bindM (releaseClient False) (\<lambda>_. returnM result))))))
     (\<lambda>es r. (\<exists>t. r = Inl t \<and>
                (es = [evBegin] \<or> (es = evBegin # evIdentity u \<and> evIdentity u \<noteq> []) \<or>
                 (\<exists>qs. es = evBegin # evIdentity u @ qs \<and> P qs (Inl t)) \<or>
                 (\<exists>qs v. es = evBegin # evIdentity u @ qs @ [evCommit] \<and> P qs (Inr v)))) \<or>
             (\<exists>qs v. r = Inr v \<and> P qs (Inr v) \<and>
                es = evBegin # evIdentity u @ qs @ [evCommit, EvRelease False]))"
    (is "outcome ?m ?Q")
  unfolding outcome_def
proof
  fix w
  define w1 where "w1 = (w @ [evBegin]) @ evIdentity u"
  obtain qs r where b: "block w1 = (r, w1 @ qs)" "P qs r" using outcome_run [OF assms] by blast
  then have b': "block ((w @ [evBegin]) @ evIdentity u) = (r, w @ evBegin # evIdentity u @ qs)"
    by (simp add: w1_def)
  show "\<exists>es r. ?m w = (r, w @ es) \<and> ?Q es r"
    using b(2) b'
    by (cases u; cases r)
       (auto simp: evIdentity_def io_simps releaseClient_def emptyResult_def split: sum.splits)
qed

lemma withTransaction_shape:
  assumes "outcome block P"
  shows "outcome (withTransaction R (poolConnect R c) u block) (txShape R u P)"
  unfolding withTransaction_def
proof (rule outcome_bind [OF outcome_poolConnect])
  fix es e
  assume "(es = [] \<and> Inl e = Inl (AppErr poolClosedError)) \<or>
    (es = [EvConnect] \<and> (Inl e = Inr () \<or> (\<exists>e'. Inl e = Inl (AppErr e'))))"
  then show "txShape R u P es (Inl e)" by (auto intro: txShape.intros)
next
  fix es x
  assume "(es = [] \<and> Inr x = Inl (AppErr poolClosedError)) \<or>
    (es = [EvConnect] \<and> (Inr x = Inr () \<or> (\<exists>e'. Inr x = Inl (AppErr e'))))"
  then have es: "es = [EvConnect]" by auto
  show "outcome (catchM (bindM (clientQuery R ''BEGIN'' []) (\<lambda>_.
      bindM (case u of None \<Rightarrow> returnM emptyResult
                     | Some u \<Rightarrow> clientQuery R SET_IDENTITY_SQL [VStr u]) (\<lambda>_.
      bindM block (\<lambda>result.
      bindM (clientQuery R ''COMMIT'' []) (\<lambda>_.
      bindM (releaseClient False) (\<lambda>_. returnM result))))))
      (\<lambda>error. bindM (catchM (clientQuery R ''ROLLBACK'' [])
          (\<lambda>rb. bindM (releaseClient True) (\<lambda>_. throwM (AppErr (translatePoolError R rb))))) (\<lambda>_.
          bindM (releaseClient False) (\<lambda>_. throwM (AppErr (translatePoolError R error))))))
    (\<lambda>es'. txShape R u P (es @ es'))"
  proof (rule outcome_catch [OF outcome_tx_body [OF assms, of R u]], goal_cases)
    case (1 es' v)
    then show ?case using tx_committed [of P _ v R u] es by auto
  next
    case (2 es' t)
    then show ?case
      by (intro outcome_weaken [OF outcome_rollback])
         (auto simp: es intro: txShape.intros
               tx_begin_failed [simplified] tx_identity_failed [simplified]
               tx_block_failed [simplified] tx_commit_failed [simplified])
  qed
qed

interpretation pooled_runner: transaction_runner R "withTransaction R (poolConnect R c)" for R c
  by unfold_locales (rule withTransaction_shape)

subsection \<open>The identity a connection carries\<close>

text \<open>
  What the server keeps of a session for these calls: whether a transaction is open, and
  the transaction-local \<open>microjbase.user_id\<close>, which \<open>set_config(.., true)\<close> sets inside a
  transaction and the end of the transaction clears.
\<close>

record session =
  sx_inTx :: bool
  sx_ident :: "string option"

abbreviation freshSession :: session where
  "freshSession \<equiv> \<lparr>sx_inTx = False, sx_ident = None\<rparr>"

fun sessionStep :: "session \<Rightarrow> event \<Rightarrow> session" where
  "sessionStep s (EvQuery t vs) =
     (if t = ''BEGIN'' then s\<lparr>sx_inTx := True\<rparr>
      else if t = ''COMMIT'' \<or> t = ''ROLLBACK'' then freshSession
      else if t = SET_IDENTITY_SQL \<and> sx_inTx s then
        (case vs of [VStr u] \<Rightarrow> s\<lparr>sx_ident := Some u\<rparr> | _ \<Rightarrow> s)
      else s)"
| "sessionStep s _ = s"

text \<open>A statement of a block: none of the four the runner itself issues.\<close>

fun blockQuery :: "event \<Rightarrow> bool" where
  "blockQuery (EvQuery t vs) = (t \<notin> {''BEGIN'', ''COMMIT'', ''ROLLBACK'', SET_IDENTITY_SQL})"
| "blockQuery _ = False"

text \<open>The identity every block statement of a history runs under, in order.\<close>

fun blockIdentities :: "session \<Rightarrow> event list \<Rightarrow> string option list" where
  "blockIdentities s [] = []"
| "blockIdentities s (e # es) =
     (if blockQuery e then [sx_ident s] else []) @ blockIdentities (sessionStep s e) es"

lemma sessionStep_block [simp]: "blockQuery e \<Longrightarrow> sessionStep s e = s"
  by (cases e) auto

lemma foldl_sessionStep_block [simp]:
  "list_all blockQuery qs \<Longrightarrow> foldl sessionStep s qs = s"
  by (induction qs arbitrary: s) auto

lemma blockIdentities_append [simp]:
  "blockIdentities s (xs @ ys) = blockIdentities s xs @ blockIdentities (foldl sessionStep s xs) ys"
  by (induction xs arbitrary: s) auto

lemma blockIdentities_block [simp]:
  "list_all blockQuery qs \<Longrightarrow> blockIdentities s qs = replicate (length qs) (sx_ident s)"
  by (induction qs arbitrary: s) auto

lemma SET_IDENTITY_SQL_neq [simp]:
  "SET_IDENTITY_SQL \<noteq> ''BEGIN''" "SET_IDENTITY_SQL \<noteq> ''COMMIT''" "SET_IDENTITY_SQL \<noteq> ''ROLLBACK''"
  by (simp_all add: SET_IDENTITY_SQL_def)

lemma session_after_identity [simp]:
  "foldl sessionStep \<lparr>sx_inTx = True, sx_ident = None\<rparr> (evIdentity u) =
   \<lparr>sx_inTx = True, sx_ident = u\<rparr>"
  by (cases u) (auto simp: evIdentity_def)

lemma blockIdentities_evIdentity [simp]: "blockIdentities s (evIdentity u) = []"
  by (auto simp: evIdentity_def split: option.split)

lemma txShape_identities:
  assumes "txShape R u (\<lambda>es r. list_all blockQuery es) es r"
  shows "set (blockIdentities freshSession es) \<subseteq> {u} \<and>
    foldl sessionStep freshSession es = freshSession"
  using assms
proof (cases rule: txShape.cases)
  case (tx_block_failed qs t b e)
  then show ?thesis by (cases u) (auto simp: evIdentity_def)
next
  case (tx_commit_failed qs v b e)
  then show ?thesis by (cases u) (auto simp: evIdentity_def)
next
  case (tx_committed qs v)
  then show ?thesis by (cases u) (auto simp: evIdentity_def)
qed (auto simp: evIdentity_def split: option.split)

context transaction_runner
begin

text \<open>
  Every statement of the block runs under exactly the requested identity, and the
  connection goes back to the pool without one.
\<close>

lemma run_identity:
  assumes "emitsOnly blockQuery block" and "run u block w = (r, w')"
  shows "\<exists>es. w' = w @ es \<and> set (blockIdentities freshSession es) \<subseteq> {u} \<and>
    foldl sessionStep freshSession es = freshSession"
  using outcomeD [OF run_shape [OF assms(1) [unfolded emitsOnly_def]] assms(2)] txShape_identities
  by blast

end

section \<open>Properties\<close>



text \<open>C23: A checked-out client is given back exactly once and last, on success and on every
  failure; when no client was obtained, none is released.\<close>
theorem transaction_releases_once:
  assumes "emitsOnly (\<lambda>e. \<exists>t vs. e = EvQuery t vs) block"
    and "withTransaction R (poolConnect R c) u block w = (r, w')"
  shows "\<exists>es. w' = w @ es \<and> (es = [] \<or> es = [EvConnect] \<or>
     (\<exists>qs b. es = EvConnect # qs @ [EvRelease b] \<and> list_all (\<lambda>e. \<exists>t vs. e = EvQuery t vs) qs))"
  by (rule pooled_runner.run_releases_once [OF assms])

theorem transaction_releases_once_witness:
  "\<exists>es. snd (withTransaction okRuntime (poolConnect okRuntime False) None
      (clientQuery okRuntime ''SELECT 1'' []) []) = [] @ es \<and> (es = [] \<or> es = [EvConnect] \<or>
     (\<exists>qs b. es = EvConnect # qs @ [EvRelease b] \<and> list_all (\<lambda>e. \<exists>t vs. e = EvQuery t vs) qs))"
  by (rule transaction_releases_once [OF _ surjective_pairing]) (rule emitsOnly_perform, blast)

text \<open>A transaction returns only what its block returned, and then BEGIN, the identity, the
  block's statements and COMMIT were issued in this order; when it fails it throws a public error,
  and if the client was checked out the last statement is ROLLBACK.\<close>
theorem transaction_outcome:
  assumes "outcome block P" and "withTransaction R (poolConnect R c) u block w = (r, w')"
  shows "(\<exists>v qs. r = Inr v \<and> P qs (Inr v) \<and>
      w' = w @ [EvConnect, evBegin] @ evIdentity u @ qs @ [evCommit, EvRelease False]) \<or>
    (\<exists>e es. r = Inl (AppErr e) \<and> w' = w @ es \<and>
      (es = [] \<or> es = [EvConnect] \<or> (\<exists>qs b. es = [EvConnect, evBegin] @ qs @ [evRollback, EvRelease b])))"
proof -
  from outcomeD [OF withTransaction_shape [OF assms(1)] assms(2)]
  obtain es where es: "w' = w @ es" "txShape R u P es r" by blast
  from es(2) show ?thesis
  proof (cases rule: txShape.cases)
    case (tx_begin_failed b e)
    then show ?thesis
      using es by (intro disjI2 exI [where x = e] exI [where x = es] conjI disjI2
          exI [where x = "[]"] exI [where x = b]) auto
  next
    case (tx_identity_failed b e)
    then show ?thesis
      using es by (intro disjI2 exI [where x = e] exI [where x = es] conjI disjI2
          exI [where x = "evIdentity u"] exI [where x = b]) auto
  next
    case (tx_block_failed qs t b e)
    then show ?thesis
      using es by (intro disjI2 exI [where x = e] exI [where x = es] conjI disjI2
          exI [where x = "evIdentity u @ qs"] exI [where x = b]) auto
  next
    case (tx_commit_failed qs v b e)
    then show ?thesis
      using es by (intro disjI2 exI [where x = e] exI [where x = es] conjI disjI2
          exI [where x = "evIdentity u @ qs @ [evCommit]"] exI [where x = b]) auto
  qed (use es in auto)
qed

theorem transaction_outcome_witness:
  "(\<exists>v qs. fst (withTransaction okRuntime (poolConnect okRuntime False) None (returnM True) []) = Inr v \<and>
      qs = [] \<and> snd (withTransaction okRuntime (poolConnect okRuntime False) None (returnM True) []) =
        [] @ [EvConnect, evBegin] @ evIdentity None @ qs @ [evCommit, EvRelease False]) \<or>
   (\<exists>e es. fst (withTransaction okRuntime (poolConnect okRuntime False) None (returnM True) []) = Inl (AppErr e) \<and>
      snd (withTransaction okRuntime (poolConnect okRuntime False) None (returnM True) []) = [] @ es \<and>
      (es = [] \<or> es = [EvConnect] \<or> (\<exists>qs b. es = [EvConnect, evBegin] @ qs @ [evRollback, EvRelease b])))"
  by (rule transaction_outcome [OF _ surjective_pairing, where P = "\<lambda>qs r. qs = []"])
     (simp add: outcome_return)

end
