(* ===== verification/AuthRepository.thy ===== *)
theory AuthRepository
  imports Transactions
begin

text \<open>
  The PostgreSQL adapter of the auth repository (\<open>src/database/auth-repository.ts\<close>) and the
  records of \<open>src/contracts/auth.ts\<close>.  A row is what the driver returns: its fields are kept
  as values of any type, since the adapter copies them unchecked.
\<close>

type_synonym row = "(string \<times> jsval) list"

record User =
  u_id :: jsval
  u_email :: jsval
  u_createdAt :: jsval

record UserRecord = User +
  u_passwordHash :: jsval

record Session =
  s_id :: jsval
  s_userId :: jsval
  s_tokenHash :: jsval
  s_expiresAt :: jsval
  s_createdAt :: jsval
  s_revokedAt :: jsval

record AuthenticatedUser =
  a_id :: jsval
  a_email :: jsval

definition mapUser :: "row \<Rightarrow> User" where
  "mapUser r = \<lparr>u_id = propOf r ''id'', u_email = propOf r ''email'',
     u_createdAt = propOf r ''created_at''\<rparr>"

definition mapUserRecord :: "row \<Rightarrow> UserRecord" where
  "mapUserRecord r = \<lparr>u_id = propOf r ''id'', u_email = propOf r ''email'',
     u_createdAt = propOf r ''created_at'', u_passwordHash = propOf r ''password_hash''\<rparr>"

definition mapSession :: "row \<Rightarrow> Session" where
  "mapSession r = \<lparr>s_id = propOf r ''id'', s_userId = propOf r ''user_id'',
     s_tokenHash = propOf r ''token_hash'', s_expiresAt = propOf r ''expires_at'',
     s_createdAt = propOf r ''created_at'', s_revokedAt = propOf r ''revoked_at''\<rparr>"

definition isUsersEmailUniqueViolation :: "runtime \<Rightarrow> thrown \<Rightarrow> bool" where
  "isUsersEmailUniqueViolation R error =
     (if \<not> errIsObject error then False
      else errProp R error ''code'' = VStr ''23505'' \<and>
           errProp R error ''constraint'' = VStr ''users_email_key'')"

definition emailRegisteredError :: app_error where
  "emailRegisteredError = mkErr EMAIL_ALREADY_REGISTERED ''Email already registered'' 409 None"

definition noRowError :: app_error where
  "noRowError = mkErr INTERNAL_ERROR ''An unexpected database error occurred'' 500 None"

definition INSERT_USER_SQL :: string where
  "INSERT_USER_SQL = ''INSERT INTO microjbase.users (email, password_hash) VALUES ($1, $2) '' @
     ''RETURNING id, email, created_at''"

definition INSERT_SESSION_SQL :: string where
  "INSERT_SESSION_SQL =
     ''INSERT INTO microjbase.sessions (user_id, token_hash, expires_at) VALUES ($1, $2, $3) '' @
     ''RETURNING id, user_id, token_hash, expires_at, created_at, revoked_at''"

definition FIND_BY_EMAIL_SQL :: string where
  "FIND_BY_EMAIL_SQL =
     ''SELECT id, email, password_hash, created_at FROM microjbase.users WHERE email = $1''"

definition FIND_ACTIVE_SQL :: string where
  "FIND_ACTIVE_SQL =
     ''SELECT u.id, u.email FROM microjbase.sessions s '' @
     ''INNER JOIN microjbase.users u ON u.id = s.user_id '' @
     ''WHERE s.token_hash = $1 AND s.revoked_at IS NULL AND s.expires_at > $2''"

definition REVOKE_SQL :: string where
  "REVOKE_SQL = ''UPDATE microjbase.sessions SET revoked_at = $2 '' @
     ''WHERE token_hash = $1 AND revoked_at IS NULL RETURNING id''"

text \<open>\<open>result.rows[0]\<close>.\<close>

definition firstRow :: "qresult \<Rightarrow> row option" where
  "firstRow res = (case qr_rows res of [] \<Rightarrow> None | r # _ \<Rightarrow> Some r)"

definition createUserAndSession ::
  "runtime \<Rightarrow> (string option \<Rightarrow> (User \<times> Session) io \<Rightarrow> (User \<times> Session) io) \<Rightarrow>
   string \<Rightarrow> string \<Rightarrow> bytes \<Rightarrow> int option \<Rightarrow> (User \<times> Session) io" where
  "createUserAndSession R run email passwordHash tokenHash expiresAt =
     run None
       (bindM (catchM (clientQuery R INSERT_USER_SQL [VStr email, VStr passwordHash])
                (\<lambda>error. if isUsersEmailUniqueViolation R error
                         then throwM (AppErr emailRegisteredError) else throwM error)) (\<lambda>userResult.
         (case firstRow userResult of
            None \<Rightarrow> throwM (AppErr noRowError)
          | Some userRow \<Rightarrow>
              bindM (clientQuery R INSERT_SESSION_SQL
                       [propOf userRow ''id'', VBytes tokenHash, VDate expiresAt]) (\<lambda>sessionResult.
                (case firstRow sessionResult of
                   None \<Rightarrow> throwM (AppErr noRowError)
                 | Some sessionRow \<Rightarrow> returnM (mapUser userRow, mapSession sessionRow))))))"

definition findByEmail :: "runtime \<Rightarrow> bool \<Rightarrow> string \<Rightarrow> UserRecord option io" where
  "findByEmail R isClosed email =
     bindM (poolQuery R isClosed FIND_BY_EMAIL_SQL [VStr email]) (\<lambda>result.
       returnM (map_option mapUserRecord (firstRow result)))"

definition createSession ::
  "runtime \<Rightarrow> bool \<Rightarrow> jsval \<Rightarrow> bytes \<Rightarrow> int option \<Rightarrow> Session io" where
  "createSession R isClosed userId tokenHash expiresAt =
     bindM (poolQuery R isClosed INSERT_SESSION_SQL
              [userId, VBytes tokenHash, VDate expiresAt]) (\<lambda>result.
       (case firstRow result of
          None \<Rightarrow> throwM (AppErr noRowError)
        | Some r \<Rightarrow> returnM (mapSession r)))"

definition findActiveUserByTokenHash ::
  "runtime \<Rightarrow> bool \<Rightarrow> bytes \<Rightarrow> int option \<Rightarrow> AuthenticatedUser option io" where
  "findActiveUserByTokenHash R isClosed tokenHash now =
     bindM (poolQuery R isClosed FIND_ACTIVE_SQL [VBytes tokenHash, VDate now]) (\<lambda>result.
       returnM (map_option (\<lambda>r. \<lparr>a_id = propOf r ''id'', a_email = propOf r ''email''\<rparr>)
         (firstRow result)))"

definition revokeByTokenHash :: "runtime \<Rightarrow> bool \<Rightarrow> bytes \<Rightarrow> int option \<Rightarrow> bool io" where
  "revokeByTokenHash R isClosed tokenHash revokedAt =
     bindM (poolQuery R isClosed REVOKE_SQL [VBytes tokenHash, VDate revokedAt]) (\<lambda>result.
       returnM (case qr_count result of None \<Rightarrow> False | Some n \<Rightarrow> 0 < n))"

subsection \<open>What each operation does on the database\<close>

text \<open>
  The statements of a registration: the user, then the session of the row that came back.
  A returned pair needs both.
\<close>

definition registerCalls ::
  "string \<Rightarrow> string \<Rightarrow> bytes \<Rightarrow> int option \<Rightarrow> event list \<Rightarrow> thrown + 'a \<Rightarrow> bool" where
  "registerCalls email ph th expAt qs r \<longleftrightarrow>
     (qs = [EvQuery INSERT_USER_SQL [VStr email, VStr ph]] \<and> (\<exists>t. r = Inl t)) \<or>
     (\<exists>uid. qs = [EvQuery INSERT_USER_SQL [VStr email, VStr ph],
                   EvQuery INSERT_SESSION_SQL [uid, VBytes th, VDate expAt]])"

text \<open>A single statement on the pool; every failure is a public error.\<close>

definition poolCall :: "string \<Rightarrow> jsval list \<Rightarrow> event list \<Rightarrow> thrown + 'a \<Rightarrow> bool" where
  "poolCall q vals es r \<longleftrightarrow>
     (es = [] \<or> es = [EvPool q vals]) \<and> (\<forall>t. r = Inl t \<longrightarrow> (\<exists>e. t = AppErr e)) \<and>
     (\<forall>x. r = Inr x \<longrightarrow> es = [EvPool q vals])"

lemma outcome_poolQuery_call: "outcome (poolQuery R c q vals) (poolCall q vals)"
  by (cases c)
     (auto simp: outcome_def poolCall_def poolQuery_def guardNotClosed_def io_simps split: sum.splits)

lemma outcome_pool_then:
  assumes "\<And>x. outcome (f x) (\<lambda>es r. es = [] \<and> (\<forall>t. r = Inl t \<longrightarrow> (\<exists>e. t = AppErr e)))"
  shows "outcome (bindM (poolQuery R c q vals) f) (poolCall q vals)"
  by (rule outcome_bind [OF outcome_poolQuery_call])
     (auto simp: poolCall_def intro!: outcome_weaken [OF assms])

lemma outcome_createUserAndSession:
  assumes "transaction_runner R run"
  shows "outcome (createUserAndSession R run email ph th expAt)
    (txShape R None (registerCalls email ph th expAt))"
  unfolding createUserAndSession_def
proof (rule transaction_runner.run_shape [OF assms],
    rule outcome_bind [where P = "\<lambda>es r. es = [EvQuery INSERT_USER_SQL [VStr email, VStr ph]]"])
  show "outcome (catchM (clientQuery R INSERT_USER_SQL [VStr email, VStr ph])
      (\<lambda>error. if isUsersEmailUniqueViolation R error
               then throwM (AppErr emailRegisteredError) else throwM error))
    (\<lambda>es r. es = [EvQuery INSERT_USER_SQL [VStr email, VStr ph]])"
    by (rule outcome_catch [OF outcome_perform [where P = "\<lambda>es r. es =
          [EvQuery INSERT_USER_SQL [VStr email, VStr ph]]"]]) (auto intro: outcome_throw)
next
  fix es :: "event list" and res
  assume es: "es = [EvQuery INSERT_USER_SQL [VStr email, VStr ph]]"
  show "outcome (case firstRow res of None \<Rightarrow> throwM (AppErr noRowError)
      | Some userRow \<Rightarrow>
          bindM (clientQuery R INSERT_SESSION_SQL [propOf userRow ''id'', VBytes th, VDate expAt])
            (\<lambda>sr. case firstRow sr of None \<Rightarrow> throwM (AppErr noRowError)
                  | Some sessionRow \<Rightarrow> returnM (mapUser userRow, mapSession sessionRow)))
    (\<lambda>es'. registerCalls email ph th expAt (es @ es'))"
  proof (cases "firstRow res")
    case None
    then show ?thesis using es by (auto simp: registerCalls_def intro!: outcome_throw)
  next
    case (Some u)
    have "outcome (bindM (clientQuery R INSERT_SESSION_SQL [propOf u ''id'', VBytes th, VDate expAt])
            (\<lambda>sr. case firstRow sr of None \<Rightarrow> throwM (AppErr noRowError)
                  | Some sessionRow \<Rightarrow> returnM (mapUser u, mapSession sessionRow)))
      (\<lambda>es' r. es' = [EvQuery INSERT_SESSION_SQL [propOf u ''id'', VBytes th, VDate expAt]])"
      by (rule outcome_bind [OF outcome_perform [where P = "\<lambda>es r. es =
            [EvQuery INSERT_SESSION_SQL [propOf u ''id'', VBytes th, VDate expAt]]"]])
         (auto intro!: outcome_throw outcome_return split: option.split)
    then show ?thesis
      using es Some by (simp, elim outcome_weaken) (auto simp: registerCalls_def)
  qed
qed (auto simp: registerCalls_def)

lemma outcome_findByEmail: "outcome (findByEmail R c email) (poolCall FIND_BY_EMAIL_SQL [VStr email])"
  unfolding findByEmail_def by (rule outcome_pool_then) (auto intro: outcome_return)

lemma outcome_createSession:
  "outcome (createSession R c uid th expAt)
     (poolCall INSERT_SESSION_SQL [uid, VBytes th, VDate expAt])"
  unfolding createSession_def
  by (rule outcome_pool_then) (auto intro!: outcome_return outcome_throw split: option.split)

lemma outcome_findActive:
  "outcome (findActiveUserByTokenHash R c th now) (poolCall FIND_ACTIVE_SQL [VBytes th, VDate now])"
  unfolding findActiveUserByTokenHash_def by (rule outcome_pool_then) (auto intro: outcome_return)

lemma outcome_revoke:
  "outcome (revokeByTokenHash R c th now) (poolCall REVOKE_SQL [VBytes th, VDate now])"
  unfolding revokeByTokenHash_def by (rule outcome_pool_then) (auto intro: outcome_return)

text \<open>
  Only the \<open>users_email_key\<close> violation of the user insert becomes the public duplicate
  error; the transaction passes it on when its ROLLBACK succeeds.
\<close>

lemma duplicate_email_run:
  assumes "db R (w @ [EvConnect]) = Inr q0" "db R (w @ [EvConnect, evBegin]) = Inr q1"
    and "db R (w @ [EvConnect, evBegin, EvQuery INSERT_USER_SQL [VStr email, VStr ph]]) = Inl t"
    and "isUsersEmailUniqueViolation R t"
    and "db R (w @ [EvConnect, evBegin, EvQuery INSERT_USER_SQL [VStr email, VStr ph], evRollback]) = Inr q2"
  shows "createUserAndSession R (withTransaction R (poolConnect R False)) email ph th expAt w =
    (Inl (AppErr emailRegisteredError),
     w @ [EvConnect, evBegin, EvQuery INSERT_USER_SQL [VStr email, VStr ph], evRollback, EvRelease False])"
  using assms
  by (simp add: createUserAndSession_def withTransaction_def poolConnect_def guardNotClosed_def io_simps
      emptyResult_def releaseClient_def)

end
