(* ===== verification/Tokens.thy ===== *)
theory Tokens
  imports AppErrors
begin

text \<open>
  Opaque session tokens (\<open>src/auth/token.ts\<close>) and the operator token
  (\<open>src/auth/admin-token.ts\<close>).  SHA-256 is a parameter \<open>sha\<close>; the base64url and hex
  transports are modelled in full.
\<close>

subsection \<open>Base64url\<close>

definition sextetChar :: "nat \<Rightarrow> char" where
  "sextetChar n =
     (if n < 26 then char_of (65 + n)
      else if n < 52 then char_of (71 + n)
      else if n < 62 then char_of (n - 4)
      else if n = 62 then CHR ''-'' else CHR ''_'')"

text \<open>The decoder reads both base64 alphabets and skips every other character.\<close>

definition charSextet :: "char \<Rightarrow> nat option" where
  "charSextet c =
     (if isUpperAZ c then Some (ccode c - 65)
      else if isLowerAZ c then Some (ccode c - 71)
      else if isDigit c then Some (ccode c + 4)
      else if c = CHR ''-'' \<or> c = CHR ''+'' then Some 62
      else if c = CHR ''_'' \<or> c = CHR ''/'' then Some 63 else None)"

fun encodeSextets :: "bytes \<Rightarrow> nat list" where
  "encodeSextets (a # b # c # bs) =
     [unat a div 4, unat a mod 4 * 16 + unat b div 16, unat b mod 16 * 4 + unat c div 64,
      unat c mod 64] @ encodeSextets bs"
| "encodeSextets [a, b] = [unat a div 4, unat a mod 4 * 16 + unat b div 16, unat b mod 16 * 4]"
| "encodeSextets [a] = [unat a div 4, unat a mod 4 * 16]"
| "encodeSextets [] = []"

fun decodeSextets :: "nat list \<Rightarrow> bytes" where
  "decodeSextets (p # q # r # s # xs) =
     [of_nat (p * 4 + q div 16), of_nat (q mod 16 * 16 + r div 4), of_nat (r mod 4 * 64 + s)] @
     decodeSextets xs"
| "decodeSextets [p, q, r] = [of_nat (p * 4 + q div 16), of_nat (q mod 16 * 16 + r div 4)]"
| "decodeSextets [p, q] = [of_nat (p * 4 + q div 16)]"
| "decodeSextets _ = []"

definition toBase64url :: "bytes \<Rightarrow> string" where
  "toBase64url bs = map sextetChar (encodeSextets bs)"

definition fromBase64url :: "string \<Rightarrow> bytes" where
  "fromBase64url s = decodeSextets (List.map_filter charSextet s)"

subsection \<open>Session tokens\<close>

definition TOKEN_BYTE_LENGTH :: nat where "TOKEN_BYTE_LENGTH = 32"

definition tokenChar :: "char \<Rightarrow> bool" where
  "tokenChar c \<longleftrightarrow> isUpperAZ c \<or> isLowerAZ c \<or> isDigit c \<or> c = CHR ''_'' \<or> c = CHR ''-''"

definition tokenShape :: "string \<Rightarrow> bool" where
  "tokenShape s \<longleftrightarrow> length s = 43 \<and> list_all tokenChar s"

definition generateSessionToken ::
  "(bytes \<Rightarrow> bytes) \<Rightarrow> (nat \<Rightarrow> bytes) \<Rightarrow> thrown + (string \<times> bytes)" where
  "generateSessionToken sha randomBytes =
     (let bs = randomBytes TOKEN_BYTE_LENGTH
      in if length bs \<noteq> TOKEN_BYTE_LENGTH then
           Inl (ErrObj ''randomBytes must return exactly 32 bytes'' [])
         else Inr (toBase64url bs, sha bs))"

definition parseRawToken :: "string \<Rightarrow> bytes option" where
  "parseRawToken rawToken =
     (if \<not> tokenShape rawToken then None
      else (let bs = fromBase64url rawToken
            in if length bs \<noteq> TOKEN_BYTE_LENGTH then None
               else if toBase64url bs \<noteq> rawToken then None
               else if length rawToken \<noteq> 43 then None
               else Some bs))"

definition hashRawToken :: "(bytes \<Rightarrow> bytes) \<Rightarrow> string \<Rightarrow> bytes option" where
  "hashRawToken sha rawToken =
     (case parseRawToken rawToken of None \<Rightarrow> None | Some bs \<Rightarrow> Some (sha bs))"

subsection \<open>The operator token\<close>

definition utf8Char :: "char \<Rightarrow> bytes" where
  "utf8Char c =
     (if ccode c < 128 then [of_nat (ccode c)]
      else [of_nat (192 + ccode c div 64), of_nat (128 + ccode c mod 64)])"

definition utf8 :: "string \<Rightarrow> bytes" where
  "utf8 s = concat (map utf8Char s)"

definition hashOperatorToken :: "(bytes \<Rightarrow> bytes) \<Rightarrow> string \<Rightarrow> bytes" where
  "hashOperatorToken sha rawToken = sha (utf8 rawToken)"

definition hexDigitVal :: "char \<Rightarrow> nat" where
  "hexDigitVal c = (if isDigit c then ccode c - 48 else ccode c - 87)"

fun fromHex :: "string \<Rightarrow> bytes" where
  "fromHex (c # d # s) = of_nat (hexDigitVal c * 16 + hexDigitVal d) # fromHex s"
| "fromHex _ = []"

definition decodeAdminTokenDigest :: "string \<Rightarrow> bytes option" where
  "decodeAdminTokenDigest hexDigest =
     (if \<not> (length hexDigest = 64 \<and> list_all isHexLower hexDigest) then None
      else Some (fromHex hexDigest))"

definition verifyOperatorToken :: "(bytes \<Rightarrow> bytes) \<Rightarrow> string option \<Rightarrow> bytes \<Rightarrow> bool" where
  "verifyOperatorToken sha rawToken expectedDigest =
     (case rawToken of
        None \<Rightarrow> False
      | Some t \<Rightarrow>
        (if expectedDigest = [] then False
         else (let actual = hashOperatorToken sha t
               in if length actual \<noteq> length expectedDigest then False
                  else actual = expectedDigest)))"

subsection \<open>The transport is exact\<close>

lemma charSextet_sextetChar [simp]: "n < 64 \<Longrightarrow> charSextet (sextetChar n) = Some n"
  by (auto simp: charSextet_def sextetChar_def char_class_defs)

lemma sextetChar_token: "n < 64 \<Longrightarrow> tokenChar (sextetChar n)"
  by (auto simp: tokenChar_def sextetChar_def char_class_defs)

lemma unat_byte [simp]: "unat (b :: byte) < 256"
  using unsigned_less [of b] by simp

lemma byte_parts:
  fixes b :: byte
  shows "unat b div 4 < 64" "unat b div 16 < 16" "unat b div 64 < 4"
  using unat_byte [of b] by linarith+

lemma sextet_bounds:
  fixes a b :: byte
  shows "unat a mod 4 * 16 + unat b div 16 < 64" "unat a mod 16 * 4 + unat b div 64 < 64"
    "unat a mod 4 * 16 < 64" "unat a mod 16 * 4 < 64"
  using byte_parts [of b] mod_less_divisor [of 4 "unat a"] mod_less_divisor [of 16 "unat a"]
  by linarith+

lemma encodeSextets_bound: "n \<in> set (encodeSextets bs) \<Longrightarrow> n < 64"
  by (induction bs rule: encodeSextets.induct) (auto simp: byte_parts sextet_bounds)

lemma length_encodeSextets:
  "length (encodeSextets bs) = 4 * (length bs div 3) + (if length bs mod 3 = 0 then 0 else length bs mod 3 + 1)"
  by (induction bs rule: encodeSextets.induct) (auto simp: Let_def)

lemma sextet_joins:
  fixes a b :: byte
  shows "unat a div 4 * 4 + (unat a mod 4 * 16 + unat b div 16) div 16 = unat a"
    and "(unat a mod 4 * 16 + unat b div 16) mod 16 = unat b div 16"
    and "(unat a mod 16 * 4 + unat b div 64) div 4 = unat a mod 16"
    and "(unat a mod 16 * 4 + unat b div 64) mod 4 = unat b div 64"
  using byte_parts [of b] by simp_all

lemma decode_encodeSextets: "decodeSextets (encodeSextets bs) = bs"
proof (induction bs rule: encodeSextets.induct)
  case (1 a b c bs)
  have "unat b div 16 * 16 + unat b mod 16 = unat b" "unat c div 64 * 64 + unat c mod 64 = unat c"
    "unat b div 16 div 16 = 0" "unat b div 16 mod 16 = unat b div 16"
    "unat c div 64 mod 4 = unat c div 64"
    using byte_parts [of b] byte_parts [of c] by simp_all
  with 1 show ?case by (simp add: sextet_joins del: of_nat_add of_nat_mult)
next
  case (2 a b)
  have "unat b div 16 * 16 + unat b mod 16 = unat b"
    "unat b div 16 div 16 = 0" "unat b div 16 mod 16 = unat b div 16"
    using byte_parts [of b] by simp_all
  then show ?case by (simp add: sextet_joins del: of_nat_add of_nat_mult)
next
  case (3 a)
  have "unat a div 4 * 4 + unat a mod 4 * 16 div 16 = unat a" by simp
  then show ?case by (simp del: of_nat_add of_nat_mult)
qed simp

lemma map_filter_sextets:
  "(\<And>n. n \<in> set ns \<Longrightarrow> n < 64) \<Longrightarrow> List.map_filter charSextet (map sextetChar ns) = ns"
  by (induction ns) (auto simp: List.map_filter_simps)

lemma fromBase64url_toBase64url [simp]: "fromBase64url (toBase64url bs) = bs"
  by (simp add: fromBase64url_def toBase64url_def map_filter_sextets encodeSextets_bound
      decode_encodeSextets)

lemma toBase64url_shape: "length bs = 32 \<Longrightarrow> tokenShape (toBase64url bs)"
  by (auto simp: tokenShape_def toBase64url_def length_encodeSextets list_all_iff
      intro: sextetChar_token encodeSextets_bound)

lemma parseRawToken_iff: "parseRawToken s = Some bs \<longleftrightarrow> length bs = 32 \<and> s = toBase64url bs"
  using toBase64url_shape [of bs]
  by (auto simp: parseRawToken_def Let_def TOKEN_BYTE_LENGTH_def tokenShape_def split: if_splits)

lemma parseRawToken_encode: "length bs = 32 \<Longrightarrow> parseRawToken (toBase64url bs) = Some bs"
  by (simp add: parseRawToken_iff)

lemma generateSessionToken_Inr:
  "generateSessionToken sha rnd = Inr (raw, hash) \<Longrightarrow>
   raw = toBase64url (rnd 32) \<and> length (rnd 32) = 32 \<and> hash = sha (rnd 32)"
  by (simp add: generateSessionToken_def Let_def TOKEN_BYTE_LENGTH_def split: if_splits)

lemma generateSessionToken_hash:
  "generateSessionToken sha rnd = Inr (raw, hash) \<Longrightarrow> hashRawToken sha raw = Some hash"
  by (auto dest!: generateSessionToken_Inr simp: hashRawToken_def parseRawToken_encode)

lemma length_fromHex: "length (fromHex s) = length s div 2"
  by (induction s rule: fromHex.induct) auto

lemma decodeAdminTokenDigest_length: "decodeAdminTokenDigest s = Some d \<Longrightarrow> length d = 32"
  by (auto simp: decodeAdminTokenDigest_def length_fromHex split: if_splits)

lemma verifyOperatorToken_iff:
  "verifyOperatorToken sha t d \<longleftrightarrow> (\<exists>raw. t = Some raw \<and> d \<noteq> [] \<and> sha (utf8 raw) = d)"
  by (auto simp: verifyOperatorToken_def hashOperatorToken_def Let_def split: option.splits)

section \<open>Properties\<close>

text \<open>C28: A raw session token is accepted exactly when it is the canonical base64url text of 32 bytes,
  so no two accepted tokens denote the same bytes.\<close>
theorem session_token_canonical:
  "parseRawToken s = Some bs \<longleftrightarrow> length bs = 32 \<and> s = toBase64url bs"
  by (rule parseRawToken_iff)

text \<open>The token handed to a client hashes to the digest that was stored for it, and the digest is
  the hash of 32 bytes of the random source.\<close>
theorem issued_token_is_found:
  assumes "generateSessionToken h rnd = Inr (raw, digest)"
  shows "hashRawToken h raw = Some digest \<and> digest = h (rnd 32) \<and> length (rnd 32) = 32 \<and> length raw = 43"
proof -
  have g: "length (rnd 32) = 32" "raw = toBase64url (rnd 32)" "digest = h (rnd 32)"
    using assms by (auto simp: generateSessionToken_def Let_def TOKEN_BYTE_LENGTH_def split: if_splits)
  then have "tokenShape raw" using toBase64url_shape by simp
  with g generateSessionToken_hash [OF assms] show ?thesis by (simp add: tokenShape_def)
qed

theorem issued_token_is_found_witness:
  "hashRawToken rev (toBase64url (replicate 32 7)) = Some (replicate 32 7) \<and>
   length (toBase64url (replicate 32 (7 :: byte))) = 43"
proof -
  have "generateSessionToken rev (\<lambda>n. replicate n 7) =
      Inr (toBase64url (replicate 32 7), replicate 32 7)"
    by (simp add: generateSessionToken_def TOKEN_BYTE_LENGTH_def Let_def)
  from issued_token_is_found [OF this] show ?thesis by simp
qed

end
