(* ===== verification/Credentials.thy ===== *)
theory Credentials
  imports Driver
begin

text \<open>
  Email normalisation (\<open>src/auth/email.ts\<close>) and the password rules
  (\<open>src/auth/password.ts\<close>).
\<close>

definition authError :: "(string \<times> detail) list \<Rightarrow> thrown" where
  "authError ds = DomErr (validationError ds)"

subsection \<open>Email\<close>

definition MAX_EMAIL_UTF8_BYTES :: nat where "MAX_EMAIL_UTF8_BYTES = 254"

definition asciiWhite :: "char \<Rightarrow> bool" where
  "asciiWhite c \<longleftrightarrow> between 9 13 c \<or> ccode c = 32"

text \<open>A character of \<open>[^\s@]\<close>.\<close>

definition addrChar :: "char \<Rightarrow> bool" where
  "addrChar c \<longleftrightarrow> \<not> isWhite c \<and> c \<noteq> CHR ''@''"

text \<open>
  \<open>^[^\s@]+@[^\s@]+\.[^\s@]+$\<close>: the first at-sign splits the address, and a dot stands inside the
  domain with a character on either side.
\<close>

definition pragmaticEmail :: "string \<Rightarrow> bool" where
  "pragmaticEmail s =
     (case indexOf (CHR ''@'') s of
        None \<Rightarrow> False
      | Some i \<Rightarrow>
        (let local = take i s; domain = drop (Suc i) s
         in local \<noteq> [] \<and> list_all addrChar local \<and> list_all addrChar domain \<and>
            CHR ''.'' \<in> set (butlast (tl domain))))"

definition normaliseEmail :: "string \<Rightarrow> thrown + string" where
  "normaliseEmail raw =
     (let trimmed = trimBy asciiWhite raw;
          email = toLowerCase trimmed
      in if email = [] \<or> utf8Length email > MAX_EMAIL_UTF8_BYTES \<or> list_ex isControl email \<or>
            \<not> pragmaticEmail email
         then Inl (authError [(''email'', dstr ''Must be a valid email address'')])
         else Inr email)"

subsection \<open>Password\<close>

definition MIN_PASSWORD_LENGTH :: nat where "MIN_PASSWORD_LENGTH = 10"
definition MAX_PASSWORD_LENGTH :: nat where "MAX_PASSWORD_LENGTH = 128"

definition passwordCodePointLength :: "string \<Rightarrow> nat" where
  "passwordCodePointLength password = length password"

definition validatePassword :: "string \<Rightarrow> thrown + unit" where
  "validatePassword password =
     (let len = passwordCodePointLength password
      in if len < MIN_PASSWORD_LENGTH \<or> len > MAX_PASSWORD_LENGTH then
           Inl (authError [(''password'', dstr ''Must be between 10 and 128 characters'')])
         else if list_ex isControl password then
           Inl (authError [(''password'', dstr ''Must not contain control characters'')])
         else Inr ())"

text \<open>
  Argon2id is the \<open>argon2\<close> package: hashing and verification are parameters, and either may
  throw.  A throwing verification counts as a failed one.
\<close>

definition DUMMY_PASSWORD_HASH :: string where
  "DUMMY_PASSWORD_HASH =
     ''$argon2id$v=19$m=19456,t=2,p=1$kOTS8pzolNLTAb0CEHTqTg$Sg/x646QMWXBKD91wdOVL//4pmIuoISl3hqOiDVzrVM''"

definition argonVerifyCall ::
  "(jsval \<Rightarrow> string \<Rightarrow> thrown + bool) \<Rightarrow> jsval \<Rightarrow> string \<Rightarrow> bool io" where
  "argonVerifyCall argonVerify hash password w =
     (argonVerify hash password, w @ [EvVerify hash password])"

definition hashPassword :: "(string \<Rightarrow> thrown + string) \<Rightarrow> string \<Rightarrow> thrown + string" where
  "hashPassword argonHash password = argonHash password"

definition verifyPassword ::
  "(jsval \<Rightarrow> string \<Rightarrow> thrown + bool) \<Rightarrow> jsval \<Rightarrow> string \<Rightarrow> bool io" where
  "verifyPassword argonVerify passwordHash password =
     catchM (argonVerifyCall argonVerify passwordHash password) (\<lambda>_. returnM False)"

text \<open>The dummy verification does its work and yields nothing, whatever the outcome.\<close>

definition verifyDummyPassword ::
  "(jsval \<Rightarrow> string \<Rightarrow> thrown + bool) \<Rightarrow> string \<Rightarrow> unit io" where
  "verifyDummyPassword argonVerify password =
     catchM (bindM (argonVerifyCall argonVerify (VStr DUMMY_PASSWORD_HASH) password) (\<lambda>_. returnM ()))
       (\<lambda>_. returnM ())"

subsection \<open>Facts\<close>

lemma lowerChar_idem [simp]: "lowerChar (lowerChar c) = lowerChar c"
proof (cases "isUpperAZ c \<or> (between 192 222 c \<and> ccode c \<noteq> 215)")
  case True
  then have "ccode c + 32 < 256" "\<not> isUpperAZ (char_of (ccode c + 32))"
    "\<not> (between 192 222 (char_of (ccode c + 32)))"
    by (auto simp: char_class_defs)
  with True show ?thesis by (auto simp: lowerChar_def)
next
  case False
  then show ?thesis by (auto simp: lowerChar_def)
qed

lemma toLowerCase_idem [simp]: "toLowerCase (toLowerCase s) = toLowerCase s"
  by (simp add: toLowerCase_def)

lemma asciiWhite_isWhite: "asciiWhite c \<Longrightarrow> isWhite c"
  by (auto simp: asciiWhite_def char_class_defs)

lemma pragmaticEmail_chars:
  assumes "pragmaticEmail s" and "c \<in> set s"
  shows "\<not> isWhite c"
proof -
  from assms(1) obtain i where i: "indexOf (CHR ''@'') s = Some i"
    "list_all addrChar (take i s)" "list_all addrChar (drop (Suc i) s)"
    by (auto simp: pragmaticEmail_def Let_def split: option.splits)
  obtain a b where "s = a @ CHR ''@'' # b" "list_all addrChar a" "list_all addrChar b"
    using indexOf_Some [OF i(1)] i(2,3) by (metis id_take_nth_drop)
  with assms(2) have "c = CHR ''@'' \<or> addrChar c" by (auto simp: list_all_iff)
  then show ?thesis by (auto simp: addrChar_def char_class_defs)
qed

text \<open>A normalised address is a fixed point: it is stored and looked up under one spelling.\<close>

lemma normaliseEmail_Inr:
  "normaliseEmail raw = Inr e \<Longrightarrow>
   e \<noteq> [] \<and> utf8Length e \<le> 254 \<and> \<not> list_ex isControl e \<and> pragmaticEmail e \<and>
   e = toLowerCase (trimBy asciiWhite raw)"
  by (auto simp: normaliseEmail_def Let_def MAX_EMAIL_UTF8_BYTES_def split: if_splits)

lemma normaliseEmail_idem:
  assumes "normaliseEmail raw = Inr e"
  shows "normaliseEmail e = Inr e"
proof -
  from normaliseEmail_Inr [OF assms] have e: "e \<noteq> []" "utf8Length e \<le> 254"
    "\<not> list_ex isControl e" "pragmaticEmail e" "toLowerCase e = e" by auto
  have "\<not> asciiWhite (hd e)" "\<not> asciiWhite (last e)"
    using pragmaticEmail_chars [OF e(4)] asciiWhite_isWhite e(1) by (meson hd_in_set last_in_set)+
  then have "trimBy asciiWhite e = e" by (intro trimBy_id) simp
  with e show ?thesis by (simp add: normaliseEmail_def Let_def MAX_EMAIL_UTF8_BYTES_def)
qed

lemma validatePassword_Inr:
  "validatePassword p = Inr u \<longleftrightarrow> 10 \<le> length p \<and> length p \<le> 128 \<and> \<not> list_ex isControl p"
  by (auto simp: validatePassword_def Let_def passwordCodePointLength_def
      MIN_PASSWORD_LENGTH_def MAX_PASSWORD_LENGTH_def)

section \<open>Properties\<close>

text \<open>An accepted address is normalised once and for all: it is its own normal form, fits 254
  bytes, holds no white space and no control character, and is lower case.\<close>
theorem email_normal_form:
  assumes "normaliseEmail raw = Inr e"
  shows "normaliseEmail e = Inr e \<and> utf8Length e \<le> 254 \<and> toLowerCase e = e \<and>
    list_all (\<lambda>c. \<not> isWhite c \<and> \<not> isControl c) e"
  using normaliseEmail_idem [OF assms] normaliseEmail_Inr [OF assms] pragmaticEmail_chars [of e]
  by (auto simp: list_all_iff list_ex_iff)

theorem email_normal_form_witness:
  "normaliseEmail ''  Ann@Example.ORG '' = Inr ''ann@example.org'' \<and>
   normaliseEmail ''ann@example.org'' = Inr ''ann@example.org''"
proof -
  have "normaliseEmail ''  Ann@Example.ORG '' = Inr ''ann@example.org''" by code_simp
  with email_normal_form [OF this] show ?thesis by simp
qed

end
