(* ===== verification/AuthService.thy ===== *)
theory AuthService
  imports AuthRepository Tokens Credentials
begin

text \<open>
  The auth service of \<open>src/auth/service.ts\<close>.  The repository's operations are arguments, as
  the constructor takes them; hashing, randomness and the clock are the fields of an
  environment record.
\<close>

record auth_env =
  sha256 :: "bytes \<Rightarrow> bytes" \<comment> \<open>\<open>createHash("sha256")\<close>\<close>
  argonHash :: "string \<Rightarrow> thrown + string"
  argonVerify :: "jsval \<Rightarrow> string \<Rightarrow> thrown + bool"
  randomBytes :: "nat \<Rightarrow> bytes"
  nowMs :: int \<comment> \<open>the time value \<open>now()\<close> reads during the call\<close>
  sessionTtlSeconds :: int

record AuthResult =
  r_user :: User
  r_token :: string
  r_expiresAt :: jsval

definition DEFAULT_SESSION_TTL_SECONDS :: int where
  "DEFAULT_SESSION_TTL_SECONDS = 604800"

definition sessionExpiry :: "auth_env \<Rightarrow> int option" where
  "sessionExpiry A = newDate (nowMs A + sessionTtlSeconds A * 1000)"

definition emailTaken :: thrown where
  "emailTaken = DomErr (mkErr EMAIL_ALREADY_REGISTERED ''Email already registered'' 409 None)"

definition invalidCredentials :: thrown where
  "invalidCredentials = DomErr (mkErr INVALID_CREDENTIALS ''Invalid email or password'' 401 None)"

definition authRequired :: thrown where
  "authRequired = DomErr (mkErr AUTH_REQUIRED ''Authentication required'' 401 None)"

definition register ::
  "heap \<Rightarrow> auth_env \<Rightarrow> (string \<Rightarrow> string \<Rightarrow> bytes \<Rightarrow> int option \<Rightarrow> (User \<times> Session) io) \<Rightarrow>
   string \<Rightarrow> string \<Rightarrow> AuthResult io" where
  "register h A createOp rawEmail password =
     bindM (liftR (normaliseEmail rawEmail)) (\<lambda>email.
     bindM (liftR (validatePassword password)) (\<lambda>_.
     bindM (liftR (hashPassword (argonHash A) password)) (\<lambda>passwordHash.
     bindM (liftR (generateSessionToken (sha256 A) (randomBytes A))) (\<lambda>(rawToken, tokenHash).
     bindM (catchM (createOp email passwordHash tokenHash (sessionExpiry A))
              (\<lambda>error. if isAppErrorLike h error = Some ''EMAIL_ALREADY_REGISTERED''
                       then throwM emailTaken else throwM error)) (\<lambda>(user, session).
       returnM \<lparr>r_user = user, r_token = rawToken, r_expiresAt = s_expiresAt session\<rparr>)))))"

definition login ::
  "auth_env \<Rightarrow> (string \<Rightarrow> UserRecord option io) \<Rightarrow>
   (jsval \<Rightarrow> bytes \<Rightarrow> int option \<Rightarrow> Session io) \<Rightarrow> string \<Rightarrow> string \<Rightarrow> AuthResult io" where
  "login A findOp sessionOp rawEmail password =
     bindM (liftR (normaliseEmail rawEmail)) (\<lambda>email.
     bindM (findOp email) (\<lambda>found.
       (case found of
          None \<Rightarrow>
            bindM (verifyDummyPassword (argonVerify A) password) (\<lambda>_. throwM invalidCredentials)
        | Some user \<Rightarrow>
            bindM (verifyPassword (argonVerify A) (u_passwordHash user) password) (\<lambda>passwordOk.
              if \<not> passwordOk then throwM invalidCredentials
              else
                bindM (liftR (generateSessionToken (sha256 A) (randomBytes A))) (\<lambda>(rawToken, tokenHash).
                bindM (sessionOp (u_id user) tokenHash (sessionExpiry A)) (\<lambda>session.
                  returnM \<lparr>r_user = \<lparr>u_id = u_id user, u_email = u_email user,
                                     u_createdAt = u_createdAt user\<rparr>,
                           r_token = rawToken, r_expiresAt = s_expiresAt session\<rparr>))))))"

definition authenticate ::
  "auth_env \<Rightarrow> (bytes \<Rightarrow> int option \<Rightarrow> AuthenticatedUser option io) \<Rightarrow> string \<Rightarrow>
   AuthenticatedUser io" where
  "authenticate A activeOp rawToken =
     (case hashRawToken (sha256 A) rawToken of
        None \<Rightarrow> throwM authRequired
      | Some tokenHash \<Rightarrow>
          bindM (activeOp tokenHash (newDate (nowMs A))) (\<lambda>found.
            (case found of None \<Rightarrow> throwM authRequired | Some user \<Rightarrow> returnM user)))"

definition logout :: "auth_env \<Rightarrow> (bytes \<Rightarrow> int option \<Rightarrow> bool io) \<Rightarrow> string \<Rightarrow> unit io" where
  "logout A revokeOp rawToken =
     (case hashRawToken (sha256 A) rawToken of
        None \<Rightarrow> throwM authRequired
      | Some tokenHash \<Rightarrow> bindM (revokeOp tokenHash (newDate (nowMs A))) (\<lambda>_. returnM ()))"

subsection \<open>The repository's contract\<close>

text \<open>
  What the service relies on: a registration is one anonymous transaction of at most two
  statements, every other operation is one statement on the pool.
\<close>

locale auth_repository =
  fixes R :: runtime
    and createOp :: "string \<Rightarrow> string \<Rightarrow> bytes \<Rightarrow> int option \<Rightarrow> (User \<times> Session) io"
    and findOp :: "string \<Rightarrow> UserRecord option io"
    and sessionOp :: "jsval \<Rightarrow> bytes \<Rightarrow> int option \<Rightarrow> Session io"
    and activeOp :: "bytes \<Rightarrow> int option \<Rightarrow> AuthenticatedUser option io"
    and revokeOp :: "bytes \<Rightarrow> int option \<Rightarrow> bool io"
  assumes create_contract:
      "outcome (createOp email ph th ex) (txShape R None (registerCalls email ph th ex))"
    and find_contract: "outcome (findOp email) (poolCall FIND_BY_EMAIL_SQL [VStr email])"
    and session_contract:
      "outcome (sessionOp uid th ex) (poolCall INSERT_SESSION_SQL [uid, VBytes th, VDate ex])"
    and active_contract:
      "outcome (activeOp th now) (poolCall FIND_ACTIVE_SQL [VBytes th, VDate now])"
    and revoke_contract: "outcome (revokeOp th now) (poolCall REVOKE_SQL [VBytes th, VDate now])"
begin

text \<open>
  A registration either is refused before any call, or is the repository's transaction on
  the normalised address, the Argon2 hash and the digest of the fresh token; the token it
  returns is the preimage of that digest.
\<close>

lemma register_outcome:
  "outcome (register h A createOp rawEmail password) (\<lambda>es r.
     (es = [] \<and> (\<exists>t. r = Inl t)) \<or>
     (\<exists>email ph raw th r'.
        normaliseEmail rawEmail = Inr email \<and> validatePassword password = Inr () \<and>
        argonHash A password = Inr ph \<and>
        generateSessionToken (sha256 A) (randomBytes A) = Inr (raw, th) \<and>
        txShape R None (registerCalls email ph th (sessionExpiry A)) es r' \<and>
        (case r of
           Inr a \<Rightarrow> r_token a = raw \<and>
             (\<exists>u s. r' = Inr (u, s :: Session) \<and> r_user a = u \<and> r_expiresAt a = s_expiresAt s)
         | Inl t \<Rightarrow> \<exists>t'. r' = Inl t' \<and>
             t = (if isAppErrorLike h t' = Some ''EMAIL_ALREADY_REGISTERED'' then emailTaken else t'))))"
    (is "outcome _ ?Q")
  unfolding register_def hashPassword_def
proof (intro outcome_liftR_bind, goal_cases)
  case (5 email u ph tok)
  obtain raw th where tok: "tok = (raw, th)" by (cases tok)
  let ?tx = "txShape R None (registerCalls email ph th (sessionExpiry A)) ::
    event list \<Rightarrow> thrown + (User \<times> Session) \<Rightarrow> bool"
  have "outcome (catchM (createOp email ph th (sessionExpiry A))
      (\<lambda>error. if isAppErrorLike h error = Some ''EMAIL_ALREADY_REGISTERED''
               then throwM emailTaken else throwM error))
    (\<lambda>es r. \<exists>r'. ?tx es r' \<and> (\<forall>x. r = Inr x \<longrightarrow> r' = Inr x) \<and>
       (\<forall>t. r = Inl t \<longrightarrow> (\<exists>t'. r' = Inl t' \<and>
          t = (if isAppErrorLike h t' = Some ''EMAIL_ALREADY_REGISTERED'' then emailTaken else t'))))"
  proof (rule outcome_catch [OF create_contract], goal_cases)
    case (1 es x)
    then show ?case by blast
  next
    case (2 es t)
    then have "\<exists>r'. ?tx es r' \<and> r' = Inl t" by blast
    then show ?case by (auto intro!: outcome_throw exI [where x = "Inl t"])
  qed
  then show ?case
    unfolding tok prod.case
  proof (rule outcome_bind, goal_cases)
    case (1 es e)
    then obtain t' where "?tx es (Inl t')"
      "e = (if isAppErrorLike h t' = Some ''EMAIL_ALREADY_REGISTERED'' then emailTaken else t')"
      by blast
    then show ?case
      by - (rule disjI2, rule exI [where x = email], rule exI [where x = ph], rule exI [where x = raw],
          rule exI [where x = th], rule exI [where x = "Inl t'"], use 5 tok in simp)
  next
    case (2 es us)
    obtain u s where us: "us = (u, s)" by (cases us)
    from 2 us have "?tx es (Inr (u, s))" by auto
    then show ?case
      unfolding us prod.case
      by - (rule outcome_return, rule disjI2, rule exI [where x = email], rule exI [where x = ph],
          rule exI [where x = raw], rule exI [where x = th], rule exI [where x = "Inr (u, s)"],
          use 5 tok in simp)
  qed
qed auto

text \<open>
  A login's calls: the lookup by normalised address, one Argon2 verification (of the stored
  hash, or of the dummy when there is no such user), and after a verified password the insert of
  the fresh token's digest.
\<close>

lemma outcome_argon:
  "outcome (argonVerifyCall av hash pw) (\<lambda>es r. es = [EvVerify hash pw] \<and> r = av hash pw)"
  by (auto simp: outcome_def argonVerifyCall_def)

lemma outcome_verifyPassword:
  "outcome (verifyPassword av hash pw)
     (\<lambda>es r. es = [EvVerify hash pw] \<and> r = Inr (av hash pw = Inr True))"
  unfolding verifyPassword_def
proof (rule outcome_catch [OF outcome_argon], goal_cases)
  case (1 es x)
  then show ?case by (auto simp: eq_commute [of "Inr x"])
next
  case (2 es e)
  then show ?case by (auto simp: eq_commute [of "Inl e"] intro!: outcome_return)
qed

lemma outcome_dummy:
  "outcome (bindM (verifyDummyPassword av pw) (\<lambda>_. throwM t))
     (\<lambda>es r. es = [EvVerify (VStr DUMMY_PASSWORD_HASH) pw] \<and> r = Inl t)"
  by (auto simp: outcome_def verifyDummyPassword_def argonVerifyCall_def io_simps split: sum.split)

lemma login_outcome:
  "outcome (login A findOp sessionOp rawEmail password) (\<lambda>es r.
     (es = [] \<and> (\<exists>t. r = Inl t)) \<or>
     (\<exists>email qs. normaliseEmail rawEmail = Inr email \<and>
        es = EvPool FIND_BY_EMAIL_SQL [VStr email] # qs \<and>
        ((qs = [] \<and> (\<exists>t. r = Inl t)) \<or>
         (\<exists>hash. qs = [EvVerify hash password] \<and> (\<exists>t. r = Inl t)) \<or>
         (\<exists>hash raw th uid. argonVerify A hash password = Inr True \<and>
            generateSessionToken (sha256 A) (randomBytes A) = Inr (raw, th) \<and>
            qs = [EvVerify hash password,
                  EvPool INSERT_SESSION_SQL [uid, VBytes th, VDate (sessionExpiry A)]] \<and>
            (case r of Inl t \<Rightarrow> True | Inr a \<Rightarrow> r_token a = raw \<and> u_id (r_user a) = uid)))))"
    (is "outcome _ ?Q")
  unfolding login_def
proof (intro outcome_liftR_bind, goal_cases)
  case (2 email)
  let ?f = "EvPool FIND_BY_EMAIL_SQL [VStr email]"
  show ?case
  proof (rule outcome_bind [OF find_contract], goal_cases)
    case (1 es e)
    then show ?case using 2 by (auto simp: poolCall_def)
  next
    case (2 es found)
    note norm = \<open>normaliseEmail rawEmail = Inr email\<close>
    from 2 have es: "es = [?f]" by (simp add: poolCall_def)
    show ?case
    proof (cases found)
      case None
      then show ?thesis
        using norm es by (simp, intro outcome_weaken [OF outcome_dummy]) auto
    next
      case (Some user)
      let ?hash = "u_passwordHash user"
      have "outcome (if \<not> ok then throwM invalidCredentials
         else bindM (liftR (generateSessionToken (sha256 A) (randomBytes A))) (\<lambda>(rawToken, tokenHash).
              bindM (sessionOp (u_id user) tokenHash (sessionExpiry A)) (\<lambda>session.
                returnM \<lparr>r_user = \<lparr>u_id = u_id user, u_email = u_email user,
                   u_createdAt = u_createdAt user\<rparr>, r_token = rawToken,
                   r_expiresAt = s_expiresAt session\<rparr>)))
        (\<lambda>es' r. ?Q ([?f, EvVerify ?hash password] @ es') r)"
        if ok: "ok = (argonVerify A ?hash password = Inr True)" for ok
      proof (cases ok)
        case False
        then show ?thesis using norm by (auto intro!: outcome_throw)
      next
        case True
        then show ?thesis
          unfolding if_not_P [OF iffD2 [OF not_not True]]
        proof (intro outcome_liftR_bind, goal_cases)
          case (1 t)
          then show ?case using norm by auto
        next
          case (2 tok)
          obtain raw th where tok: "tok = (raw, th)" by (cases tok)
          show ?case unfolding tok prod.case
            by (rule outcome_bind [OF session_contract])
               (use 2 tok ok norm in \<open>auto simp: poolCall_def intro!: outcome_return\<close>)
        qed
      qed
      then show ?thesis
        unfolding Some option.case
        by (intro outcome_bind [OF outcome_verifyPassword]) (auto simp: es)
    qed
  qed
qed auto

lemma authenticate_outcome:
  "outcome (authenticate A activeOp rawToken) (\<lambda>es r.
     (es = [] \<and> (\<exists>t. r = Inl t)) \<or>
     (\<exists>th. hashRawToken (sha256 A) rawToken = Some th \<and>
        es = [EvPool FIND_ACTIVE_SQL [VBytes th, VDate (newDate (nowMs A))]]))"
proof (cases "hashRawToken (sha256 A) rawToken")
  case None
  then show ?thesis by (auto simp: authenticate_def intro!: outcome_throw)
next
  case (Some th)
  then show ?thesis
    unfolding authenticate_def Some option.case
    by (intro outcome_bind [OF active_contract])
       (auto simp: poolCall_def intro!: outcome_throw outcome_return split: option.split)
qed

lemma logout_outcome:
  "outcome (logout A revokeOp rawToken) (\<lambda>es r.
     (es = [] \<and> (\<exists>t. r = Inl t)) \<or>
     (\<exists>th. hashRawToken (sha256 A) rawToken = Some th \<and>
        es = [EvPool REVOKE_SQL [VBytes th, VDate (newDate (nowMs A))]]))"
proof (cases "hashRawToken (sha256 A) rawToken")
  case None
  then show ?thesis by (auto simp: logout_def intro!: outcome_throw)
next
  case (Some th)
  then show ?thesis
    unfolding logout_def Some option.case
    by (intro outcome_bind [OF revoke_contract]) (auto simp: poolCall_def intro!: outcome_return)
qed

end

text \<open>The PostgreSQL adapter over the pooled runner keeps the contract.\<close>

interpretation postgres_auth: auth_repository R
  "createUserAndSession R (withTransaction R (poolConnect R c))"
  "findByEmail R c" "createSession R c" "findActiveUserByTokenHash R c" "revokeByTokenHash R c" for R c
  by unfold_locales
     (rule outcome_createUserAndSession [OF pooled_runner.transaction_runner_axioms]
        outcome_findByEmail outcome_createSession outcome_findActive outcome_revoke)+

section \<open>Properties\<close>

text \<open>C26: A registration is refused before any call, or is one transaction without a user identity
  that sends the normalised address, the Argon2 hash and the digest of a fresh token; the password and
  the raw token never reach the database.  A duplicate address, and no other failure, is
  reported as such.\<close>
theorem register_stores_only_hashes:
  "outcome (register h A (createUserAndSession R (withTransaction R (poolConnect R c))) rawEmail password)
    (\<lambda>es r. (es = [] \<and> (\<exists>t. r = Inl t)) \<or>
      (\<exists>email ph raw th r'. normaliseEmail rawEmail = Inr email \<and> validatePassword password = Inr () \<and>
         argonHash A password = Inr ph \<and>
         generateSessionToken (sha256 A) (randomBytes A) = Inr (raw, th) \<and>
         txShape R None (registerCalls email ph th (sessionExpiry A)) es r' \<and>
         (case r of
            Inr a \<Rightarrow> r_token a = raw \<and>
              (\<exists>u s. r' = Inr (u, s :: Session) \<and> r_user a = u \<and> r_expiresAt a = s_expiresAt s)
          | Inl t \<Rightarrow> \<exists>t'. r' = Inl t' \<and>
              t = (if isAppErrorLike h t' = Some ''EMAIL_ALREADY_REGISTERED'' then emailTaken else t'))))"
  by (rule postgres_auth.register_outcome)

text \<open>A login's calls are the lookup by normalised address, exactly one Argon2 verification once
  the lookup has answered, and, only after that verification accepted the password, the insert of the
  fresh token's digest for the user found.\<close>
theorem login_calls:
  "outcome (login A (findByEmail R c) (createSession R c) rawEmail password) (\<lambda>es r.
     (es = [] \<and> (\<exists>t. r = Inl t)) \<or>
     (\<exists>email qs. normaliseEmail rawEmail = Inr email \<and>
        es = EvPool FIND_BY_EMAIL_SQL [VStr email] # qs \<and>
        ((qs = [] \<and> (\<exists>t. r = Inl t)) \<or>
         (\<exists>hash. qs = [EvVerify hash password] \<and> (\<exists>t. r = Inl t)) \<or>
         (\<exists>hash raw th uid. argonVerify A hash password = Inr True \<and>
            generateSessionToken (sha256 A) (randomBytes A) = Inr (raw, th) \<and>
            qs = [EvVerify hash password,
                  EvPool INSERT_SESSION_SQL [uid, VBytes th, VDate (sessionExpiry A)]] \<and>
            (case r of Inl t \<Rightarrow> True | Inr a \<Rightarrow> r_token a = raw \<and> u_id (r_user a) = uid)))))"
  by (rule postgres_auth.login_outcome)

text \<open>C25: A login with an unknown address and one with a wrong password are alike: the same error,
  after the same lookup and one Argon2 verification of the same password.\<close>
theorem login_failures_alike:
  assumes "normaliseEmail raw = Inr email" and "findA email w = (Inr None, w1)"
    and "findB email w = (Inr (Some user), w1)"
    and "argonVerify A (u_passwordHash user) password \<noteq> Inr True"
  shows "login A findA sesA raw password w =
      (Inl invalidCredentials, w1 @ [EvVerify (VStr DUMMY_PASSWORD_HASH) password]) \<and>
    login A findB sesB raw password w =
      (Inl invalidCredentials, w1 @ [EvVerify (u_passwordHash user) password])"
  using assms
  by (auto simp: login_def verifyDummyPassword_def verifyPassword_def argonVerifyCall_def io_simps
      split: sum.splits)

definition demoAuth :: auth_env where
  "demoAuth = \<lparr>sha256 = id, argonHash = Inr, argonVerify = (\<lambda>_ _. Inr False),
     randomBytes = (\<lambda>n. replicate n 0), nowMs = 0, sessionTtlSeconds = 60\<rparr>"

definition demoUser :: UserRecord where
  "demoUser = \<lparr>u_id = VNull, u_email = VNull, u_createdAt = VNull, u_passwordHash = VNull\<rparr>"

theorem login_failures_alike_witness:
  "login demoAuth (\<lambda>_ w. (Inr None, w)) (\<lambda>_ _ _. throwM authRequired) ''a@b.cd'' ''pw'' [] =
     (Inl invalidCredentials, [EvVerify (VStr DUMMY_PASSWORD_HASH) ''pw'']) \<and>
   login demoAuth (\<lambda>_ w. (Inr (Some demoUser), w)) (\<lambda>_ _ _. throwM authRequired) ''a@b.cd'' ''pw'' [] =
     (Inl invalidCredentials, [EvVerify VNull ''pw''])"
proof -
  have n: "normaliseEmail ''a@b.cd'' = Inr ''a@b.cd''" by code_simp
  have v: "argonVerify demoAuth (u_passwordHash demoUser) ''pw'' \<noteq> Inr True"
    by (simp add: demoAuth_def)
  have h: "u_passwordHash demoUser = VNull" by (simp add: demoUser_def)
  show ?thesis
    using login_failures_alike [OF n, where findA = "\<lambda>_ w. (Inr None, w)" and w = "[]"
        and findB = "\<lambda>_ w. (Inr (Some demoUser), w)", OF refl refl v] by (simp add: h)
qed



end
