(* ===== verification/DataValidate.thy ===== *)
theory DataValidate
  imports AppErrors
begin

text \<open>
  Input validation of \<open>src/data/validate.ts\<close>: canonical UUIDs, page bounds, the iterative
  JSON check over the object heap, and the column allow-lists.
\<close>

definition dataError :: "(string \<times> detail) list \<Rightarrow> thrown" where
  "dataError ds = DomErr (validationError ds)"

subsection \<open>Canonical UUIDs\<close>

fun hexGroups :: "nat list \<Rightarrow> string \<Rightarrow> bool" where
  "hexGroups [] s = (s = [])"
| "hexGroups [n] s = (length s = n \<and> list_all isHexLower s)"
| "hexGroups (n # ns) s =
     (length (take n s) = n \<and> list_all isHexLower (take n s) \<and>
      (case drop n s of [] \<Rightarrow> False | c # cs \<Rightarrow> c = CHR ''-'' \<and> hexGroups ns cs))"

definition isCanonicalUuid :: "string \<Rightarrow> bool" where
  "isCanonicalUuid value = hexGroups [8, 4, 4, 4, 12] value"

definition requireCanonicalUuid :: "string \<Rightarrow> string \<Rightarrow> thrown + string" where
  "requireCanonicalUuid value field =
     (if \<not> isCanonicalUuid value then Inl (dataError [(field, dstr ''Must be a canonical UUID'')])
      else Inr value)"

subsection \<open>Page bounds\<close>

definition resolveLimit :: "jsval \<Rightarrow> thrown + int" where
  "resolveLimit limit =
     (if limit = VUndef then Inr 50
      else (case intInRange 1 100 limit of
              None \<Rightarrow> Inl (dataError [(''limit'', dstr ''Must be an integer between 1 and 100'')])
            | Some n \<Rightarrow> Inr n))"

definition resolveOffset :: "jsval \<Rightarrow> thrown + int" where
  "resolveOffset offset =
     (if offset = VUndef then Inr 0
      else (case intInRange 0 100000 offset of
              None \<Rightarrow> Inl (dataError [(''offset'', dstr ''Must be an integer between 0 and 100000'')])
            | Some n \<Rightarrow> Inr n))"

subsection \<open>JSON values\<close>

definition isPlainObject :: "heap \<Rightarrow> jsval \<Rightarrow> bool" where
  "isPlainObject h v =
     (if v = VNull \<or> \<not> typeofObject v \<or> isArray h v then False
      else (case deref h v of
              Some (OObj p ps) \<Rightarrow> p = ObjectProto \<or> p = NullProto
            | _ \<Rightarrow> False))"

lemma unseen_decreases:
  fixes a n :: nat
  assumes "a \<notin> set seen" and "a < n"
  shows "card ({..<n} - set (a # seen)) < card ({..<n} - set seen)"
proof -
  have eq: "{..<n} - set (a # seen) = ({..<n} - set seen) - {a}" by auto
  show ?thesis unfolding eq using assms by (intro card_Diff1_less) auto
qed

text \<open>
  The worklist loop.  The head of the list is the top of the stack; children are pushed in
  order, so the last one is visited first.  Every object visited is new, so the loop ends
  on cyclic heaps too.
\<close>

function isJsonLoop :: "heap \<Rightarrow> addr list \<Rightarrow> jsval list \<Rightarrow> bool" where
  "isJsonLoop h seen [] = True"
| "isJsonLoop h seen (VUndef # stack) = False"
| "isJsonLoop h seen (VNull # stack) = isJsonLoop h seen stack"
| "isJsonLoop h seen (VStr s # stack) = isJsonLoop h seen stack"
| "isJsonLoop h seen (VBool b # stack) = isJsonLoop h seen stack"
| "isJsonLoop h seen (VNum n # stack) = (if \<not> numIsFinite n then False else isJsonLoop h seen stack)"
| "isJsonLoop h seen (VExotic # stack) = False"
| "isJsonLoop h seen (VBytes bs # stack) = False"
| "isJsonLoop h seen (VDate d # stack) = False"
| "isJsonLoop h seen (VRef a # stack) =
     (if a \<in> set seen \<or> length h \<le> a then False
      else (case h ! a of
              OArr xs \<Rightarrow>
                if None \<in> set xs then False
                else isJsonLoop h (a # seen) (rev (map the xs) @ stack)
            | OBuffer bs \<Rightarrow> False
            | ODate d \<Rightarrow> False
            | OObj p ps \<Rightarrow>
                if \<not> isPlainObject h (VRef a) then False
                else isJsonLoop h (a # seen) (rev (map snd ps) @ stack)))"
  by pat_completeness auto
termination
proof (relation "measures [\<lambda>(h, seen, stack). card ({..<length h} - set seen),
                           \<lambda>(h, seen, stack). length stack]", goal_cases)
  case (6 h seen a stack xs)
  then have "card ({..<length h} - set (a # seen)) < card ({..<length h} - set seen)"
    by (intro unseen_decreases) auto
  then show ?case by simp
next
  case (7 h seen a stack p ps)
  then have "card ({..<length h} - set (a # seen)) < card ({..<length h} - set seen)"
    by (intro unseen_decreases) auto
  then show ?case by simp
qed auto

definition isJsonValue :: "heap \<Rightarrow> jsval \<Rightarrow> bool" where
  "isJsonValue h value = isJsonLoop h [] [value]"

definition bodyError :: thrown where
  "bodyError = dataError [(''body'', dstr ''Must be a non-empty JSON object'')]"

definition jsonError :: thrown where
  "jsonError = dataError [(''body'', dstr ''Must contain JSON-compatible values only'')]"

definition requireNonEmptyPlainObject :: "heap \<Rightarrow> jsval \<Rightarrow> thrown + (string \<times> jsval) list" where
  "requireNonEmptyPlainObject h values =
     (if \<not> isPlainObject h values then Inl bodyError
      else if objectKeys h values = [] then Inl bodyError
      else Inr (ownProps h values))"

definition requireJsonDataRow :: "heap \<Rightarrow> jsval \<Rightarrow> thrown + (string \<times> jsval) list" where
  "requireJsonDataRow h values =
     bindR (requireNonEmptyPlainObject h values) (\<lambda>object.
       if \<not> isJsonValue h values then Inl jsonError else Inr object)"

datatype column_kind = Insertable | Updatable

definition assertKeysAllowed ::
  "(string \<times> jsval) list \<Rightarrow> string list \<Rightarrow> column_kind \<Rightarrow> thrown + unit" where
  "assertKeysAllowed values allowed kind =
     (let invalidEntries =
        map (\<lambda>k. (k, dstr (case kind of Insertable \<Rightarrow> ''Column is not insertable''
                                      | Updatable \<Rightarrow> ''Column is not updatable'')))
          (filter (\<lambda>k. k \<notin> set allowed) (map fst values))
      in if invalidEntries \<noteq> [] then Inl (dataError invalidEntries) else Inr ())"

subsection \<open>What the JSON check accepts\<close>

text \<open>
  The specification: \<open>v\<close> unfolds to a finite JSON tree, and the list holds the addresses of
  its objects in the order of the visit.
\<close>

inductive jsonAt :: "heap \<Rightarrow> jsval \<Rightarrow> addr list \<Rightarrow> bool" for h :: heap where
  json_null: "jsonAt h VNull []"
| json_str: "jsonAt h (VStr s) []"
| json_bool: "jsonAt h (VBool b) []"
| json_num: "numIsFinite n \<Longrightarrow> jsonAt h (VNum n) []"
| json_arr: "a < length h \<Longrightarrow> h ! a = OArr xs \<Longrightarrow> None \<notin> set xs \<Longrightarrow>
    list_all2 (jsonAt h) (rev (map the xs)) ass \<Longrightarrow> jsonAt h (VRef a) (a # concat ass)"
| json_obj: "a < length h \<Longrightarrow> h ! a = OObj p ps \<Longrightarrow> p \<noteq> OtherProto \<Longrightarrow>
    list_all2 (jsonAt h) (rev (map snd ps)) ass \<Longrightarrow> jsonAt h (VRef a) (a # concat ass)"

inductive_simps jsonAt_simps [simp]:
  "jsonAt h VUndef as" "jsonAt h VNull as" "jsonAt h (VStr s) as" "jsonAt h (VBool b) as"
  "jsonAt h (VNum n) as" "jsonAt h VExotic as" "jsonAt h (VBytes bs) as" "jsonAt h (VDate d) as"

inductive_simps jsonAt_VRef: "jsonAt h (VRef a) as"

lemma isPlainObject_VRef:
  "a < length h \<Longrightarrow> h ! a = OObj p ps \<Longrightarrow> isPlainObject h (VRef a) \<longleftrightarrow> p \<noteq> OtherProto"
  by (cases p) (auto simp: isPlainObject_def isArray_def)

text \<open>
  What the loop decides of a stack: every entry is a JSON tree and no object is met twice,
  in the whole stack or among the objects already seen.
\<close>

definition stackOk :: "heap \<Rightarrow> addr list \<Rightarrow> jsval list \<Rightarrow> bool" where
  "stackOk h seen stack \<longleftrightarrow>
     (\<exists>ass. list_all2 (jsonAt h) stack ass \<and> distinct (concat ass) \<and> set (concat ass) \<inter> set seen = {})"

lemma stackOk_Nil [simp]: "stackOk h seen []"
  by (simp add: stackOk_def)

lemma stackOk_leaf:
  assumes "\<And>as. jsonAt h v as \<longleftrightarrow> as = []"
  shows "stackOk h seen (v # st) \<longleftrightarrow> stackOk h seen st"
proof -
  have "list_all2 (jsonAt h) (v # st) ass \<longleftrightarrow> (\<exists>bss. ass = [] # bss \<and> list_all2 (jsonAt h) st bss)" for ass
    by (auto simp: list_all2_Cons1 assms)
  then show ?thesis unfolding stackOk_def by (metis append_Nil concat.simps(2))
qed

lemma stackOk_bad: "(\<And>as. \<not> jsonAt h v as) \<Longrightarrow> \<not> stackOk h seen (v # st)"
  by (auto simp: stackOk_def list_all2_Cons1)

lemma stackOk_prim [simp]:
  "\<not> stackOk h seen (VUndef # st)"
  "\<not> stackOk h seen (VExotic # st)"
  "\<not> stackOk h seen (VBytes bs # st)"
  "\<not> stackOk h seen (VDate d # st)"
  "stackOk h seen (VNull # st) \<longleftrightarrow> stackOk h seen st"
  "stackOk h seen (VStr s # st) \<longleftrightarrow> stackOk h seen st"
  "stackOk h seen (VBool b # st) \<longleftrightarrow> stackOk h seen st"
  by (simp_all add: stackOk_leaf stackOk_bad)

lemma stackOk_num [simp]:
  "stackOk h seen (VNum n # st) \<longleftrightarrow> numIsFinite n \<and> stackOk h seen st"
  by (cases "numIsFinite n") (simp_all add: stackOk_leaf stackOk_bad)

text \<open>Opening one object: its children take its place, and it joins the seen ones.\<close>

lemma stackOk_open:
  assumes "\<And>as. jsonAt h (VRef a) as \<longleftrightarrow> (\<exists>ass. as = a # concat ass \<and> list_all2 (jsonAt h) vs ass)"
  shows "stackOk h seen (VRef a # st) \<longleftrightarrow> a \<notin> set seen \<and> stackOk h (a # seen) (vs @ st)"
proof -
  have Q: "(\<exists>ass. list_all2 (jsonAt h) (VRef a # st) ass \<and> Q (concat ass)) \<longleftrightarrow>
    (\<exists>ass bss. list_all2 (jsonAt h) vs ass \<and> list_all2 (jsonAt h) st bss \<and>
       Q (a # concat ass @ concat bss))" for Q
    by (force simp: list_all2_Cons1 assms)
  have ref: "stackOk h seen (VRef a # st) \<longleftrightarrow>
    (\<exists>ass bss. list_all2 (jsonAt h) vs ass \<and> list_all2 (jsonAt h) st bss \<and>
       distinct (a # concat ass @ concat bss) \<and> set (a # concat ass @ concat bss) \<inter> set seen = {})"
    unfolding stackOk_def using Q [of "\<lambda>as. distinct as \<and> set as \<inter> set seen = {}"] .
  have "stackOk h (a # seen) (vs @ st) \<longleftrightarrow>
    (\<exists>ass bss. list_all2 (jsonAt h) vs ass \<and> list_all2 (jsonAt h) st bss \<and>
       distinct (concat ass @ concat bss) \<and> set (concat ass @ concat bss) \<inter> set (a # seen) = {})"
    unfolding stackOk_def list_all2_append1
    by (metis concat_append list_all2_lengthD)
  moreover have "distinct (a # A @ B) \<and> set (a # A @ B) \<inter> set seen = {} \<longleftrightarrow>
    a \<notin> set seen \<and> distinct (A @ B) \<and> set (A @ B) \<inter> set (a # seen) = {}" for A B
    by auto
  ultimately show ?thesis unfolding ref by meson
qed

lemma isJsonLoop_stackOk: "isJsonLoop h seen stack \<longleftrightarrow> stackOk h seen stack"
proof (induction h seen stack rule: isJsonLoop.induct)
  case (10 h seen a stack)
  show ?case
  proof (cases "length h \<le> a")
    case True
    then show ?thesis by (auto simp: stackOk_def list_all2_Cons1 jsonAt_VRef)
  next
    case a: False
    show ?thesis
    proof (cases "h ! a")
      case (OArr xs)
      show ?thesis
      proof (cases "None \<in> set xs")
        case True
        with OArr show ?thesis by (auto simp: stackOk_def list_all2_Cons1 jsonAt_VRef)
      next
        case False
        have "jsonAt h (VRef a) as \<longleftrightarrow>
          (\<exists>ass. as = a # concat ass \<and> list_all2 (jsonAt h) (rev (map the xs)) ass)" for as
          using a OArr False by (auto simp: jsonAt_VRef)
        from stackOk_open [OF this, of seen stack] a OArr False "10.IH"(1) show ?thesis by auto
      qed
    next
      case (OObj p ps)
      show ?thesis
      proof (cases "p = OtherProto")
        case True
        with OObj a show ?thesis
          by (auto simp: stackOk_def list_all2_Cons1 isPlainObject_VRef jsonAt_VRef)
      next
        case False
        have "jsonAt h (VRef a) as \<longleftrightarrow>
          (\<exists>ass. as = a # concat ass \<and> list_all2 (jsonAt h) (rev (map snd ps)) ass)" for as
          using a OObj False by (auto simp: jsonAt_VRef)
        from stackOk_open [OF this, of seen stack] a OObj False "10.IH"(2) show ?thesis
          by (auto simp: isPlainObject_VRef)
      qed
    qed (use a in \<open>auto simp: stackOk_def list_all2_Cons1 jsonAt_VRef\<close>)
  qed
qed auto

lemma isJsonValue_iff: "isJsonValue h v \<longleftrightarrow> (\<exists>as. jsonAt h v as \<and> distinct as)"
  by (auto simp: isJsonValue_def isJsonLoop_stackOk stackOk_def list_all2_Cons1)

subsection \<open>Facts about the guards\<close>

lemma requireCanonicalUuid_Inr:
  "requireCanonicalUuid s f = Inr t \<longleftrightarrow> isCanonicalUuid s \<and> t = s"
  by (auto simp: requireCanonicalUuid_def)

lemma resolveLimit_Inr:
  "resolveLimit v = Inr n \<Longrightarrow> 1 \<le> n \<and> n \<le> 100"
  by (auto simp: resolveLimit_def intInRange_Some split: if_splits option.splits)

lemma resolveOffset_Inr:
  "resolveOffset v = Inr n \<Longrightarrow> 0 \<le> n \<and> n \<le> 100000"
  by (auto simp: resolveOffset_def intInRange_Some split: if_splits option.splits)

lemma resolveLimit_int:
  "resolveLimit (VNum (JFin (of_int n))) =
   (if 1 \<le> n \<and> n \<le> 100 then Inr n
    else Inl (dataError [(''limit'', dstr ''Must be an integer between 1 and 100'')]))"
  by (simp add: resolveLimit_def)

lemma requireJsonDataRow_Inr:
  "requireJsonDataRow h v = Inr ps \<longleftrightarrow>
   isPlainObject h v \<and> isJsonValue h v \<and> ps = ownProps h v \<and> ps \<noteq> []"
  by (auto simp: requireJsonDataRow_def requireNonEmptyPlainObject_def res_simps)

lemma assertKeysAllowed_Inr:
  "assertKeysAllowed values allowed kind = Inr u \<longleftrightarrow> set (map fst values) \<subseteq> set allowed"
  by (auto simp: assertKeysAllowed_def Let_def filter_empty_conv)

section \<open>Properties\<close>

text \<open>C22: The iterative JSON check terminates on every heap, cyclic ones included, and accepts a value
  exactly when it unfolds to a finite tree of plain objects, dense arrays, finite numbers, strings,
  booleans and null in which no object occurs twice.\<close>
theorem json_check_exact:
  "isJsonValue h v \<longleftrightarrow> (\<exists>as. jsonAt h v as \<and> distinct as)"
  by (rule isJsonValue_iff)

end
