(* ===== verification/Identifiers.thy ===== *)
theory Identifiers
  imports AppErrors
begin

text \<open>
  The audited identifier quoting of \<open>src/database/identifier.ts\<close>, and what PostgreSQL reads
  back from a quoted identifier.
\<close>

text \<open>\<open>name.replace(/"/g, '""')\<close>.\<close>

definition doubleQuotes :: "string \<Rightarrow> string" where
  "doubleQuotes name = concat (map (\<lambda>c. if c = dquote then [dquote, dquote] else [c]) name)"

definition quoteIdentifier :: "string \<Rightarrow> thrown + string" where
  "quoteIdentifier name =
     (if \<not> simpleIdentifier name then Inl (ErrObj (''Invalid SQL identifier: '' @ name) [])
      else Inr (dquote # doubleQuotes name @ [dquote]))"

definition quoteQualifiedName :: "string \<Rightarrow> string \<Rightarrow> thrown + string" where
  "quoteQualifiedName schema table =
     bindR (quoteIdentifier schema) (\<lambda>s.
     bindR (quoteIdentifier table) (\<lambda>t. Inr (s @ ''.'' @ t)))"

text \<open>
  The SQL lexer's reading of a delimited identifier: after the opening quote, a doubled
  quote is one quote character and a single quote ends the identifier.  The result is the
  name and the rest of the text.
\<close>

fun readDelimited :: "string \<Rightarrow> (string \<times> string) option" where
  "readDelimited [] = None"
| "readDelimited [c] = (if c = dquote then Some ([], []) else None)"
| "readDelimited (c # d # s) =
     (if c = dquote then
        (if d = dquote then map_option (\<lambda>(n, r). (dquote # n, r)) (readDelimited s)
         else Some ([], d # s))
      else map_option (\<lambda>(n, r). (c # n, r)) (readDelimited (d # s)))"

definition readIdentifier :: "string \<Rightarrow> (string \<times> string) option" where
  "readIdentifier s = (case s of [] \<Rightarrow> None | c # cs \<Rightarrow> if c = dquote then readDelimited cs else None)"

lemma simpleIdentifier_no_dquote: "simpleIdentifier s \<Longrightarrow> dquote \<notin> set s"
  using simpleIdentifier_chars identChar_not_special by blast

lemma doubleQuotes_id: "dquote \<notin> set s \<Longrightarrow> doubleQuotes s = s"
  unfolding doubleQuotes_def by (induction s) auto

lemma quoteIdentifier_Inr:
  "quoteIdentifier s = Inr q \<longleftrightarrow> simpleIdentifier s \<and> q = dquote # s @ [dquote]"
  by (auto simp: quoteIdentifier_def doubleQuotes_id simpleIdentifier_no_dquote)

lemma quoteIdentifier_ok [simp]:
  "simpleIdentifier s \<Longrightarrow> quoteIdentifier s = Inr (dquote # s @ [dquote])"
  by (simp add: quoteIdentifier_Inr)

lemma quoteQualifiedName_Inr:
  "quoteQualifiedName s t = Inr q \<longleftrightarrow>
   simpleIdentifier s \<and> simpleIdentifier t \<and>
   q = dquote # s @ [dquote, CHR ''.'', dquote] @ t @ [dquote]"
  by (auto simp: quoteQualifiedName_def res_simps quoteIdentifier_Inr)

lemma readDelimited_append:
  "dquote \<notin> set s \<Longrightarrow> (rest = [] \<or> hd rest \<noteq> dquote) \<Longrightarrow>
   readDelimited (s @ dquote # rest) = Some (s, rest)"
proof (induction s)
  case Nil
  then show ?case by (cases rest) auto
next
  case (Cons c s)
  then show ?case by (cases s) auto
qed

lemma readIdentifier_quote:
  assumes "quoteIdentifier s = Inr q" and "rest = [] \<or> hd rest \<noteq> dquote"
  shows "readIdentifier (q @ rest) = Some (s, rest)"
  using assms readDelimited_append [OF simpleIdentifier_no_dquote, of s rest]
  by (simp add: quoteIdentifier_Inr readIdentifier_def)

lemma quoteIdentifier_inject:
  "quoteIdentifier s = Inr q \<Longrightarrow> quoteIdentifier t = Inr q \<Longrightarrow> s = t"
  by (simp add: quoteIdentifier_Inr)

text \<open>The quoted list of columns, or \<open>NULL\<close> when there is none.\<close>

definition quotedList :: "string list \<Rightarrow> thrown + string" where
  "quotedList cs =
     (if cs = [] then Inr ''NULL''
      else bindR (mapR quoteIdentifier cs) (\<lambda>qs. Inr (joinWith '', '' qs)))"

lemma mapR_quote_ok:
  "(\<And>c. c \<in> set cs \<Longrightarrow> simpleIdentifier c) \<Longrightarrow>
   mapR quoteIdentifier cs = Inr (map (\<lambda>c. dquote # c @ [dquote]) cs)"
  by (induction cs) auto

text \<open>
  A qualified name read back by the lexer is exactly the verified schema and table.
\<close>

lemma quoteQualifiedName_lexes:
  assumes "quoteQualifiedName s t = Inr q"
  shows "readIdentifier q = Some (s, CHR ''.'' # dquote # t @ [dquote])"
    and "readIdentifier (dquote # t @ [dquote]) = Some (t, [])"
proof -
  from assms have st: "simpleIdentifier s" "simpleIdentifier t"
    and q: "q = dquote # s @ [dquote, CHR ''.'', dquote] @ t @ [dquote]"
    by (auto simp: quoteQualifiedName_Inr)
  show "readIdentifier q = Some (s, CHR ''.'' # dquote # t @ [dquote])"
    using readIdentifier_quote [of s "dquote # s @ [dquote]" "CHR ''.'' # dquote # t @ [dquote]"] st q
    by simp
  show "readIdentifier (dquote # t @ [dquote]) = Some (t, [])"
    using readIdentifier_quote [of t "dquote # t @ [dquote]" "[]"] st by simp
qed

section \<open>Properties\<close>



end
