(* ===== verification/Numbers.thy ===== *)
theory Numbers
  imports JsValues
begin

text \<open>
  \<open>Number(s)\<close> of a string, as the configuration and the query parameters use it: the
  ECMAScript string-numeric grammar, its exact rational value, and rounding to the nearest
  double (ties to even).
\<close>

fun natLog2 :: "nat \<Rightarrow> nat" where
  "natLog2 n = (if n \<le> 1 then 0 else Suc (natLog2 (n div 2)))"

declare natLog2.simps [simp del]

definition pow2 :: "int \<Rightarrow> rat" where
  "pow2 e = (if 0 \<le> e then 2 ^ nat e else 1 / 2 ^ nat (- e))"

text \<open>The binary exponent of a positive rational: \<open>2 ^ e \<le> q < 2 ^ (e + 1)\<close>.\<close>

definition binExp :: "rat \<Rightarrow> int" where
  "binExp q =
     (if 1 \<le> q then int (natLog2 (nat \<lfloor>q\<rfloor>))
      else (let j = natLog2 (nat \<lfloor>1 / q\<rfloor>)
            in if q * 2 ^ j = 1 then - int j else - int (Suc j)))"

definition roundHalfEven :: "rat \<Rightarrow> int" where
  "roundHalfEven x =
     (let f = \<lfloor>x\<rfloor>; r = x - of_int f
      in if r < 1 / 2 then f else if 1 / 2 < r then f + 1 else if even f then f else f + 1)"

definition roundDouble :: "rat \<Rightarrow> jnum" where
  "roundDouble q =
     (if q = 0 then JFin 0
      else (let p = max (binExp \<bar>q\<bar> - 52) (- 1074);
                v = of_int (roundHalfEven (\<bar>q\<bar> / pow2 p)) * pow2 p
            in if 2 ^ 1024 \<le> v then JInf (0 < q) else JFin (sgn q * v)))"

definition digitsOf :: "nat \<Rightarrow> char \<Rightarrow> nat option" where
  "digitsOf base c =
     (let d = (if isDigit c then Some (ccode c - 48)
               else if between 97 102 c then Some (ccode c - 87)
               else if between 65 70 c then Some (ccode c - 55) else None)
      in (case d of Some n \<Rightarrow> if n < base then Some n else None | None \<Rightarrow> None))"

fun radixVal :: "nat \<Rightarrow> nat \<Rightarrow> string \<Rightarrow> nat option" where
  "radixVal base acc [] = Some acc"
| "radixVal base acc (c # cs) =
     (case digitsOf base c of Some d \<Rightarrow> radixVal base (base * acc + d) cs | None \<Rightarrow> None)"

definition radixNumber :: "nat \<Rightarrow> string \<Rightarrow> jnum" where
  "radixNumber base s =
     (if s = [] then JNaN
      else (case radixVal base 0 s of Some n \<Rightarrow> roundDouble (of_nat n) | None \<Rightarrow> JNaN))"

text \<open>An unsigned decimal: digits, an optional fraction, an optional exponent.\<close>

definition expPart :: "string \<Rightarrow> int option" where
  "expPart s =
     (case s of
        [] \<Rightarrow> Some 0
      | c # cs \<Rightarrow>
        (if c = CHR ''e'' \<or> c = CHR ''E'' then
           (let (neg, ds) = (case cs of d # ds \<Rightarrow> if d = CHR ''-'' then (True, ds)
                                                else if d = CHR ''+'' then (False, ds) else (False, cs)
                             | [] \<Rightarrow> (False, []))
            in if ds \<noteq> [] \<and> list_all isDigit ds
               then Some (if neg then - int (digitsVal ds) else int (digitsVal ds)) else None)
         else None))"

definition decimalVal :: "string \<Rightarrow> rat option" where
  "decimalVal s =
     (let ip = takeWhile isDigit s; r = dropWhile isDigit s;
          (fp, r') = (case r of c # cs \<Rightarrow> if c = CHR ''.'' then (takeWhile isDigit cs, dropWhile isDigit cs)
                                          else ([], r) | [] \<Rightarrow> ([], []))
      in if ip = [] \<and> fp = [] then None
         else (case expPart r' of
                 None \<Rightarrow> None
               | Some e \<Rightarrow>
                   (let m = of_nat (digitsVal (ip @ fp)); k = e - int (length fp)
                    in Some (if 0 \<le> k then m * 10 ^ nat k else m / 10 ^ nat (- k)))))"

definition unsignedNumber :: "string \<Rightarrow> jnum" where
  "unsignedNumber s =
     (if s = ''Infinity'' then JInf True
      else (case decimalVal s of Some q \<Rightarrow> roundDouble q | None \<Rightarrow> JNaN))"

fun negNum :: "jnum \<Rightarrow> jnum" where
  "negNum (JFin q) = JFin (- q)"
| "negNum JNaN = JNaN"
| "negNum (JInf b) = JInf (\<not> b)"

definition strToNumber :: "string \<Rightarrow> jnum" where
  "strToNumber s0 =
     (let s = trim s0
      in case s of
           [] \<Rightarrow> JFin 0
         | c # cs \<Rightarrow>
           (if c = CHR ''0'' \<and> cs \<noteq> [] \<and> (hd cs = CHR ''x'' \<or> hd cs = CHR ''X'') then radixNumber 16 (tl cs)
            else if c = CHR ''0'' \<and> cs \<noteq> [] \<and> (hd cs = CHR ''o'' \<or> hd cs = CHR ''O'') then radixNumber 8 (tl cs)
            else if c = CHR ''0'' \<and> cs \<noteq> [] \<and> (hd cs = CHR ''b'' \<or> hd cs = CHR ''B'') then radixNumber 2 (tl cs)
            else if c = CHR ''-'' then negNum (unsignedNumber cs)
            else if c = CHR ''+'' then unsignedNumber cs
            else unsignedNumber s))"

subsection \<open>Exactness on the safe integers\<close>

lemma natLog2_bounds: "0 < n \<Longrightarrow> 2 ^ natLog2 n \<le> n \<and> n < 2 ^ Suc (natLog2 n)"
proof (induction n rule: natLog2.induct)
  case (1 n)
  show ?case
  proof (cases "n \<le> 1")
    case True
    with 1 show ?thesis by (simp add: natLog2.simps [of n])
  next
    case False
    then have "0 < n div 2" by simp
    with 1 False have "2 ^ natLog2 (n div 2) \<le> n div 2 \<and> n div 2 < 2 ^ Suc (natLog2 (n div 2))"
      by blast
    with False show ?thesis by (auto simp: natLog2.simps [of n])
  qed
qed

lemma roundHalfEven_int [simp]: "roundHalfEven (of_int n) = n"
  by (simp add: roundHalfEven_def)

lemma roundDouble_nat:
  assumes "n \<le> 2 ^ 53"
  shows "roundDouble (of_nat n) = JFin (of_nat n)"
proof (cases "n = 0")
  case True
  then show ?thesis by (simp add: roundDouble_def)
next
  case False
  define k where "k = natLog2 n"
  from False have kb: "2 ^ k \<le> n" by (simp add: k_def natLog2_bounds)
  have k53: "k \<le> 53"
  proof (rule ccontr)
    assume "\<not> k \<le> 53"
    then have "(2::nat) ^ 54 \<le> 2 ^ k" by (intro power_increasing) auto
    with kb assms show False by simp
  qed
  have be: "binExp (of_nat n) = int k"
    using False by (simp add: binExp_def k_def)
  have lt: "(of_nat n :: rat) < 2 ^ 1024"
  proof -
    have "(of_nat n :: rat) \<le> of_nat (2 ^ 53)" using assms by (rule of_nat_mono)
    then show ?thesis by simp
  qed
  show ?thesis
  proof (cases "k \<le> 52")
    case True
    define p where "p = int k - 52"
    have p: "max (binExp (of_nat n) - 52) (- 1074) = p" "p \<le> 0"
      using True be by (auto simp: p_def)
    define j where "j = nat (- p)"
    have pw: "pow2 p = 1 / 2 ^ j" using p(2) by (cases "p = 0") (auto simp: pow2_def j_def)
    have q: "(of_nat n :: rat) / pow2 p = of_int (int n * 2 ^ j)"
      by (simp add: pw)
    have "of_int (roundHalfEven ((of_nat n :: rat) / pow2 p)) * pow2 p = of_nat n"
      unfolding q roundHalfEven_int by (simp add: pw)
    with False lt show ?thesis by (simp add: roundDouble_def p(1) Let_def)
  next
    case False2: False
    with k53 have k: "k = 53" by simp
    with kb assms have n: "n = 2 ^ 53" by simp
    have p: "max (binExp (of_nat n) - 52) (- 1074) = 1" using be k by simp
    have q: "(of_nat n :: rat) / pow2 1 = of_int (2 ^ 52)" by (simp add: n pow2_def)
    have "of_int (roundHalfEven ((of_nat n :: rat) / pow2 1)) * pow2 1 = of_nat n"
      unfolding q roundHalfEven_int by (simp add: n pow2_def)
    with False lt show ?thesis by (simp add: roundDouble_def p Let_def)
  qed
qed

lemma dropWhile_digits: "list_all isDigit s \<Longrightarrow> dropWhile isDigit s = []"
  by (simp add: list_all_iff)

lemma decimalVal_digits:
  assumes "s \<noteq> []" and "list_all isDigit s"
  shows "decimalVal s = Some (of_nat (digitsVal s))"
proof -
  have t: "takeWhile isDigit s = s" using assms(2) by (simp add: takeWhile_eq_all_conv list_all_iff)
  show ?thesis
    unfolding decimalVal_def Let_def t dropWhile_digits [OF assms(2)]
    using assms(1) by (simp add: expPart_def)
qed

lemma isDigit_props: "isDigit c \<Longrightarrow> \<not> isWhite c \<and> c \<noteq> CHR ''-'' \<and> c \<noteq> CHR ''+'' \<and>
   c \<noteq> CHR ''x'' \<and> c \<noteq> CHR ''X'' \<and> c \<noteq> CHR ''o'' \<and> c \<noteq> CHR ''O'' \<and> c \<noteq> CHR ''b'' \<and>
   c \<noteq> CHR ''B'' \<and> c \<noteq> CHR ''I''"
  by (auto simp: char_class_defs)

lemma strToNumber_digits:
  assumes "s \<noteq> []" and "list_all isDigit s" and "digitsVal s \<le> 2 ^ 53"
  shows "strToNumber s = JFin (of_nat (digitsVal s))"
proof -
  from assms(1) obtain c cs where s: "s = c # cs" by (cases s) auto
  have d: "isDigit (hd s)" "isDigit (last s)" "isDigit c"
    using assms(1,2) s by (auto simp: list_all_iff)
  have t: "trim s = s" unfolding trim_def using d isDigit_props by (intro trimBy_id) blast
  have ni: "s \<noteq> ''Infinity''" using d(3) isDigit_props s by auto
  have cs: "cs \<noteq> [] \<Longrightarrow> isDigit (hd cs)" using assms(2) s by (cases cs) auto
  have "strToNumber s = unsignedNumber s"
    using d(3) cs isDigit_props t unfolding strToNumber_def Let_def t s by auto
  also have "\<dots> = JFin (of_nat (digitsVal s))"
    using ni assms by (simp add: unsignedNumber_def decimalVal_digits roundDouble_nat)
  finally show ?thesis .
qed

lemma strToNumber_natStr: "n \<le> 2 ^ 53 \<Longrightarrow> strToNumber (natStr n) = JFin (of_nat n)"
  using strToNumber_digits [of "natStr n"] natStr_digits [of n] by (simp add: list_all_iff)

section \<open>Properties\<close>

text \<open>The decimal text of every natural number up to 2 to the 53rd is read back as exactly that
  number, with no rounding.\<close>
theorem decimal_text_is_exact:
  assumes "n \<le> 2 ^ 53"
  shows "strToNumber (natStr n) = JFin (of_nat n)"
  by (rule strToNumber_natStr [OF assms])

theorem decimal_text_is_exact_witness: "strToNumber (natStr 4711) = JFin 4711"
  using decimal_text_is_exact [of 4711] by simp

end
