(* ===== verification/Dates.thy ===== *)
theory Dates
  imports AppErrors
begin

text \<open>
  \<open>Date.prototype.toISOString\<close>: the proleptic Gregorian calendar over milliseconds since
  the epoch.  An invalid date throws a \<open>RangeError\<close>.
\<close>

definition padNat :: "nat \<Rightarrow> nat \<Rightarrow> string" where
  "padNat w n = (let s = natStr n in replicate (w - length s) (CHR ''0'') @ s)"

text \<open>Year, month and day of a day number (day 0 is 1970-01-01).\<close>

definition civilFromDays :: "int \<Rightarrow> int \<times> int \<times> int" where
  "civilFromDays days =
     (let z = days + 719468;
          era = z div 146097;
          doe = z mod 146097;
          yoe = (doe - doe div 1460 + doe div 36524 - doe div 146096) div 365;
          doy = doe - (365 * yoe + yoe div 4 - yoe div 100);
          mp = (5 * doy + 2) div 153;
          d = doy - (153 * mp + 2) div 5 + 1;
          m = (if mp < 10 then mp + 3 else mp - 9);
          y = yoe + era * 400 + (if m \<le> 2 then 1 else 0)
      in (y, m, d))"

definition yearStr :: "int \<Rightarrow> string" where
  "yearStr y =
     (if 0 \<le> y \<and> y \<le> 9999 then padNat 4 (nat y)
      else if y < 0 then CHR ''-'' # padNat 6 (nat (- y)) else CHR ''+'' # padNat 6 (nat y))"

definition isoOfMs :: "int \<Rightarrow> string" where
  "isoOfMs ms =
     (let (y, m, d) = civilFromDays (ms div 86400000);
          t = ms mod 86400000
      in yearStr y @ ''-'' @ padNat 2 (nat m) @ ''-'' @ padNat 2 (nat d) @ ''T'' @
         padNat 2 (nat (t div 3600000)) @ '':'' @ padNat 2 (nat (t div 60000 mod 60)) @ '':'' @
         padNat 2 (nat (t div 1000 mod 60)) @ ''.'' @ padNat 3 (nat (t mod 1000)) @ ''Z'')"

definition toISOString :: "int option \<Rightarrow> thrown + string" where
  "toISOString d =
     (case d of
        Some ms \<Rightarrow> if \<bar>ms\<bar> \<le> 8640000000000000 then Inr (isoOfMs ms)
                   else Inl (ErrObj ''Invalid time value'' [])
      | None \<Rightarrow> Inl (ErrObj ''Invalid time value'' []))"

lemma civilFromDays_epoch: "civilFromDays 0 = (1970, 1, 1)"
  by code_simp

lemma civilFromDays_leap: "civilFromDays 11016 = (2000, 2, 29)"
  by code_simp

lemma toISOString_epoch: "toISOString (Some 0) = Inr ''1970-01-01T00:00:00.000Z''"
  by code_simp

end
