(* ===== verification/TableTypes.thy ===== *)
theory TableTypes
  imports Driver Numbers Dates
begin

text \<open>
  The PostgreSQL-to-JSON conversions of \<open>src/database/table-types.ts\<close>.
\<close>

datatype json =
    JNull
  | JBool bool
  | JNum jnum
  | JStr string
  | JArr "json option list" \<comment> \<open>\<open>None\<close> is a hole\<close>
  | JObj "(string \<times> json) list"

definition asString :: "runtime \<Rightarrow> jsval \<Rightarrow> thrown + string" where
  "asString R value =
     (case value of
        VNull \<Rightarrow> Inr []
      | VStr s \<Rightarrow> Inr s
      | _ \<Rightarrow> (case dateOf (heap R) value of
               Some d \<Rightarrow> toISOString d
             | None \<Rightarrow> Inr (jsString R value)))"

definition asBoolean :: "jsval \<Rightarrow> bool" where
  "asBoolean value =
     (case value of
        VBool b \<Rightarrow> b
      | VNull \<Rightarrow> False
      | VNum n \<Rightarrow> n \<noteq> JFin 0
      | VStr s \<Rightarrow> toLowerCase s = ''true''
      | _ \<Rightarrow> truthy value)"

definition notFiniteError :: thrown where
  "notFiniteError =
     AppErr (mkErr CONFLICT ''Database value cannot be represented as a finite number'' 409 None)"

definition asNumber :: "jsval \<Rightarrow> thrown + jnum" where
  "asNumber value =
     (case value of
        VNum n \<Rightarrow> if \<not> numIsFinite n then Inl notFiniteError else Inr n
      | VNull \<Rightarrow> Inr (JFin 0)
      | VStr s \<Rightarrow>
          (let parsed = strToNumber s
           in if \<not> numIsFinite parsed then Inl notFiniteError else Inr parsed)
      | _ \<Rightarrow> Inl notFiniteError)"

definition asIsoString :: "runtime \<Rightarrow> jsval \<Rightarrow> thrown + string" where
  "asIsoString R value =
     (case dateOf (heap R) value of
        Some d \<Rightarrow> toISOString d
      | None \<Rightarrow> (case value of
               VStr s \<Rightarrow> Inr s
             | VNull \<Rightarrow> Inr []
             | _ \<Rightarrow> Inr (jsString R value)))"

definition notJsonError :: thrown where
  "notJsonError =
     AppErr (mkErr CONFLICT ''Database value cannot be represented as JSON'' 409 None)"

definition stackOverflow :: thrown where
  "stackOverflow = ErrObj ''Maximum call stack size exceeded'' []"

text \<open>
  \<open>result[key] = v\<close> on an object literal: the key \<open>__proto__\<close> reaches the prototype setter
  and creates no own property.
\<close>

definition setProp :: "(string \<times> 'a) list \<Rightarrow> string \<Rightarrow> 'a \<Rightarrow> (string \<times> 'a) list" where
  "setProp ps k v =
     (if k = ''__proto__'' then ps
      else if k \<in> set (map fst ps) then map (\<lambda>(k', v'). if k' = k then (k', v) else (k', v')) ps
      else ps @ [(k, v)])"

text \<open>
  \<open>asJson\<close> recurses on the value; the first argument is the depth of the call stack, and a
  recursion deeper than it (a cyclic value, in particular) throws a \<open>RangeError\<close>.
\<close>

fun asJson :: "nat \<Rightarrow> heap \<Rightarrow> jsval \<Rightarrow> thrown + json" where
  "asJson 0 h v = Inl stackOverflow"
| "asJson (Suc n) h v =
     (case v of
        VNull \<Rightarrow> Inr JNull
      | VStr s \<Rightarrow> Inr (JStr s)
      | VNum m \<Rightarrow> Inr (JNum m)
      | VBool b \<Rightarrow> Inr (JBool b)
      | VRef a \<Rightarrow>
          (case deref h v of
             Some (OBuffer bs) \<Rightarrow> Inl notJsonError
           | Some (ODate d) \<Rightarrow> Inl notJsonError
           | Some (OArr xs) \<Rightarrow>
               bindR (mapR (\<lambda>x. case x of None \<Rightarrow> Inr None
                                        | Some u \<Rightarrow> bindR (asJson n h u) (\<lambda>j. Inr (Some j))) xs)
                 (\<lambda>js. Inr (JArr js))
           | Some (OObj p ps) \<Rightarrow>
               bindR (mapR (\<lambda>(k, u). bindR (asJson n h u) (\<lambda>j. Inr (k, j))) ps)
                 (\<lambda>kjs. Inr (JObj (foldl (\<lambda>acc (k, j). setProp acc k j) [] kjs)))
           | None \<Rightarrow> Inl notJsonError)
      | _ \<Rightarrow> Inl notJsonError)"

datatype converter = AsString | AsBoolean | AsNumber | AsIsoString | AsJson

definition SUPPORTED_TYPES :: "string \<Rightarrow> converter option" where
  "SUPPORTED_TYPES = map_of
     [(''uuid'', AsString), (''text'', AsString), (''varchar'', AsString),
      (''character varying'', AsString), (''char'', AsString), (''character'', AsString),
      (''boolean'', AsBoolean), (''bool'', AsBoolean),
      (''smallint'', AsNumber), (''integer'', AsNumber), (''int'', AsNumber), (''int4'', AsNumber),
      (''real'', AsNumber), (''float4'', AsNumber), (''double precision'', AsNumber),
      (''float8'', AsNumber),
      (''bigint'', AsString), (''int8'', AsString), (''numeric'', AsString), (''decimal'', AsString),
      (''date'', AsIsoString), (''timestamp without time zone'', AsIsoString),
      (''timestamp'', AsIsoString), (''timestamp with time zone'', AsIsoString),
      (''timestamptz'', AsIsoString), (''json'', AsJson), (''jsonb'', AsJson)]"

definition applyConverter :: "runtime \<Rightarrow> converter \<Rightarrow> jsval \<Rightarrow> thrown + json" where
  "applyConverter R c v =
     (case c of
        AsString \<Rightarrow> bindR (asString R v) (\<lambda>s. Inr (JStr s))
      | AsBoolean \<Rightarrow> Inr (JBool (asBoolean v))
      | AsNumber \<Rightarrow> bindR (asNumber v) (\<lambda>n. Inr (JNum n))
      | AsIsoString \<Rightarrow> bindR (asIsoString R v) (\<lambda>s. Inr (JStr s))
      | AsJson \<Rightarrow> asJson (stackDepth R) (heap R) v)"

definition normalizeType :: "string \<Rightarrow> string" where
  "normalizeType typeName =
     (let lower = trim (toLowerCase typeName)
      in if lower = ''character varying'' then ''varchar''
         else if lower = ''timestamp without time zone'' then ''timestamp''
         else if lower = ''timestamp with time zone'' then ''timestamptz''
         else lower)"

definition isSupportedType :: "string \<Rightarrow> bool" where
  "isSupportedType typeName \<longleftrightarrow> SUPPORTED_TYPES (normalizeType typeName) \<noteq> None"

record ColumnMetadata =
  cm_name :: string
  cm_dataType :: string
  cm_isNullable :: bool
  cm_isGenerated :: bool
  cm_isIdentity :: bool
  cm_hasDefault :: bool
  cm_hasSelect :: bool
  cm_hasInsert :: bool
  cm_hasUpdate :: bool

subsection \<open>Facts\<close>

lemma toLowerCase_trim_commute_idem: "toLowerCase (toLowerCase s) = toLowerCase s"
proof -
  have "lowerChar (lowerChar c) = lowerChar c" for c
  proof (cases "isUpperAZ c \<or> (between 192 222 c \<and> ccode c \<noteq> 215)")
    case True
    then have b: "ccode c + 32 < 256" "\<not> isUpperAZ (char_of (ccode c + 32))"
      "\<not> (between 192 222 (char_of (ccode c + 32)))"
      by (auto simp: char_class_defs)
    with True show ?thesis by (auto simp: lowerChar_def)
  next
    case False
    then show ?thesis by (auto simp: lowerChar_def)
  qed
  then show ?thesis by (simp add: toLowerCase_def)
qed

lemma asNumber_finite: "asNumber v = Inr n \<Longrightarrow> numIsFinite n"
  by (auto simp: asNumber_def Let_def split: jsval.splits if_splits)

text \<open>\<open>asJson\<close> is monotone in the stack depth: a deeper stack never changes a result.\<close>

lemma asJson_mono: "asJson n h v = Inr j \<Longrightarrow> n \<le> m \<Longrightarrow> asJson m h v = Inr j"
proof (induction n h v arbitrary: j m rule: asJson.induct)
  case (1 h v)
  then show ?case by simp
next
  case (2 n h v)
  then obtain m' where m: "m = Suc m'" "n \<le> m'" by (cases m) auto
  show ?case
  proof (cases v)
    case (VRef a)
    show ?thesis
    proof (cases "deref h v")
      case None
      then show ?thesis using "2.prems" VRef by simp
    next
      case (Some ob)
      show ?thesis
      proof (cases ob)
        case (OArr xs)
        let ?g = "\<lambda>k x. case x of None \<Rightarrow> Inr None | Some u \<Rightarrow> bindR (asJson k h u) (\<lambda>j. Inr (Some j))"
        from "2.prems"(1) VRef Some OArr obtain js
          where js: "mapR (?g n) xs = Inr js" "j = JArr js" by (auto simp: res_simps)
        have IH: "asJson n h u = Inr i \<Longrightarrow> asJson m' h u = Inr i" if "Some u \<in> set xs" for u i
          using "2.IH"(1) [OF VRef Some OArr that] m(2) by blast
        have "mapR (?g m') xs = Inr js"
          using js(1) by (rule mapR_transfer) (auto simp: res_simps dest: IH split: option.splits)
        then show ?thesis using js(2) VRef Some OArr m by simp
      next
        case (OObj p ps)
        let ?g = "\<lambda>k (key, u). bindR (asJson k h u) (\<lambda>j. Inr (key, j))"
        from "2.prems"(1) VRef Some OObj obtain js
          where js: "mapR (?g n) ps = Inr js" "j = JObj (foldl (\<lambda>acc (k, j). setProp acc k j) [] js)"
          by (auto simp: res_simps)
        have IH: "asJson n h u = Inr i \<Longrightarrow> asJson m' h u = Inr i" if "(k, u) \<in> set ps" for k u i
          using "2.IH"(2) [OF VRef Some OObj that refl] m(2) by blast
        have "mapR (?g m') ps = Inr js"
          using js(1) by (rule mapR_transfer) (auto simp: res_simps dest: IH)
        then show ?thesis using js(2) VRef Some OObj m by simp
      qed (use "2.prems" VRef Some in auto)
    qed
  qed (use "2.prems" m in auto)
qed

lemma setProp_no_proto: "''__proto__'' \<notin> fst ` set ps \<Longrightarrow> ''__proto__'' \<notin> fst ` set (setProp ps k v)"
  by (auto simp: setProp_def image_iff split: if_splits)

lemma foldl_setProp_no_proto:
  "''__proto__'' \<notin> fst ` set ps \<Longrightarrow>
   ''__proto__'' \<notin> fst ` set (foldl (\<lambda>acc (k, j). setProp acc k j) ps kjs)"
proof (induction kjs arbitrary: ps)
  case (Cons x kjs)
  show ?case
    using Cons.IH [OF setProp_no_proto [OF Cons.prems]] by (simp add: case_prod_beta)
qed simp

section \<open>Properties\<close>

text \<open>The JSON conversion of a column depends on the value alone: a deeper call stack never
  changes a result it has already produced, and a result never carries the key \<open>__proto__\<close>.\<close>
theorem json_conversion_stable:
  assumes "asJson n h v = Inr j" and "n \<le> m"
  shows "asJson m h v = Inr j \<and> (\<forall>kjs. j = JObj kjs \<longrightarrow> ''__proto__'' \<notin> fst ` set kjs)"
proof -
  have "''__proto__'' \<notin> fst ` set kjs" if j: "j = JObj kjs" for kjs
  proof -
    from assms(1) j obtain n' a p ps kj where "n = Suc n'" "v = VRef a"
      "kjs = foldl (\<lambda>acc (k, j). setProp acc k j) [] kj"
      by (cases n) (auto simp: res_simps split: jsval.splits option.splits obj.splits if_splits)
    then show ?thesis using foldl_setProp_no_proto [of "[]" kj] by simp
  qed
  with asJson_mono [OF assms] show ?thesis by blast
qed

theorem json_conversion_stable_witness:
  "asJson 9 [OObj ObjectProto [(''a'', VBool True), (''__proto__'', VNull)]] (VRef 0) =
   Inr (JObj [(''a'', JBool True)])"
proof -
  have "asJson 2 [OObj ObjectProto [(''a'', VBool True), (''__proto__'', VNull)]] (VRef 0) =
    Inr (JObj [(''a'', JBool True)])" by code_simp
  from json_conversion_stable [OF this, of 9] show ?thesis by simp
qed

end
