(* ===== verification/DataRepository.thy ===== *)
theory DataRepository
  imports Transactions Identifiers TableTypes
begin

text \<open>
  The PostgreSQL data repository of \<open>src/database/data-repository.ts\<close>, with the exposed
  tables of \<open>src/contracts/data.ts\<close> and the private column-type metadata of
  \<open>src/database/table-types.ts\<close>.  A table object's identity \<open>et_ref\<close> keys the metadata, as
  the object itself keys the \<open>WeakMap\<close>.
\<close>

record ExposedTable =
  et_ref :: nat
  et_alias :: string
  et_schema :: string
  et_table :: string
  et_readable :: "string list"
  et_insertable :: "string list"
  et_updatable :: "string list"

type_synonym columnTypes = "(string \<times> string) list"
type_synonym metadata = "nat \<rightharpoonup> columnTypes"
type_synonym jsonRow = "(string \<times> json) list"

record 'a Page =
  pg_items :: "'a list"
  pg_limit :: int
  pg_offset :: int

definition attachPrivateMetadata :: "metadata \<Rightarrow> ExposedTable \<Rightarrow> columnTypes \<Rightarrow> metadata" where
  "attachPrivateMetadata wm table ct = wm(et_ref table \<mapsto> ct)"

definition getPrivateMetadata :: "metadata \<Rightarrow> ExposedTable \<Rightarrow> columnTypes option" where
  "getPrivateMetadata wm table = wm (et_ref table)"

definition requireVerifiedMetadata :: "metadata \<Rightarrow> ExposedTable \<Rightarrow> thrown + columnTypes" where
  "requireVerifiedMetadata wm table =
     (case getPrivateMetadata wm table of
        None \<Rightarrow> Inl (AppErr (mkErr INTERNAL_ERROR ''No verified metadata for table'' 500 None))
      | Some ct \<Rightarrow> Inr ct)"

text \<open>
  One pass over the row's entries.  Reading the metadata at the key \<open>__proto__\<close> yields
  \<open>Object.prototype\<close>, on which \<open>normalizeType\<close> throws a \<open>TypeError\<close>.
\<close>

fun rowToJsonFrom ::
  "runtime \<Rightarrow> ExposedTable \<Rightarrow> columnTypes \<Rightarrow> jsonRow \<Rightarrow> (string \<times> jsval) list \<Rightarrow> thrown + jsonRow" where
  "rowToJsonFrom R table ct result [] = Inr result"
| "rowToJsonFrom R table ct result ((key, v) # rest) =
     (if key \<notin> set (et_readable table) then rowToJsonFrom R table ct result rest
      else if v = VNull then rowToJsonFrom R table ct (setProp result key JNull) rest
      else if key = ''__proto__'' then
        Inl (ErrObj ''typeName.toLowerCase is not a function'' [])
      else
        (case map_of ct key of
           None \<Rightarrow>
             Inl (AppErr (mkErr INTERNAL_ERROR (''No type metadata for column '' @ key) 500 None))
         | Some dataType \<Rightarrow>
             (case SUPPORTED_TYPES (normalizeType dataType) of
                None \<Rightarrow>
                  Inl (AppErr (mkErr CONFLICT
                    (''Unsupported database type '' @ dataType @ '' for column '' @ key) 409 None))
              | Some converter \<Rightarrow>
                  bindR (applyConverter R converter v) (\<lambda>j.
                    rowToJsonFrom R table ct (setProp result key j) rest))))"

definition rowToJson ::
  "runtime \<Rightarrow> ExposedTable \<Rightarrow> columnTypes \<Rightarrow> (string \<times> jsval) list \<Rightarrow> thrown + jsonRow" where
  "rowToJson R table ct row = rowToJsonFrom R table ct [] row"

text \<open>\<open>rowToJson(result.rows[0])\<close>: \<open>Object.entries(undefined)\<close> throws.\<close>

definition firstRowToJson :: "runtime \<Rightarrow> ExposedTable \<Rightarrow> columnTypes \<Rightarrow> qresult \<Rightarrow> thrown + jsonRow" where
  "firstRowToJson R table ct res =
     (case qr_rows res of
        [] \<Rightarrow> Inl (ErrObj ''Cannot convert undefined or null to object'' [])
      | row # _ \<Rightarrow> rowToJson R table ct row)"

subsection \<open>Error translation\<close>

definition getPostgresCode :: "runtime \<Rightarrow> thrown \<Rightarrow> string option" where
  "getPostgresCode R error =
     (if \<not> errIsObject error then None
      else (case errProp R error ''code'' of VStr c \<Rightarrow> Some c | _ \<Rightarrow> None))"

definition conflictError :: app_error where
  "conflictError = mkErr CONFLICT ''A conflict occurred'' 409 None"

definition conflictCodes :: "string list" where
  "conflictCodes =
     [''23505'', ''23P01'', ''23503'', ''23514'', ''23502'', ''23500'', ''22P02'', ''22003'',
      ''22007'', ''42501'']"

definition translateDataError :: "runtime \<Rightarrow> thrown \<Rightarrow> app_error" where
  "translateDataError R error =
     (case error of
        AppErr e \<Rightarrow> e
      | _ \<Rightarrow>
        (case getPostgresCode R error of
           None \<Rightarrow> translatePoolError R error
         | Some code \<Rightarrow>
             if code \<in> set conflictCodes then conflictError else translatePoolError R error))"

definition assertColumnsAllowed :: "(string \<times> jsval) list \<Rightarrow> string list \<Rightarrow> thrown + unit" where
  "assertColumnsAllowed values allowed =
     (let invalid = filter (\<lambda>k. k \<notin> set allowed) (map fst values)
      in if invalid \<noteq> [] then
           Inl (AppErr (validationError (map (\<lambda>k. (k, dstr ''Column is not allowed'')) invalid)))
         else Inr ())"

subsection \<open>Statement texts\<close>

text \<open>\<open>$1\<close>, \<open>$2\<close>, \<dots>\<close>

definition placeholder :: "nat \<Rightarrow> string" where
  "placeholder i = CHR ''$'' # natStr i"

definition quotedId :: string where
  "quotedId = dquote # ''id'' @ [dquote]"

definition listSql :: "string \<Rightarrow> string \<Rightarrow> string" where
  "listSql columnList quotedTable =
     ''SELECT '' @ columnList @ '' FROM '' @ quotedTable @ '' ORDER BY '' @ quotedId @
     '' ASC LIMIT $1 OFFSET $2''"

definition findSql :: "string \<Rightarrow> string \<Rightarrow> string" where
  "findSql columnList quotedTable =
     ''SELECT '' @ columnList @ '' FROM '' @ quotedTable @ '' WHERE '' @ quotedId @ '' = $1''"

definition createSql :: "string \<Rightarrow> string list \<Rightarrow> string \<Rightarrow> string" where
  "createSql quotedTable quotedColumns returning =
     ''INSERT INTO '' @ quotedTable @ '' ('' @ joinWith '', '' quotedColumns @ '') VALUES ('' @
     joinWith '', '' (map (\<lambda>i. placeholder (Suc i)) [0..<length quotedColumns]) @
     '') RETURNING '' @ returning"

definition updateSql :: "string \<Rightarrow> string list \<Rightarrow> string \<Rightarrow> string" where
  "updateSql quotedTable quotedColumns returning =
     ''UPDATE '' @ quotedTable @ '' SET '' @
     joinWith '', '' (map (\<lambda>(i, c). c @ '' = '' @ placeholder (Suc i))
       (zip [0..<length quotedColumns] quotedColumns)) @
     '' WHERE '' @ quotedId @ '' = '' @ placeholder (Suc (length quotedColumns)) @
     '' RETURNING '' @ returning"

definition deleteSql :: "string \<Rightarrow> string" where
  "deleteSql quotedTable = ''DELETE FROM '' @ quotedTable @ '' WHERE '' @ quotedId @ '' = $1''"

subsection \<open>The operations\<close>

text \<open>
  Every operation takes the transaction runner it was given, then runs one statement in a
  transaction that carries the caller's identity.
\<close>

definition repoTransaction ::
  "runtime \<Rightarrow> (string option \<Rightarrow> 'a io \<Rightarrow> 'a io) \<Rightarrow> string \<Rightarrow> 'a io \<Rightarrow> 'a io" where
  "repoTransaction R run userId block =
     run (Some userId) (catchM block (\<lambda>error. throwM (AppErr (translateDataError R error))))"

definition repoList ::
  "runtime \<Rightarrow> metadata \<Rightarrow> (string option \<Rightarrow> jsonRow Page io \<Rightarrow> jsonRow Page io) \<Rightarrow>
   string \<Rightarrow> ExposedTable \<Rightarrow> int \<Rightarrow> int \<Rightarrow> jsonRow Page io" where
  "repoList R wm run userId table limit offset =
     bindM (liftR (requireVerifiedMetadata wm table)) (\<lambda>ct.
     bindM (liftR (quoteQualifiedName (et_schema table) (et_table table))) (\<lambda>quotedTable.
     bindM (liftR (quotedList (et_readable table))) (\<lambda>columnList.
       repoTransaction R run userId
         (bindM (clientQuery R (listSql columnList quotedTable)
                   [VNum (JFin (of_int limit)), VNum (JFin (of_int offset))]) (\<lambda>result.
          bindM (liftR (mapR (rowToJson R table ct) (qr_rows result))) (\<lambda>items.
            returnM \<lparr>pg_items = items, pg_limit = limit, pg_offset = offset\<rparr>))))))"

definition repoFindById ::
  "runtime \<Rightarrow> metadata \<Rightarrow> (string option \<Rightarrow> jsonRow option io \<Rightarrow> jsonRow option io) \<Rightarrow>
   string \<Rightarrow> ExposedTable \<Rightarrow> string \<Rightarrow> jsonRow option io" where
  "repoFindById R wm run userId table rowId =
     bindM (liftR (requireVerifiedMetadata wm table)) (\<lambda>ct.
     bindM (liftR (quoteQualifiedName (et_schema table) (et_table table))) (\<lambda>quotedTable.
     bindM (liftR (quotedList (et_readable table))) (\<lambda>columnList.
       repoTransaction R run userId
         (bindM (clientQuery R (findSql columnList quotedTable) [VStr rowId]) (\<lambda>result.
            if qr_rows result = [] then returnM None
            else bindM (liftR (firstRowToJson R table ct result)) (\<lambda>row. returnM (Some row)))))))"

definition repoCreate ::
  "runtime \<Rightarrow> metadata \<Rightarrow> (string option \<Rightarrow> jsonRow io \<Rightarrow> jsonRow io) \<Rightarrow>
   string \<Rightarrow> ExposedTable \<Rightarrow> (string \<times> jsval) list \<Rightarrow> jsonRow io" where
  "repoCreate R wm run userId table values =
     bindM (liftR (requireVerifiedMetadata wm table)) (\<lambda>ct.
     bindM (liftR (assertColumnsAllowed values (et_insertable table))) (\<lambda>_.
     (let keys = map fst values
      in if keys = [] then
           throwM (AppErr (mkErr VALIDATION_ERROR ''No insertable values provided'' 400 None))
         else
     bindM (liftR (quoteQualifiedName (et_schema table) (et_table table))) (\<lambda>quotedTable.
     bindM (liftR (mapR quoteIdentifier keys)) (\<lambda>columns.
     bindM (liftR (quotedList (et_readable table))) (\<lambda>returning.
       repoTransaction R run userId
         (bindM (clientQuery R (createSql quotedTable columns returning)
                   (map (propOf values) keys)) (\<lambda>result.
            liftR (firstRowToJson R table ct result)))))))))"

definition repoUpdateById ::
  "runtime \<Rightarrow> metadata \<Rightarrow> (string option \<Rightarrow> jsonRow option io \<Rightarrow> jsonRow option io) \<Rightarrow>
   string \<Rightarrow> ExposedTable \<Rightarrow> string \<Rightarrow> (string \<times> jsval) list \<Rightarrow> jsonRow option io" where
  "repoUpdateById R wm run userId table rowId values =
     bindM (liftR (requireVerifiedMetadata wm table)) (\<lambda>ct.
     bindM (liftR (assertColumnsAllowed values (et_updatable table))) (\<lambda>_.
     (let keys = map fst values
      in if keys = [] then
           throwM (AppErr (mkErr VALIDATION_ERROR ''No updatable values provided'' 400 None))
         else
     bindM (liftR (quoteQualifiedName (et_schema table) (et_table table))) (\<lambda>quotedTable.
     bindM (liftR (mapR quoteIdentifier keys)) (\<lambda>columns.
     bindM (liftR (quotedList (et_readable table))) (\<lambda>returning.
       repoTransaction R run userId
         (bindM (clientQuery R (updateSql quotedTable columns returning)
                   (map (propOf values) keys @ [VStr rowId])) (\<lambda>result.
            if qr_rows result = [] then returnM None
            else bindM (liftR (firstRowToJson R table ct result)) (\<lambda>row. returnM (Some row))))))))))"

definition repoDeleteById ::
  "runtime \<Rightarrow> metadata \<Rightarrow> (string option \<Rightarrow> bool io \<Rightarrow> bool io) \<Rightarrow>
   string \<Rightarrow> ExposedTable \<Rightarrow> string \<Rightarrow> bool io" where
  "repoDeleteById R wm run userId table rowId =
     bindM (liftR (requireVerifiedMetadata wm table)) (\<lambda>ct.
     bindM (liftR (quoteQualifiedName (et_schema table) (et_table table))) (\<lambda>quotedTable.
       repoTransaction R run userId
         (bindM (clientQuery R (deleteSql quotedTable) [VStr rowId]) (\<lambda>result.
            returnM (case qr_count result of Some n \<Rightarrow> 0 < n | None \<Rightarrow> False)))))"

subsection \<open>Rows\<close>

lemma set_setProp: "fst ` set (setProp ps k v) \<subseteq> insert k (fst ` set ps)"
  by (auto simp: setProp_def image_iff split: if_splits)

lemma rowToJsonFrom_step:
  assumes "rowToJsonFrom R table ct result ((key, v) # rest) = Inr out"
  shows "(key \<notin> set (et_readable table) \<and> rowToJsonFrom R table ct result rest = Inr out) \<or>
    (key \<in> set (et_readable table) \<and>
      (\<exists>j. rowToJsonFrom R table ct (setProp result key j) rest = Inr out))"
  using assms by (auto simp: res_simps split: if_splits option.splits)

lemma rowToJsonFrom_keys:
  "rowToJsonFrom R table ct result row = Inr out \<Longrightarrow>
   fst ` set out \<subseteq> fst ` set result \<union> (fst ` set row \<inter> set (et_readable table))"
proof (induction row arbitrary: result)
  case Nil
  then show ?case by simp
next
  case (Cons kv rest)
  obtain key v where kv: "kv = (key, v)" by (cases kv)
  from rowToJsonFrom_step [OF Cons.prems [unfolded kv]] show ?case
  proof
    assume "key \<notin> set (et_readable table) \<and> rowToJsonFrom R table ct result rest = Inr out"
    with Cons.IH [of result] show ?thesis by auto
  next
    assume "key \<in> set (et_readable table) \<and>
      (\<exists>j. rowToJsonFrom R table ct (setProp result key j) rest = Inr out)"
    then obtain j where k: "key \<in> set (et_readable table)"
      and r: "rowToJsonFrom R table ct (setProp result key j) rest = Inr out" by blast
    from Cons.IH [OF r] set_setProp [of result key j] k kv show ?thesis by auto
  qed
qed

text \<open>Only readable columns ever leave the repository.\<close>

lemma rowToJson_readable:
  "rowToJson R table ct row = Inr out \<Longrightarrow> fst ` set out \<subseteq> set (et_readable table)"
  using rowToJsonFrom_keys [of R table ct "[]" row out] by (simp add: rowToJson_def)

lemma firstRowToJson_readable:
  "firstRowToJson R table ct res = Inr out \<Longrightarrow> fst ` set out \<subseteq> set (et_readable table)"
  by (auto simp: firstRowToJson_def split: list.splits dest!: rowToJson_readable)

lemma rowsToJson_readable:
  "mapR (rowToJson R table ct) rs = Inr items \<Longrightarrow> x \<in> set items \<Longrightarrow>
   fst ` set x \<subseteq> set (et_readable table)"
  by (blast dest: mapR_Inr_set rowToJson_readable)

lemma assertColumnsAllowed_Inr:
  "assertColumnsAllowed values allowed = Inr u \<longleftrightarrow> set (map fst values) \<subseteq> set allowed"
  by (auto simp: assertColumnsAllowed_def Let_def filter_empty_conv)

lemma translateDataError_cases:
  "translateDataError R t = translatePoolError R t \<or> translateDataError R t = conflictError"
  by (cases t) (simp_all add: translateDataError_def split: option.split)

lemma translateDataError_range:
  "(\<exists>e. t = AppErr e \<and> translateDataError R t = e) \<or>
   translateDataError R t \<in> set (conflictError # poolPublicErrors)"
proof (cases "\<exists>e. t = AppErr e")
  case True
  then show ?thesis by (auto simp: translateDataError_def)
next
  case False
  then have "translatePoolError R t \<in> set poolPublicErrors"
    using translatePoolError_range [of t R] by blast
  then show ?thesis using translateDataError_cases [of R t] by (metis list.set_intros(1,2))
qed

subsection \<open>What an operation does on the database\<close>

text \<open>
  Either the operation is refused before the database is touched, or it is one transaction
  of the caller with exactly one statement; \<open>S\<close> says which statement with which
  parameters, \<open>P\<close> what a returned value satisfies.
\<close>

definition crudOutcome ::
  "runtime \<Rightarrow> string \<Rightarrow> (string \<Rightarrow> jsval list \<Rightarrow> bool) \<Rightarrow> ('a \<Rightarrow> bool) \<Rightarrow>
   event list \<Rightarrow> thrown + 'a \<Rightarrow> bool" where
  "crudOutcome R u S P es r \<longleftrightarrow>
     (es = [] \<and> (\<exists>t. r = Inl t)) \<or>
     (\<exists>text vals. S text vals \<and>
        txShape R (Some u) (\<lambda>qs r. qs = [EvQuery text vals] \<and> (\<forall>v. r = Inr v \<longrightarrow> P v)) es r)"

lemma crudOutcome_refused: "crudOutcome R u S P [] (Inl t)"
  by (simp add: crudOutcome_def)

lemma outcome_statement:
  assumes "\<And>x. outcome (f x) (\<lambda>es r. es = [] \<and> (\<forall>v. r = Inr v \<longrightarrow> P v))"
  shows "outcome (bindM (clientQuery R text vals) f)
     (\<lambda>es r. es = [EvQuery text vals] \<and> (\<forall>v. r = Inr v \<longrightarrow> P v))"
  by (rule outcome_bind [OF outcome_perform [where P = "\<lambda>es r. es = [EvQuery text vals]"]])
     (auto intro: outcome_weaken [OF assms])

lemma outcome_repoTransaction:
  assumes "transaction_runner R run" and "S q vals"
    and "outcome block (\<lambda>es r. es = [EvQuery q vals] \<and> (\<forall>v. r = Inr v \<longrightarrow> P v))"
  shows "outcome (repoTransaction R run u block) (crudOutcome R u S P)"
proof -
  have "outcome (catchM block (\<lambda>e. throwM (AppErr (translateDataError R e))))
     (\<lambda>es r. es = [EvQuery q vals] \<and> (\<forall>v. r = Inr v \<longrightarrow> P v))"
    by (rule outcome_catch [OF assms(3)]) (auto intro: outcome_throw)
  from transaction_runner.run_shape [OF assms(1) this, of "Some u"] assms(2) show ?thesis
    unfolding repoTransaction_def crudOutcome_def by (elim outcome_weaken) blast
qed

lemma outcome_repoStatement:
  assumes "transaction_runner R run" and "S q vals"
    and "\<And>x. outcome (f x) (\<lambda>es r. es = [] \<and> (\<forall>v. r = Inr v \<longrightarrow> P v))"
  shows "outcome (repoTransaction R run u (bindM (clientQuery R q vals) f)) (crudOutcome R u S P)"
  by (rule outcome_repoTransaction [where S = S and q = q and vals = vals, OF assms(1,2)],
      rule outcome_statement, rule assms(3))

lemma outcome_listR:
  "(\<And>v. r = Inr v \<Longrightarrow> P v) \<Longrightarrow> outcome (liftR r) (\<lambda>es r. es = [] \<and> (\<forall>v. r = Inr v \<longrightarrow> P v))"
  by (auto intro: outcome_liftR)

lemma outcome_pure_bind:
  "(\<And>v. r = Inr v \<Longrightarrow> P (f v)) \<Longrightarrow>
   outcome (bindM (liftR r) (\<lambda>v. returnM (f v))) (\<lambda>es r. es = [] \<and> (\<forall>v. r = Inr v \<longrightarrow> P v))"
  by (rule outcome_liftR_bind) (auto intro: outcome_return)

lemma outcome_optional_row:
  "outcome (if qr_rows res = [] then returnM None
     else bindM (liftR (firstRowToJson R table ct res)) (\<lambda>row. returnM (Some row)))
   (\<lambda>es r. es = [] \<and> (\<forall>v. r = Inr v \<longrightarrow>
      (\<forall>row. v = Some row \<longrightarrow> fst ` set row \<subseteq> set (et_readable table))))"
  by (cases "qr_rows res = []")
     (simp_all add: outcome_return outcome_pure_bind firstRowToJson_readable)

text \<open>The statement each operation sends: its text is built from the table and the column
  names alone, every value travels as a parameter.\<close>

definition listStatement :: "ExposedTable \<Rightarrow> int \<Rightarrow> int \<Rightarrow> string \<Rightarrow> jsval list \<Rightarrow> bool" where
  "listStatement table limit offset text vals \<longleftrightarrow>
     (\<exists>qt cl. quoteQualifiedName (et_schema table) (et_table table) = Inr qt \<and>
        quotedList (et_readable table) = Inr cl \<and> text = listSql cl qt \<and>
        vals = [VNum (JFin (of_int limit)), VNum (JFin (of_int offset))])"

definition findStatement :: "ExposedTable \<Rightarrow> string \<Rightarrow> string \<Rightarrow> jsval list \<Rightarrow> bool" where
  "findStatement table rowId text vals \<longleftrightarrow>
     (\<exists>qt cl. quoteQualifiedName (et_schema table) (et_table table) = Inr qt \<and>
        quotedList (et_readable table) = Inr cl \<and> text = findSql cl qt \<and> vals = [VStr rowId])"

definition createStatement ::
  "ExposedTable \<Rightarrow> (string \<times> jsval) list \<Rightarrow> string \<Rightarrow> jsval list \<Rightarrow> bool" where
  "createStatement table values text vals \<longleftrightarrow>
     (\<exists>qt qcs cl. quoteQualifiedName (et_schema table) (et_table table) = Inr qt \<and>
        mapR quoteIdentifier (map fst values) = Inr qcs \<and>
        quotedList (et_readable table) = Inr cl \<and>
        set (map fst values) \<subseteq> set (et_insertable table) \<and> values \<noteq> [] \<and>
        text = createSql qt qcs cl \<and> vals = map (propOf values) (map fst values))"

definition updateStatement ::
  "ExposedTable \<Rightarrow> string \<Rightarrow> (string \<times> jsval) list \<Rightarrow> string \<Rightarrow> jsval list \<Rightarrow> bool" where
  "updateStatement table rowId values text vals \<longleftrightarrow>
     (\<exists>qt qcs cl. quoteQualifiedName (et_schema table) (et_table table) = Inr qt \<and>
        mapR quoteIdentifier (map fst values) = Inr qcs \<and>
        quotedList (et_readable table) = Inr cl \<and>
        set (map fst values) \<subseteq> set (et_updatable table) \<and> values \<noteq> [] \<and>
        text = updateSql qt qcs cl \<and>
        vals = map (propOf values) (map fst values) @ [VStr rowId])"

definition deleteStatement :: "ExposedTable \<Rightarrow> string \<Rightarrow> string \<Rightarrow> jsval list \<Rightarrow> bool" where
  "deleteStatement table rowId text vals \<longleftrightarrow>
     (\<exists>qt. quoteQualifiedName (et_schema table) (et_table table) = Inr qt \<and>
        text = deleteSql qt \<and> vals = [VStr rowId])"

abbreviation readableRow :: "ExposedTable \<Rightarrow> jsonRow \<Rightarrow> bool" where
  "readableRow table row \<equiv> fst ` set row \<subseteq> set (et_readable table)"

lemma outcome_repoList:
  assumes "transaction_runner R run"
  shows "outcome (repoList R wm run u table limit offset)
    (crudOutcome R u (listStatement table limit offset)
       (\<lambda>p. pg_limit p = limit \<and> pg_offset p = offset \<and> (\<forall>row\<in>set (pg_items p). readableRow table row)))"
  unfolding repoList_def
  by (intro outcome_liftR_bind crudOutcome_refused
        outcome_repoStatement [OF assms] outcome_pure_bind)
     (auto simp: listStatement_def dest: rowsToJson_readable)

lemma outcome_repoFindById:
  assumes "transaction_runner R run"
  shows "outcome (repoFindById R wm run u table rowId)
    (crudOutcome R u (findStatement table rowId) (\<lambda>ro. \<forall>row. ro = Some row \<longrightarrow> readableRow table row))"
  unfolding repoFindById_def
proof (intro outcome_liftR_bind crudOutcome_refused outcome_repoStatement [OF assms], goal_cases)
  case (1 ct qt cl)
  then show ?case by (auto simp: findStatement_def)
next
  case (2 ct qt cl x)
  show ?case by (rule outcome_optional_row)
qed

lemma outcome_repoCreate:
  assumes "transaction_runner R run"
  shows "outcome (repoCreate R wm run u table values)
    (crudOutcome R u (createStatement table values) (readableRow table))"
  unfolding repoCreate_def Let_def
proof (intro outcome_liftR_bind crudOutcome_refused, goal_cases)
  case ok: (1 ct x)
  show ?case
  proof (cases "values = []")
    case True
    then show ?thesis by (simp add: outcome_throw crudOutcome_refused)
  next
    case False
    show ?thesis unfolding map_is_Nil_conv if_not_P [OF False]
    proof (intro outcome_liftR_bind crudOutcome_refused outcome_repoStatement [OF assms] outcome_listR, goal_cases)
      case (1 qt qcs cl)
      then show ?case using False ok
        by (auto simp: createStatement_def assertColumnsAllowed_Inr)
    next
      case (2 qt qcs cl res v)
      then show ?case by (simp add: firstRowToJson_readable)
    qed
  qed
qed

lemma outcome_repoUpdateById:
  assumes "transaction_runner R run"
  shows "outcome (repoUpdateById R wm run u table rowId values)
    (crudOutcome R u (updateStatement table rowId values)
       (\<lambda>ro. \<forall>row. ro = Some row \<longrightarrow> readableRow table row))"
  unfolding repoUpdateById_def Let_def
proof (intro outcome_liftR_bind crudOutcome_refused, goal_cases)
  case ok: (1 ct x)
  show ?case
  proof (cases "values = []")
    case True
    then show ?thesis by (simp add: outcome_throw crudOutcome_refused)
  next
    case False
    show ?thesis unfolding map_is_Nil_conv if_not_P [OF False]
    proof (intro outcome_liftR_bind crudOutcome_refused outcome_repoStatement [OF assms], goal_cases)
      case (1 qt qcs cl)
      then show ?case using False ok
        by (auto simp: updateStatement_def assertColumnsAllowed_Inr)
    next
      case (2 qt qcs cl res)
      show ?case by (rule outcome_optional_row)
    qed
  qed
qed

lemma outcome_repoDeleteById:
  assumes "transaction_runner R run"
  shows "outcome (repoDeleteById R wm run u table rowId)
    (crudOutcome R u (deleteStatement table rowId) (\<lambda>_. True))"
  unfolding repoDeleteById_def
  by (intro outcome_liftR_bind crudOutcome_refused
        outcome_repoStatement [OF assms])
     (auto simp: deleteStatement_def intro: outcome_return)

section \<open>Properties\<close>


end
