(* ===== verification/DataService.thy ===== *)
theory DataService
  imports DataValidate DataRepository
begin

text \<open>
  The data service of \<open>src/data/service.ts\<close>: alias resolution, validation and the ownership
  check in front of the repository.  Registry and repository are the interfaces of
  \<open>src/contracts/data.ts\<close>: \<open>get\<close> is the registry's lookup, the repository's operations are
  arguments.
\<close>

type_synonym listOp = "string \<Rightarrow> ExposedTable \<Rightarrow> int \<Rightarrow> int \<Rightarrow> jsonRow Page io"
type_synonym findOp = "string \<Rightarrow> ExposedTable \<Rightarrow> string \<Rightarrow> jsonRow option io"
type_synonym createOp = "string \<Rightarrow> ExposedTable \<Rightarrow> (string \<times> jsval) list \<Rightarrow> jsonRow io"
type_synonym updateOp = "string \<Rightarrow> ExposedTable \<Rightarrow> string \<Rightarrow> (string \<times> jsval) list \<Rightarrow> jsonRow option io"
type_synonym deleteOp = "string \<Rightarrow> ExposedTable \<Rightarrow> string \<Rightarrow> bool io"

definition OWNERSHIP_COLUMN :: string where
  "OWNERSHIP_COLUMN = ''user_id''"

definition assertNoForeignOwnershipClaim :: "(string \<times> jsval) list \<Rightarrow> string \<Rightarrow> thrown + unit" where
  "assertNoForeignOwnershipClaim values userId =
     (if hasOwn values OWNERSHIP_COLUMN \<and>
         \<not> strictEq (propOf values OWNERSHIP_COLUMN) (VStr userId)
      then Inl (DomErr (mkErr CONFLICT ''A conflict occurred'' 409 None))
      else Inr ())"

definition resolveTable :: "(string \<Rightarrow> ExposedTable option) \<Rightarrow> string \<Rightarrow> thrown + ExposedTable" where
  "resolveTable get tableAlias =
     (case get tableAlias of
        None \<Rightarrow> Inl (DomErr (mkErr TABLE_NOT_FOUND ''Table not found'' 404 None))
      | Some table \<Rightarrow> Inr table)"

definition rowNotFound :: thrown where
  "rowNotFound = DomErr (mkErr ROW_NOT_FOUND ''Row not found'' 404 None)"

definition svcList ::
  "(string \<Rightarrow> ExposedTable option) \<Rightarrow> listOp \<Rightarrow> string \<Rightarrow> string \<Rightarrow> jsval \<Rightarrow> jsval \<Rightarrow> jsonRow Page io" where
  "svcList get listOp userId tableAlias limit offset =
     bindM (liftR (resolveTable get tableAlias)) (\<lambda>table.
     bindM (liftR (resolveLimit limit)) (\<lambda>l.
     bindM (liftR (resolveOffset offset)) (\<lambda>off.
       listOp userId table l off)))"

definition svcGet ::
  "(string \<Rightarrow> ExposedTable option) \<Rightarrow> findOp \<Rightarrow> string \<Rightarrow> string \<Rightarrow> string \<Rightarrow> jsonRow io" where
  "svcGet get findOp userId tableAlias rowId =
     bindM (liftR (resolveTable get tableAlias)) (\<lambda>table.
     bindM (liftR (requireCanonicalUuid rowId ''id'')) (\<lambda>i.
     bindM (findOp userId table i) (\<lambda>row.
       (case row of None \<Rightarrow> throwM rowNotFound | Some r \<Rightarrow> returnM r))))"

definition checkCreateId :: "(string \<times> jsval) list \<Rightarrow> thrown + unit" where
  "checkCreateId values =
     (if hasOwn values ''id'' then
        (case propOf values ''id'' of
           VStr s \<Rightarrow>
             if \<not> isCanonicalUuid s then Inl (dataError [(''id'', dstr ''Must be a canonical UUID'')])
             else Inr ()
         | _ \<Rightarrow> Inl (dataError [(''id'', dstr ''Must be a canonical UUID'')]))
      else Inr ())"

definition svcCreate ::
  "heap \<Rightarrow> (string \<Rightarrow> ExposedTable option) \<Rightarrow> createOp \<Rightarrow> string \<Rightarrow> string \<Rightarrow> jsval \<Rightarrow> jsonRow io" where
  "svcCreate h get createOp userId tableAlias values =
     bindM (liftR (resolveTable get tableAlias)) (\<lambda>table.
     bindM (liftR (requireJsonDataRow h values)) (\<lambda>vs.
     bindM (liftR (assertKeysAllowed vs (et_insertable table) Insertable)) (\<lambda>_.
     bindM (liftR (checkCreateId vs)) (\<lambda>_.
     bindM (liftR (assertNoForeignOwnershipClaim vs userId)) (\<lambda>_.
       createOp userId table vs)))))"

definition checkUpdateId :: "(string \<times> jsval) list \<Rightarrow> thrown + unit" where
  "checkUpdateId values =
     (if hasOwn values ''id'' then Inl (dataError [(''id'', dstr ''Primary key is immutable'')])
      else Inr ())"

definition svcUpdate ::
  "heap \<Rightarrow> (string \<Rightarrow> ExposedTable option) \<Rightarrow> updateOp \<Rightarrow> string \<Rightarrow> string \<Rightarrow> string \<Rightarrow> jsval \<Rightarrow> jsonRow io" where
  "svcUpdate h get updateOp userId tableAlias rowId values =
     bindM (liftR (resolveTable get tableAlias)) (\<lambda>table.
     bindM (liftR (requireCanonicalUuid rowId ''id'')) (\<lambda>i.
     bindM (liftR (requireJsonDataRow h values)) (\<lambda>vs.
     bindM (liftR (checkUpdateId vs)) (\<lambda>_.
     bindM (liftR (assertKeysAllowed vs (et_updatable table) Updatable)) (\<lambda>_.
     bindM (liftR (assertNoForeignOwnershipClaim vs userId)) (\<lambda>_.
     bindM (updateOp userId table i vs) (\<lambda>row.
       (case row of None \<Rightarrow> throwM rowNotFound | Some r \<Rightarrow> returnM r))))))))"

definition svcDelete ::
  "(string \<Rightarrow> ExposedTable option) \<Rightarrow> deleteOp \<Rightarrow> string \<Rightarrow> string \<Rightarrow> string \<Rightarrow> unit io" where
  "svcDelete get deleteOp userId tableAlias rowId =
     bindM (liftR (resolveTable get tableAlias)) (\<lambda>table.
     bindM (liftR (requireCanonicalUuid rowId ''id'')) (\<lambda>i.
     bindM (deleteOp userId table i) (\<lambda>deleted.
       (if \<not> deleted then throwM rowNotFound else returnM ()))))"

subsection \<open>Facts about the guards\<close>

lemma assertNoForeignOwnershipClaim_Inr:
  "assertNoForeignOwnershipClaim vs u = Inr x \<longleftrightarrow>
   (hasOwn vs OWNERSHIP_COLUMN \<longrightarrow> propOf vs OWNERSHIP_COLUMN = VStr u)"
  by (auto simp: assertNoForeignOwnershipClaim_def)

lemma resolveTable_Inr: "resolveTable get al = Inr t \<longleftrightarrow> get al = Some t"
  by (auto simp: resolveTable_def split: option.splits)

lemma checkCreateId_Inr:
  "checkCreateId vs = Inr x \<longleftrightarrow>
   (hasOwn vs ''id'' \<longrightarrow> (\<exists>s. propOf vs ''id'' = VStr s \<and> isCanonicalUuid s))"
  by (auto simp: checkCreateId_def split: jsval.splits if_splits)

lemma checkUpdateId_Inr: "checkUpdateId vs = Inr x \<longleftrightarrow> \<not> hasOwn vs ''id''"
  by (auto simp: checkUpdateId_def)

text \<open>What validated values satisfy.\<close>

definition validInsert :: "heap \<Rightarrow> ExposedTable \<Rightarrow> string \<Rightarrow> jsval \<Rightarrow> (string \<times> jsval) list \<Rightarrow> bool" where
  "validInsert h table u v vs \<longleftrightarrow>
     isPlainObject h v \<and> isJsonValue h v \<and> vs = ownProps h v \<and> vs \<noteq> [] \<and>
     set (map fst vs) \<subseteq> set (et_insertable table) \<and>
     (hasOwn vs ''id'' \<longrightarrow> (\<exists>s. propOf vs ''id'' = VStr s \<and> isCanonicalUuid s)) \<and>
     (hasOwn vs OWNERSHIP_COLUMN \<longrightarrow> propOf vs OWNERSHIP_COLUMN = VStr u)"

definition validUpdate :: "heap \<Rightarrow> ExposedTable \<Rightarrow> string \<Rightarrow> jsval \<Rightarrow> (string \<times> jsval) list \<Rightarrow> bool" where
  "validUpdate h table u v vs \<longleftrightarrow>
     isPlainObject h v \<and> isJsonValue h v \<and> vs = ownProps h v \<and> vs \<noteq> [] \<and>
     set (map fst vs) \<subseteq> set (et_updatable table) \<and> \<not> hasOwn vs ''id'' \<and>
     (hasOwn vs OWNERSHIP_COLUMN \<longrightarrow> propOf vs OWNERSHIP_COLUMN = VStr u)"

subsection \<open>The repository's contract\<close>

text \<open>
  What the service relies on: every repository operation is one statement of the caller's
  transaction, a page echoes its bounds, and only readable columns come back.
\<close>

locale data_repository =
  fixes R :: runtime and listOp :: listOp and findOp :: findOp and createOp :: createOp
    and updateOp :: updateOp and deleteOp :: deleteOp
  assumes list_contract: "outcome (listOp u t l off) (crudOutcome R u (listStatement t l off)
      (\<lambda>p. pg_limit p = l \<and> pg_offset p = off \<and> (\<forall>row\<in>set (pg_items p). readableRow t row)))"
    and find_contract: "outcome (findOp u t i) (crudOutcome R u (findStatement t i)
      (\<lambda>ro. \<forall>row. ro = Some row \<longrightarrow> readableRow t row))"
    and create_contract: "outcome (createOp u t vs) (crudOutcome R u (createStatement t vs) (readableRow t))"
    and update_contract: "outcome (updateOp u t i vs) (crudOutcome R u (updateStatement t i vs)
      (\<lambda>ro. \<forall>row. ro = Some row \<longrightarrow> readableRow t row))"
    and delete_contract: "outcome (deleteOp u t i) (crudOutcome R u (deleteStatement t i) (\<lambda>_. True))"
begin

text \<open>
  A service call is refused without touching the database, or it reaches the repository
  with a table the registry resolved and validated arguments.
\<close>

lemma svcList_outcome:
  "outcome (svcList get listOp u al lv ov) (\<lambda>es r.
     (es = [] \<and> (\<exists>t. r = Inl t)) \<or>
     (\<exists>table l off. get al = Some table \<and> 1 \<le> l \<and> l \<le> 100 \<and> 0 \<le> off \<and> off \<le> 100000 \<and>
        crudOutcome R u (listStatement table l off)
          (\<lambda>p. pg_limit p = l \<and> pg_offset p = off \<and> (\<forall>row\<in>set (pg_items p). readableRow table row))
          es r))"
  unfolding svcList_def
proof (intro outcome_liftR_bind, goal_cases)
  case (4 table l off)
  with resolveLimit_Inr [of lv l] resolveOffset_Inr [of ov off] show ?case
    by (intro outcome_weaken [OF list_contract]) (auto simp: resolveTable_Inr)
qed auto

lemma svcCreate_outcome:
  "outcome (svcCreate h get createOp u al v) (\<lambda>es r.
     (es = [] \<and> (\<exists>t. r = Inl t)) \<or>
     (\<exists>table vs. get al = Some table \<and> validInsert h table u v vs \<and>
        crudOutcome R u (createStatement table vs) (readableRow table) es r))"
  unfolding svcCreate_def
  by (intro outcome_liftR_bind outcome_weaken [OF create_contract])
     (auto simp: resolveTable_Inr requireJsonDataRow_Inr assertKeysAllowed_Inr checkCreateId_Inr
        assertNoForeignOwnershipClaim_Inr validInsert_def)

text \<open>The row operations translate an absent row to the same refusal.\<close>

lemma outcome_optional:
  assumes "outcome m (crudOutcome R u S (\<lambda>ro. \<forall>row. ro = Some row \<longrightarrow> P row))"
  shows "outcome (bindM m (\<lambda>ro. case ro of None \<Rightarrow> throwM rowNotFound | Some row \<Rightarrow> returnM row))
    (\<lambda>es r. \<exists>r'. crudOutcome R u S (\<lambda>ro. \<forall>row. ro = Some row \<longrightarrow> P row) es r' \<and>
       (r = Inl rowNotFound \<and> r' = Inr None \<or>
        (\<exists>row. r = Inr row \<and> r' = Inr (Some row)) \<or> (\<exists>t. r = Inl t \<and> r' = Inl t)))"
proof (rule outcome_bind [OF assms], goal_cases)
  case (1 es e)
  then show ?case by blast
next
  case (2 es ro)
  then show ?case
    by (cases ro) (auto intro!: outcome_throw outcome_return)
qed

lemma svcGet_outcome:
  "outcome (svcGet get findOp u al i) (\<lambda>es r.
     (es = [] \<and> (\<exists>t. r = Inl t)) \<or>
     (\<exists>table r'. get al = Some table \<and> isCanonicalUuid i \<and>
        crudOutcome R u (findStatement table i) (\<lambda>ro. \<forall>row. ro = Some row \<longrightarrow> readableRow table row) es r' \<and>
        (r = Inl rowNotFound \<and> r' = Inr None \<or>
         (\<exists>row. r = Inr row \<and> r' = Inr (Some row)) \<or> (\<exists>t. r = Inl t \<and> r' = Inl t))))"
  unfolding svcGet_def
proof (intro outcome_liftR_bind, goal_cases)
  case (3 table i')
  show ?case
    by (rule outcome_weaken [OF outcome_optional [OF find_contract]])
       (use 3 in \<open>auto simp: resolveTable_Inr requireCanonicalUuid_Inr\<close>)
qed auto

lemma svcUpdate_outcome:
  "outcome (svcUpdate h get updateOp u al i v) (\<lambda>es r.
     (es = [] \<and> (\<exists>t. r = Inl t)) \<or>
     (\<exists>table vs r'. get al = Some table \<and> isCanonicalUuid i \<and> validUpdate h table u v vs \<and>
        crudOutcome R u (updateStatement table i vs)
          (\<lambda>ro. \<forall>row. ro = Some row \<longrightarrow> readableRow table row) es r' \<and>
        (r = Inl rowNotFound \<and> r' = Inr None \<or>
         (\<exists>row. r = Inr row \<and> r' = Inr (Some row)) \<or> (\<exists>t. r = Inl t \<and> r' = Inl t))))"
  unfolding svcUpdate_def
proof (intro outcome_liftR_bind, goal_cases)
  case (7 table i' vs)
  show ?case
    by (rule outcome_weaken [OF outcome_optional [OF update_contract]])
       (use 7 in \<open>auto simp: resolveTable_Inr requireCanonicalUuid_Inr requireJsonDataRow_Inr
          assertKeysAllowed_Inr checkUpdateId_Inr assertNoForeignOwnershipClaim_Inr validUpdate_def\<close>)
qed auto

lemma svcDelete_outcome:
  "outcome (svcDelete get deleteOp u al i) (\<lambda>es r.
     (es = [] \<and> (\<exists>t. r = Inl t)) \<or>
     (\<exists>table r'. get al = Some table \<and> isCanonicalUuid i \<and>
        crudOutcome R u (deleteStatement table i) (\<lambda>_. True) es r' \<and>
        (r = Inl rowNotFound \<and> r' = Inr False \<or> r = Inr () \<and> r' = Inr True \<or>
         (\<exists>t. r = Inl t \<and> r' = Inl t))))"
  unfolding svcDelete_def
proof (intro outcome_liftR_bind, goal_cases)
  case (3 table i')
  show ?case
  proof (rule outcome_bind [OF delete_contract], goal_cases)
    case (1 es e)
    then show ?case using 3 by (auto simp: resolveTable_Inr requireCanonicalUuid_Inr)
  next
    case (2 es d)
    then show ?case using 3
      by (cases d) (auto simp: resolveTable_Inr requireCanonicalUuid_Inr intro!: outcome_throw outcome_return)
  qed
qed auto

end

text \<open>The PostgreSQL repository over the pooled runner keeps the contract.\<close>

interpretation postgres: data_repository R
  "repoList R wm (withTransaction R (poolConnect R c))"
  "repoFindById R wm (withTransaction R (poolConnect R c))"
  "repoCreate R wm (withTransaction R (poolConnect R c))"
  "repoUpdateById R wm (withTransaction R (poolConnect R c))"
  "repoDeleteById R wm (withTransaction R (poolConnect R c))" for R wm c
  by unfold_locales
     (rule outcome_repoList outcome_repoFindById outcome_repoCreate outcome_repoUpdateById
        outcome_repoDeleteById, rule pooled_runner.transaction_runner_axioms)+

lemma optional_row_pred: "pred_option P = (\<lambda>ro. \<forall>row. ro = Some row \<longrightarrow> P row)"
  by (auto simp: fun_eq_iff option.pred_set)

section \<open>Properties\<close>

text \<open>C20: A create either never reaches the database or is one transaction of the caller with one
  INSERT: the table is the registry's, the text is made of quoted allowed names and placeholders
  only, every value travels as a parameter, a claimed owner is the caller, and only readable columns
  come back.\<close>
theorem create_is_safe:
  "outcome (svcCreate h get (repoCreate R wm (withTransaction R (poolConnect R c))) u al v)
     (\<lambda>es r. (es = [] \<and> (\<exists>t. r = Inl t)) \<or>
        (\<exists>table vs. get al = Some table \<and> validInsert h table u v vs \<and>
           crudOutcome R u (createStatement table vs) (readableRow table) es r))"
  by (rule postgres.svcCreate_outcome)

text \<open>An update either never reaches the database or is one transaction of the caller with one
  UPDATE of the row with the given canonical id: only updatable columns are set, never the key,
  every value is a parameter, a claimed owner is the caller; an absent row is reported as such.\<close>
theorem update_is_safe:
  "outcome (svcUpdate h get (repoUpdateById R wm (withTransaction R (poolConnect R c))) u al i v)
     (\<lambda>es r. (es = [] \<and> (\<exists>t. r = Inl t)) \<or>
        (\<exists>table vs r'. get al = Some table \<and> isCanonicalUuid i \<and> validUpdate h table u v vs \<and>
           crudOutcome R u (updateStatement table i vs)
             (pred_option (readableRow table)) es r' \<and>
           (r = Inl rowNotFound \<and> r' = Inr None \<or>
            (\<exists>row. r = Inr row \<and> r' = Inr (Some row)) \<or> (\<exists>t. r = Inl t \<and> r' = Inl t))))"
  unfolding optional_row_pred by (rule postgres.svcUpdate_outcome)

text \<open>A list either never reaches the database or is one transaction of the caller with one SELECT
  whose limit is between 1 and 100 and whose offset is between 0 and 100000; the page echoes these
  bounds and its rows carry readable columns only.\<close>
theorem list_is_bounded:
  "outcome (svcList get (repoList R wm (withTransaction R (poolConnect R c))) u al lv ov)
     (\<lambda>es r. (es = [] \<and> (\<exists>t. r = Inl t)) \<or>
        (\<exists>table l off. get al = Some table \<and> 1 \<le> l \<and> l \<le> 100 \<and> 0 \<le> off \<and> off \<le> 100000 \<and>
           crudOutcome R u (listStatement table l off)
             (\<lambda>p. pg_limit p = l \<and> pg_offset p = off \<and> list_all (readableRow table) (pg_items p)) es r))"
  unfolding list_all_iff by (rule postgres.svcList_outcome)

text \<open>Deleting a row is one transaction of the caller with one DELETE of the given canonical id in a
  registered table, or no call at all; the caller learns that a row was deleted exactly when the
  server counted one.\<close>
theorem delete_is_safe:
  "outcome (svcDelete get (repoDeleteById R wm (withTransaction R (poolConnect R c))) u al i)
     (\<lambda>es r. (es = [] \<and> (\<exists>t. r = Inl t)) \<or>
        (\<exists>table r'. get al = Some table \<and> isCanonicalUuid i \<and>
           crudOutcome R u (deleteStatement table i) (\<lambda>_. True) es r' \<and>
           (r = Inl rowNotFound \<and> r' = Inr False \<or> r = Inr () \<and> r' = Inr True \<or>
            (\<exists>t. r = Inl t \<and> r' = Inl t))))"
  by (rule postgres.svcDelete_outcome)

end
