(* ===== verification/HttpReplies.thy ===== *)
theory HttpReplies
  imports AuthService DataService
begin

text \<open>
  The HTTP boundary: the bearer header (\<open>src/http/bearer.ts\<close>), the request body test
  (\<open>src/http/helpers.ts\<close>) and the response envelope (\<open>src/http/responses.ts\<close>).  Fastify itself
  is outside: a request is the record of what the routes read from it, a reply the record of what
  they set.
\<close>

subsection \<open>Bearer tokens\<close>

datatype header = HAbsent | HOne string | HMany "string list"

definition BEARER_PREFIX :: string where "BEARER_PREFIX = ''Bearer ''"
definition BEARER_PREFIX_LOWER :: string where "BEARER_PREFIX_LOWER = ''bearer ''"

text \<open>The single header value, if there is one.\<close>

definition headerValue :: "header \<Rightarrow> string option" where
  "headerValue hdr =
     (case hdr of
        HAbsent \<Rightarrow> None
      | HOne s \<Rightarrow> if s = [] then None else Some s
      | HMany hs \<Rightarrow> (case hs of [s] \<Rightarrow> Some s | _ \<Rightarrow> None))"

definition extractBearerToken :: "header \<Rightarrow> string option" where
  "extractBearerToken hdr =
     (case headerValue hdr of
        None \<Rightarrow> None
      | Some raw \<Rightarrow>
        (let v = trim raw
         in if \<not> startsWith v BEARER_PREFIX \<and> \<not> startsWith v BEARER_PREFIX_LOWER then None
            else
              (let prefixLength =
                     (if length BEARER_PREFIX \<le> length v \<and>
                         toLowerCase (take (length BEARER_PREFIX) v) = BEARER_PREFIX_LOWER
                      then length BEARER_PREFIX else length BEARER_PREFIX_LOWER);
                   token = trim (drop prefixLength v)
               in if token = [] then None else Some token)))"

subsection \<open>Requests\<close>

text \<open>A query parameter: absent, given once, or repeated.\<close>

datatype query_value = QAbsent | QOne string | QMany "string list"

record request =
  rq_ip :: string
  rq_authorization :: header
  rq_table :: string
  rq_id :: string
  rq_limit :: query_value
  rq_offset :: query_value
  rq_body :: jsval

text \<open>\<open>Number(v)\<close> of a query parameter; an array is first joined by commas.\<close>

fun queryNumber :: "query_value \<Rightarrow> jsval" where
  "queryNumber QAbsent = VUndef"
| "queryNumber (QOne s) = VNum (strToNumber s)"
| "queryNumber (QMany ss) = VNum (strToNumber (joinWith '','' ss))"

definition getPlainObjectBody :: "heap \<Rightarrow> jsval \<Rightarrow> (string \<times> jsval) list option" where
  "getPlainObjectBody h body =
     (if body = VNull \<or> \<not> typeofObject body \<or> isArray h body then None
      else Some (ownProps h body))"

subsection \<open>Replies\<close>

record mapped_user =
  mu_id :: jsval
  mu_email :: jsval
  mu_created_at :: "string option"

record mapped_auth =
  ma_user :: mapped_user
  ma_token :: string
  ma_expires_at :: string

datatype payload = PRow jsonRow | PUser mapped_user | PAuth mapped_auth

datatype body =
    SuccessBody payload
  | ListBody "jsonRow list" int int
  | ErrorBody string string "(string \<times> detail) list option"

record reply =
  rp_status :: int
  rp_headers :: "(string \<times> string) list"
  rp_body :: "body option"

definition freshReply :: reply where
  "freshReply = \<lparr>rp_status = 200, rp_headers = [], rp_body = None\<rparr>"

definition setHeader :: "string \<Rightarrow> string \<Rightarrow> reply \<Rightarrow> reply" where
  "setHeader k v rp = rp\<lparr>rp_headers := filter (\<lambda>(k', _). k' \<noteq> k) (rp_headers rp) @ [(k, v)]\<rparr>"

definition sendSuccess :: "reply \<Rightarrow> int \<Rightarrow> payload \<Rightarrow> reply" where
  "sendSuccess rp statusCode p = rp\<lparr>rp_status := statusCode, rp_body := Some (SuccessBody p)\<rparr>"

definition sendList :: "reply \<Rightarrow> jsonRow list \<Rightarrow> int \<Rightarrow> int \<Rightarrow> reply" where
  "sendList rp items limit offset =
     rp\<lparr>rp_status := 200, rp_body := Some (ListBody items limit offset)\<rparr>"

definition sendEmpty :: "reply \<Rightarrow> int \<Rightarrow> reply" where
  "sendEmpty rp statusCode = rp\<lparr>rp_status := statusCode, rp_body := None\<rparr>"

definition sendError ::
  "reply \<Rightarrow> int \<Rightarrow> string \<Rightarrow> string \<Rightarrow> (string \<times> detail) list option \<Rightarrow> reply" where
  "sendError rp statusCode code message details =
     rp\<lparr>rp_status := statusCode,
        rp_body := Some (ErrorBody code message
          (case details of None \<Rightarrow> None | Some ds \<Rightarrow> if ds = [] then None else Some ds))\<rparr>"

definition sendAppError :: "heap \<Rightarrow> reply \<Rightarrow> thrown \<Rightarrow> reply" where
  "sendAppError h rp error =
     (let publicError = toPublicError h error
      in sendError rp (ae_status publicError) (codeString (ae_code publicError))
           (ae_message publicError) (ae_details publicError))"

definition sendNoCache :: "reply \<Rightarrow> reply" where
  "sendNoCache = setHeader ''Cache-Control'' ''no-store''"

text \<open>\<open>v.toISOString()\<close>: a \<open>TypeError\<close> on anything that is no date.\<close>

definition callToISOString :: "heap \<Rightarrow> jsval \<Rightarrow> thrown + string" where
  "callToISOString h v =
     (case dateOf h v of
        Some d \<Rightarrow> toISOString d
      | None \<Rightarrow> Inl (ErrObj ''toISOString is not a function'' []))"

text \<open>\<open>mapUser\<close> of a user with, and of one without, a creation time.\<close>

definition mapFullUser :: "heap \<Rightarrow> User \<Rightarrow> thrown + mapped_user" where
  "mapFullUser h user =
     (case dateOf h (u_createdAt user) of
        None \<Rightarrow> Inr \<lparr>mu_id = u_id user, mu_email = u_email user, mu_created_at = None\<rparr>
      | Some d \<Rightarrow>
          bindR (toISOString d) (\<lambda>iso.
            Inr \<lparr>mu_id = u_id user, mu_email = u_email user, mu_created_at = Some iso\<rparr>))"

definition mapAuthenticatedUser :: "AuthenticatedUser \<Rightarrow> mapped_user" where
  "mapAuthenticatedUser user = \<lparr>mu_id = a_id user, mu_email = a_email user, mu_created_at = None\<rparr>"

definition mapAuthResult :: "heap \<Rightarrow> AuthResult \<Rightarrow> thrown + mapped_auth" where
  "mapAuthResult h res =
     bindR (mapFullUser h (r_user res)) (\<lambda>user.
     bindR (callToISOString h (r_expiresAt res)) (\<lambda>iso.
       Inr \<lparr>ma_user = user, ma_token = r_token res, ma_expires_at = iso\<rparr>))"

text \<open>The routes' \<open>try { .. } catch (error) { return sendAppError(reply, error) }\<close>.\<close>

definition tryReply :: "heap \<Rightarrow> reply \<Rightarrow> reply io \<Rightarrow> reply io" where
  "tryReply h rp m = catchM m (\<lambda>error. returnM (sendAppError h rp error))"

subsection \<open>Facts\<close>

lemma trim_id: "s = [] \<or> (\<not> isWhite (hd s) \<and> \<not> isWhite (last s)) \<Longrightarrow> trim s = s"
  by (simp add: trim_def trimBy_id)

lemma prefix_lower [simp]: "toLowerCase BEARER_PREFIX = BEARER_PREFIX_LOWER"
  "toLowerCase BEARER_PREFIX_LOWER = BEARER_PREFIX_LOWER"
  "length BEARER_PREFIX_LOWER = length BEARER_PREFIX"
  by (code_simp, code_simp, code_simp)

text \<open>Both spellings of the scheme carry the token unchanged.\<close>

lemma extractBearerToken_prefix:
  assumes "t \<noteq> []" and "\<not> isWhite (hd t)" and "\<not> isWhite (last t)"
    and "p = BEARER_PREFIX \<or> p = BEARER_PREFIX_LOWER"
  shows "extractBearerToken (HOne (p @ t)) = Some t"
proof -
  have p: "p \<noteq> []" "\<not> isWhite (hd p)" "length p = length BEARER_PREFIX"
    "toLowerCase p = BEARER_PREFIX_LOWER" "startsWith (p @ t) p"
    using assms(4) prefix_lower
    by (auto simp: BEARER_PREFIX_def BEARER_PREFIX_LOWER_def char_class_defs simp del: prefix_lower)
  have v: "trim (p @ t) = p @ t" using assms p by (intro trim_id) auto
  have t: "trim t = t" using assms by (intro trim_id) simp
  from p assms show ?thesis
    by (auto simp: extractBearerToken_def headerValue_def v t Let_def)
qed

lemma extractBearerToken_some:
  "extractBearerToken hdr = Some t \<Longrightarrow> t \<noteq> []"
  by (auto simp: extractBearerToken_def Let_def split: option.splits if_splits)

lemma sendAppError_status [simp]: "rp_status (sendAppError h rp e) = ae_status (toPublicError h e)"
  by (simp add: sendAppError_def sendError_def Let_def)

lemma sendAppError_headers [simp]: "rp_headers (sendAppError h rp e) = rp_headers rp"
  by (simp add: sendAppError_def sendError_def Let_def)

lemma send_headers [simp]:
  "rp_headers (sendSuccess rp s p) = rp_headers rp" "rp_headers (sendList rp xs l off) = rp_headers rp"
  "rp_headers (sendEmpty rp s) = rp_headers rp"
  by (simp_all add: sendSuccess_def sendList_def sendEmpty_def)

text \<open>A route never throws, and a failure is answered by the public error.\<close>

lemma tryReply_run:
  "tryReply h rp m w =
   (case m w of (Inl e, w') \<Rightarrow> (Inr (sendAppError h rp e), w') | (Inr x, w') \<Rightarrow> (Inr x, w'))"
  by (auto simp: tryReply_def io_simps split: sum.split prod.split)

lemma outcome_tryReply:
  assumes "outcome m P" and "\<And>es x. P es (Inr x) \<Longrightarrow> Q es (Inr x)"
    and "\<And>es e. P es (Inl e) \<Longrightarrow> Q es (Inr (sendAppError h rp e))"
  shows "outcome (tryReply h rp m) Q"
  unfolding tryReply_def
proof (rule outcome_catch [OF assms(1)], goal_cases)
  case (2 es e)
  show ?case by (rule outcome_return) (simp add: assms(3) [OF 2])
qed (rule assms(2))

section \<open>Properties\<close>

text \<open>A token sent as a bearer header, in either spelling of the scheme, arrives unchanged; in
  particular every session token does.\<close>
theorem bearer_round_trip:
  assumes "tokenShape t" and "p = BEARER_PREFIX \<or> p = BEARER_PREFIX_LOWER"
  shows "extractBearerToken (HOne (p @ t)) = Some t"
proof -
  have "t \<noteq> []" using assms(1) by (auto simp: tokenShape_def)
  moreover have "\<not> isWhite c" if "c \<in> set t" for c
    using assms(1) that by (auto simp: tokenShape_def list_all_iff tokenChar_def char_class_defs dest!: bspec)
  ultimately show ?thesis using assms(2) by (intro extractBearerToken_prefix) auto
qed

theorem bearer_round_trip_witness:
  "extractBearerToken (HOne (BEARER_PREFIX @ replicate 43 (CHR ''A''))) = Some (replicate 43 (CHR ''A''))"
  by (rule bearer_round_trip) (simp_all add: tokenShape_def tokenChar_def char_class_defs list_all_iff)

end
