(* ===== verification/DataRoutes.thy ===== *)
theory DataRoutes
  imports HttpReplies
begin

text \<open>
  The authenticated CRUD routes of \<open>src/http/data-routes.ts\<close>.  Every route reads the bearer
  token, asks the auth service for the user, and calls the data service with that user's id.
\<close>

type_synonym authOp = "string \<Rightarrow> AuthenticatedUser io"

text \<open>
  \<open>{ userId: user.id }\<close>.  A UUID column comes back from the driver as a string; any other
  value would be sent as its string form.
\<close>

definition identityOf :: "runtime \<Rightarrow> AuthenticatedUser \<Rightarrow> string" where
  "identityOf R user = (case a_id user of VStr s \<Rightarrow> s | v \<Rightarrow> jsString R v)"

definition routeAuthenticate :: "runtime \<Rightarrow> authOp \<Rightarrow> string option \<Rightarrow> string io" where
  "routeAuthenticate R authOp token =
     (case token of
        None \<Rightarrow> throwM (AppErr (mkErr AUTH_REQUIRED ''Authentication required'' 401 None))
      | Some t \<Rightarrow> bindM (authOp t) (\<lambda>user. returnM (identityOf R user)))"

definition getRows ::
  "runtime \<Rightarrow> authOp \<Rightarrow> (string \<Rightarrow> string \<Rightarrow> jsval \<Rightarrow> jsval \<Rightarrow> jsonRow Page io) \<Rightarrow>
   request \<Rightarrow> reply io" where
  "getRows R authOp listOp request =
     tryReply (heap R) freshReply
       (bindM (routeAuthenticate R authOp (extractBearerToken (rq_authorization request))) (\<lambda>userId.
        bindM (listOp userId (rq_table request) (queryNumber (rq_limit request))
                 (queryNumber (rq_offset request))) (\<lambda>page.
          returnM (sendList freshReply (pg_items page) (pg_limit page) (pg_offset page)))))"

definition getRow ::
  "runtime \<Rightarrow> authOp \<Rightarrow> (string \<Rightarrow> string \<Rightarrow> string \<Rightarrow> jsonRow io) \<Rightarrow> request \<Rightarrow> reply io" where
  "getRow R authOp getOp request =
     tryReply (heap R) freshReply
       (bindM (routeAuthenticate R authOp (extractBearerToken (rq_authorization request))) (\<lambda>userId.
        bindM (getOp userId (rq_table request) (rq_id request)) (\<lambda>row.
          returnM (sendSuccess freshReply 200 (PRow row)))))"

definition postRow ::
  "runtime \<Rightarrow> authOp \<Rightarrow> (string \<Rightarrow> string \<Rightarrow> jsval \<Rightarrow> jsonRow io) \<Rightarrow> request \<Rightarrow> reply io" where
  "postRow R authOp createOp request =
     tryReply (heap R) freshReply
       (bindM (routeAuthenticate R authOp (extractBearerToken (rq_authorization request))) (\<lambda>userId.
        bindM (createOp userId (rq_table request) (rq_body request)) (\<lambda>row.
          returnM (sendSuccess freshReply 201 (PRow row)))))"

definition patchRow ::
  "runtime \<Rightarrow> authOp \<Rightarrow> (string \<Rightarrow> string \<Rightarrow> string \<Rightarrow> jsval \<Rightarrow> jsonRow io) \<Rightarrow> request \<Rightarrow> reply io" where
  "patchRow R authOp updateOp request =
     tryReply (heap R) freshReply
       (bindM (routeAuthenticate R authOp (extractBearerToken (rq_authorization request))) (\<lambda>userId.
        bindM (updateOp userId (rq_table request) (rq_id request) (rq_body request)) (\<lambda>row.
          returnM (sendSuccess freshReply 200 (PRow row)))))"

definition deleteRow ::
  "runtime \<Rightarrow> authOp \<Rightarrow> (string \<Rightarrow> string \<Rightarrow> string \<Rightarrow> unit io) \<Rightarrow> request \<Rightarrow> reply io" where
  "deleteRow R authOp deleteOp request =
     tryReply (heap R) freshReply
       (bindM (routeAuthenticate R authOp (extractBearerToken (rq_authorization request))) (\<lambda>userId.
        bindM (deleteOp userId (rq_table request) (rq_id request)) (\<lambda>_.
          returnM (sendEmpty freshReply 204))))"

subsection \<open>The common shape of the routes\<close>

text \<open>
  A data route either answers the failure of the authentication, having done nothing else, or
  runs the data operation as exactly the authenticated user.
\<close>

lemma route_run:
  "tryReply h rp (bindM (routeAuthenticate R authOp token) k) w =
   (case token of
      None \<Rightarrow> (Inr (sendAppError h rp (AppErr (mkErr AUTH_REQUIRED ''Authentication required'' 401 None))), w)
    | Some t \<Rightarrow>
        (case authOp t w of
           (Inl e, w1) \<Rightarrow> (Inr (sendAppError h rp e), w1)
         | (Inr user, w1) \<Rightarrow> tryReply h rp (k (identityOf R user)) w1))"
  by (auto simp: tryReply_def routeAuthenticate_def io_simps split: option.split sum.split prod.split)

lemmas data_route_defs = getRows_def getRow_def postRow_def patchRow_def deleteRow_def

section \<open>Properties\<close>

text \<open>A data request without a bearer token is answered 401 without any call, and one whose token the
  auth service refuses is answered by that refusal: in both cases no data operation runs.\<close>
theorem data_routes_refuse:
  assumes "extractBearerToken (rq_authorization req) = Some t" and "authOp t w = (Inl e, w1)"
    and "extractBearerToken (rq_authorization anon) = None"
  shows "list_all (\<lambda>route. route req w = (Inr (sendAppError (heap R) freshReply e), w1) \<and>
      route anon w = (Inr (sendAppError (heap R) freshReply
        (AppErr (mkErr AUTH_REQUIRED ''Authentication required'' 401 None))), w))
    [getRows R authOp listOp, getRow R authOp getOp, postRow R authOp createOp,
     patchRow R authOp updateOp, deleteRow R authOp deleteOp]"
  using assms by (simp add: data_route_defs route_run)

theorem data_routes_refuse_witness:
  "deleteRow okRuntime (\<lambda>t w. (Inl authRequired, w)) (\<lambda>u t i w. (Inr (), w @ [EvEnd]))
     \<lparr>rq_ip = [], rq_authorization = HOne ''Bearer x'', rq_table = ''notes'', rq_id = [],
      rq_limit = QAbsent, rq_offset = QAbsent, rq_body = VUndef\<rparr> [] =
   (Inr (sendAppError (heap okRuntime) freshReply authRequired), [])"
proof -
  let ?r = "\<lambda>a. \<lparr>rq_ip = [], rq_authorization = a, rq_table = ''notes'', rq_id = [],
      rq_limit = QAbsent, rq_offset = QAbsent, rq_body = VUndef\<rparr> :: request"
  have a: "extractBearerToken (rq_authorization (?r (HOne ''Bearer x''))) = Some ''x''" by code_simp
  have b: "extractBearerToken (rq_authorization (?r HAbsent)) = None" by code_simp
  show ?thesis
    using data_routes_refuse [OF a _ b, of "\<lambda>t w. (Inl authRequired, w)" "[]" authRequired "[]" okRuntime
        "\<lambda>_ _ _ _. throwM authRequired" "\<lambda>_ _ _. throwM authRequired" "\<lambda>_ _ _. throwM authRequired"
        "\<lambda>_ _ _ _. throwM authRequired" "\<lambda>u t i w. (Inr (), w @ [EvEnd])"] by simp
qed

text \<open>A data operation runs as exactly the user the auth service answered for the bearer token of
  the request, on the table and row the request names.\<close>
theorem data_routes_run_as_user:
  assumes "extractBearerToken (rq_authorization req) = Some t" and "authOp t w = (Inr user, w1)"
  shows "getRow R authOp getOp req w =
      tryReply (heap R) freshReply (bindM (getOp (identityOf R user) (rq_table req) (rq_id req))
        (\<lambda>row. returnM (sendSuccess freshReply 200 (PRow row)))) w1 \<and>
    getRows R authOp listOp req w =
      tryReply (heap R) freshReply (bindM (listOp (identityOf R user) (rq_table req)
          (queryNumber (rq_limit req)) (queryNumber (rq_offset req)))
        (\<lambda>page. returnM (sendList freshReply (pg_items page) (pg_limit page) (pg_offset page)))) w1 \<and>
    postRow R authOp createOp req w =
      tryReply (heap R) freshReply (bindM (createOp (identityOf R user) (rq_table req) (rq_body req))
        (\<lambda>row. returnM (sendSuccess freshReply 201 (PRow row)))) w1 \<and>
    patchRow R authOp updateOp req w =
      tryReply (heap R) freshReply (bindM (updateOp (identityOf R user) (rq_table req) (rq_id req) (rq_body req))
        (\<lambda>row. returnM (sendSuccess freshReply 200 (PRow row)))) w1 \<and>
    deleteRow R authOp deleteOp req w =
      tryReply (heap R) freshReply (bindM (deleteOp (identityOf R user) (rq_table req) (rq_id req))
        (\<lambda>_. returnM (sendEmpty freshReply 204))) w1"
  using assms by (simp add: data_route_defs route_run)

theorem data_routes_run_as_user_witness:
  "deleteRow okRuntime (\<lambda>t w. (Inr \<lparr>a_id = VStr t, a_email = VNull\<rparr>, w))
     (\<lambda>u t i w. (Inl (ThrownVal (VStr u)), w))
     \<lparr>rq_ip = [], rq_authorization = HOne ''Bearer x'', rq_table = ''notes'', rq_id = [],
      rq_limit = QAbsent, rq_offset = QAbsent, rq_body = VUndef\<rparr> [] =
   (Inr (sendAppError (heap okRuntime) freshReply (ThrownVal (VStr ''x''))), [])"
proof -
  let ?r = "\<lparr>rq_ip = [], rq_authorization = HOne ''Bearer x'', rq_table = ''notes'', rq_id = [],
      rq_limit = QAbsent, rq_offset = QAbsent, rq_body = VUndef\<rparr> :: request"
  have a: "extractBearerToken (rq_authorization ?r) = Some ''x''" by code_simp
  show ?thesis
    using data_routes_run_as_user [OF a, of "\<lambda>t w. (Inr \<lparr>a_id = VStr t, a_email = VNull\<rparr>, w)" "[]"
        "\<lparr>a_id = VStr ''x'', a_email = VNull\<rparr>" "[]" okRuntime "\<lambda>_ _ _. throwM authRequired"
        "\<lambda>_ _ _ _. throwM authRequired" "\<lambda>_ _ _. throwM authRequired" "\<lambda>_ _ _ _. throwM authRequired"
        "\<lambda>u t i w. (Inl (ThrownVal (VStr u)), w)"]
    by (simp add: identityOf_def tryReply_def io_simps)
qed

end
