(* ===== verification/RateLimiter.thy ===== *)
theory RateLimiter
  imports Prelude
begin

text \<open>
  The in-memory fixed-window limiter of \<open>src/http/rate-limiter.ts\<close>.  Its \<open>Map\<close> is an
  association list in insertion order; times are integer milliseconds.
\<close>

record RateLimiterOptions =
  attemptsPerWindow :: int
  windowMs :: int
  maxEntries :: nat

definition defaultRateLimiterOptions :: RateLimiterOptions where
  "defaultRateLimiterOptions = \<lparr>attemptsPerWindow = 10, windowMs = 60000, maxEntries = 10000\<rparr>"

record Entry =
  attempts :: int
  windowStart :: int
  resetAt :: int

type_synonym limiter_state = "(string \<times> Entry) list"

record RateLimitResult =
  allowed :: bool
  retryAfterSeconds :: int
  state :: Entry

definition mapDelete :: "'k \<Rightarrow> ('k \<times> 'v) list \<Rightarrow> ('k \<times> 'v) list" where
  "mapDelete k m = filter (\<lambda>(k', _). k' \<noteq> k) m"

definition evictExpired :: "int \<Rightarrow> limiter_state \<Rightarrow> limiter_state" where
  "evictExpired now m = filter (\<lambda>(_, e). \<not> resetAt e \<le> now) m"

text \<open>The first entry with the least \<open>resetAt\<close>, as the strict comparison finds it.\<close>

fun oldestKey :: "(string \<times> int) option \<Rightarrow> limiter_state \<Rightarrow> string option" where
  "oldestKey best [] = map_option fst best"
| "oldestKey best ((k, e) # m) =
     (case best of
        None \<Rightarrow> oldestKey (Some (k, resetAt e)) m
      | Some (bk, br) \<Rightarrow> if resetAt e < br then oldestKey (Some (k, resetAt e)) m
                         else oldestKey best m)"

definition evictOldest :: "limiter_state \<Rightarrow> limiter_state" where
  "evictOldest m = (case oldestKey None m of None \<Rightarrow> m | Some k \<Rightarrow> mapDelete k m)"

definition insertEntry :: "RateLimiterOptions \<Rightarrow> string \<Rightarrow> Entry \<Rightarrow> limiter_state \<Rightarrow> limiter_state" where
  "insertEntry opt key entry m =
     (let m' = (if maxEntries opt \<le> length m \<and> map_of m key = None then evictOldest m else m)
      in mapSet key entry m')"

text \<open>\<open>Math.ceil(ms / 1000)\<close>.\<close>

definition ceilSeconds :: "int \<Rightarrow> int" where
  "ceilSeconds ms = - ((- ms) div 1000)"

definition check ::
  "RateLimiterOptions \<Rightarrow> int \<Rightarrow> string \<Rightarrow> limiter_state \<Rightarrow> RateLimitResult \<times> limiter_state" where
  "check opt now key m0 =
     (let m = evictExpired now m0
      in case map_of m key of
           None \<Rightarrow>
             (let entry = \<lparr>attempts = 1, windowStart = now, resetAt = now + windowMs opt\<rparr>
              in (\<lparr>allowed = True, retryAfterSeconds = 0, state = entry\<rparr>,
                  insertEntry opt key entry m))
         | Some existing \<Rightarrow>
             (if resetAt existing \<le> now then
                (let entry = \<lparr>attempts = 1, windowStart = now, resetAt = now + windowMs opt\<rparr>
                 in (\<lparr>allowed = True, retryAfterSeconds = 0, state = entry\<rparr>,
                     mapSet key entry m))
              else if attemptsPerWindow opt \<le> attempts existing then
                (\<lparr>allowed = False, retryAfterSeconds = ceilSeconds (resetAt existing - now),
                  state = existing\<rparr>, m)
              else
                (let entry = existing\<lparr>attempts := attempts existing + 1\<rparr>
                 in (\<lparr>allowed = True, retryAfterSeconds = 0, state = entry\<rparr>,
                     mapSet key entry m))))"

text \<open>A run: one check per (time, key) pair, with the results in order.\<close>

fun runChecks ::
  "RateLimiterOptions \<Rightarrow> (int \<times> string) list \<Rightarrow> limiter_state \<Rightarrow> RateLimitResult list \<times> limiter_state" where
  "runChecks opt [] m = ([], m)"
| "runChecks opt ((now, key) # cs) m =
     (let (r, m') = check opt now key m; (rs, m'') = runChecks opt cs m' in (r # rs, m''))"

subsection \<open>The map primitives\<close>

lemma distinct_filter_keys: "distinct (map fst m) \<Longrightarrow> distinct (map fst (filter P m))"
  by (induction m) auto

lemma map_of_filter_Some:
  "distinct (map fst m) \<Longrightarrow> map_of (filter (\<lambda>(k, e). P e) m) key = Some e \<longleftrightarrow>
   map_of m key = Some e \<and> P e"
  by (induction m) (auto simp: map_of_eq_None_iff image_iff split: if_splits)

lemma oldestKey_in:
  "oldestKey best m = Some k \<Longrightarrow> k \<in> fst ` set m \<or> (\<exists>r. best = Some (k, r))"
proof (induction m arbitrary: best)
  case (Cons x m)
  obtain k' e where x: "x = (k', e)" by (cases x)
  from Cons.prems consider "oldestKey (Some (k', resetAt e)) m = Some k" | "oldestKey best m = Some k"
    by (auto simp: x split: option.splits if_splits)
  then show ?case
    using Cons.IH [of best] Cons.IH [of "Some (k', resetAt e)"] by cases (auto simp: x)
qed auto

lemma oldestKey_None: "oldestKey best m = None \<longleftrightarrow> best = None \<and> m = []"
  by (induction best m rule: oldestKey.induct) (auto split: option.splits if_splits)

lemma length_mapDelete:
  "distinct (map fst m) \<Longrightarrow> k \<in> fst ` set m \<Longrightarrow> Suc (length (mapDelete k m)) = length m"
  unfolding mapDelete_def
proof (induction m)
  case (Cons x m)
  show ?case
  proof (cases "fst x = k")
    case True
    with Cons.prems(1) have "filter (\<lambda>(k', _). k' \<noteq> k) m = m"
      by (auto simp: filter_id_conv image_iff case_prod_beta)
    with True show ?thesis by (cases x) simp
  next
    case False
    with Cons show ?thesis by (cases x) auto
  qed
qed simp

lemma length_evictOldest:
  assumes "distinct (map fst m)" and "m \<noteq> []"
  shows "Suc (length (evictOldest m)) = length m"
proof -
  from assms(2) obtain k where k: "oldestKey None m = Some k" using oldestKey_None by fastforce
  with oldestKey_in [OF k] assms(1) show ?thesis
    by (simp add: evictOldest_def length_mapDelete)
qed

lemma set_evictOldest: "set (evictOldest m) \<subseteq> set m"
  by (auto simp: evictOldest_def mapDelete_def split: option.splits)

lemma distinct_evictOldest: "distinct (map fst m) \<Longrightarrow> distinct (map fst (evictOldest m))"
  by (auto simp: evictOldest_def mapDelete_def distinct_filter_keys split: option.splits)

subsection \<open>The invariant\<close>

definition entryOk :: "RateLimiterOptions \<Rightarrow> Entry \<Rightarrow> bool" where
  "entryOk opt e \<longleftrightarrow>
     1 \<le> attempts e \<and> attempts e \<le> max 1 (attemptsPerWindow opt) \<and>
     resetAt e = windowStart e + windowMs opt"

definition limiterInv :: "RateLimiterOptions \<Rightarrow> limiter_state \<Rightarrow> bool" where
  "limiterInv opt m \<longleftrightarrow>
     distinct (map fst m) \<and> length m \<le> max 1 (maxEntries opt) \<and> (\<forall>(k, e)\<in>set m. entryOk opt e)"

lemma limiterInv_Nil [simp]: "limiterInv opt []"
  by (simp add: limiterInv_def)

lemma evictExpired_inv: "limiterInv opt m \<Longrightarrow> limiterInv opt (evictExpired now m)"
  by (auto simp: limiterInv_def evictExpired_def distinct_filter_keys
      intro: order_trans [OF length_filter_le])

lemma insertEntry_inv:
  assumes "limiterInv opt m" and "entryOk opt e"
  shows "limiterInv opt (insertEntry opt k e m)"
proof -
  define m' where "m' = (if maxEntries opt \<le> length m \<and> map_of m k = None then evictOldest m else m)"
  from assms(1) have d: "distinct (map fst m')" and s: "set m' \<subseteq> set m"
    using set_evictOldest by (auto simp: m'_def limiterInv_def distinct_evictOldest)
  have len: "length (mapSet k e m') \<le> max 1 (maxEntries opt)"
  proof (cases "map_of m k = None \<and> maxEntries opt \<le> length m")
    case True
    with assms(1) length_evictOldest [of m] show ?thesis
      by (cases "m = []") (auto simp: m'_def length_mapSet limiterInv_def evictOldest_def)
  next
    case False
    with assms(1) show ?thesis
      by (auto simp: m'_def length_mapSet limiterInv_def map_of_eq_None_iff)
  qed
  have "\<forall>(k, e)\<in>set (mapSet k e m'). entryOk opt e"
    using set_mapSet [of k e m'] s assms by (fastforce simp: limiterInv_def)
  with d len show ?thesis
    by (simp add: limiterInv_def insertEntry_def m'_def [symmetric] Let_def distinct_mapSet)
qed

lemma mapSet_inv:
  assumes "limiterInv opt m" and "entryOk opt e" and "map_of m k \<noteq> None"
  shows "limiterInv opt (mapSet k e m)"
proof -
  have "\<forall>x\<in>set (mapSet k e m). case x of (k, e) \<Rightarrow> entryOk opt e"
    using set_mapSet [of k e m] assms(1,2) unfolding limiterInv_def by auto
  moreover have "length (mapSet k e m) = length m"
    using assms(3) by (simp add: length_mapSet map_of_eq_None_iff)
  ultimately show ?thesis using assms(1) by (simp add: limiterInv_def distinct_mapSet)
qed

lemma check_inv:
  assumes "limiterInv opt m"
  shows "limiterInv opt (snd (check opt now key m))"
proof -
  define m' where "m' = evictExpired now m"
  have inv: "limiterInv opt m'" using assms evictExpired_inv by (simp add: m'_def)
  show ?thesis
  proof (cases "map_of m' key")
    case None
    then show ?thesis
      using inv by (auto simp: check_def m'_def [symmetric] Let_def entryOk_def intro!: insertEntry_inv)
  next
    case (Some e)
    then have e: "entryOk opt e" using inv map_of_SomeD [OF Some] by (auto simp: limiterInv_def)
    then show ?thesis
      using inv Some
      by (auto simp: check_def m'_def [symmetric] Let_def intro!: mapSet_inv simp: entryOk_def)
  qed
qed

lemma runChecks_inv: "limiterInv opt m \<Longrightarrow> limiterInv opt (snd (runChecks opt cs m))"
proof (induction opt cs m rule: runChecks.induct)
  case (2 opt now key cs m)
  then show ?case using check_inv [of opt m now key] by (auto simp: Let_def split: prod.splits)
qed simp

text \<open>
  Expired entries are gone before the lookup, so the branch that resets a rolled-over window
  is never taken; a refusal always asks for a positive wait of at most one window.
\<close>

lemma evictExpired_live:
  "limiterInv opt m \<Longrightarrow> map_of (evictExpired now m) key = Some e \<Longrightarrow> now < resetAt e"
  by (auto simp: evictExpired_def map_of_filter_Some limiterInv_def)

lemma ceilSeconds_bounds: "0 < ms \<Longrightarrow> 1 \<le> ceilSeconds ms \<and> ms \<le> 1000 * ceilSeconds ms \<and>
   1000 * ceilSeconds ms < ms + 1000"
  unfolding ceilSeconds_def by linarith

lemma check_refused:
  assumes "limiterInv opt m" and "check opt now key m = (r, m')" and "\<not> allowed r"
  shows "\<exists>e. map_of (evictExpired now m) key = Some e \<and> attemptsPerWindow opt \<le> attempts e \<and>
    retryAfterSeconds r = ceilSeconds (resetAt e - now) \<and> now < resetAt e \<and>
    m' = evictExpired now m"
  using assms evictExpired_live [OF assms(1)]
  by (auto simp: check_def Let_def split: option.splits if_splits)

subsection \<open>How many attempts a window lets through\<close>

text \<open>The allowed checks of one key in the window that starts at \<open>ws\<close>.\<close>

fun countAllowed :: "string \<Rightarrow> int \<Rightarrow> (int \<times> string) list \<Rightarrow> RateLimitResult list \<Rightarrow> int" where
  "countAllowed k ws ((now, key) # cs) (r # rs) =
     (if key = k \<and> allowed r \<and> windowStart (state r) = ws then 1 else 0) + countAllowed k ws cs rs"
| "countAllowed k ws _ _ = 0"

text \<open>
  \<open>c\<close> counts the allowed checks so far: the live entry's counter agrees with it, and every
  other window it has counted has expired.
\<close>

definition windowInv ::
  "RateLimiterOptions \<Rightarrow> int \<Rightarrow> (string \<Rightarrow> int \<Rightarrow> int) \<Rightarrow> limiter_state \<Rightarrow> bool" where
  "windowInv opt now c m \<longleftrightarrow>
     (\<forall>k ws. 0 \<le> c k ws \<and> c k ws \<le> max 1 (attemptsPerWindow opt)) \<and>
     (\<forall>k e. map_of m k = Some e \<longrightarrow> c k (windowStart e) = attempts e) \<and>
     (\<forall>k ws. 0 < c k ws \<longrightarrow>
        (\<exists>e. map_of m k = Some e \<and> windowStart e = ws) \<or> ws + windowMs opt \<le> now)"

lemma counted:
  "windowInv opt now c m \<Longrightarrow> 0 < c k ws \<Longrightarrow>
   (\<exists>e. map_of m k = Some e \<and> windowStart e = ws) \<or> ws + windowMs opt \<le> now"
  by (simp add: windowInv_def)

lemma windowInv_evict:
  assumes "limiterInv opt m" and "windowInv opt now c m" and "now \<le> now'"
  shows "windowInv opt now' c (evictExpired now' m)"
proof -
  have ok: "resetAt e = windowStart e + windowMs opt" if "map_of m k = Some e" for k e
    using assms(1) map_of_SomeD [OF that] by (auto simp: limiterInv_def entryOk_def)
  have ev: "map_of (evictExpired now' m) k = Some e \<longleftrightarrow> map_of m k = Some e \<and> now' < resetAt e" for k e
    using assms(1) by (auto simp: evictExpired_def map_of_filter_Some limiterInv_def)
  show ?thesis
    unfolding windowInv_def ev
  proof (intro conjI allI impI)
    fix k ws assume "0 < c k ws"
    with assms(2) consider e where "map_of m k = Some e" "windowStart e = ws" | "ws + windowMs opt \<le> now"
      unfolding windowInv_def by blast
    then show "(\<exists>e. (map_of m k = Some e \<and> now' < resetAt e) \<and> windowStart e = ws) \<or>
        ws + windowMs opt \<le> now'"
    proof cases
      case (1 e)
      then show ?thesis using ok [of k e] by force
    next
      case 2
      then show ?thesis using assms(3) by simp
    qed
  qed (use assms(2) in \<open>auto simp: windowInv_def\<close>)
qed

text \<open>Counting one more allowed check, in a new window or in the live one.\<close>

lemma windowInv_new:
  assumes "windowInv opt now c m" and "map_of m key = None" and "0 < windowMs opt"
    and "windowStart e = now" and "attempts e = 1" and "map_of m' = (map_of m)(key \<mapsto> e)"
  shows "c key now = 0 \<and>
    windowInv opt now (\<lambda>k ws. if k = key \<and> ws = now then 1 else c k ws) m'"
proof -
  have z: "c key now = 0"
    using assms(1,2,3) unfolding windowInv_def
    by (metis add_le_same_cancel1 linorder_not_less not_None_eq order_le_less)
  show ?thesis
    unfolding windowInv_def
  proof (intro conjI allI impI z)
    fix k ws assume "0 < (if k = key \<and> ws = now then 1 else c k ws)"
    then show "(\<exists>e. map_of m' k = Some e \<and> windowStart e = ws) \<or> ws + windowMs opt \<le> now"
      using counted [OF assms(1), of k ws] assms(2,4,6) by (cases "k = key") (auto split: if_splits)
  next
    fix k e' assume "map_of m' k = Some e'"
    then show "(if k = key \<and> windowStart e' = now then 1 else c k (windowStart e')) = attempts e'"
      using assms(1,4,5,6) unfolding windowInv_def by (auto split: if_splits)
  qed (use assms(1) in \<open>auto simp: windowInv_def\<close>)
qed

lemma windowInv_bump:
  assumes "windowInv opt now c m" and "map_of m key = Some e" and "attempts e < attemptsPerWindow opt"
    and "map_of m' = (map_of m)(key \<mapsto> e\<lparr>attempts := attempts e + 1\<rparr>)"
  shows "windowInv opt now
    (\<lambda>k ws. if k = key \<and> ws = windowStart e then c k ws + 1 else c k ws) m'"
proof -
  have c: "c key (windowStart e) = attempts e" using assms(1,2) by (simp add: windowInv_def)
  have b: "0 \<le> c k ws" "c k ws \<le> max 1 (attemptsPerWindow opt)" for k ws
    using assms(1) by (simp_all add: windowInv_def)
  show ?thesis
    unfolding windowInv_def
  proof (intro conjI allI impI)
    fix k ws
    show "0 \<le> (if k = key \<and> ws = windowStart e then c k ws + 1 else c k ws)"
      using b(1) [of k ws] by (cases "k = key \<and> ws = windowStart e") auto
    show "(if k = key \<and> ws = windowStart e then c k ws + 1 else c k ws) \<le> max 1 (attemptsPerWindow opt)"
      using b(2) [of k ws] c assms(3) by (cases "k = key \<and> ws = windowStart e") auto
    assume "0 < (if k = key \<and> ws = windowStart e then c k ws + 1 else c k ws)"
    then show "(\<exists>e. map_of m' k = Some e \<and> windowStart e = ws) \<or> ws + windowMs opt \<le> now"
      using counted [OF assms(1), of k ws] assms(2,4) by (cases "k = key") (auto split: if_splits)
  next
    fix k e' assume "map_of m' k = Some e'"
    then show "(if k = key \<and> windowStart e' = windowStart e then c k (windowStart e') + 1
                else c k (windowStart e')) = attempts e'"
      using assms(1,4) c unfolding windowInv_def by (auto split: if_splits)
  qed
qed

lemma insertEntry_map_of:
  assumes "distinct (map fst m)" and "map_of m key = None"
    and "card (insert key (fst ` set m)) \<le> maxEntries opt"
  shows "map_of (insertEntry opt key e m) = (map_of m)(key \<mapsto> e)"
proof -
  have "card (fst ` set m) = length m"
    using assms(1) by (metis distinct_card length_map list.set_map)
  with assms have "length m < maxEntries opt"
    by (simp add: map_of_eq_None_iff card_insert_if)
  then show ?thesis by (simp add: insertEntry_def)
qed

lemma fst_evictExpired: "fst ` set (evictExpired now m) \<subseteq> fst ` set m"
  by (auto simp: evictExpired_def)

lemma check_windowInv:
  assumes inv: "limiterInv opt m" and win: "windowInv opt now c m" and now: "now \<le> now'"
    and W: "0 < windowMs opt" and room: "card (insert key (fst ` set m)) \<le> maxEntries opt"
    and ch: "check opt now' key m = (r, m')"
  shows "windowInv opt now'
      (\<lambda>k ws. c k ws + (if key = k \<and> allowed r \<and> windowStart (state r) = ws then 1 else 0)) m' \<and>
    fst ` set m' \<subseteq> insert key (fst ` set m)"
proof -
  define m1 where "m1 = evictExpired now' m"
  have inv1: "limiterInv opt m1" and win1: "windowInv opt now' c m1"
    using evictExpired_inv [OF inv] windowInv_evict [OF inv win now] by (simp_all add: m1_def)
  have sub: "fst ` set m1 \<subseteq> fst ` set m" by (simp add: m1_def fst_evictExpired)
  have room1: "card (insert key (fst ` set m1)) \<le> maxEntries opt"
    using sub by (intro order_trans [OF card_mono room]) auto
  show ?thesis
  proof (cases "map_of m1 key")
    case None
    define e where "e = \<lparr>attempts = 1, windowStart = now', resetAt = now' + windowMs opt\<rparr>"
    from ch None have r: "r = \<lparr>allowed = True, retryAfterSeconds = 0, state = e\<rparr>"
      and m': "m' = insertEntry opt key e m1"
      by (simp_all add: check_def m1_def [symmetric] e_def Let_def)
    have mo: "map_of m' = (map_of m1)(key \<mapsto> e)"
      unfolding m' using inv1 None room1 by (intro insertEntry_map_of) (auto simp: limiterInv_def)
    from windowInv_new [OF win1 None W _ _ mo]
    have w: "c key now' = 0" "windowInv opt now' (\<lambda>k ws. if k = key \<and> ws = now' then 1 else c k ws) m'"
      by (simp_all add: e_def)
    have "(\<lambda>k ws. c k ws + (if key = k \<and> allowed r \<and> windowStart (state r) = ws then 1 else 0)) =
      (\<lambda>k ws. if k = key \<and> ws = now' then 1 else c k ws)"
      using w(1) by (auto simp: fun_eq_iff r e_def)
    moreover have "fst ` set m' \<subseteq> insert key (fst ` set m1)"
      unfolding m' insertEntry_def using set_evictOldest [of m1] by (auto simp: dom_mapSet Let_def)
    ultimately show ?thesis using w(2) sub by auto
  next
    case (Some e)
    then have live: "now' < resetAt e"
      using evictExpired_live [OF inv] by (simp add: m1_def)
    show ?thesis
    proof (cases "attemptsPerWindow opt \<le> attempts e")
      case True
      with ch Some live have "\<not> allowed r" "m' = m1"
        by (auto simp: check_def m1_def [symmetric] Let_def)
      with win1 sub show ?thesis by auto
    next
      case False
      with ch Some live have r: "r = \<lparr>allowed = True, retryAfterSeconds = 0,
            state = e\<lparr>attempts := attempts e + 1\<rparr>\<rparr>"
        and m': "m' = mapSet key (e\<lparr>attempts := attempts e + 1\<rparr>) m1"
        by (auto simp: check_def m1_def [symmetric] Let_def)
      have "(\<lambda>k ws. c k ws + (if key = k \<and> allowed r \<and> windowStart (state r) = ws then 1 else 0)) =
        (\<lambda>k ws. if k = key \<and> ws = windowStart e then c k ws + 1 else c k ws)"
        by (auto simp: fun_eq_iff r)
      with windowInv_bump [OF win1 Some, of m'] False sub show ?thesis
        by (auto simp: m' dom_mapSet)
    qed
  qed
qed

lemma runChecks_windowInv:
  assumes "limiterInv opt m" and "windowInv opt t0 c m" and "sorted (t0 # map fst cs)"
    and "0 < windowMs opt" and "card (snd ` set cs \<union> fst ` set m) \<le> maxEntries opt"
    and "runChecks opt cs m = (rs, m')"
  shows "c k ws + countAllowed k ws cs rs \<le> max 1 (attemptsPerWindow opt)"
  using assms
proof (induction cs arbitrary: m t0 c rs)
  case Nil
  then show ?case by (simp add: windowInv_def)
next
  case (Cons x cs)
  obtain now key where x: "x = (now, key)" by (cases x)
  obtain r m1 where ch: "check opt now key m = (r, m1)" by fastforce
  obtain rs' where rs: "runChecks opt cs m1 = (rs', m')" "rs = r # rs'"
    using Cons.prems(6) x ch by (auto simp: Let_def split: prod.splits)
  define c' where "c' = (\<lambda>k ws. c k ws +
    (if key = k \<and> allowed r \<and> windowStart (state r) = ws then 1 else 0))"
  have "card (insert key (fst ` set m)) \<le> maxEntries opt"
    using x by (intro order_trans [OF card_mono Cons.prems(5)]) auto
  from check_windowInv [OF Cons.prems(1,2) _ Cons.prems(4) this ch] Cons.prems(3) x
  have w: "windowInv opt now c' m1" and s: "fst ` set m1 \<subseteq> insert key (fst ` set m)"
    by (auto simp: c'_def)
  have "card (snd ` set cs \<union> fst ` set m1) \<le> maxEntries opt"
    using x s by (intro order_trans [OF card_mono Cons.prems(5)]) auto
  moreover have "limiterInv opt m1" using check_inv [OF Cons.prems(1), of now key] ch by simp
  moreover have "sorted (now # map fst cs)" using Cons.prems(3) x by simp
  ultimately have "c' k ws + countAllowed k ws cs rs' \<le> max 1 (attemptsPerWindow opt)"
    using Cons.IH w Cons.prems(4) rs(1) by blast
  then show ?case by (simp add: x rs(2) c'_def add.assoc)
qed

section \<open>Properties\<close>

text \<open>From an empty table, whatever the sequence of checks, the limiter never holds more than its
  configured number of entries, at most one per key, each within its attempt limit.\<close>
theorem limiter_is_bounded:
  "limiterInv opt (snd (runChecks opt cs []))"
  by (rule runChecks_inv) simp



text \<open>A refused check changes no counter, and the wait it announces is the smallest number of whole
  seconds after which the window is over, at least one and never more than the window needs.\<close>
theorem limiter_refusal:
  assumes "limiterInv opt m" and "check opt now key m = (r, m')" and "\<not> allowed r"
  shows "m' = evictExpired now m \<and> 1 \<le> retryAfterSeconds r \<and>
    resetAt (state r) \<le> now + 1000 * retryAfterSeconds r \<and>
    now + 1000 * retryAfterSeconds r < resetAt (state r) + 1000"
proof -
  from check_refused [OF assms] obtain e where e: "map_of (evictExpired now m) key = Some e"
    "retryAfterSeconds r = ceilSeconds (resetAt e - now)" "now < resetAt e" "m' = evictExpired now m"
    by blast
  moreover have "state r = e"
    using assms(2,3) e(1) by (auto simp: check_def Let_def split: if_splits)
  ultimately show ?thesis using ceilSeconds_bounds [of "resetAt e - now"] by auto
qed

theorem limiter_refusal_witness:
  "\<exists>r m'. check \<lparr>attemptsPerWindow = 1, windowMs = 1500, maxEntries = 5\<rparr> 100 ''a''
      [(''a'', \<lparr>attempts = 1, windowStart = 0, resetAt = 1500\<rparr>)] = (r, m') \<and>
    1 \<le> retryAfterSeconds r"
proof -
  let ?opt = "\<lparr>attemptsPerWindow = 1, windowMs = 1500, maxEntries = 5\<rparr>"
  let ?m = "[(''a'', \<lparr>attempts = 1, windowStart = 0, resetAt = 1500\<rparr>)]"
  let ?c = "check ?opt 100 ''a'' ?m"
  have "\<not> allowed (fst ?c)" by code_simp
  moreover have "limiterInv ?opt ?m" by (simp add: limiterInv_def entryOk_def)
  ultimately show ?thesis
    using limiter_refusal [OF _ surjective_pairing] surjective_pairing [of ?c] by blast
qed

end
