(* ===== verification/AuthRoutes.thy ===== *)
theory AuthRoutes
  imports HttpReplies RateLimiter
begin

text \<open>
  The authentication routes of \<open>src/http/auth-routes.ts\<close>.  The limiter is the only state: a
  route takes the limiter's table at the clock time of its check and answers the new table
  beside the reply.
\<close>

definition rateLimited :: app_error where
  "rateLimited = mkErr RATE_LIMITED ''Rate limit exceeded'' 429 None"

definition authRequiredError :: app_error where
  "authRequiredError = mkErr AUTH_REQUIRED ''Authentication required'' 401 None"

definition exactlyEmailAndPassword :: app_error where
  "exactlyEmailAndPassword =
     validationError [(''body'', dstr ''Must contain exactly email and password'')]"

text \<open>\<open>typeof v !== "string" ? "Must be a string" : undefined\<close>.\<close>

definition stringComplaint :: "jsval \<Rightarrow> detail" where
  "stringComplaint v = (case v of VStr s \<Rightarrow> DVal VUndef | _ \<Rightarrow> dstr ''Must be a string'')"

definition mustBeStrings :: "jsval \<Rightarrow> jsval \<Rightarrow> app_error" where
  "mustBeStrings email password =
     validationError
       [(''email'', stringComplaint email), (''password'', stringComplaint password)]"

text \<open>
  What registration and login have in common: the limit, then the body, then the service.
\<close>

definition credentialsRoute ::
  "heap \<Rightarrow> int \<Rightarrow> (string \<Rightarrow> string \<Rightarrow> AuthResult io) \<Rightarrow> reply \<Rightarrow> jsval \<Rightarrow> reply io" where
  "credentialsRoute h okStatus service rp rawBody =
     (case getPlainObjectBody h rawBody of
        None \<Rightarrow> returnM (sendAppError h rp (AppErr exactlyEmailAndPassword))
      | Some body \<Rightarrow>
          if length body \<noteq> 2 \<or> \<not> hasOwn body ''email'' \<or> \<not> hasOwn body ''password''
          then returnM (sendAppError h rp (AppErr exactlyEmailAndPassword))
          else
            (case (propOf body ''email'', propOf body ''password'') of
               (VStr email, VStr password) \<Rightarrow>
                 bindM (service email password) (\<lambda>result.
                 bindM (liftR (mapAuthResult h result)) (\<lambda>mapped.
                   returnM (sendSuccess rp okStatus (PAuth mapped))))
             | (email, password) \<Rightarrow>
                 returnM (sendAppError h rp (AppErr (mustBeStrings email password)))))"

definition limitedRoute ::
  "heap \<Rightarrow> RateLimiterOptions \<Rightarrow> int \<Rightarrow> string \<Rightarrow> (reply \<Rightarrow> reply io) \<Rightarrow> limiter_state \<Rightarrow>
   limiter_state \<times> reply io" where
  "limitedRoute h opt now key k m =
     (let rp = sendNoCache freshReply;
          (limit, m') = check opt now key m
      in (m', tryReply h rp
            (if \<not> allowed limit then
               returnM (sendAppError h
                 (setHeader ''Retry-After'' (intStr (retryAfterSeconds limit)) rp) (AppErr rateLimited))
             else k rp)))"

definition postRegister ::
  "heap \<Rightarrow> RateLimiterOptions \<Rightarrow> int \<Rightarrow> (string \<Rightarrow> string \<Rightarrow> AuthResult io) \<Rightarrow> request \<Rightarrow>
   limiter_state \<Rightarrow> limiter_state \<times> reply io" where
  "postRegister h opt now registerOp request =
     limitedRoute h opt now (''register:'' @ rq_ip request)
       (\<lambda>rp. credentialsRoute h 201 registerOp rp (rq_body request))"

definition postLogin ::
  "heap \<Rightarrow> RateLimiterOptions \<Rightarrow> int \<Rightarrow> (string \<Rightarrow> string \<Rightarrow> AuthResult io) \<Rightarrow> request \<Rightarrow>
   limiter_state \<Rightarrow> limiter_state \<times> reply io" where
  "postLogin h opt now loginOp request =
     limitedRoute h opt now (''login:'' @ rq_ip request)
       (\<lambda>rp. credentialsRoute h 200 loginOp rp (rq_body request))"

definition postLogout :: "heap \<Rightarrow> (string \<Rightarrow> unit io) \<Rightarrow> request \<Rightarrow> reply io" where
  "postLogout h logoutOp request =
     (let rp = sendNoCache freshReply
      in tryReply h rp
           (case extractBearerToken (rq_authorization request) of
              None \<Rightarrow> returnM (sendAppError h rp (AppErr authRequiredError))
            | Some token \<Rightarrow> bindM (logoutOp token) (\<lambda>_. returnM (sendEmpty rp 204))))"

definition getMe :: "heap \<Rightarrow> (string \<Rightarrow> AuthenticatedUser io) \<Rightarrow> request \<Rightarrow> reply io" where
  "getMe h authOp request =
     (let rp = sendNoCache freshReply
      in tryReply h rp
           (case extractBearerToken (rq_authorization request) of
              None \<Rightarrow> returnM (sendAppError h rp (AppErr authRequiredError))
            | Some token \<Rightarrow>
                bindM (authOp token) (\<lambda>user.
                  returnM (sendSuccess rp 200 (PUser (mapAuthenticatedUser user))))))"

subsection \<open>Facts\<close>

definition noStore :: "reply \<Rightarrow> bool" where
  "noStore rp \<longleftrightarrow> (''Cache-Control'', ''no-store'') \<in> set (rp_headers rp)"

lemma noStore_simps [simp]:
  "noStore (sendNoCache rp)" "noStore (sendAppError h rp e) = noStore rp"
  "noStore (sendSuccess rp s p) = noStore rp" "noStore (sendEmpty rp s) = noStore rp"
  "k \<noteq> ''Cache-Control'' \<Longrightarrow> noStore (setHeader k v rp) = noStore rp"
  by (auto simp: noStore_def sendNoCache_def setHeader_def)

text \<open>
  \<open>alwaysReplies m P\<close>: from every history \<open>m\<close> ends in a reply, never in a throw, and the reply
  satisfies \<open>P\<close>.
\<close>

definition alwaysReplies :: "reply io \<Rightarrow> (reply \<Rightarrow> bool) \<Rightarrow> bool" where
  "alwaysReplies m P \<longleftrightarrow> (\<forall>w. \<exists>rp w'. m w = (Inr rp, w') \<and> P rp)"

lemma alwaysReplies_tryReply:
  assumes "P (sendNoCache rp0) \<Longrightarrow> \<forall>w rp w'. m w = (Inr rp, w') \<longrightarrow> P rp"
    and "\<And>e. P (sendAppError h (sendNoCache rp0) e)" and "P (sendNoCache rp0)"
  shows "alwaysReplies (tryReply h (sendNoCache rp0) m) P"
  unfolding alwaysReplies_def
proof
  fix w
  obtain r w' where "m w = (r, w')" by (cases "m w")
  then show "\<exists>rp w'. tryReply h (sendNoCache rp0) m w = (Inr rp, w') \<and> P rp"
    using assms by (cases r) (auto simp: tryReply_run)
qed

lemma credentialsRoute_noStore:
  "noStore rp \<Longrightarrow> credentialsRoute h st service rp b w = (Inr rp', w') \<Longrightarrow> noStore rp'"
  by (auto simp: credentialsRoute_def io_simps split: option.splits if_splits jsval.splits sum.splits prod.splits)

lemma limitedRoute_noStore:
  assumes "\<And>rp w rp' w'. noStore rp \<Longrightarrow> k rp w = (Inr rp', w') \<Longrightarrow> noStore rp'"
  shows "alwaysReplies (snd (limitedRoute h opt now key k m)) noStore"
proof -
  obtain limit m' where c: "check opt now key m = (limit, m')" by (cases "check opt now key m")
  show ?thesis
    unfolding limitedRoute_def Let_def c prod.case snd_conv
    by (rule alwaysReplies_tryReply) (use assms [of "sendNoCache freshReply"] in \<open>auto simp: io_simps split: if_splits\<close>)
qed

text \<open>A refused check answers 429 with the wait, and calls nothing.\<close>

lemma limitedRoute_refused:
  assumes "check opt now key m = (limit, m')" and "\<not> allowed limit"
  shows "limitedRoute h opt now key k m =
    (m', returnM (sendAppError h
       (setHeader ''Retry-After'' (intStr (retryAfterSeconds limit)) (sendNoCache freshReply))
       (AppErr rateLimited)))"
  using assms
  by (auto simp: limitedRoute_def Let_def tryReply_def io_simps fun_eq_iff)

section \<open>Properties\<close>

text \<open>Every reply of the four auth routes forbids caching, and no route ends in an exception,
  whatever the services do.\<close>
theorem auth_replies_no_store:
  "alwaysReplies (snd (postRegister h opt now registerOp req m)) noStore \<and>
   alwaysReplies (snd (postLogin h opt now loginOp req m)) noStore \<and>
   alwaysReplies (postLogout h logoutOp req) noStore \<and> alwaysReplies (getMe h authOp req) noStore"
proof (intro conjI)
  show "alwaysReplies (snd (postRegister h opt now registerOp req m)) noStore"
    unfolding postRegister_def by (rule limitedRoute_noStore) (rule credentialsRoute_noStore)
  show "alwaysReplies (snd (postLogin h opt now loginOp req m)) noStore"
    unfolding postLogin_def by (rule limitedRoute_noStore) (rule credentialsRoute_noStore)
  show "alwaysReplies (postLogout h logoutOp req) noStore"
    unfolding postLogout_def Let_def
    by (rule alwaysReplies_tryReply) (auto simp: io_simps split: option.splits prod.splits sum.splits)
  show "alwaysReplies (getMe h authOp req) noStore"
    unfolding getMe_def Let_def
    by (rule alwaysReplies_tryReply) (auto simp: io_simps split: option.splits prod.splits sum.splits)
qed

text \<open>A registration or login beyond the limit of its address is answered 429 with the limiter's
  wait, and neither the service nor the database is called.\<close>
theorem limited_request_calls_nothing:
  assumes "check opt now (''login:'' @ rq_ip req) m = (limit, m')" and "\<not> allowed limit"
  shows "\<exists>rp. postLogin h opt now loginOp req m = (m', returnM rp) \<and> rp_status rp = 429 \<and>
    (''Retry-After'', intStr (retryAfterSeconds limit)) \<in> set (rp_headers rp)"
  unfolding postLogin_def limitedRoute_refused [OF assms]
  by (auto simp: setHeader_def rateLimited_def)

theorem limited_request_calls_nothing_witness:
  "\<exists>m' rp. postLogin [] \<lparr>attemptsPerWindow = 1, windowMs = 1500, maxEntries = 5\<rparr> 100 (\<lambda>_ _. throwM authRequired)
     \<lparr>rq_ip = ''::1'', rq_authorization = HAbsent, rq_table = [], rq_id = [], rq_limit = QAbsent,
      rq_offset = QAbsent, rq_body = VNull\<rparr>
     [(''login:::1'', \<lparr>attempts = 1, windowStart = 0, resetAt = 1500\<rparr>)] = (m', returnM rp) \<and>
     rp_status rp = 429"
proof -
  let ?r = "\<lparr>rq_ip = ''::1'', rq_authorization = HAbsent, rq_table = [], rq_id = [], rq_limit = QAbsent,
      rq_offset = QAbsent, rq_body = VNull\<rparr> :: request"
  let ?c = "check \<lparr>attemptsPerWindow = 1, windowMs = 1500, maxEntries = 5\<rparr> 100 (''login:'' @ rq_ip ?r)
      [(''login:::1'', \<lparr>attempts = 1, windowStart = 0, resetAt = 1500\<rparr>)]"
  have "\<not> allowed (fst ?c)" by code_simp
  from limited_request_calls_nothing [OF surjective_pairing this, of "[]" "\<lambda>_ _. throwM authRequired"] show ?thesis by blast
qed

end
