(* ===== verification/TableRegistry.thy ===== *)
theory TableRegistry
  imports DataRepository
begin

text \<open>
  The table registry of \<open>src/database/table-registry.ts\<close>: parsing the operator's
  \<open>alias=schema.table\<close> list, verifying every target against the server's catalogues, and
  the immutable registry the data service reads.
\<close>

record ExposedTableMapping =
  mp_alias :: string
  mp_schema :: string
  mp_table :: string

subsection \<open>Parsing the configured mappings\<close>

definition FORBIDDEN_SCHEMAS :: "string list" where
  "FORBIDDEN_SCHEMAS = [''microjbase'', ''pg_catalog'', ''information_schema'']"

definition tablesError :: "string \<Rightarrow> thrown" where
  "tablesError message =
     AppErr (mkErr VALIDATION_ERROR message 400 (Some [(''variable'', dstr ''MICROJBASE_TABLES'')]))"

text \<open>\<open>"s"\<close>, as the messages quote.\<close>

definition inQuotes :: "string \<Rightarrow> string" where
  "inQuotes s = dquote # s @ [dquote]"

definition ALIAS_SOURCE :: string where
  "ALIAS_SOURCE = ''^[a-z][a-z0-9_]{0,62}$''"

definition parseTableTarget :: "string \<Rightarrow> thrown + (string \<times> string)" where
  "parseTableTarget target =
     (case splitOn (CHR ''.'') target of
        [schema, table] \<Rightarrow>
          if schema = [] \<or> table = [] then
            Inl (tablesError (''MICROJBASE_TABLES target '' @ inQuotes target @ '' must be schema.table''))
          else if toLowerCase schema \<in> set FORBIDDEN_SCHEMAS then
            Inl (tablesError (''MICROJBASE_TABLES schema '' @ inQuotes schema @ '' cannot be exposed''))
          else Inr (schema, table)
      | _ \<Rightarrow>
          Inl (tablesError (''MICROJBASE_TABLES target '' @ inQuotes target @ '' must be schema.table'')))"

definition parseEntry :: "string \<Rightarrow> thrown + ExposedTableMapping" where
  "parseEntry entry =
     (if entry = [] then Inl (tablesError ''MICROJBASE_TABLES contains an empty entry'')
      else
        (case indexOf (CHR ''='') entry of
           None \<Rightarrow> Inl (tablesError (''MICROJBASE_TABLES entry '' @ inQuotes entry @
                      '' must be in the form alias=schema.table''))
         | Some i \<Rightarrow>
             if i = 0 \<or> i = length entry - 1 then
               Inl (tablesError (''MICROJBASE_TABLES entry '' @ inQuotes entry @
                      '' must be in the form alias=schema.table''))
             else
               (let tableAlias = trim (take i entry); target = trim (drop (Suc i) entry)
                in if \<not> aliasPattern tableAlias then
                     Inl (tablesError (''MICROJBASE_TABLES alias '' @ inQuotes tableAlias @
                        '' must match '' @ ALIAS_SOURCE))
                   else bindR (parseTableTarget target) (\<lambda>(schema, table).
                     Inr \<lparr>mp_alias = tableAlias, mp_schema = schema, mp_table = table\<rparr>))))"

definition targetKey :: "ExposedTableMapping \<Rightarrow> string" where
  "targetKey m = mp_schema m @ ''.'' @ mp_table m"

fun parseEntries :: "string list \<Rightarrow> string list \<Rightarrow> string list \<Rightarrow> thrown + ExposedTableMapping list" where
  "parseEntries seenAliases seenTargets [] = Inr []"
| "parseEntries seenAliases seenTargets (entry # rest) =
     bindR (parseEntry entry) (\<lambda>m.
       if mp_alias m \<in> set seenAliases then
         Inl (tablesError (''MICROJBASE_TABLES alias '' @ inQuotes (mp_alias m) @
            '' is defined more than once''))
       else if targetKey m \<in> set seenTargets then
         Inl (tablesError (''MICROJBASE_TABLES target '' @ inQuotes (targetKey m) @
            '' is mapped more than once''))
       else bindR (parseEntries (mp_alias m # seenAliases) (targetKey m # seenTargets) rest)
              (\<lambda>ms. Inr (m # ms)))"

definition parseMappings :: "string option \<Rightarrow> thrown + ExposedTableMapping list" where
  "parseMappings raw =
     (case raw of
        None \<Rightarrow> Inr []
      | Some s \<Rightarrow> if trim s = [] then Inr []
                  else parseEntries [] [] (map trim (splitOn (CHR '','') s)))"

subsection \<open>Verifying a table against the server\<close>

type_synonym queryOp = "string \<Rightarrow> jsval list \<Rightarrow> qresult io"

record TableVerification =
  tv_hasRls :: jsval
  tv_hasForceRls :: jsval
  tv_applicablePolicy :: jsval
  tv_primaryKey :: "(jsval \<times> string) option"
  tv_columns :: "ColumnMetadata list"
  tv_hasDelete :: jsval

definition unavailable :: "string \<Rightarrow> (string \<times> detail) list \<Rightarrow> thrown" where
  "unavailable message ds = AppErr (mkErr DATABASE_UNAVAILABLE message 503 (Some ds))"

definition targetDetails :: "ExposedTableMapping \<Rightarrow> (string \<times> detail) list" where
  "targetDetails m =
     [(''alias'', dstr (mp_alias m)), (''schema'', dstr (mp_schema m)), (''table'', dstr (mp_table m))]"

definition assertIdentifier :: "string \<Rightarrow> string \<Rightarrow> thrown + unit" where
  "assertIdentifier name context =
     (if \<not> simpleIdentifier name then
        Inl (unavailable (''Invalid '' @ context @ '' identifier: '' @ name) [(context, dstr name)])
      else Inr ())"

text \<open>Single quotes of the statement texts.\<close>

definition sq :: "string \<Rightarrow> string" where
  "sq s = CHR 0x27 # s @ [CHR 0x27]"

definition SCHEMA_USAGE_SQL :: string where
  "SCHEMA_USAGE_SQL =
     ''SELECT pg_catalog.has_schema_privilege(current_user, $1, '' @ sq ''USAGE'' @ '') AS has''"

definition TABLE_EXISTS_SQL :: string where
  "TABLE_EXISTS_SQL =
     ''SELECT EXISTS ( SELECT 1 FROM pg_catalog.pg_class c '' @
     ''JOIN pg_catalog.pg_namespace n ON n.oid = c.relnamespace '' @
     ''WHERE n.nspname = $1 AND c.relname = $2 AND c.relkind = '' @ sq ''r'' @ '' ) AS exists''"

definition RLS_SQL :: string where
  "RLS_SQL =
     ''SELECT c.relrowsecurity, c.relforcerowsecurity FROM pg_catalog.pg_class c '' @
     ''JOIN pg_catalog.pg_namespace n ON n.oid = c.relnamespace '' @
     ''WHERE n.nspname = $1 AND c.relname = $2 AND c.relkind = '' @ sq ''r''"

definition DELETE_PRIVILEGE_SQL :: string where
  "DELETE_PRIVILEGE_SQL =
     ''SELECT pg_catalog.has_table_privilege(current_user, $1, '' @ sq ''DELETE'' @ '') AS has''"

definition POLICY_SQL :: string where
  "POLICY_SQL =
     ''SELECT EXISTS ( SELECT 1 FROM pg_catalog.pg_policy pol '' @
     ''JOIN pg_catalog.pg_class c ON c.oid = pol.polrelid '' @
     ''JOIN pg_catalog.pg_namespace n ON n.oid = c.relnamespace '' @
     ''WHERE n.nspname = $1 AND c.relname = $2 AND ( pol.polroles = ARRAY[0]::oid[] OR EXISTS ( '' @
     ''SELECT 1 FROM pg_catalog.unnest(pol.polroles) AS policy_role '' @
     ''WHERE pg_catalog.pg_has_role(current_user, policy_role, '' @ sq ''MEMBER'' @
     '') ) ) ) AS applicable_to_current_user''"

definition PRIMARY_KEY_SQL :: string where
  "PRIMARY_KEY_SQL =
     ''SELECT a.attname AS column_name, '' @
     ''pg_catalog.format_type(a.atttypid, a.atttypmod) AS data_type FROM pg_catalog.pg_index i '' @
     ''JOIN pg_catalog.pg_class c ON c.oid = i.indrelid '' @
     ''JOIN pg_catalog.pg_namespace n ON n.oid = c.relnamespace '' @
     ''JOIN pg_catalog.pg_attribute a ON a.attrelid = c.oid AND a.attnum = ANY(i.indkey) '' @
     ''WHERE n.nspname = $1 AND c.relname = $2 AND i.indisprimary''"

definition COLUMNS_SQL :: string where
  "COLUMNS_SQL =
     ''SELECT column_name, data_type, is_nullable, column_default, is_generated, is_identity '' @
     ''FROM information_schema.columns WHERE table_schema = $1 AND table_name = $2 '' @
     ''ORDER BY ordinal_position''"

definition COLUMN_PRIVILEGES_SQL :: string where
  "COLUMN_PRIVILEGES_SQL =
     ''SELECT a.attname AS column_name, '' @
     ''pg_catalog.has_column_privilege(current_user, c.oid, a.attnum, '' @ sq ''SELECT'' @
     '') AS has_select, '' @
     ''pg_catalog.has_column_privilege(current_user, c.oid, a.attnum, '' @ sq ''INSERT'' @
     '') AS has_insert, '' @
     ''pg_catalog.has_column_privilege(current_user, c.oid, a.attnum, '' @ sq ''UPDATE'' @
     '') AS has_update FROM pg_catalog.pg_attribute a '' @
     ''JOIN pg_catalog.pg_class c ON c.oid = a.attrelid '' @
     ''JOIN pg_catalog.pg_namespace n ON n.oid = c.relnamespace '' @
     ''WHERE n.nspname = $1 AND c.relname = $2 AND a.attnum > 0 AND NOT a.attisdropped '' @
     ''ORDER BY a.attnum''"

text \<open>
  \<open>normalizeType(v)\<close> and \<open>isSupportedType(v)\<close> call a string method on what the row holds.
\<close>

definition typeText :: "jsval \<Rightarrow> thrown + string" where
  "typeText v =
     (case v of VStr s \<Rightarrow> Inr s | _ \<Rightarrow> Inl (ErrObj ''typeName.toLowerCase is not a function'' []))"

text \<open>A catalogue name: the driver returns text columns as strings.\<close>

definition nameText :: "runtime \<Rightarrow> jsval \<Rightarrow> string" where
  "nameText R v = jsString R v"

definition mapColumn ::
  "runtime \<Rightarrow> (string \<times> (bool \<times> bool \<times> bool)) list \<Rightarrow> (string \<times> jsval) list \<Rightarrow> thrown + ColumnMetadata option" where
  "mapColumn R privilegesByColumn r =
     bindR (typeText (propOf r ''data_type'')) (\<lambda>dataType.
       if \<not> isSupportedType dataType then Inr None
       else
         (let name = nameText R (propOf r ''column_name'');
              (s, i, u) = (case map_of privilegesByColumn name of
                             None \<Rightarrow> (False, False, False) | Some p \<Rightarrow> p)
          in Inr (Some \<lparr>cm_name = name, cm_dataType = normalizeType dataType,
               cm_isNullable = strictEq (propOf r ''is_nullable'') (VStr ''YES''),
               cm_isGenerated = (\<not> strictEq (propOf r ''is_generated'') (VStr ''NEVER'')),
               cm_isIdentity = strictEq (propOf r ''is_identity'') (VStr ''YES''),
               cm_hasDefault = (propOf r ''column_default'' \<noteq> VNull),
               cm_hasSelect = s, cm_hasInsert = i, cm_hasUpdate = u\<rparr>)))"

text \<open>\<open>new Map(rows.map(..))\<close> of the privileges; a later row of a name overrides.\<close>

definition privilegeMap ::
  "runtime \<Rightarrow> (string \<times> jsval) list list \<Rightarrow> (string \<times> (bool \<times> bool \<times> bool)) list" where
  "privilegeMap R rows =
     foldl (\<lambda>m r. mapSet (nameText R (propOf r ''column_name''))
              (truthy (propOf r ''has_select''), truthy (propOf r ''has_insert''),
               truthy (propOf r ''has_update'')) m) [] rows"

definition primaryKeyOf :: "(string \<times> jsval) list list \<Rightarrow> thrown + (jsval \<times> string) option" where
  "primaryKeyOf rows =
     (case rows of
        [r] \<Rightarrow> bindR (typeText (propOf r ''data_type'')) (\<lambda>t.
                 Inr (Some (propOf r ''column_name'', normalizeType t)))
      | _ \<Rightarrow> Inr None)"

abbreviation row0 :: "qresult \<Rightarrow> (string \<times> jsval) list option" where
  "row0 res \<equiv> (case qr_rows res of [] \<Rightarrow> None | r # _ \<Rightarrow> Some r)"

definition nullish :: "jsval \<Rightarrow> bool" where
  "nullish v \<longleftrightarrow> v = VUndef \<or> v = VNull"

text \<open>\<open>policyRow?.applicable_to_current_user ?? false\<close>.\<close>

definition policyAnswer :: "qresult \<Rightarrow> jsval" where
  "policyAnswer policy =
     (case row0 policy of
        None \<Rightarrow> VBool False
      | Some r \<Rightarrow> if nullish (propOf r ''applicable_to_current_user'') then VBool False
                  else propOf r ''applicable_to_current_user'')"

definition verifyTable :: "runtime \<Rightarrow> queryOp \<Rightarrow> ExposedTableMapping \<Rightarrow> TableVerification io" where
  "verifyTable R query m =
     (let schema = mp_schema m; table = mp_table m; target = schema @ ''.'' @ table;
          ds = targetDetails m; args = [VStr schema, VStr table]
      in
      bindM (query SCHEMA_USAGE_SQL [VStr schema]) (\<lambda>usage.
      if (case row0 usage of None \<Rightarrow> True | Some r \<Rightarrow> \<not> truthy (propOf r ''has'')) then
        throwM (unavailable (''Runtime role is missing USAGE privilege on schema '' @ schema) ds)
      else
      bindM (query TABLE_EXISTS_SQL args) (\<lambda>existing.
      if (case row0 existing of None \<Rightarrow> True | Some r \<Rightarrow> \<not> truthy (propOf r ''exists'')) then
        throwM (unavailable (''Configured table '' @ target @ '' does not exist'') ds)
      else
      bindM (query RLS_SQL args) (\<lambda>rls.
      (case row0 rls of
         None \<Rightarrow> throwM (unavailable (''Configured table '' @ target @ '' does not exist'') ds)
       | Some rlsRow \<Rightarrow>
      bindM (query DELETE_PRIVILEGE_SQL [VStr target]) (\<lambda>del.
      (case row0 del of
         None \<Rightarrow> throwM (unavailable (''Could not determine DELETE privilege on '' @ target) ds)
       | Some deleteRow \<Rightarrow>
      bindM (query POLICY_SQL args) (\<lambda>policy.
      bindM (query PRIMARY_KEY_SQL args) (\<lambda>pk.
      bindM (liftR (primaryKeyOf (qr_rows pk))) (\<lambda>primaryKey.
      bindM (query COLUMNS_SQL args) (\<lambda>cols.
      bindM (query COLUMN_PRIVILEGES_SQL args) (\<lambda>privs.
      bindM (liftR (mapR (mapColumn R (privilegeMap R (qr_rows privs))) (qr_rows cols))) (\<lambda>columns.
        returnM
          \<lparr>tv_hasRls = propOf rlsRow ''relrowsecurity'',
           tv_hasForceRls = propOf rlsRow ''relforcerowsecurity'',
           tv_applicablePolicy = policyAnswer policy,
           tv_primaryKey = primaryKey,
           tv_columns = List.map_filter id columns,
           tv_hasDelete = propOf deleteRow ''has''\<rparr>)))))))))))))"

subsection \<open>Building the registry\<close>

text \<open>The refusals on what verification reports, in the order of the code.\<close>

definition assertUsable :: "ExposedTableMapping \<Rightarrow> TableVerification \<Rightarrow> thrown + unit" where
  "assertUsable m v =
     (let target = mp_schema m @ ''.'' @ mp_table m; ds = targetDetails m
      in if \<not> truthy (tv_hasRls v) then
           Inl (unavailable (''Row-level security is not enabled on '' @ target) ds)
         else if \<not> truthy (tv_hasForceRls v) then
           Inl (unavailable (''Forced row-level security is not enabled on '' @ target) ds)
         else if \<not> truthy (tv_applicablePolicy v) then
           Inl (unavailable (''No row-level security policies on '' @ target @
                  '' apply to the runtime role'') ds)
         else
           (case tv_primaryKey v of
              None \<Rightarrow> Inl (unavailable (''Table '' @ target @ '' has no single-column primary key'') ds)
            | Some (column, dataType) \<Rightarrow>
                if \<not> strictEq column (VStr ''id'') then
                  Inl (unavailable (''Primary key on '' @ target @ '' must be named '' @ inQuotes ''id'') ds)
                else if dataType \<noteq> ''uuid'' then
                  Inl (unavailable (''Primary key '' @ inQuotes ''id'' @ '' on '' @ target @
                         '' must be type uuid'') ds)
                else if \<not> truthy (tv_hasDelete v) then
                  Inl (unavailable (''Runtime role cannot delete from '' @ target) ds)
                else Inr ()))"

definition readableColumns :: "ColumnMetadata list \<Rightarrow> string list" where
  "readableColumns cols = map cm_name (filter cm_hasSelect cols)"

definition insertableColumns :: "ColumnMetadata list \<Rightarrow> string list" where
  "insertableColumns cols =
     map cm_name (filter (\<lambda>c. cm_hasInsert c \<and> \<not> cm_isGenerated c \<and> \<not> cm_isIdentity c) cols)"

definition updatableColumns :: "ColumnMetadata list \<Rightarrow> string list" where
  "updatableColumns cols =
     map cm_name (filter (\<lambda>c. cm_hasUpdate c \<and> cm_name c \<noteq> ''id'' \<and> \<not> cm_isGenerated c \<and>
                            \<not> cm_isIdentity c) cols)"

definition columnTypesOf :: "ColumnMetadata list \<Rightarrow> columnTypes" where
  "columnTypesOf cols = foldl (\<lambda>ct c. setProp ct (cm_name c) (cm_dataType c)) [] cols"

text \<open>
  The object literal gets the identity \<open>ref\<close>.  The second test of \<open>hasDelete\<close> cannot fail after the
  first; it is kept where the code has it.
\<close>

definition exposeTable ::
  "nat \<Rightarrow> ExposedTableMapping \<Rightarrow> TableVerification \<Rightarrow> thrown + (ExposedTable \<times> columnTypes)" where
  "exposeTable ref m v =
     bindR (assertUsable m v) (\<lambda>_.
       (let target = mp_schema m @ ''.'' @ mp_table m; ds = targetDetails m; cols = tv_columns v;
            readable = readableColumns cols; insertable = insertableColumns cols;
            updatable = updatableColumns cols
        in if readable = [] then
             Inl (unavailable (''Table '' @ target @ '' has no readable columns'') ds)
           else if insertable = [] then
             Inl (unavailable (''Table '' @ target @ '' has no insertable columns'') ds)
           else if \<not> truthy (tv_hasDelete v) then
             Inl (unavailable (''Runtime role cannot delete from '' @ target) ds)
           else if updatable = [] then
             Inl (unavailable (''Table '' @ target @ '' has no updatable columns'') ds)
           else
             Inr (\<lparr>et_ref = ref, et_alias = mp_alias m, et_schema = mp_schema m,
                   et_table = mp_table m, et_readable = readable, et_insertable = insertable,
                   et_updatable = updatable\<rparr>, columnTypesOf cols)))"

fun buildTables ::
  "runtime \<Rightarrow> queryOp \<Rightarrow> metadata \<Rightarrow> nat \<Rightarrow> ExposedTableMapping list \<Rightarrow>
   (ExposedTable list \<times> metadata) io" where
  "buildTables R query wm ref [] = returnM ([], wm)"
| "buildTables R query wm ref (m # ms) =
     bindM (liftR (assertIdentifier (mp_schema m) ''schema'')) (\<lambda>_.
     bindM (liftR (assertIdentifier (mp_table m) ''table'')) (\<lambda>_.
     bindM (verifyTable R query m) (\<lambda>v.
     bindM (liftR (exposeTable ref m v)) (\<lambda>(t, ct).
     bindM (buildTables R query (attachPrivateMetadata wm t ct) (Suc ref) ms) (\<lambda>(ts, wm').
       returnM (t # ts, wm'))))))"

text \<open>The registry object: its map from alias to table.\<close>

type_synonym registry = "(string \<times> ExposedTable) list"

definition verifiedRegistry :: "ExposedTable list \<Rightarrow> registry" where
  "verifiedRegistry tables = foldl (\<lambda>m t. mapSet (et_alias t) t m) [] tables"

definition registryGet :: "registry \<Rightarrow> string \<Rightarrow> ExposedTable option" where
  "registryGet reg tableAlias = map_of reg tableAlias"

definition registryList :: "registry \<Rightarrow> ExposedTable list" where
  "registryList reg = map snd reg"

definition buildTableRegistry ::
  "runtime \<Rightarrow> queryOp \<Rightarrow> metadata \<Rightarrow> nat \<Rightarrow> ExposedTableMapping list \<Rightarrow> (registry \<times> metadata) io" where
  "buildTableRegistry R query wm ref mappings =
     (if mappings = [] then returnM (verifiedRegistry [], wm)
      else bindM (buildTables R query wm ref mappings) (\<lambda>(ts, wm').
             returnM (verifiedRegistry ts, wm')))"

definition buildTableRegistryFromEnv ::
  "runtime \<Rightarrow> queryOp \<Rightarrow> metadata \<Rightarrow> nat \<Rightarrow> string option \<Rightarrow> (registry \<times> metadata) io" where
  "buildTableRegistryFromEnv R query wm ref raw =
     bindM (liftR (parseMappings raw)) (\<lambda>mappings.
       buildTableRegistry R query wm ref mappings)"

text \<open>
  The swappable registry: the state is the current delegate, \<open>get\<close> and \<open>list\<close> read it,
  \<open>replace\<close> exchanges it in one step.
\<close>

datatype registry_op = OpGet string | OpList | OpReplace registry

datatype registry_answer = AnsTable "ExposedTable option" | AnsTables "ExposedTable list" | AnsDone

fun swappableStep :: "registry \<Rightarrow> registry_op \<Rightarrow> registry_answer \<times> registry" where
  "swappableStep current (OpGet tableAlias) = (AnsTable (registryGet current tableAlias), current)"
| "swappableStep current OpList = (AnsTables (registryList current), current)"
| "swappableStep current (OpReplace next) = (AnsDone, next)"

subsection \<open>What a built registry guarantees\<close>

lemma normalizeType_idem: "normalizeType (normalizeType d) = normalizeType d"
proof -
  define l where "l = trim (toLowerCase d)"
  have low: "toLowerCase l = l"
  proof -
    have "set l \<subseteq> set (toLowerCase d)" unfolding l_def trim_def by (rule set_trimBy)
    then have "\<forall>c\<in>set l. lowerChar c = c"
      using toLowerCase_trim_commute_idem [of d] by (auto simp: toLowerCase_def)
    then show ?thesis by (simp add: toLowerCase_def map_idI)
  qed
  have tr: "trim l = l" unfolding l_def trim_def by (rule trimBy_idem)
  have nl: "normalizeType l = normalizeType d"
    unfolding normalizeType_def low tr by (simp add: l_def Let_def)
  have "normalizeType d \<in> {''varchar'', ''timestamp'', ''timestamptz'', l}"
    by (simp add: normalizeType_def l_def Let_def)
  then show ?thesis
  proof (elim insertE emptyE)
    show "normalizeType d = ''varchar'' \<Longrightarrow> ?thesis" by (simp only:) code_simp
    show "normalizeType d = ''timestamp'' \<Longrightarrow> ?thesis" by (simp only:) code_simp
    show "normalizeType d = ''timestamptz'' \<Longrightarrow> ?thesis" by (simp only:) code_simp
    show "normalizeType d = l \<Longrightarrow> ?thesis" using nl by simp
  qed
qed

text \<open>Every column that verification keeps has a supported type.\<close>

definition supportedColumns :: "ColumnMetadata list \<Rightarrow> bool" where
  "supportedColumns cols \<longleftrightarrow> (\<forall>c\<in>set cols. isSupportedType (cm_dataType c))"

lemma mapColumn_supported: "mapColumn R p r = Inr (Some c) \<Longrightarrow> isSupportedType (cm_dataType c)"
  by (auto simp: mapColumn_def res_simps isSupportedType_def normalizeType_idem Let_def
      split: if_splits prod.splits option.splits)

lemma mapColumns_supported:
  assumes "mapR (mapColumn R p) rows = Inr cs"
  shows "supportedColumns (List.map_filter id cs)"
  unfolding supportedColumns_def
proof
  fix c assume "c \<in> set (List.map_filter id cs)"
  then have "Some c \<in> set cs" by (auto simp: map_filter_def)
  then show "isSupportedType (cm_dataType c)"
    using mapR_Inr_set [OF assms] mapColumn_supported by blast
qed

lemma verifyTable_columns:
  "verifyTable R query m w = (Inr v, w') \<Longrightarrow> supportedColumns (tv_columns v)"
proof (erule yieldsD [rotated])
  show "yields (verifyTable R query m) (\<lambda>v. supportedColumns (tv_columns v))"
    unfolding verifyTable_def Let_def
    apply (rule yields_bind, split if_split, intro conjI impI yields_throw)+
    apply (rule yields_bind, split option.split, intro conjI allI impI yields_throw)+
    by (rule yields_bind, rule yields_bind, rule yields_bind, rule yields_bind, rule yields_bind,
        rule yields_bind_of [OF yields_liftR], erule mapColumns_supported, rule yields_return, simp)
qed

text \<open>The type table has an entry for every column but one named \<open>__proto__\<close>.\<close>

lemma map_of_replace:
  "map_of (map (\<lambda>(k', v'). if k' = k then (k', v) else (k', v')) ps) n =
   (if n = k \<and> k \<in> fst ` set ps then Some v else map_of ps n)"
proof (induction ps)
  case (Cons x ps)
  obtain a b where x: "x = (a, b)" by (cases x)
  from Cons show ?case by (cases "a = k"; cases "n = a") (simp_all add: x)
qed simp

lemma map_of_setProp:
  assumes "k \<noteq> ''__proto__''"
  shows "map_of (setProp ps k v) n = (if n = k then Some v else map_of ps n)"
proof (cases "k \<in> fst ` set ps")
  case True
  then show ?thesis using assms by (simp add: setProp_def map_of_replace)
next
  case False
  then have "map_of ps k = None" by (simp add: map_of_eq_None_iff)
  with False assms show ?thesis
    by (simp add: setProp_def map_add_def split: option.split)
qed

lemma set_setProp_keys:
  "insert k (fst ` set ps) - {''__proto__''} \<subseteq> fst ` set (setProp ps k v)"
proof -
  have "map fst (map (\<lambda>(k', v'). if k' = k then (k', v) else (k', v')) ps) = map fst ps"
    by (induction ps) auto
  from arg_cong [OF this, of set] show ?thesis
    unfolding setProp_def set_map by (cases "k = ''__proto__''") auto
qed

lemma columnTypes_fold:
  "supportedColumns cols \<Longrightarrow>
   (\<forall>n d. map_of ct n = Some d \<longrightarrow> isSupportedType d) \<Longrightarrow>
   (\<forall>n d. map_of (foldl (\<lambda>ct c. setProp ct (cm_name c) (cm_dataType c)) ct cols) n = Some d \<longrightarrow>
      isSupportedType d) \<and>
   (\<forall>n. n \<in> fst ` set ct \<union> cm_name ` set cols \<and> n \<noteq> ''__proto__'' \<longrightarrow>
      map_of (foldl (\<lambda>ct c. setProp ct (cm_name c) (cm_dataType c)) ct cols) n \<noteq> None)"
proof (induction cols arbitrary: ct)
  case Nil
  then show ?case by (auto simp: map_of_eq_None_iff)
next
  case (Cons c cols)
  let ?ct = "setProp ct (cm_name c) (cm_dataType c)"
  have c: "isSupportedType (cm_dataType c)" "supportedColumns cols"
    using Cons.prems(1) by (auto simp: supportedColumns_def)
  have "\<forall>n d. map_of ?ct n = Some d \<longrightarrow> isSupportedType d"
    using Cons.prems(2) c(1) map_of_setProp [of "cm_name c" ct "cm_dataType c"]
    by (cases "cm_name c = ''__proto__''") (auto simp: setProp_def split: if_splits)
  moreover have "fst ` set ct \<union> cm_name ` set (c # cols) - {''__proto__''} \<subseteq>
      fst ` set ?ct \<union> cm_name ` set cols"
    using set_setProp_keys [of "cm_name c" ct "cm_dataType c"] by auto
  ultimately show ?case
    using Cons.IH [OF c(2), of ?ct] unfolding foldl.simps by (meson DiffI empty_iff insert_iff subsetD)
qed

lemma columnTypesOf_supported:
  assumes "supportedColumns cols" and "n \<in> cm_name ` set cols" and "n \<noteq> ''__proto__''"
  shows "\<exists>d. map_of (columnTypesOf cols) n = Some d \<and> isSupportedType d"
  using columnTypes_fold [OF assms(1), of "[]"] assms(2,3) unfolding columnTypesOf_def by fastforce

text \<open>
  What the data path relies on in an exposed table: legal names, something to read, insert
  and update, an immutable key, and type metadata for whatever is read.
\<close>

definition soundTable :: "metadata \<Rightarrow> ExposedTable \<Rightarrow> bool" where
  "soundTable wm t \<longleftrightarrow>
     simpleIdentifier (et_schema t) \<and> simpleIdentifier (et_table t) \<and>
     et_readable t \<noteq> [] \<and> et_insertable t \<noteq> [] \<and> et_updatable t \<noteq> [] \<and>
     ''id'' \<notin> set (et_updatable t) \<and>
     (\<exists>ct. getPrivateMetadata wm t = Some ct \<and>
        (\<forall>c\<in>set (et_readable t). c \<noteq> ''__proto__'' \<longrightarrow>
           (\<exists>d. map_of ct c = Some d \<and> isSupportedType d)))"

lemma exposeTable_Inr:
  assumes "exposeTable ref m v = Inr (t, ct)"
  shows "truthy (tv_hasRls v) \<and> truthy (tv_hasForceRls v) \<and> truthy (tv_applicablePolicy v) \<and>
    tv_primaryKey v = Some (VStr ''id'', ''uuid'') \<and> truthy (tv_hasDelete v) \<and>
    et_ref t = ref \<and> et_alias t = mp_alias m \<and> et_schema t = mp_schema m \<and> et_table t = mp_table m \<and>
    et_readable t = readableColumns (tv_columns v) \<and>
    et_insertable t = insertableColumns (tv_columns v) \<and>
    et_updatable t = updatableColumns (tv_columns v) \<and>
    et_readable t \<noteq> [] \<and> et_insertable t \<noteq> [] \<and> et_updatable t \<noteq> [] \<and>
    ct = columnTypesOf (tv_columns v)"
  using assms
  by (auto simp: exposeTable_def assertUsable_def res_simps Let_def split: if_splits option.splits)

text \<open>The check that let a table in: what was verified, and that it is what was exposed.\<close>

definition admitted ::
  "runtime \<Rightarrow> queryOp \<Rightarrow> metadata \<Rightarrow> ExposedTableMapping \<Rightarrow> ExposedTable \<Rightarrow> bool" where
  "admitted R query wm m t \<longleftrightarrow>
     simpleIdentifier (mp_schema m) \<and> simpleIdentifier (mp_table m) \<and>
     (\<exists>v w1 w2 ct. verifyTable R query m w1 = (Inr v, w2) \<and>
        exposeTable (et_ref t) m v = Inr (t, ct) \<and> getPrivateMetadata wm t = Some ct)"

lemma admitted_sound:
  assumes "admitted R query wm m t"
  shows "soundTable wm t \<and> et_alias t = mp_alias m"
proof -
  from assms obtain v w1 w2 ct where a: "verifyTable R query m w1 = (Inr v, w2)"
    "exposeTable (et_ref t) m v = Inr (t, ct)" "getPrivateMetadata wm t = Some ct"
    "simpleIdentifier (mp_schema m)" "simpleIdentifier (mp_table m)"
    by (auto simp: admitted_def)
  note e = exposeTable_Inr [OF a(2)]
  have "\<exists>d. map_of ct c = Some d \<and> isSupportedType d"
    if "c \<in> set (et_readable t)" "c \<noteq> ''__proto__''" for c
    using columnTypesOf_supported [OF verifyTable_columns [OF a(1)], of c] that e
    by (auto simp: readableColumns_def)
  with a e show ?thesis by (auto simp: soundTable_def updatableColumns_def)
qed

lemma buildTables_admitted:
  "buildTables R query wm ref ms w = (Inr (ts, wm'), w') \<Longrightarrow>
   list_all2 (admitted R query wm') ms ts \<and> (\<forall>k<ref. wm' k = wm k)"
proof (induction ms arbitrary: wm ref w ts wm')
  case Nil
  then show ?case by (simp add: returnM_def)
next
  case (Cons m ms)
  from Cons.prems obtain w1 v w2 t ct ts' where s:
    "assertIdentifier (mp_schema m) ''schema'' = Inr ()" "assertIdentifier (mp_table m) ''table'' = Inr ()"
    "verifyTable R query m w1 = (Inr v, w2)" "exposeTable ref m v = Inr (t, ct)"
    "buildTables R query (attachPrivateMetadata wm t ct) (Suc ref) ms w2 = (Inr (ts', wm'), w')"
    "ts = t # ts'"
    by (auto simp: bindM_Inr_iff liftR_Inr_iff returnM_def split: prod.splits)
  note IH = Cons.IH [OF s(5)]
  have ref: "et_ref t = ref" using exposeTable_Inr [OF s(4)] by simp
  have "getPrivateMetadata wm' t = Some ct"
    using IH ref by (simp add: getPrivateMetadata_def attachPrivateMetadata_def)
  then have "admitted R query wm' m t"
    using s ref by (auto simp: admitted_def assertIdentifier_def split: if_splits)
  moreover have "\<forall>k<ref. wm' k = wm k"
    using IH ref by (simp add: attachPrivateMetadata_def)
  ultimately show ?case using IH s(6) by simp
qed

lemma map_of_verifiedRegistry:
  "map_of (foldl (\<lambda>m t. mapSet (et_alias t) t m) reg ts) al = Some t \<Longrightarrow>
   map_of reg al = Some t \<or> (t \<in> set ts \<and> et_alias t = al)"
proof (induction ts arbitrary: reg)
  case (Cons a ts)
  from Cons.IH [of "mapSet (et_alias a) a reg"] Cons.prems show ?case by (auto split: if_splits)
qed simp

lemma registryGet_verified:
  "registryGet (verifiedRegistry ts) al = Some t \<Longrightarrow> t \<in> set ts \<and> et_alias t = al"
  using map_of_verifiedRegistry [of "[]" ts al t] by (simp add: registryGet_def verifiedRegistry_def)

lemma buildTableRegistry_admitted:
  assumes "buildTableRegistry R query wm ref ms w = (Inr (reg, wm'), w')"
    and "registryGet reg al = Some t"
  shows "et_alias t = al \<and> (\<exists>m\<in>set ms. mp_alias m = al \<and> admitted R query wm' m t)"
proof -
  from assms have "ms \<noteq> []"
    by (auto simp: buildTableRegistry_def returnM_def registryGet_def verifiedRegistry_def)
  with assms(1) obtain ts where b: "buildTables R query wm ref ms w = (Inr (ts, wm'), w')"
    and reg: "reg = verifiedRegistry ts"
    by (auto simp: buildTableRegistry_def bindM_Inr_iff returnM_def split: prod.splits)
  from registryGet_verified [of ts al t] assms(2) reg have t: "t \<in> set ts" "et_alias t = al" by auto
  with buildTables_admitted [OF b] obtain m where m: "m \<in> set ms" "admitted R query wm' m t"
    by (metis in_set_conv_nth list_all2_conv_all_nth)
  with t admitted_sound [OF m(2)] show ?thesis by auto
qed

end
