(* ===== verification/RegistryFacts.thy ===== *)
theory RegistryFacts
  imports TableRegistry DataService
begin

text \<open>
  The registry as the interface the data service reads, its interpretation on the registry that a
  startup builds, and what the mapping parser accepts.
\<close>

subsection \<open>The interface\<close>

locale verified_registry =
  fixes get :: "string \<Rightarrow> ExposedTable option" and wm :: metadata
  assumes get_alias: "get al = Some t \<Longrightarrow> et_alias t = al"
    and get_sound: "get al = Some t \<Longrightarrow> soundTable wm t"
begin

text \<open>No request on a registered table fails for want of metadata or of a legal name.\<close>

lemma metadata_present: "get al = Some t \<Longrightarrow> \<exists>ct. requireVerifiedMetadata wm t = Inr ct"
  using get_sound [of al t] by (auto simp: soundTable_def requireVerifiedMetadata_def)

lemma names_quote:
  "get al = Some t \<Longrightarrow> quoteQualifiedName (et_schema t) (et_table t) =
     Inr (dquote # et_schema t @ [dquote, CHR ''.'', dquote] @ et_table t @ [dquote])"
  using get_sound [of al t] by (simp add: soundTable_def quoteQualifiedName_Inr)

text \<open>An accepted update never touches the primary key.\<close>

lemma update_keeps_id:
  assumes "get al = Some t" and "assertColumnsAllowed values (et_updatable t) = Inr u"
  shows "\<not> hasOwn values ''id''"
  using get_sound [OF assms(1)] assms(2)
  by (auto simp: soundTable_def assertColumnsAllowed_Inr hasOwn_def)

text \<open>
  Converting a row can fail only in a value's own conversion, or on a column named
  \<open>__proto__\<close>: every readable column has a type, and a supported one.
\<close>

lemma rowToJsonFrom_errors:
  assumes "\<forall>c\<in>set (et_readable t). c \<noteq> ''__proto__'' \<longrightarrow> (\<exists>d. map_of ct c = Some d \<and> isSupportedType d)"
  shows "rowToJsonFrom R t ct res row = Inl e \<Longrightarrow>
    e = ErrObj ''typeName.toLowerCase is not a function'' [] \<or> (\<exists>c v. applyConverter R c v = Inl e)"
proof (induction row arbitrary: res)
  case (Cons kv rest)
  obtain key v where kv: "kv = (key, v)" by (cases kv)
  show ?case
  proof (cases "key \<in> set (et_readable t) \<and> v \<noteq> VNull \<and> key \<noteq> ''__proto__''")
    case True
    with assms obtain d where "map_of ct key = Some d" "isSupportedType d" by blast
    then obtain conv where "map_of ct key = Some d" "SUPPORTED_TYPES (normalizeType d) = Some conv"
      by (auto simp: isSupportedType_def)
    with True Cons kv show ?thesis by (auto simp: res_simps)
  next
    case False
    with Cons kv show ?thesis by (auto split: if_splits)
  qed
qed simp

lemma rowToJson_errors:
  assumes "get al = Some t" and "requireVerifiedMetadata wm t = Inr ct"
    and "rowToJson R t ct row = Inl e"
  shows "e = ErrObj ''typeName.toLowerCase is not a function'' [] \<or> (\<exists>c v. applyConverter R c v = Inl e)"
proof -
  from assms(2) have "getPrivateMetadata wm t = Some ct"
    by (auto simp: requireVerifiedMetadata_def split: option.splits)
  with get_sound [OF assms(1)]
  have "\<forall>c\<in>set (et_readable t). c \<noteq> ''__proto__'' \<longrightarrow> (\<exists>d. map_of ct c = Some d \<and> isSupportedType d)"
    by (auto simp: soundTable_def)
  from rowToJsonFrom_errors [OF this] assms(3) show ?thesis by (simp add: rowToJson_def)
qed

end

text \<open>
  The registry and the metadata a startup ends with; when the build throws there is no server
  and no table.
\<close>

definition builtGet ::
  "runtime \<Rightarrow> queryOp \<Rightarrow> metadata \<Rightarrow> nat \<Rightarrow> ExposedTableMapping list \<Rightarrow> event list \<Rightarrow> string \<Rightarrow> ExposedTable option" where
  "builtGet R query wm ref ms w tableAlias =
     (case fst (buildTableRegistry R query wm ref ms w) of
        Inl e \<Rightarrow> None | Inr (reg, wm') \<Rightarrow> registryGet reg tableAlias)"

definition builtMetadata ::
  "runtime \<Rightarrow> queryOp \<Rightarrow> metadata \<Rightarrow> nat \<Rightarrow> ExposedTableMapping list \<Rightarrow> event list \<Rightarrow> metadata" where
  "builtMetadata R query wm ref ms w =
     (case fst (buildTableRegistry R query wm ref ms w) of Inl e \<Rightarrow> wm | Inr (reg, wm') \<Rightarrow> wm')"

lemma builtGet_admitted:
  assumes "builtGet R query wm ref ms w al = Some t"
  shows "et_alias t = al \<and>
    (\<exists>m\<in>set ms. mp_alias m = al \<and> admitted R query (builtMetadata R query wm ref ms w) m t)"
proof -
  obtain r w' where b: "buildTableRegistry R query wm ref ms w = (r, w')" by (cases "buildTableRegistry R query wm ref ms w")
  with assms obtain reg wm' where r: "r = Inr (reg, wm')" "registryGet reg al = Some t"
    by (auto simp: builtGet_def split: sum.splits prod.splits)
  from buildTableRegistry_admitted [OF b [unfolded r] r(2)] show ?thesis
    by (simp add: builtMetadata_def b r)
qed

interpretation startup: verified_registry
  "builtGet R query wm ref ms w" "builtMetadata R query wm ref ms w" for R query wm ref ms w
  by unfold_locales (use builtGet_admitted admitted_sound in blast)+

subsection \<open>The mapping parser\<close>

text \<open>What an accepted list satisfies, and the text that denotes it.\<close>

definition legalMapping :: "ExposedTableMapping \<Rightarrow> bool" where
  "legalMapping m \<longleftrightarrow>
     aliasPattern (mp_alias m) \<and> mp_schema m \<noteq> [] \<and> mp_table m \<noteq> [] \<and>
     CHR ''.'' \<notin> set (mp_schema m) \<and> CHR ''.'' \<notin> set (mp_table m) \<and>
     toLowerCase (mp_schema m) \<notin> set FORBIDDEN_SCHEMAS"

definition legalMappings :: "ExposedTableMapping list \<Rightarrow> bool" where
  "legalMappings ms \<longleftrightarrow>
     (\<forall>m\<in>set ms. legalMapping m) \<and> distinct (map mp_alias ms) \<and>
     distinct (map (\<lambda>m. (mp_schema m, mp_table m)) ms)"

lemma splitOn_two:
  assumes "splitOn c s = [a, b]"
  shows "s = a @ c # b \<and> c \<notin> set a \<and> c \<notin> set b"
  using joinWith_splitOn [of c s] splitOn_no_sep [of a c s] splitOn_no_sep [of b c s] assms by simp

lemma parseTableTarget_Inr:
  "parseTableTarget target = Inr (sc, tb) \<longleftrightarrow>
   target = sc @ CHR ''.'' # tb \<and> sc \<noteq> [] \<and> tb \<noteq> [] \<and> CHR ''.'' \<notin> set sc \<and> CHR ''.'' \<notin> set tb \<and>
   toLowerCase sc \<notin> set FORBIDDEN_SCHEMAS" (is "?l \<longleftrightarrow> ?r")
proof
  assume ?l
  then have s: "splitOn (CHR ''.'') target = [sc, tb]" "sc \<noteq> []" "tb \<noteq> []"
    "toLowerCase sc \<notin> set FORBIDDEN_SCHEMAS"
    by (auto simp: parseTableTarget_def split: list.splits if_splits)
  with splitOn_two [OF s(1)] show ?r by simp
next
  assume ?r
  then have "splitOn (CHR ''.'') target = [sc, tb]" by (simp add: splitOn_append splitOn_id)
  with \<open>?r\<close> show ?l by (simp add: parseTableTarget_def)
qed

lemma parseEntry_legal: "parseEntry entry = Inr m \<Longrightarrow> legalMapping m"
  by (auto simp: parseEntry_def legalMapping_def Let_def res_simps parseTableTarget_Inr
      split: if_splits option.splits)

lemma targetKey_inject:
  assumes "legalMapping m" and "legalMapping m'" and "targetKey m = targetKey m'"
  shows "mp_schema m = mp_schema m' \<and> mp_table m = mp_table m'"
proof -
  have "splitOn (CHR ''.'') (targetKey m) = [mp_schema m, mp_table m]" if "legalMapping m" for m
    using that by (simp add: targetKey_def legalMapping_def splitOn_append splitOn_id)
  with assms show ?thesis by (metis list.inject)
qed

lemma parseEntries_Inr:
  "parseEntries sa st es = Inr ms \<Longrightarrow>
   (\<forall>m\<in>set ms. legalMapping m) \<and> distinct (map mp_alias ms) \<and> distinct (map targetKey ms) \<and>
   set (map mp_alias ms) \<inter> set sa = {} \<and> set (map targetKey ms) \<inter> set st = {} \<and>
   mapR parseEntry es = Inr ms"
proof (induction es arbitrary: sa st ms)
  case (Cons e es)
  from Cons.prems obtain m ms' where m: "parseEntry e = Inr m" "mp_alias m \<notin> set sa"
    "targetKey m \<notin> set st" "parseEntries (mp_alias m # sa) (targetKey m # st) es = Inr ms'"
    "ms = m # ms'"
    by (auto simp: res_simps split: if_splits)
  from Cons.IH [OF m(4)] m parseEntry_legal [OF m(1)] show ?case by (auto simp: res_simps)
qed simp

lemma parseEntries_complete:
  "mapR parseEntry es = Inr ms \<Longrightarrow> distinct (map mp_alias ms) \<Longrightarrow> distinct (map targetKey ms) \<Longrightarrow>
   set (map mp_alias ms) \<inter> set sa = {} \<Longrightarrow> set (map targetKey ms) \<inter> set st = {} \<Longrightarrow>
   parseEntries sa st es = Inr ms"
proof (induction es arbitrary: sa st ms)
  case (Cons e es)
  then obtain m ms' where m: "parseEntry e = Inr m" "mapR parseEntry es = Inr ms'" "ms = m # ms'"
    by (auto simp: res_simps)
  have "parseEntries (mp_alias m # sa) (targetKey m # st) es = Inr ms'"
    using Cons.prems m by (intro Cons.IH) auto
  with Cons.prems m show ?case by auto
qed simp

lemma distinct_targetKey:
  "\<forall>m\<in>set ms. legalMapping m \<Longrightarrow>
   distinct (map targetKey ms) = distinct (map (\<lambda>m. (mp_schema m, mp_table m)) ms)"
proof (induction ms)
  case (Cons m ms)
  have "targetKey m \<in> targetKey ` set ms \<longleftrightarrow>
      (mp_schema m, mp_table m) \<in> (\<lambda>m. (mp_schema m, mp_table m)) ` set ms"
    using targetKey_inject [of m] Cons.prems by (auto simp: targetKey_def image_iff)
  with Cons show ?case by simp
qed simp

lemma parseMappings_legal: "parseMappings raw = Inr ms \<Longrightarrow> legalMappings ms"
  using distinct_targetKey [of ms]
  by (auto simp: parseMappings_def legalMappings_def split: option.splits if_splits
      dest!: parseEntries_Inr)

text \<open>The text of a list of mappings, as the operator writes it.\<close>

definition printMapping :: "ExposedTableMapping \<Rightarrow> string" where
  "printMapping m = mp_alias m @ CHR ''='' # mp_schema m @ CHR ''.'' # mp_table m"

definition printMappings :: "ExposedTableMapping list \<Rightarrow> string" where
  "printMappings ms = joinWith '','' (map printMapping ms)"

text \<open>Names that survive the separators and the trimming: simple identifiers are of this kind.\<close>

definition plainName :: "string \<Rightarrow> bool" where
  "plainName s \<longleftrightarrow> s \<noteq> [] \<and> CHR ''.'' \<notin> set s \<and> CHR '','' \<notin> set s \<and> list_all (\<lambda>c. \<not> isWhite c) s"

lemma simpleIdentifier_plain:
  assumes "simpleIdentifier s"
  shows "plainName s"
proof -
  have "identChar c \<Longrightarrow> \<not> isWhite c" for c by (auto simp: char_class_defs)
  with simpleIdentifier_chars [OF assms] identChar_not_special assms show ?thesis
    by (cases s) (auto simp: plainName_def list_all_iff)
qed

lemma plain_trim: "s \<noteq> [] \<Longrightarrow> list_all (\<lambda>c. \<not> isWhite c) s \<Longrightarrow> trim s = s"
  unfolding trim_def by (rule trimBy_id) (auto simp: list_all_iff)

lemma parseEntry_print:
  assumes "legalMapping m" and "plainName (mp_schema m)" and "plainName (mp_table m)"
  shows "parseEntry (printMapping m) = Inr m" and "trim (printMapping m) = printMapping m"
    and "CHR '','' \<notin> set (printMapping m)" and "printMapping m \<noteq> []"
proof -
  have al: "aliasPattern (mp_alias m)" using assms(1) by (simp add: legalMapping_def)
  note pa = simpleIdentifier_plain [OF aliasPattern_simpleIdentifier [OF al]]
  have eq: "CHR ''='' \<notin> set (mp_alias m)"
    using simpleIdentifier_chars [OF aliasPattern_simpleIdentifier [OF al]] identChar_not_special by blast
  let ?t = "mp_schema m @ CHR ''.'' # mp_table m"
  have ws: "\<not> isWhite (CHR ''='')" "\<not> isWhite (CHR ''.'')" by (simp_all add: char_class_defs)
  have tt: "trim ?t = ?t" "trim (mp_alias m) = mp_alias m"
    using assms pa ws by (auto simp: plainName_def intro!: plain_trim)
  have pt: "parseTableTarget ?t = Inr (mp_schema m, mp_table m)"
    using assms(1) by (simp add: parseTableTarget_Inr legalMapping_def)
  have i: "indexOf (CHR ''='') (printMapping m) = Some (length (mp_alias m))"
    unfolding printMapping_def by (rule indexOf_append [OF eq])
  show "printMapping m \<noteq> []" by (simp add: printMapping_def)
  show "trim (printMapping m) = printMapping m" "CHR '','' \<notin> set (printMapping m)"
    using assms pa ws by (auto simp: plainName_def printMapping_def intro!: plain_trim)
  show "parseEntry (printMapping m) = Inr m"
    unfolding parseEntry_def i
    using pa al by (simp add: printMapping_def plainName_def tt pt)
qed

text \<open>Round trip: the printed list is parsed back to itself.\<close>

lemma parseMappings_print:
  assumes "ms \<noteq> []" and "legalMappings ms"
    and "\<And>m. m \<in> set ms \<Longrightarrow> plainName (mp_schema m) \<and> plainName (mp_table m)"
  shows "parseMappings (Some (printMappings ms)) = Inr ms"
proof -
  have m: "parseEntry (printMapping m) = Inr m" "trim (printMapping m) = printMapping m"
    "CHR '','' \<notin> set (printMapping m)" "printMapping m \<noteq> []" if "m \<in> set ms" for m
    using parseEntry_print [of m] assms(2,3) that by (auto simp: legalMappings_def)
  have sp: "splitOn (CHR '','') (printMappings ms) = map printMapping ms"
    unfolding printMappings_def using assms(1) m by (intro splitOn_joinWith) auto
  have tr: "map trim (map printMapping ms) = map printMapping ms" using m by simp
  have ne: "trim (printMappings ms) \<noteq> []"
  proof
    assume "trim (printMappings ms) = []"
    then have "\<forall>x\<in>set (dropWhile isWhite (printMappings ms)). isWhite x"
      by (simp add: trim_def trimBy_def)
    then have "dropWhile isWhite (printMappings ms) = []"
      using hd_dropWhile [of isWhite "printMappings ms"] by (meson hd_in_set)
    then have "list_all isWhite (printMappings ms)" by (simp add: list_all_iff)
    moreover obtain m0 rest where "ms = m0 # rest" using assms(1) by (cases ms) auto
    moreover have "\<not> isWhite (CHR ''='')" by (simp add: char_class_defs)
    ultimately show False
      by (auto simp: printMappings_def printMapping_def joinWith_Cons split: if_splits)
  qed
  have "mapR parseEntry (map printMapping ms) = Inr ms"
    unfolding mapR_Inr_list_all2 list_all2_map1 using m by (simp add: list_all2_same)
  moreover have "distinct (map targetKey ms)"
    using assms(2) distinct_targetKey [of ms] by (auto simp: legalMappings_def)
  ultimately have "parseEntries [] [] (map printMapping ms) = Inr ms"
    using assms(2) by (intro parseEntries_complete) (auto simp: legalMappings_def)
  then show ?thesis by (simp only: parseMappings_def option.case sp tr ne if_False)
qed

section \<open>Properties\<close>


definition demoMapping :: ExposedTableMapping where
  "demoMapping = \<lparr>mp_alias = ''notes'', mp_schema = ''app'', mp_table = ''notes''\<rparr>"

text \<open>A server that reports one usable table.\<close>

definition demoQuery :: queryOp where
  "demoQuery q vals w =
     (Inr \<lparr>qr_rows =
        (if q = SCHEMA_USAGE_SQL \<or> q = DELETE_PRIVILEGE_SQL then [[(''has'', VBool True)]]
         else if q = TABLE_EXISTS_SQL then [[(''exists'', VBool True)]]
         else if q = RLS_SQL then [[(''relrowsecurity'', VBool True), (''relforcerowsecurity'', VBool True)]]
         else if q = POLICY_SQL then [[(''applicable_to_current_user'', VBool True)]]
         else if q = PRIMARY_KEY_SQL then [[(''column_name'', VStr ''id''), (''data_type'', VStr ''uuid'')]]
         else if q = COLUMNS_SQL then
           [[(''column_name'', VStr ''body''), (''data_type'', VStr ''text''), (''is_nullable'', VStr ''YES''),
             (''column_default'', VNull), (''is_generated'', VStr ''NEVER''), (''is_identity'', VStr ''NO'')]]
         else
           [[(''column_name'', VStr ''body''), (''has_select'', VBool True), (''has_insert'', VBool True),
             (''has_update'', VBool True)]]),
        qr_count = Some 1\<rparr>, w @ [EvPool q vals])"


text \<open>C40: On a table of a built registry, reading a row can fail only in the conversion of one of its
  values, or on a column named \<open>__proto__\<close>: metadata is never missing and no readable column has an
  unsupported type.\<close>
theorem registered_rows_convert:
  assumes "builtGet R query wm ref ms w al = Some t"
    and "requireVerifiedMetadata (builtMetadata R query wm ref ms w) t = r"
  shows "\<exists>ct. r = Inr ct \<and>
    (\<forall>row e. rowToJson R t ct row = Inl e \<longrightarrow>
       e = ErrObj ''typeName.toLowerCase is not a function'' [] \<or> (\<exists>c v. applyConverter R c v = Inl e))"
proof -
  from startup.metadata_present [OF assms(1)] obtain ct
    where ct: "requireVerifiedMetadata (builtMetadata R query wm ref ms w) t = Inr ct" by blast
  with startup.rowToJson_errors [OF assms(1) ct] assms(2) show ?thesis by auto
qed

theorem registered_rows_convert_witness:
  "\<exists>t ct. builtGet okRuntime demoQuery (\<lambda>_. None) 0 [demoMapping] [] ''notes'' = Some t \<and>
     requireVerifiedMetadata (builtMetadata okRuntime demoQuery (\<lambda>_. None) 0 [demoMapping] []) t = Inr ct"
proof -
  have "builtGet okRuntime demoQuery (\<lambda>_. None) 0 [demoMapping] [] ''notes'' \<noteq> None" by code_simp
  then obtain t where t: "builtGet okRuntime demoQuery (\<lambda>_. None) 0 [demoMapping] [] ''notes'' = Some t"
    by blast
  from registered_rows_convert [OF t refl] t show ?thesis by blast
qed

text \<open>The mapping list is a faithful notation: what an operator writes for a legal list of
  mappings is parsed back to exactly that list.\<close>
theorem mappings_round_trip:
  assumes "ms \<noteq> []" and "legalMappings ms"
    and "list_all (\<lambda>m. plainName (mp_schema m) \<and> plainName (mp_table m)) ms"
  shows "parseMappings (Some (printMappings ms)) = Inr ms"
  using parseMappings_print [OF assms(1,2)] assms(3) by (simp add: list_all_iff)

theorem mappings_round_trip_witness:
  "parseMappings (Some ''notes=app.notes,todo=app.todo_items'') =
   Inr [demoMapping, \<lparr>mp_alias = ''todo'', mp_schema = ''app'', mp_table = ''todo_items''\<rparr>]"
proof -
  let ?ms = "[demoMapping, \<lparr>mp_alias = ''todo'', mp_schema = ''app'', mp_table = ''todo_items''\<rparr>]"
  have "legalMappings ?ms" "list_all (\<lambda>m. plainName (mp_schema m) \<and> plainName (mp_table m)) ?ms"
    "printMappings ?ms = ''notes=app.notes,todo=app.todo_items''" by code_simp+
  with mappings_round_trip [of ?ms] show ?thesis by simp
qed

text \<open>Whatever text is configured, an accepted mapping list has well-formed, distinct aliases and
  distinct targets, and exposes neither the system catalogues nor the server's own schema.\<close>
theorem accepted_mappings_legal:
  assumes "parseMappings raw = Inr ms"
  shows "legalMappings ms"
  by (rule parseMappings_legal [OF assms])

theorem accepted_mappings_legal_witness: "legalMappings [demoMapping]"
proof -
  have "parseMappings (Some '' notes = app.notes '') = Inr [demoMapping]" by code_simp
  from accepted_mappings_legal [OF this] show ?thesis .
qed

end
