(* ===== verification/ExposureRegistry.thy ===== *)
theory ExposureRegistry
  imports RegistryFacts
begin

text \<open>
  The durable exposure registry of \<open>src/database/exposure-registry.ts\<close>: typed reads of the
  registry rows and the one-time import, with its adoption of a concurrent winner.
\<close>

record ExposureRegistryEntry =
  ex_alias :: string
  ex_schema :: string
  ex_table :: string

record ExposureRegistryRow = ExposureRegistryEntry +
  ex_exposed :: bool

record ExposureRegistryState =
  xs_initialized :: bool
  xs_importedAt :: jsval
  xs_exposed :: "ExposureRegistryEntry list"

definition STATE_SQL :: string where
  "STATE_SQL = ''SELECT initialized, imported_at FROM microjbase.exposure_registry_state WHERE singleton''"

definition EXPOSED_SQL :: string where
  "EXPOSED_SQL = ''SELECT alias, schema_name, table_name FROM microjbase.exposure_registry '' @
     ''WHERE exposed ORDER BY alias''"

definition BY_TARGET_SQL :: string where
  "BY_TARGET_SQL = ''SELECT alias, schema_name, table_name, exposed FROM microjbase.exposure_registry '' @
     ''WHERE schema_name = $1 AND table_name = $2''"

definition BY_ALIAS_SQL :: string where
  "BY_ALIAS_SQL = ''SELECT alias, schema_name, table_name, exposed FROM microjbase.exposure_registry '' @
     ''WHERE alias = $1''"

definition IMPORT_SQL :: string where
  "IMPORT_SQL = ''SELECT microjbase.import_exposure_registry($1::jsonb)''"

definition malformed :: "string \<Rightarrow> thrown" where
  "malformed reason =
     AppErr (mkErr INTERNAL_ERROR (''Malformed exposure registry state: '' @ reason) 500 None)"

definition requireNonEmptyString :: "jsval \<Rightarrow> string \<Rightarrow> thrown + string" where
  "requireNonEmptyString value field =
     (case value of
        VStr s \<Rightarrow> if s = [] then Inl (malformed (field @ '' must be a non-empty string'')) else Inr s
      | _ \<Rightarrow> Inl (malformed (field @ '' must be a non-empty string'')))"

definition queryTranslated :: "runtime \<Rightarrow> queryOp \<Rightarrow> string \<Rightarrow> jsval list \<Rightarrow> qresult io" where
  "queryTranslated R query sql vals =
     catchM (query sql vals) (\<lambda>error. throwM (AppErr (translatePoolError R error)))"

definition mapEntryRow :: "(string \<times> jsval) list \<Rightarrow> thrown + ExposureRegistryEntry" where
  "mapEntryRow r =
     bindR (requireNonEmptyString (propOf r ''alias'') ''alias'') (\<lambda>a.
     bindR (requireNonEmptyString (propOf r ''schema_name'') ''schema_name'') (\<lambda>s.
     bindR (requireNonEmptyString (propOf r ''table_name'') ''table_name'') (\<lambda>t.
       Inr \<lparr>ex_alias = a, ex_schema = s, ex_table = t\<rparr>)))"

definition readExposureRegistryState :: "runtime \<Rightarrow> queryOp \<Rightarrow> ExposureRegistryState io" where
  "readExposureRegistryState R query =
     bindM (queryTranslated R query STATE_SQL []) (\<lambda>stateResult.
     (case row0 stateResult of
        None \<Rightarrow> throwM (malformed ''singleton state row is missing'')
      | Some stateRow \<Rightarrow>
     (case propOf stateRow ''initialized'' of
        VBool initialized \<Rightarrow>
          (let importedAt = propOf stateRow ''imported_at''
           in if importedAt \<noteq> VNull \<and> dateOf (heap R) importedAt = None then
                throwM (malformed ''imported_at must be a timestamp or null'')
              else
                bindM (queryTranslated R query EXPOSED_SQL []) (\<lambda>exposedResult.
                bindM (liftR (mapR mapEntryRow (qr_rows exposedResult))) (\<lambda>exposed.
                  returnM \<lparr>xs_initialized = initialized, xs_importedAt = importedAt,
                           xs_exposed = exposed\<rparr>)))
      | _ \<Rightarrow> throwM (malformed ''initialized must be a boolean''))))"

text \<open>The row of a lookup: its \<open>exposed\<close> flag is tested before its names.\<close>

definition exposureRow :: "qresult \<Rightarrow> thrown + ExposureRegistryRow option" where
  "exposureRow res =
     (case row0 res of
        None \<Rightarrow> Inr None
      | Some r \<Rightarrow>
          (case propOf r ''exposed'' of
             VBool b \<Rightarrow>
               bindR (mapEntryRow r) (\<lambda>e.
                 Inr (Some \<lparr>ex_alias = ex_alias e, ex_schema = ex_schema e, ex_table = ex_table e,
                            ex_exposed = b\<rparr>))
           | _ \<Rightarrow> Inl (malformed ''exposed must be a boolean'')))"

definition findExposureByTarget ::
  "runtime \<Rightarrow> queryOp \<Rightarrow> string \<Rightarrow> string \<Rightarrow> ExposureRegistryRow option io" where
  "findExposureByTarget R query schema table =
     bindM (queryTranslated R query BY_TARGET_SQL [VStr schema, VStr table]) (\<lambda>result.
       liftR (exposureRow result))"

definition findExposureByAlias :: "runtime \<Rightarrow> queryOp \<Rightarrow> string \<Rightarrow> ExposureRegistryRow option io" where
  "findExposureByAlias R query tableAlias =
     bindM (queryTranslated R query BY_ALIAS_SQL [VStr tableAlias]) (\<lambda>result.
       liftR (exposureRow result))"

subsection \<open>The one-time import\<close>

definition validateMapping :: "ExposedTableMapping \<Rightarrow> thrown + unit" where
  "validateMapping m =
     (if \<not> aliasPattern (mp_alias m) then
        Inl (tablesError (''MICROJBASE_TABLES alias '' @ inQuotes (mp_alias m) @ '' must match '' @
               ALIAS_SOURCE))
      else if \<not> simpleIdentifier (mp_schema m) then
        Inl (tablesError (''MICROJBASE_TABLES schema '' @ inQuotes (mp_schema m) @
               '' is not a valid identifier''))
      else if \<not> simpleIdentifier (mp_table m) then
        Inl (tablesError (''MICROJBASE_TABLES table '' @ inQuotes (mp_table m) @
               '' is not a valid identifier''))
      else if toLowerCase (mp_schema m) \<in> set FORBIDDEN_SCHEMAS then
        Inl (tablesError (''MICROJBASE_TABLES schema '' @ inQuotes (mp_schema m) @
               '' cannot be exposed''))
      else Inr ())"

definition payloadEntry :: "ExposedTableMapping \<Rightarrow> ExposureRegistryEntry" where
  "payloadEntry m = \<lparr>ex_alias = mp_alias m, ex_schema = mp_schema m, ex_table = mp_table m\<rparr>"

fun buildPayload ::
  "string list \<Rightarrow> string list \<Rightarrow> ExposedTableMapping list \<Rightarrow> thrown + ExposureRegistryEntry list" where
  "buildPayload seenAliases seenTargets [] = Inr []"
| "buildPayload seenAliases seenTargets (m # ms) =
     bindR (validateMapping m) (\<lambda>_.
       if mp_alias m \<in> set seenAliases \<or> targetKey m \<in> set seenTargets then
         Inl (tablesError ''MICROJBASE_TABLES contains duplicate aliases or targets'')
       else bindR (buildPayload (mp_alias m # seenAliases) (targetKey m # seenTargets) ms) (\<lambda>ps.
              Inr (payloadEntry m # ps)))"

definition buildImportPayload :: "ExposedTableMapping list \<Rightarrow> thrown + ExposureRegistryEntry list" where
  "buildImportPayload mappings = buildPayload [] [] mappings"

definition exposedSetKey :: "ExposureRegistryEntry \<Rightarrow> string" where
  "exposedSetKey e = ex_alias e @ [CHR 0x00] @ ex_schema e @ [CHR 0x00] @ ex_table e"

definition exposedSetsEqual :: "ExposureRegistryEntry list \<Rightarrow> ExposureRegistryEntry list \<Rightarrow> bool" where
  "exposedSetsEqual exposed payload =
     (if length exposed \<noteq> length payload then False
      else
        (let exposedKeys = remdups (map exposedSetKey exposed)
         in if length exposedKeys \<noteq> length exposed then False
            else list_all (\<lambda>e. exposedSetKey e \<in> set exposedKeys) payload))"

text \<open>\<open>JSON.stringify(payload)\<close>; the names are identifiers, which need no escape.\<close>

definition payloadJson :: "ExposureRegistryEntry list \<Rightarrow> string" where
  "payloadJson es =
     ''['' @ joinWith '','' (map (\<lambda>e.
        ''{'' @ inQuotes ''alias'' @ '':'' @ inQuotes (ex_alias e) @ '','' @
        inQuotes ''schema'' @ '':'' @ inQuotes (ex_schema e) @ '','' @
        inQuotes ''table'' @ '':'' @ inQuotes (ex_table e) @ ''}'') es) @ '']''"

definition importConflict :: thrown where
  "importConflict =
     AppErr (mkErr CONFLICT
       ''Exposure registry was initialized concurrently with a different mapping set'' 409 None)"

definition alreadyInitialized :: thrown where
  "alreadyInitialized = AppErr (mkErr CONFLICT ''Exposure registry is already initialized'' 409 None)"

definition importInitialExposure ::
  "runtime \<Rightarrow> queryOp \<Rightarrow> ExposedTableMapping list \<Rightarrow> ExposureRegistryState io" where
  "importInitialExposure R query mappings =
     bindM (readExposureRegistryState R query) (\<lambda>before.
       if xs_initialized before then throwM alreadyInitialized
       else
         bindM (liftR (buildImportPayload mappings)) (\<lambda>payload.
         bindM (catchM
                  (bindM (queryTranslated R query IMPORT_SQL [VStr (payloadJson payload)])
                     (\<lambda>_. returnM None))
                  (\<lambda>error.
                     bindM (readExposureRegistryState R query) (\<lambda>state.
                       if xs_initialized state \<and> exposedSetsEqual (xs_exposed state) payload
                       then returnM (Some state)
                       else if xs_initialized state then throwM importConflict
                       else throwM (AppErr (translatePoolError R error))))) (\<lambda>adopted.
           (case adopted of
              Some state \<Rightarrow> returnM state
            | None \<Rightarrow> readExposureRegistryState R query))))"

subsection \<open>What the import accepts and adopts\<close>

definition importable :: "ExposureRegistryEntry list \<Rightarrow> bool" where
  "importable es \<longleftrightarrow>
     (\<forall>e\<in>set es. aliasPattern (ex_alias e) \<and> simpleIdentifier (ex_schema e) \<and>
        simpleIdentifier (ex_table e) \<and> toLowerCase (ex_schema e) \<notin> set FORBIDDEN_SCHEMAS) \<and>
     distinct (map ex_alias es) \<and> distinct (map (\<lambda>e. (ex_schema e, ex_table e)) es)"

lemma validateMapping_Inr:
  "validateMapping m = Inr u \<longleftrightarrow>
   aliasPattern (mp_alias m) \<and> simpleIdentifier (mp_schema m) \<and> simpleIdentifier (mp_table m) \<and>
   toLowerCase (mp_schema m) \<notin> set FORBIDDEN_SCHEMAS"
  by (auto simp: validateMapping_def)

lemma simpleIdentifier_free:
  assumes "simpleIdentifier s"
  shows "s \<noteq> []" and "CHR ''.'' \<notin> set s" and "CHR 0x00 \<notin> set s"
  using simpleIdentifier_chars [OF assms] identChar_not_special simpleIdentifier_nonempty [OF assms]
  by blast+

lemma validateMapping_legal: "validateMapping m = Inr u \<Longrightarrow> legalMapping m"
  by (simp add: validateMapping_Inr legalMapping_def simpleIdentifier_free)

lemma buildPayload_Inr:
  "buildPayload sa st ms = Inr ps \<Longrightarrow>
   ps = map payloadEntry ms \<and> (\<forall>m\<in>set ms. validateMapping m = Inr ()) \<and>
   distinct (map mp_alias ms) \<and> distinct (map targetKey ms) \<and>
   set (map mp_alias ms) \<inter> set sa = {} \<and> set (map targetKey ms) \<inter> set st = {}"
proof (induction ms arbitrary: sa st ps)
  case (Cons m ms)
  from Cons.prems obtain ps' where m: "validateMapping m = Inr ()" "mp_alias m \<notin> set sa"
    "targetKey m \<notin> set st" "buildPayload (mp_alias m # sa) (targetKey m # st) ms = Inr ps'"
    "ps = payloadEntry m # ps'"
    by (auto simp: res_simps split: if_splits)
  from Cons.IH [OF m(4)] m show ?case by auto
qed simp

lemma buildImportPayload_importable:
  assumes "buildImportPayload ms = Inr ps"
  shows "ps = map payloadEntry ms \<and> importable ps"
proof -
  note b = buildPayload_Inr [OF assms [unfolded buildImportPayload_def]]
  then have "\<forall>m\<in>set ms. legalMapping m" using validateMapping_legal by blast
  from distinct_targetKey [OF this] b show ?thesis
    by (auto simp: importable_def payloadEntry_def validateMapping_Inr o_def)
qed

text \<open>The NUL separator keeps the keys of identifiers apart.\<close>

lemma split_at_sep:
  "c \<notin> set a \<Longrightarrow> c \<notin> set a' \<Longrightarrow> a @ c # b = a' @ c # b' \<Longrightarrow> a = a' \<and> b = b'"
proof (induction a arbitrary: a')
  case Nil
  then show ?case by (cases a') auto
next
  case (Cons x a)
  then show ?case by (cases a') auto
qed

definition nulFree :: "ExposureRegistryEntry \<Rightarrow> bool" where
  "nulFree e \<longleftrightarrow> CHR 0x00 \<notin> set (ex_alias e) \<and> CHR 0x00 \<notin> set (ex_schema e)"

lemma exposedSetKey_inject:
  assumes "nulFree e" and "nulFree e'" and "exposedSetKey e = exposedSetKey e'"
  shows "e = e'"
proof -
  from assms have "ex_alias e = ex_alias e'"
    "ex_schema e @ CHR 0x00 # ex_table e = ex_schema e' @ CHR 0x00 # ex_table e'"
    using split_at_sep [of "CHR 0x00" "ex_alias e" "ex_alias e'"]
    by (auto simp: exposedSetKey_def nulFree_def)
  then have "ex_alias e = ex_alias e'" "ex_schema e = ex_schema e'" "ex_table e = ex_table e'"
    using split_at_sep [of "CHR 0x00" "ex_schema e" "ex_schema e'"] assms by (auto simp: nulFree_def)
  then show ?thesis by (cases e; cases e') simp
qed

text \<open>
  On duplicate-free payloads without NUL the comparison is equality of sets, so an adopted winner has
  exactly the mappings this process validated.
\<close>

lemma exposedSetsEqual_iff:
  assumes "distinct payload" and "\<forall>e\<in>set payload. nulFree e" and "\<forall>e\<in>set exposed. nulFree e"
  shows "exposedSetsEqual exposed payload \<longleftrightarrow> distinct exposed \<and> set exposed = set payload"
proof -
  have inj: "inj_on exposedSetKey (set exposed \<union> set payload)"
    using assms(2,3) exposedSetKey_inject by (auto intro!: inj_onI)
  from inj have "inj_on exposedSetKey (set exposed)" by (simp add: inj_on_Un)
  then have d: "length (remdups (map exposedSetKey exposed)) = length exposed \<longleftrightarrow> distinct exposed"
    using length_remdups_eq [of "map exposedSetKey exposed"]
    by (simp add: remdups_id_iff_distinct distinct_map)
  have k: "exposedSetKey e \<in> exposedSetKey ` set exposed \<longleftrightarrow> e \<in> set exposed" if "e \<in> set payload" for e
    using inj_on_image_mem_iff [OF inj, of e "set exposed"] that by simp
  have m: "list_all (\<lambda>e. exposedSetKey e \<in> set (remdups (map exposedSetKey exposed))) payload \<longleftrightarrow>
      set payload \<subseteq> set exposed"
    unfolding list_all_iff set_remdups set_map using k by (meson subset_iff)
  show ?thesis
  proof
    assume e: "exposedSetsEqual exposed payload"
    then have "distinct exposed" "set payload \<subseteq> set exposed" "length exposed = length payload"
      using d m by (auto simp: exposedSetsEqual_def Let_def split: if_splits)
    with assms(1) show "distinct exposed \<and> set exposed = set payload"
      by (metis card_subset_eq distinct_card finite_set)
  next
    assume "distinct exposed \<and> set exposed = set payload"
    with assms(1) d m show "exposedSetsEqual exposed payload"
      by (auto simp: exposedSetsEqual_def Let_def) (metis distinct_card)
  qed
qed

lemma importable_nulFree: "importable ps \<Longrightarrow> distinct ps \<and> (\<forall>e\<in>set ps. nulFree e)"
  by (simp add: importable_def nulFree_def distinct_map simpleIdentifier_free
      aliasPattern_simpleIdentifier)

text \<open>
  The state an import ends with: read back after this process's own import call succeeded,
  or the initialised state of a winner with exactly the validated mappings.
\<close>

lemma catch_cases:
  "catchM m k w = (Inr x, w') \<longleftrightarrow>
   m w = (Inr x, w') \<or> (\<exists>e w1. m w = (Inl e, w1) \<and> k e w1 = (Inr x, w'))"
  by (auto simp: catchM_def split: prod.splits sum.splits)

lemma importInitialExposure_result:
  assumes "importInitialExposure R query ms w = (Inr st, w')"
  shows "\<exists>payload. buildImportPayload ms = Inr payload \<and>
    ((\<exists>w0 q w1. query IMPORT_SQL [VStr (payloadJson payload)] w0 = (Inr q, w1) \<and>
        readExposureRegistryState R query w1 = (Inr st, w')) \<or>
     (xs_initialized st \<and> exposedSetsEqual (xs_exposed st) payload))"
proof -
  let ?attempt = "\<lambda>payload. catchM
      (bindM (queryTranslated R query IMPORT_SQL [VStr (payloadJson payload)]) (\<lambda>_. returnM None))
      (\<lambda>error. bindM (readExposureRegistryState R query) (\<lambda>state.
         if xs_initialized state \<and> exposedSetsEqual (xs_exposed state) payload
         then returnM (Some state)
         else if xs_initialized state then throwM importConflict
         else throwM (AppErr (translatePoolError R error))))"
  from assms obtain payload w0 adopted w1 where p: "buildImportPayload ms = Inr payload"
    and t: "?attempt payload w0 = (Inr adopted, w1)"
    and r: "(case adopted of Some state \<Rightarrow> returnM state | None \<Rightarrow> readExposureRegistryState R query) w1
      = (Inr st, w')"
    by (auto simp: importInitialExposure_def bindM_Inr_iff liftR_Inr_iff throwM_def split: if_splits)
  from t consider
      (ok) q where "adopted = None" "query IMPORT_SQL [VStr (payloadJson payload)] w0 = (Inr q, w1)"
    | (lost) state where "adopted = Some state" "xs_initialized state"
        "exposedSetsEqual (xs_exposed state) payload"
    by (auto simp: catch_cases bindM_Inr_iff queryTranslated_def throwM_def returnM_def split: if_splits)
  then show ?thesis
  proof cases
    case ok
    with r p show ?thesis by auto
  next
    case lost
    with r p show ?thesis by (auto simp: returnM_def)
  qed
qed

section \<open>Properties\<close>

text \<open>C30: The one-time import ends in one of two ways: the validated payload was sent and accepted, and
  the state read back afterwards is returned; or another process won, and its state is adopted only if
  its exposed mappings are, as a set without repetition, exactly the validated ones.\<close>
theorem import_adopts_only_equal:
  assumes "importInitialExposure R query ms w = (Inr st, w')"
    and "list_all nulFree (xs_exposed st)"
  shows "\<exists>payload. buildImportPayload ms = Inr payload \<and> payload = map payloadEntry ms \<and>
    importable payload \<and>
    ((\<exists>w0 q w1. query IMPORT_SQL [VStr (payloadJson payload)] w0 = (Inr q, w1) \<and>
        readExposureRegistryState R query w1 = (Inr st, w')) \<or>
     (xs_initialized st \<and> distinct (xs_exposed st) \<and> set (xs_exposed st) = set payload))"
proof -
  from importInitialExposure_result [OF assms(1)] obtain payload
    where p: "buildImportPayload ms = Inr payload"
    and c: "(\<exists>w0 q w1. query IMPORT_SQL [VStr (payloadJson payload)] w0 = (Inr q, w1) \<and>
        readExposureRegistryState R query w1 = (Inr st, w')) \<or>
      (xs_initialized st \<and> exposedSetsEqual (xs_exposed st) payload)" by blast
  note imp = buildImportPayload_importable [OF p]
  with importable_nulFree have "distinct payload" "\<forall>e\<in>set payload. nulFree e" by blast+
  with exposedSetsEqual_iff [of payload "xs_exposed st"] assms(2) c p imp
  show ?thesis by (auto simp: list_all_iff)
qed

text \<open>A server whose import fails because another process was first.\<close>

definition racedQuery :: queryOp where
  "racedQuery q vals w =
     (if q = IMPORT_SQL then Inl (ErrObj ''raced'' [])
      else Inr \<lparr>qr_rows =
        (if q = STATE_SQL then [[(''initialized'', VBool (w \<noteq> [])), (''imported_at'', VNull)]]
         else if w = [EvPool STATE_SQL []] then []
         else [[(''alias'', VStr ''notes''), (''schema_name'', VStr ''app''), (''table_name'', VStr ''notes'')]]),
        qr_count = None\<rparr>, w @ [EvPool q vals])"

theorem import_adopts_only_equal_witness:
  "\<exists>st w'. importInitialExposure okRuntime racedQuery [demoMapping] [] = (Inr st, w') \<and>
     xs_exposed st = [payloadEntry demoMapping] \<and> (\<exists>payload. buildImportPayload [demoMapping] = Inr payload)"
proof -
  let ?i = "importInitialExposure okRuntime racedQuery [demoMapping] []"
  have "case fst ?i of Inl e \<Rightarrow> False | Inr st \<Rightarrow> xs_exposed st = [payloadEntry demoMapping] \<and>
      list_all nulFree (xs_exposed st)" by code_simp
  then obtain st where i: "?i = (Inr st, snd ?i)" "xs_exposed st = [payloadEntry demoMapping]"
    "list_all nulFree (xs_exposed st)"
    by (cases ?i) (auto split: sum.splits)
  from import_adopts_only_equal [OF i(1,3)] i show ?thesis by blast
qed

end
