(* ===== verification/Config.thy ===== *)
theory Config
  imports RegistryFacts Tokens
begin

text \<open>
  Startup configuration (\<open>src/core/config.ts\<close>).  The environment is a map from variable names
  to values.  The URL parser is the runtime's: the model takes the components it finds, for
  any parser.
\<close>

type_synonym env = "string \<Rightarrow> string option"

datatype LogLevel = Fatal | Error | Warn | Info | Debug | Trace

fun levelName :: "LogLevel \<Rightarrow> string" where
  "levelName Fatal = ''fatal''"
| "levelName Error = ''error''"
| "levelName Warn = ''warn''"
| "levelName Info = ''info''"
| "levelName Debug = ''debug''"
| "levelName Trace = ''trace''"

definition VALID_LOG_LEVELS :: "LogLevel list" where
  "VALID_LOG_LEVELS = [Fatal, Error, Warn, Info, Debug, Trace]"

record AppConfig =
  cfg_databaseUrl :: string
  cfg_migrationDatabaseUrl :: "string option"
  cfg_schemaDatabaseUrl :: "string option"
  cfg_adminTokenSha256 :: "string option"
  cfg_host :: string
  cfg_port :: int
  cfg_logLevel :: LogLevel
  cfg_sessionTtlSeconds :: int
  cfg_tables :: "ExposedTableMapping list"
  cfg_trustProxy :: bool
  cfg_maxBodyBytes :: int

definition configError :: "string \<Rightarrow> string \<Rightarrow> thrown" where
  "configError variable message =
     AppErr (mkErr VALIDATION_ERROR message 400 (Some [(''variable'', dstr variable)]))"

text \<open>\<open>raw === undefined || raw.trim().length === 0\<close>.\<close>

definition blank :: "string option \<Rightarrow> bool" where
  "blank raw = (case raw of None \<Rightarrow> True | Some s \<Rightarrow> trim s = [])"

definition requireEnvString :: "env \<Rightarrow> string \<Rightarrow> thrown + string" where
  "requireEnvString env key =
     (if blank (env key) then Inl (configError key (key @ '' is required'')) else Inr (the (env key)))"

definition optionalEnvString :: "env \<Rightarrow> string \<Rightarrow> string option" where
  "optionalEnvString env key = (if blank (env key) then None else env key)"

definition parseAdminTokenDigest :: "string option \<Rightarrow> thrown + string option" where
  "parseAdminTokenDigest raw =
     (case raw of
        None \<Rightarrow> Inr None
      | Some s \<Rightarrow>
          (let normalized = toLowerCase (trim s)
           in if \<not> (length normalized = 64 \<and> list_all isHexLower normalized) then
                Inl (configError ''MICROJBASE_ADMIN_TOKEN_SHA256''
                  ''MICROJBASE_ADMIN_TOKEN_SHA256 must be a 64-character lowercase SHA-256 hex digest'')
              else Inr (Some normalized)))"

definition assertSchemaAdminConfigPairing :: "string option \<Rightarrow> string option \<Rightarrow> thrown + unit" where
  "assertSchemaAdminConfigPairing schemaDatabaseUrl adminTokenSha256 =
     (if (schemaDatabaseUrl = None) \<noteq> (adminTokenSha256 = None) then
        Inl (AppErr (mkErr VALIDATION_ERROR
          ''SCHEMA_DATABASE_URL and MICROJBASE_ADMIN_TOKEN_SHA256 must be configured together'' 400
          (Some [(''variables'', DStrs [''SCHEMA_DATABASE_URL'', ''MICROJBASE_ADMIN_TOKEN_SHA256''])])))
      else Inr ())"

text \<open>
  What \<open>new URL(raw)\<close> yields, \<open>None\<close> when it throws; \<open>up_username\<close> after
  \<open>decodeURIComponent\<close>.
\<close>

record url_parts =
  up_protocol :: string
  up_username :: string
  up_hostname :: string
  up_port :: string
  up_pathname :: string

record pg_surface =
  pg_username :: string
  pg_host :: string
  pg_port :: jnum
  pg_database :: string

definition normalizePostgresUrl :: "(string \<Rightarrow> url_parts option) \<Rightarrow> string \<Rightarrow> pg_surface option" where
  "normalizePostgresUrl parseUrl raw =
     (case parseUrl raw of
        None \<Rightarrow> None
      | Some p \<Rightarrow>
          if up_protocol p \<noteq> ''postgres:'' \<and> up_protocol p \<noteq> ''postgresql:'' then None
          else
            (let host0 = toLowerCase (up_hostname p);
                 host = (if host0 = ''localhost'' \<or> host0 = ''::1'' \<or> host0 = ''[::1]''
                         then ''127.0.0.1'' else host0);
                 port = (if up_port p = [] then JFin 5432 else strToNumber (up_port p));
                 database = (case up_pathname p of [] \<Rightarrow> []
                             | c # cs \<Rightarrow> if c = CHR ''/'' then cs else c # cs)
             in Some \<lparr>pg_username = up_username p, pg_host = host, pg_port = port,
                      pg_database = database\<rparr>))"

text \<open>\<open>NaN === NaN\<close> is false: ports that are no numbers are never equal.\<close>

definition samePort :: "jnum \<Rightarrow> jnum \<Rightarrow> bool" where
  "samePort a b \<longleftrightarrow> a = b \<and> a \<noteq> JNaN"

definition sameSurface :: "(string \<Rightarrow> url_parts option) \<Rightarrow> string \<Rightarrow> string \<Rightarrow> bool" where
  "sameSurface parseUrl databaseUrl schemaDatabaseUrl \<longleftrightarrow>
     schemaDatabaseUrl = databaseUrl \<or>
     (case (normalizePostgresUrl parseUrl databaseUrl, normalizePostgresUrl parseUrl schemaDatabaseUrl) of
        (Some r, Some a) \<Rightarrow>
          pg_username r = pg_username a \<and> pg_host r = pg_host a \<and> samePort (pg_port r) (pg_port a) \<and>
          pg_database r = pg_database a
      | _ \<Rightarrow> False)"

definition assertSchemaAdminUrlDistinct ::
  "(string \<Rightarrow> url_parts option) \<Rightarrow> string \<Rightarrow> string option \<Rightarrow> thrown + unit" where
  "assertSchemaAdminUrlDistinct parseUrl databaseUrl schemaDatabaseUrl =
     (case schemaDatabaseUrl of
        None \<Rightarrow> Inr ()
      | Some s \<Rightarrow>
          if sameSurface parseUrl databaseUrl s then
            Inl (configError ''SCHEMA_DATABASE_URL''
              ''SCHEMA_DATABASE_URL must not equal DATABASE_URL (the runtime data role)'')
          else Inr ())"

definition parsePort :: "string option \<Rightarrow> thrown + int" where
  "parsePort raw =
     (if blank raw then Inr 3000
      else (case intInRange 1 65535 (VNum (strToNumber (the raw))) of
              None \<Rightarrow> Inl (configError ''PORT'' ''PORT must be an integer between 1 and 65535'')
            | Some n \<Rightarrow> Inr n))"

definition parseLogLevel :: "string option \<Rightarrow> thrown + LogLevel" where
  "parseLogLevel raw =
     (if blank raw then Inr Info
      else
        (case find (\<lambda>l. levelName l = toLowerCase (trim (the raw))) VALID_LOG_LEVELS of
           None \<Rightarrow> Inl (configError ''LOG_LEVEL''
             (''LOG_LEVEL must be one of '' @ joinWith '', '' (map levelName VALID_LOG_LEVELS)))
         | Some l \<Rightarrow> Inr l))"

text \<open>\<open>Number.isInteger(value) && value >= 1\<close>: no upper bound.\<close>

definition parsePositiveInt :: "string option \<Rightarrow> int \<Rightarrow> string \<Rightarrow> thrown + int" where
  "parsePositiveInt raw defaultValue variable =
     (if blank raw then Inr defaultValue
      else
        (case strToNumber (the raw) of
           JFin q \<Rightarrow>
             if of_int \<lfloor>q\<rfloor> = q \<and> 1 \<le> q then Inr \<lfloor>q\<rfloor>
             else Inl (configError variable (variable @ '' must be a positive integer''))
         | _ \<Rightarrow> Inl (configError variable (variable @ '' must be a positive integer''))))"

definition parseBoolean :: "string option \<Rightarrow> bool \<Rightarrow> thrown + bool" where
  "parseBoolean raw defaultValue =
     (if blank raw then Inr defaultValue
      else
        (let normalized = toLowerCase (trim (the raw))
         in if normalized \<in> {''true'', ''1'', ''yes'', ''on''} then Inr True
            else if normalized \<in> {''false'', ''0'', ''no'', ''off''} then Inr False
            else Inl (configError ''TRUST_PROXY''
                   ''TRUST_PROXY must be a boolean (true/false/1/0/yes/no/on/off)'')))"

text \<open>
  The configuration's own copy of the mapping parser: the target is checked before the alias,
  and only repeated aliases are refused.
\<close>

definition configEntry :: "string \<Rightarrow> thrown + ExposedTableMapping" where
  "configEntry entry =
     (if entry = [] then Inl (tablesError ''MICROJBASE_TABLES contains an empty entry'')
      else
        (case indexOf (CHR ''='') entry of
           None \<Rightarrow> Inl (tablesError (''MICROJBASE_TABLES entry '' @ inQuotes entry @
                      '' must be in the form alias=schema.table''))
         | Some i \<Rightarrow>
             if i = 0 \<or> i = length entry - 1 then
               Inl (tablesError (''MICROJBASE_TABLES entry '' @ inQuotes entry @
                      '' must be in the form alias=schema.table''))
             else
               (let tableAlias = trim (take i entry); target = trim (drop (Suc i) entry)
                in bindR (parseTableTarget target) (\<lambda>(schema, table).
                   if \<not> aliasPattern tableAlias then
                     Inl (tablesError (''MICROJBASE_TABLES alias '' @ inQuotes tableAlias @
                        '' must match '' @ ALIAS_SOURCE))
                   else Inr \<lparr>mp_alias = tableAlias, mp_schema = schema, mp_table = table\<rparr>))))"

fun configEntries :: "string list \<Rightarrow> string list \<Rightarrow> thrown + ExposedTableMapping list" where
  "configEntries seenAliases [] = Inr []"
| "configEntries seenAliases (entry # rest) =
     bindR (configEntry entry) (\<lambda>m.
       if mp_alias m \<in> set seenAliases then
         Inl (tablesError (''MICROJBASE_TABLES alias '' @ inQuotes (mp_alias m) @
            '' is defined more than once''))
       else bindR (configEntries (mp_alias m # seenAliases) rest) (\<lambda>ms. Inr (m # ms)))"

definition parseTableMappings :: "string option \<Rightarrow> thrown + ExposedTableMapping list" where
  "parseTableMappings raw =
     (case raw of
        None \<Rightarrow> Inr []
      | Some s \<Rightarrow> if trim s = [] then Inr [] else configEntries [] (map trim (splitOn (CHR '','') s)))"

definition parseConfig :: "(string \<Rightarrow> url_parts option) \<Rightarrow> env \<Rightarrow> thrown + AppConfig" where
  "parseConfig parseUrl env =
     bindR (requireEnvString env ''DATABASE_URL'') (\<lambda>databaseUrl.
     (let migrationDatabaseUrl = optionalEnvString env ''MIGRATION_DATABASE_URL'';
          schemaDatabaseUrl = optionalEnvString env ''SCHEMA_DATABASE_URL''
      in
     bindR (parseAdminTokenDigest (optionalEnvString env ''MICROJBASE_ADMIN_TOKEN_SHA256'')) (\<lambda>adminToken.
     bindR (assertSchemaAdminConfigPairing schemaDatabaseUrl adminToken) (\<lambda>_.
     bindR (assertSchemaAdminUrlDistinct parseUrl databaseUrl schemaDatabaseUrl) (\<lambda>_.
     (let host = (case env ''HOST'' of None \<Rightarrow> ''127.0.0.1'' | Some h \<Rightarrow> h)
      in
     bindR (parsePort (env ''PORT'')) (\<lambda>port.
     bindR (parseLogLevel (env ''LOG_LEVEL'')) (\<lambda>logLevel.
     bindR (parsePositiveInt (env ''SESSION_TTL_SECONDS'') 604800 ''SESSION_TTL_SECONDS'') (\<lambda>ttl.
     bindR (parseBoolean (env ''TRUST_PROXY'') False) (\<lambda>trustProxy.
     bindR (parsePositiveInt (env ''MAX_BODY_BYTES'') 1048576 ''MAX_BODY_BYTES'') (\<lambda>maxBodyBytes.
     bindR (parseTableMappings (env ''MICROJBASE_TABLES'')) (\<lambda>tables.
       Inr \<lparr>cfg_databaseUrl = databaseUrl, cfg_migrationDatabaseUrl = migrationDatabaseUrl,
            cfg_schemaDatabaseUrl = schemaDatabaseUrl, cfg_adminTokenSha256 = adminToken,
            cfg_host = host, cfg_port = port, cfg_logLevel = logLevel, cfg_sessionTtlSeconds = ttl,
            cfg_tables = tables, cfg_trustProxy = trustProxy, cfg_maxBodyBytes = maxBodyBytes\<rparr>))))))))))))"

subsection \<open>Facts\<close>

lemma parsePort_range: "parsePort raw = Inr p \<Longrightarrow> 1 \<le> p \<and> p \<le> 65535"
  by (auto simp: parsePort_def intInRange_Some split: if_splits option.splits)

lemma parsePositiveInt_pos: "parsePositiveInt raw d v = Inr n \<Longrightarrow> 1 \<le> d \<Longrightarrow> 1 \<le> n"
  by (auto simp: parsePositiveInt_def le_floor_iff split: if_splits jnum.splits)

lemma parseAdminTokenDigest_Some:
  "parseAdminTokenDigest raw = Inr (Some d) \<Longrightarrow> length d = 64 \<and> list_all isHexLower d"
  by (auto simp: parseAdminTokenDigest_def Let_def split: option.splits if_splits)

lemma assertSchemaAdminConfigPairing_Inr:
  "assertSchemaAdminConfigPairing s a = Inr u \<longleftrightarrow> (s = None \<longleftrightarrow> a = None)"
  by (auto simp: assertSchemaAdminConfigPairing_def)

lemma assertSchemaAdminUrlDistinct_Inr:
  "assertSchemaAdminUrlDistinct pu d s = Inr u \<longleftrightarrow> (\<forall>x. s = Some x \<longrightarrow> \<not> sameSurface pu d x)"
  by (auto simp: assertSchemaAdminUrlDistinct_def split: option.splits)

text \<open>Both copies of the entry parser accept the same entries with the same results.\<close>

lemma configEntry_eq: "configEntry e = Inr m \<longleftrightarrow> parseEntry e = Inr m"
  by (auto simp: configEntry_def parseEntry_def Let_def res_simps split: option.splits if_splits)

lemma configEntries_Inr:
  "configEntries sa es = Inr ms \<longleftrightarrow>
   mapR parseEntry es = Inr ms \<and> distinct (map mp_alias ms) \<and> (\<forall>m\<in>set ms. mp_alias m \<notin> set sa)"
proof (induction es arbitrary: sa ms)
  case (Cons e es)
  have fresh: "(\<forall>x\<in>set ms'. mp_alias x \<notin> set (mp_alias m # sa)) \<longleftrightarrow>
      mp_alias m \<notin> set (map mp_alias ms') \<and> (\<forall>x\<in>set ms'. mp_alias x \<notin> set sa)" for m ms'
    unfolding set_map list.set image_iff by (metis insert_iff)
  have "configEntries sa (e # es) = Inr ms \<longleftrightarrow>
      (\<exists>m ms'. parseEntry e = Inr m \<and> ms = m # ms' \<and> mp_alias m \<notin> set sa \<and>
         configEntries (mp_alias m # sa) es = Inr ms')"
    by (simp add: res_simps configEntry_eq if_distrib) (metis Inl_Inr_False sum.inject(2))
  also have "\<dots> \<longleftrightarrow> mapR parseEntry (e # es) = Inr ms \<and> distinct (map mp_alias ms) \<and>
      (\<forall>m\<in>set ms. mp_alias m \<notin> set sa)"
    unfolding Cons.IH fresh by (auto simp: res_simps)
  finally show ?case .
qed auto

text \<open>
  The registry's parser accepts exactly the lists the configuration accepts and in which no
  target repeats.
\<close>

lemma parseTableMappings_registry:
  "parseMappings raw = Inr ms \<longleftrightarrow> parseTableMappings raw = Inr ms \<and> distinct (map targetKey ms)"
  by (auto simp: parseMappings_def parseTableMappings_def configEntries_Inr
      split: option.splits if_splits dest: parseEntries_Inr intro: parseEntries_complete)

definition configOk :: "(string \<Rightarrow> url_parts option) \<Rightarrow> AppConfig \<Rightarrow> bool" where
  "configOk parseUrl c \<longleftrightarrow>
     trim (cfg_databaseUrl c) \<noteq> [] \<and> 1 \<le> cfg_port c \<and> cfg_port c \<le> 65535 \<and>
     1 \<le> cfg_sessionTtlSeconds c \<and> 1 \<le> cfg_maxBodyBytes c \<and>
     (cfg_schemaDatabaseUrl c = None \<longleftrightarrow> cfg_adminTokenSha256 c = None) \<and>
     (\<forall>d. cfg_adminTokenSha256 c = Some d \<longrightarrow> length d = 64 \<and> list_all isHexLower d) \<and>
     (\<forall>s. cfg_schemaDatabaseUrl c = Some s \<longrightarrow> \<not> sameSurface parseUrl (cfg_databaseUrl c) s) \<and>
     (\<forall>m\<in>set (cfg_tables c). legalMapping m) \<and> distinct (map mp_alias (cfg_tables c))"

lemma parseTableMappings_legal:
  "parseTableMappings raw = Inr ms \<Longrightarrow> (\<forall>m\<in>set ms. legalMapping m) \<and> distinct (map mp_alias ms)"
  by (auto simp: parseTableMappings_def configEntries_Inr split: option.splits if_splits
      dest!: mapR_Inr_set dest: parseEntry_legal)

lemma parseConfig_ok:
  assumes "parseConfig parseUrl env = Inr c"
  shows "configOk parseUrl c"
proof -
  from assms obtain db tok where p:
    "requireEnvString env ''DATABASE_URL'' = Inr (cfg_databaseUrl c)"
    "parseAdminTokenDigest tok = Inr (cfg_adminTokenSha256 c)"
    "assertSchemaAdminConfigPairing (cfg_schemaDatabaseUrl c) (cfg_adminTokenSha256 c) = Inr ()"
    "assertSchemaAdminUrlDistinct parseUrl (cfg_databaseUrl c) (cfg_schemaDatabaseUrl c) = Inr ()"
    "parsePort (env ''PORT'') = Inr (cfg_port c)"
    "parsePositiveInt (env ''SESSION_TTL_SECONDS'') 604800 ''SESSION_TTL_SECONDS'' = Inr (cfg_sessionTtlSeconds c)"
    "parsePositiveInt (env ''MAX_BODY_BYTES'') 1048576 ''MAX_BODY_BYTES'' = Inr (cfg_maxBodyBytes c)"
    "parseTableMappings (env ''MICROJBASE_TABLES'') = Inr (cfg_tables c)"
    by (auto simp: parseConfig_def Let_def res_simps)
  have "trim (cfg_databaseUrl c) \<noteq> []"
    using p(1) by (auto simp: requireEnvString_def blank_def split: if_splits option.splits)
  with p parseTableMappings_legal [OF p(8)] parsePort_range [OF p(5)]
    parsePositiveInt_pos [OF p(6)] parsePositiveInt_pos [OF p(7)]
  show ?thesis
    by (auto simp: configOk_def assertSchemaAdminConfigPairing_Inr assertSchemaAdminUrlDistinct_Inr
        dest: parseAdminTokenDigest_Some)
qed

text \<open>The digest that startup accepts is one the operator-token check can decode.\<close>

lemma configured_digest_decodes:
  "parseAdminTokenDigest raw = Inr (Some d) \<Longrightarrow> \<exists>bs. decodeAdminTokenDigest d = Some bs"
  by (auto simp: decodeAdminTokenDigest_def dest: parseAdminTokenDigest_Some)

section \<open>Properties\<close>

text \<open>A configuration that startup accepts is usable: a database URL, a legal port, positive
  limits, legal table mappings, and an operator lane that is either wholly configured, with a
  decodable digest and a connection surface apart from the data lane's, or wholly off.\<close>
theorem accepted_config_ok:
  assumes "parseConfig parseUrl env = Inr c"
  shows "configOk parseUrl c"
  by (rule parseConfig_ok [OF assms])

theorem accepted_config_ok_witness:
  "\<exists>c. parseConfig (\<lambda>_. None) [''DATABASE_URL'' \<mapsto> ''postgres://db'',
      ''MICROJBASE_TABLES'' \<mapsto> ''notes=app.notes''] = Inr c \<and>
    configOk (\<lambda>_. None) c \<and> cfg_port c = 3000"
proof -
  let ?p = "parseConfig (\<lambda>_. None) [''DATABASE_URL'' \<mapsto> ''postgres://db'',
      ''MICROJBASE_TABLES'' \<mapsto> ''notes=app.notes'']"
  have "case ?p of Inl e \<Rightarrow> False | Inr c \<Rightarrow> cfg_port c = 3000" by code_simp
  then obtain c where c: "?p = Inr c" "cfg_port c = 3000" by (auto split: sum.splits)
  from accepted_config_ok [OF c(1)] c show ?thesis by blast
qed


text \<open>A lifetime the configuration accepts but no session can have.\<close>

lemma accepted_ttl_without_expiry:
  "parsePositiveInt (Some ''9000000000000'') 604800 ''SESSION_TTL_SECONDS'' = Inr 9000000000000 \<and>
   newDate (0 + 9000000000000 * 1000) = None"
proof -
  have d: "digitsVal ''9000000000000'' = 9000000000000" by (simp add: digitsVal_def)
  have "strToNumber ''9000000000000'' = JFin 9000000000000"
    using strToNumber_digits [of "''9000000000000''"] by (simp add: d isDigit_def between_def)
  moreover have "\<not> blank (Some ''9000000000000'')" by code_simp
  ultimately show ?thesis by (simp add: parsePositiveInt_def newDate_def)
qed

end
