(* ===== verification/Lifecycle.thy ===== *)
theory Lifecycle
  imports Prelude
begin

text \<open>
  Graceful shutdown (\<open>src/core/lifecycle.ts\<close>) as a step relation.  The steps are the events
  the process can see: a handled signal, the settling of one closeable, the timer.  Closing is
  \<open>Promise.all\<close>: it succeeds when every closeable has, and fails with the first that fails.
\<close>

datatype closing = Pending | ClosedOk | ClosedBad

record shutdown =
  sd_shuttingDown :: bool
  sd_closeables :: "closing list" \<comment> \<open>the outcome of each closeable, once closing began\<close>
  sd_closeCalls :: nat \<comment> \<open>how often each \<open>close()\<close> was called\<close>
  sd_timer :: bool \<comment> \<open>the timeout is armed\<close>
  sd_exitCode :: "nat option" \<comment> \<open>\<open>process.exitCode\<close>\<close>
  sd_exited :: "nat option" \<comment> \<open>the argument of \<open>process.exit\<close>\<close>
  sd_installed :: bool \<comment> \<open>the handlers are registered\<close>

definition installShutdownHandlers :: "nat \<Rightarrow> shutdown" where
  "installShutdownHandlers n =
     \<lparr>sd_shuttingDown = False, sd_closeables = replicate n Pending, sd_closeCalls = 0,
      sd_timer = False, sd_exitCode = None, sd_exited = None, sd_installed = True\<rparr>"

text \<open>The handler: a second signal is ignored; \<open>Promise.all\<close> of nothing settles at once.\<close>

definition onSignal :: "shutdown \<Rightarrow> shutdown" where
  "onSignal s =
     (if \<not> sd_installed s \<or> sd_shuttingDown s then s
      else s\<lparr>sd_shuttingDown := True, sd_timer := True, sd_closeCalls := Suc (sd_closeCalls s)\<rparr>)"

text \<open>The continuations of \<open>Promise.all\<close>: they run once, when it settles.\<close>

definition settleAll :: "shutdown \<Rightarrow> shutdown" where
  "settleAll s =
     (if sd_exitCode s \<noteq> None then s
      else if ClosedBad \<in> set (sd_closeables s) then s\<lparr>sd_timer := False, sd_exitCode := Some 1\<rparr>
      else if Pending \<in> set (sd_closeables s) then s
      else s\<lparr>sd_timer := False, sd_exitCode := Some 0\<rparr>)"

definition onSettle :: "nat \<Rightarrow> closing \<Rightarrow> shutdown \<Rightarrow> shutdown" where
  "onSettle i c s = settleAll (s\<lparr>sd_closeables := (sd_closeables s)[i := c]\<rparr>)"

definition onTimer :: "shutdown \<Rightarrow> shutdown" where
  "onTimer s = s\<lparr>sd_timer := False, sd_exited := Some 1\<rparr>"

definition uninstall :: "shutdown \<Rightarrow> shutdown" where
  "uninstall s = s\<lparr>sd_installed := False\<rparr>"

inductive shutdownStep :: "shutdown \<Rightarrow> shutdown \<Rightarrow> bool" where
  step_signal: "sd_exited s = None \<Longrightarrow> shutdownStep s (onSignal s)"
| step_settle: "sd_exited s = None \<Longrightarrow> sd_shuttingDown s \<Longrightarrow> i < length (sd_closeables s) \<Longrightarrow>
    sd_closeables s ! i = Pending \<Longrightarrow> c \<noteq> Pending \<Longrightarrow> shutdownStep s (onSettle i c s)"
| step_empty: "sd_exited s = None \<Longrightarrow> sd_shuttingDown s \<Longrightarrow> sd_closeables s = [] \<Longrightarrow>
    shutdownStep s (settleAll s)"
| step_timer: "sd_exited s = None \<Longrightarrow> sd_timer s \<Longrightarrow> shutdownStep s (onTimer s)"
| step_uninstall: "sd_exited s = None \<Longrightarrow> shutdownStep s (uninstall s)"

inductive_cases shutdownStepE: "shutdownStep s t"

abbreviation shutdownReach :: "nat \<Rightarrow> shutdown \<Rightarrow> bool" where
  "shutdownReach n s \<equiv> shutdownStep\<^sup>*\<^sup>* (installShutdownHandlers n) s"

text \<open>
  The invariant: nothing is closed twice; the exit code agrees with how closing ended; the
  timer runs exactly while closing is undecided.
\<close>

definition shutdownInv :: "nat \<Rightarrow> shutdown \<Rightarrow> bool" where
  "shutdownInv n s \<longleftrightarrow>
     length (sd_closeables s) = n \<and>
     sd_closeCalls s = (if sd_shuttingDown s then 1 else 0) \<and>
     (\<not> sd_shuttingDown s \<longrightarrow> set (sd_closeables s) \<subseteq> {Pending} \<and> sd_exitCode s = None) \<and>
     (sd_exitCode s = Some 0 \<longrightarrow> set (sd_closeables s) \<subseteq> {ClosedOk}) \<and>
     (sd_exitCode s \<noteq> None \<and> sd_exitCode s \<noteq> Some 0 \<longrightarrow>
        sd_exitCode s = Some 1 \<and> ClosedBad \<in> set (sd_closeables s)) \<and>
     (sd_timer s \<longleftrightarrow> sd_shuttingDown s \<and> sd_exitCode s = None \<and> sd_exited s = None) \<and>
     (sd_exited s \<noteq> None \<longrightarrow> sd_exited s = Some 1 \<and> sd_exitCode s = None)"

lemma closing_cases: "c \<noteq> Pending \<Longrightarrow> c = ClosedOk \<or> c = ClosedBad"
  by (cases c) auto

lemma shutdownInv_settleAll:
  assumes "length (sd_closeables s) = n" "sd_closeCalls s = 1" "sd_shuttingDown s"
    and "sd_exited s = None" "sd_timer s \<longleftrightarrow> sd_exitCode s = None"
    and "sd_exitCode s = Some 0 \<longrightarrow> set (sd_closeables s) \<subseteq> {ClosedOk}"
    and "sd_exitCode s \<noteq> None \<and> sd_exitCode s \<noteq> Some 0 \<longrightarrow>
        sd_exitCode s = Some 1 \<and> ClosedBad \<in> set (sd_closeables s)"
  shows "shutdownInv n (settleAll s)"
proof -
  have "c \<in> {ClosedOk}" if "c \<in> set (sd_closeables s)" "ClosedBad \<notin> set (sd_closeables s)"
    "Pending \<notin> set (sd_closeables s)" for c
    using that closing_cases [of c] by (metis singletonI)
  then show ?thesis
    using assms by (auto simp: shutdownInv_def settleAll_def)
qed

lemma shutdownInv_step:
  assumes "shutdownStep s t" and "shutdownInv n s"
  shows "shutdownInv n t"
  using assms(1)
proof cases
  case step_signal
  with assms(2) show ?thesis by (auto simp: shutdownInv_def onSignal_def)
next
  case (step_settle i c)
  have keep: "ClosedBad \<in> set ((sd_closeables s)[i := c])" if bad: "ClosedBad \<in> set (sd_closeables s)"
  proof -
    from bad obtain j where j: "j < length (sd_closeables s)" "sd_closeables s ! j = ClosedBad"
      by (auto simp: in_set_conv_nth)
    then have "i \<noteq> j" using step_settle(5) by auto
    then have "(sd_closeables s)[i := c] ! j = ClosedBad" using j(2) by simp
    with j show ?thesis by (metis length_list_update nth_mem)
  qed
  have "sd_exitCode s \<noteq> Some 0"
    using assms(2) step_settle by (auto simp: shutdownInv_def dest: nth_mem)
  with assms(2) step_settle keep show ?thesis
    unfolding step_settle(1) onSettle_def
    by (intro shutdownInv_settleAll) (auto simp: shutdownInv_def)
next
  case step_empty
  with assms(2) show ?thesis
    unfolding step_empty(1) by (intro shutdownInv_settleAll) (auto simp: shutdownInv_def)
next
  case step_timer
  with assms(2) show ?thesis by (auto simp: shutdownInv_def onTimer_def)
next
  case step_uninstall
  with assms(2) show ?thesis by (auto simp: shutdownInv_def uninstall_def)
qed

lemma shutdownReach_inv: "shutdownReach n s \<Longrightarrow> shutdownInv n s"
proof (induction rule: rtranclp_induct)
  case base
  then show ?case by (auto simp: shutdownInv_def installShutdownHandlers_def)
next
  case (step s t)
  then show ?case using shutdownInv_step by blast
qed

section \<open>Properties\<close>

text \<open>Whatever the order of signals, settling closeables and the timer, every closeable is closed at
  most once, the exit code is 0 only after all of them closed without an error, a failure is always
  reported as 1, and the forced exit happens only while closing is undecided.\<close>
theorem shutdown_is_orderly:
  assumes "shutdownReach n s"
  shows "sd_closeCalls s \<le> 1 \<and>
    (sd_exitCode s = Some 0 \<longrightarrow> set (sd_closeables s) \<subseteq> {ClosedOk} \<and> length (sd_closeables s) = n) \<and>
    (ClosedBad \<in> set (sd_closeables s) \<longrightarrow> sd_exitCode s \<noteq> Some 0) \<and>
    (sd_exited s \<noteq> None \<longrightarrow> sd_exited s = Some 1 \<and> sd_exitCode s = None) \<and>
    (sd_timer s \<longleftrightarrow> sd_shuttingDown s \<and> sd_exitCode s = None \<and> sd_exited s = None)"
  using shutdownReach_inv [OF assms] by (auto simp: shutdownInv_def)

theorem shutdown_is_orderly_witness:
  "sd_closeCalls (onSettle 0 ClosedOk (onSignal (onSignal (installShutdownHandlers 1)))) \<le> 1"
proof -
  let ?a = "installShutdownHandlers 1"
  have e: "sd_exited ?a = None" "sd_exited (onSignal ?a) = None" "sd_exited (onSignal (onSignal ?a)) = None"
    "sd_shuttingDown (onSignal (onSignal ?a))" "sd_closeables (onSignal (onSignal ?a)) = [Pending]"
    by (simp_all add: installShutdownHandlers_def onSignal_def)
  have "shutdownReach 1 (onSettle 0 ClosedOk (onSignal (onSignal ?a)))"
    by (rule rtranclp.rtrancl_into_rtrancl [OF rtranclp.rtrancl_into_rtrancl [OF r_into_rtranclp]],
        rule step_signal, rule e, rule step_signal, rule e, rule step_settle) (use e in simp_all)
  from shutdown_is_orderly [OF this] show ?thesis by blast
qed

end
