(* ===== verification/NumberText.thy ===== *)
theory NumberText
  imports Numbers
begin

text \<open>
  \<open>String(n)\<close> of a finite number (ECMAScript \<open>Number::toString\<close>, radix 10): the shortest decimal that
  reads back as the same double, the closest one among the shortest, in plain notation between
  \<open>10 ^ -7\<close> and \<open>10 ^ 21\<close> and with an exponent outside.
\<close>

definition pow10 :: "int \<Rightarrow> rat" where
  "pow10 e = (if 0 \<le> e then 10 ^ nat e else 1 / 10 ^ nat (- e))"

text \<open>The decimal exponent of a positive number: \<open>10 ^ (e - 1) \<le> q < 10 ^ e\<close>.\<close>

definition decExp :: "rat \<Rightarrow> int" where
  "decExp q =
     (if 1 \<le> q then int (length (natStr (nat \<lfloor>q\<rfloor>)))
      else 1 - int (length (natStr (nat \<lceil>1 / q\<rceil> - 1))))"

text \<open>The decimals \<open>s * 10 ^ p\<close> next to \<open>q\<close>, the closer one first, on a tie the even one.\<close>

definition neighbours :: "rat \<Rightarrow> int \<Rightarrow> nat list" where
  "neighbours q p =
     (let x = q / pow10 p; f = nat \<lfloor>x\<rfloor>; r = x - of_nat f
      in if r < 1 / 2 \<or> r = 1 / 2 \<and> even f then [f, Suc f] else [Suc f, f])"

definition readsAs :: "rat \<Rightarrow> int \<Rightarrow> nat \<Rightarrow> bool" where
  "readsAs q p s \<longleftrightarrow> roundDouble (of_nat s * pow10 p) = JFin q"

fun shortestFrom :: "nat \<Rightarrow> int \<Rightarrow> rat \<Rightarrow> (nat \<times> int) option" where
  "shortestFrom 0 p q = None"
| "shortestFrom (Suc n) p q =
     (case find (readsAs q p) (neighbours q p) of
        Some s \<Rightarrow> Some (s, p)
      | None \<Rightarrow> shortestFrom n (p - 1) q)"

text \<open>
  The exponents tried go from that of the leading digit down to \<open>- 1100\<close>, below which every double
  is an exact decimal; the search ends by the seventeenth digit.
\<close>

definition shortestDecimal :: "rat \<Rightarrow> (nat \<times> int) option" where
  "shortestDecimal q = shortestFrom (nat (decExp q + 1100)) (decExp q - 1) q"

definition stripZeros :: "string \<Rightarrow> string" where
  "stripZeros s = rev (dropWhile (\<lambda>c. c = CHR ''0'') (rev s))"

definition zeros :: "int \<Rightarrow> string" where
  "zeros n = replicate (nat n) (CHR ''0'')"

text \<open>The layout of digits \<open>ds\<close> with the decimal point after \<open>n\<close> of them.\<close>

definition layoutNumber :: "string \<Rightarrow> int \<Rightarrow> string" where
  "layoutNumber ds n =
     (let k = int (length ds)
      in if k \<le> n \<and> n \<le> 21 then ds @ zeros (n - k)
         else if 0 < n \<and> n \<le> 21 then take (nat n) ds @ ''.'' @ drop (nat n) ds
         else if - 6 < n \<and> n \<le> 0 then ''0.'' @ zeros (- n) @ ds
         else
           (let e = n - 1;
                ex = (if 0 \<le> e then CHR ''+'' # natStr (nat e) else CHR ''-'' # natStr (nat (- e)))
            in take 1 ds @ (if k = 1 then [] else CHR ''.'' # drop 1 ds) @ CHR ''e'' # ex))"

definition posNumStr :: "rat \<Rightarrow> string" where
  "posNumStr q =
     (case shortestDecimal q of
        Some (s, p) \<Rightarrow> layoutNumber (stripZeros (natStr s)) (p + int (length (natStr s)))
      | None \<Rightarrow> [])"

definition numStr :: "rat \<Rightarrow> string" where
  "numStr q =
     (if q = 0 then ''0'' else if q < 0 then CHR ''-'' # posNumStr (- q) else posNumStr q)"

subsection \<open>The text reads back as the same number\<close>

lemma pow10_pos [simp]: "0 < pow10 e" "pow10 e \<noteq> 0"
  by (simp_all add: pow10_def)

lemma pow10_add: "pow10 (a + b) = pow10 a * pow10 b"
proof -
  have "pow10 e = 10 powi e" for e
    by (simp add: pow10_def power_int_def inverse_eq_divide power_one_over)
  then show ?thesis by (simp add: power_int_add)
qed

lemma pow10_nat [simp]: "pow10 (int n) = 10 ^ n"
  by (simp add: pow10_def)

lemma pow10_neg: "pow10 (- int n) = 1 / 10 ^ n"
  by (simp add: pow10_def)

lemma shortestFrom_reads: "shortestFrom n p q = Some (s, p') \<Longrightarrow> readsAs q p' s"
  by (induction n p q rule: shortestFrom.induct) (auto split: option.splits simp: find_Some_iff)

lemma exact_neighbour:
  assumes "roundDouble q = JFin q" and "q / pow10 p = of_nat m"
  shows "find (readsAs q p) (neighbours q p) \<noteq> None"
proof -
  have "of_nat m * pow10 p = q" using assms(2) by (simp add: field_simps)
  then have "readsAs q p m" using assms(1) by (simp add: readsAs_def)
  moreover have "m \<in> set (neighbours q p)" by (simp add: neighbours_def assms(2) Let_def)
  ultimately show ?thesis by (auto simp: find_None_iff)
qed

lemma shortestFrom_found:
  assumes "roundDouble q = JFin q"
  shows "j < n \<Longrightarrow> q / pow10 (p - int j) = of_nat m \<Longrightarrow> shortestFrom n p q \<noteq> None"
proof (induction n arbitrary: p j)
  case (Suc n)
  show ?case
  proof (cases j)
    case 0
    with Suc.prems exact_neighbour [OF assms, of p m] show ?thesis by (auto split: option.split)
  next
    case (Suc i)
    with Suc.prems have "i < n" "q / pow10 (p - 1 - int i) = of_nat m"
      by (simp_all add: algebra_simps)
    from Suc.IH [OF this] show ?thesis by (auto split: option.split)
  qed
qed simp

text \<open>A positive double is a multiple of \<open>2 ^ -1074\<close>, hence of \<open>10 ^ -1100\<close>.\<close>

lemma pow2_scaled: "- int N \<le> p \<Longrightarrow> \<exists>k::nat. pow2 p * 2 ^ N = of_nat k"
proof (cases "0 \<le> p")
  case True
  then show ?thesis by (intro exI [where x = "2 ^ nat p * 2 ^ N"]) (simp add: pow2_def)
next
  case False
  assume "- int N \<le> p"
  with False have "(2::rat) ^ N = 2 ^ nat (- p) * 2 ^ (N - nat (- p))"
    by (simp only: power_add [symmetric]) simp
  with False show ?thesis
    by (intro exI [where x = "2 ^ (N - nat (- p))"]) (simp add: pow2_def)
qed

lemma double_scaled:
  assumes "roundDouble q = JFin q" and "0 < q"
  obtains N m :: nat where "N = 1074" and "q * 2 ^ N = of_nat m" and "0 < m"
proof -
  obtain N :: nat where N: "N = 1074" by blast
  define p where "p = max (binExp \<bar>q\<bar> - 52) (- 1074)"
  define i where "i = roundHalfEven (\<bar>q\<bar> / pow2 p)"
  from assms have q: "q = of_int i * pow2 p"
    by (auto simp: roundDouble_def Let_def p_def i_def split: if_splits)
  have "0 < pow2 p" by (simp add: pow2_def)
  with q assms(2) have i: "0 < i" by (simp add: zero_less_mult_iff)
  obtain k :: nat where k: "pow2 p * 2 ^ N = of_nat k"
    using pow2_scaled [of N p] by (auto simp: p_def N)
  with q i have m: "q * 2 ^ N = of_nat (nat i * k)" by (simp add: mult.assoc)
  have "0 < q * 2 ^ N" using assms(2) by simp
  then have "0 < nat i * k" unfolding m by (simp only: of_nat_0_less_iff)
  with N m show ?thesis by (rule that)
qed

lemma length_natStr: "n < 10 ^ k \<Longrightarrow> 0 < k \<Longrightarrow> length (natStr n) \<le> k"
proof (induction n arbitrary: k rule: natStr.induct)
  case (1 n)
  show ?case
  proof (cases "n < 10")
    case True
    with 1(3) show ?thesis by (simp add: natStr.simps [of n])
  next
    case False
    with 1(2,3) obtain j where k: "k = Suc j" "0 < j" by (cases k; cases "k - 1") auto
    with 1(2) have "n div 10 < 10 ^ j" by (simp add: less_mult_imp_div_less mult.commute)
    from 1(1) [OF False this k(2)] show ?thesis using False k(1) by (simp add: natStr.simps [of n])
  qed
qed

lemma decExp_lower:
  assumes "q * 2 ^ N = of_nat m" and "0 < m" and "0 < q" and "0 < N"
  shows "1 - int N \<le> decExp q"
proof (cases "1 \<le> q")
  case True
  then show ?thesis using assms(4) by (simp add: decExp_def)
next
  case False
  have "1 \<le> q * 2 ^ N" using assms(1,2) by simp
  then have "1 / q \<le> 2 ^ N" using assms(3) by (simp add: field_simps)
  also have "\<dots> \<le> (10::rat) ^ N" by (rule power_mono) auto
  finally have "\<lceil>1 / q\<rceil> \<le> 10 ^ N" by (simp add: ceiling_le_iff)
  then have "nat \<lceil>1 / q\<rceil> \<le> 10 ^ N" by (simp add: nat_le_iff)
  then have "nat \<lceil>1 / q\<rceil> - 1 < 10 ^ N" using zero_less_power [of "10::nat" N] by linarith
  from length_natStr [OF this assms(4)] False show ?thesis by (simp add: decExp_def)
qed

lemma shortestDecimal_reads:
  assumes "roundDouble q = JFin q" and "0 < q"
  shows "\<exists>s p. shortestDecimal q = Some (s, p) \<and> readsAs q p s"
proof -
  obtain N m where N: "N = 1074" and m: "q * 2 ^ N = of_nat m" "0 < m"
    using double_scaled [OF assms] .
  have d: "1 - int N \<le> decExp q" using decExp_lower [OF m assms(2)] N by simp
  define j where "j = nat (decExp q + 1099)"
  have j: "j < nat (decExp q + 1100)" "decExp q - 1 - int j = - int (N + 26)"
    using d by (auto simp: j_def N)
  have "q / pow10 (- int (N + 26)) = q * 10 ^ (N + 26)" by (simp only: pow10_neg) simp
  also have "\<dots> = q * 2 ^ N * (5 ^ N * 10 ^ 26)"
    unfolding power_add by (simp add: power_mult_distrib [symmetric])
  also have "\<dots> = of_nat (m * (5 ^ N * 10 ^ 26))" by (simp add: m)
  finally have "q / pow10 (decExp q - 1 - int j) = of_nat (m * (5 ^ N * 10 ^ 26))" by (simp only: j)
  from shortestFrom_found [OF assms(1) j(1) this]
  obtain s p where "shortestDecimal q = Some (s, p)" by (auto simp: shortestDecimal_def)
  with shortestFrom_reads show ?thesis unfolding shortestDecimal_def by blast
qed

text \<open>Digit strings.\<close>

lemma foldl_digits:
  "foldl (\<lambda>a c. 10 * a + (ccode c - 48)) b s = b * 10 ^ length s + digitsVal s"
proof (induction s arbitrary: b)
  case (Cons c s)
  show ?case
    unfolding foldl_Cons Cons.IH digitsVal_def [of "c # s"] Cons.IH [of "10 * 0 + (ccode c - 48)"]
    by (simp add: algebra_simps)
qed (simp add: digitsVal_def)

lemma digitsVal_append: "digitsVal (s @ t) = digitsVal s * 10 ^ length t + digitsVal t"
  unfolding digitsVal_def [of "s @ t"] foldl_append foldl_digits [of _ t]
  by (simp add: digitsVal_def)

lemma digitsVal_zeros [simp]: "digitsVal (replicate n (CHR ''0'')) = 0"
  by (induction n) (simp_all add: digitsVal_def)

lemma digitsVal_zero_Cons [simp]: "digitsVal (CHR ''0'' # s) = digitsVal s"
  by (simp add: digitsVal_def)

lemma digitsVal_Nil [simp]: "digitsVal [] = 0"
  by (simp add: digitsVal_def)

lemma digit0 [simp]: "isDigit (CHR ''0'')"
  by (simp add: char_class_defs)

lemma takeWhile_prefix:
  "list_all isDigit s \<Longrightarrow> takeWhile isDigit (s @ t) = s @ takeWhile isDigit t"
  "list_all isDigit s \<Longrightarrow> dropWhile isDigit (s @ t) = dropWhile isDigit t"
  by (induction s) auto

lemma not_digits [simp]: "\<not> isDigit (CHR ''.'')" "\<not> isDigit (CHR ''e'')"
  by (simp_all add: char_class_defs)

text \<open>The value of a decimal with a point and an optional exponent.\<close>

lemma decimalVal_point:
  assumes "list_all isDigit ip" and "list_all isDigit fp" and "ip \<noteq> []"
    and "rest = [] \<or> (\<exists>t. rest = CHR ''e'' # t)" and "expPart rest = Some e"
  shows "decimalVal (ip @ CHR ''.'' # fp @ rest) =
    Some (of_nat (digitsVal (ip @ fp)) * pow10 (e - int (length fp)))"
proof -
  have r: "takeWhile isDigit rest = []" "dropWhile isDigit rest = rest" using assms(4) by auto
  show ?thesis
    unfolding decimalVal_def Let_def takeWhile_prefix [OF assms(1)]
    using assms(3,5)
    by (simp add: takeWhile_prefix [OF assms(2)] r pow10_def)
qed

lemma decimalVal_plain:
  assumes "list_all isDigit ip" and "ip \<noteq> []"
    and "rest = [] \<or> (\<exists>t. rest = CHR ''e'' # t)" and "expPart rest = Some e"
  shows "decimalVal (ip @ rest) = Some (of_nat (digitsVal ip) * pow10 e)"
proof -
  have r: "takeWhile isDigit rest = []" "dropWhile isDigit rest = rest" using assms(3) by auto
  show ?thesis
    unfolding decimalVal_def Let_def takeWhile_prefix [OF assms(1)] r
    using assms(2,3,4) by (auto simp: pow10_def split: if_splits)
qed

lemma expPart_Nil [simp]: "expPart [] = Some 0"
  by (simp add: expPart_def)

lemma expPart_signed:
  "expPart (CHR ''e'' # CHR ''+'' # natStr n) = Some (int n)"
  "expPart (CHR ''e'' # CHR ''-'' # natStr n) = Some (- int n)"
  using natStr_digits [of n] by (auto simp: expPart_def list_all_iff)

lemma layout_value:
  assumes d: "list_all isDigit ds" "ds \<noteq> []"
  shows "decimalVal (layoutNumber ds n) = Some (of_nat (digitsVal ds) * pow10 (n - int (length ds)))"
proof -
  define k where "k = int (length ds)"
  consider (int) "k \<le> n" "n \<le> 21" | (mid) "\<not> k \<le> n" "0 < n" "n \<le> 21"
    | (small) "\<not> k \<le> n" "- 6 < n" "n \<le> 0" | (exp) "n \<le> - 6 \<or> 21 < n"
    by linarith
  then show ?thesis
  proof cases
    case int
    then have l: "layoutNumber ds n = (ds @ zeros (n - k)) @ []" by (simp add: layoutNumber_def k_def)
    have "list_all isDigit (ds @ zeros (n - k))" using d by (auto simp: zeros_def list_all_iff)
    from decimalVal_plain [OF this, of "[]" 0] d int show ?thesis
      unfolding l by (simp add: digitsVal_append zeros_def k_def pow10_def)
  next
    case mid
    then have l: "layoutNumber ds n = take (nat n) ds @ CHR ''.'' # drop (nat n) ds @ []"
      by (simp add: layoutNumber_def k_def)
    have a: "list_all isDigit (take (nat n) ds)" "list_all isDigit (drop (nat n) ds)" "take (nat n) ds \<noteq> []"
      using d mid by (auto simp: list_all_iff dest: in_set_takeD in_set_dropD)
    from decimalVal_point [OF a, of "[]" 0] mid show ?thesis unfolding l by (simp add: k_def)
  next
    case small
    then have l: "layoutNumber ds n = ''0'' @ CHR ''.'' # (zeros (- n) @ ds) @ []"
      by (simp add: layoutNumber_def k_def)
    have a: "list_all isDigit ''0''" "list_all isDigit (zeros (- n) @ ds)" "''0'' \<noteq> ([]::string)"
      using d by (auto simp: zeros_def list_all_iff)
    have "digitsVal (''0'' @ zeros (- n) @ ds) = digitsVal ds"
      by (simp add: zeros_def digitsVal_append)
    with decimalVal_point [OF a, of "[]" 0] small show ?thesis
      unfolding l by (simp add: k_def zeros_def)
  next
    case exp
    define ex where "ex = (if 0 \<le> n - 1 then CHR ''+'' # natStr (nat (n - 1))
                           else CHR ''-'' # natStr (nat (- (n - 1))))"
    have e: "expPart (CHR ''e'' # ex) = Some (n - 1)" by (auto simp: ex_def expPart_signed)
    from exp d have l: "layoutNumber ds n =
        take 1 ds @ (if k = 1 then [] else CHR ''.'' # drop 1 ds) @ CHR ''e'' # ex"
      by (auto simp: layoutNumber_def k_def ex_def Let_def)
    have a: "list_all isDigit (take 1 ds)" "list_all isDigit (drop 1 ds)" "take 1 ds \<noteq> []"
      using d by (auto simp: list_all_iff dest: in_set_takeD in_set_dropD)
    show ?thesis
    proof (cases "k = 1")
      case True
      then have "take 1 ds = ds" by (simp add: k_def)
      with True decimalVal_plain [OF a(1,3), of "CHR ''e'' # ex"] e show ?thesis
        unfolding l by (simp add: k_def)
    next
      case False
      have "int (length (drop 1 ds)) = k - 1" using d by (simp add: k_def of_nat_diff Suc_leI)
      with False decimalVal_point [OF a, of "CHR ''e'' # ex"] e show ?thesis
        unfolding l by (simp add: k_def)
    qed
  qed
qed

text \<open>The characters of a rendered number.\<close>

definition numChar :: "char \<Rightarrow> bool" where
  "numChar c \<longleftrightarrow> isDigit c \<or> c = CHR ''.'' \<or> c = CHR ''e'' \<or> c = CHR ''+'' \<or> c = CHR ''-''"

lemma layout_chars:
  assumes "list_all isDigit ds" and "ds \<noteq> []"
  shows "list_all numChar (layoutNumber ds n)" and "layoutNumber ds n \<noteq> []"
    and "isDigit (hd (layoutNumber ds n))"
proof -
  have t: "list_all numChar (take i ds)" "list_all numChar (drop i ds)" for i
    using assms by (auto simp: list_all_iff numChar_def dest: in_set_takeD in_set_dropD)
  have z: "list_all numChar (zeros i)" for i by (auto simp: zeros_def list_all_iff numChar_def)
  have nt: "list_all numChar (natStr i)" for i using natStr_digits [of i] by (auto simp: list_all_iff numChar_def)
  have ds: "list_all numChar ds" using t(1) [of "length ds"] by simp
  show "list_all numChar (layoutNumber ds n)"
    by (simp add: layoutNumber_def Let_def t z nt ds) (simp add: numChar_def)
  show "layoutNumber ds n \<noteq> []" using assms by (auto simp: layoutNumber_def Let_def)
  obtain d es where d: "ds = d # es" using assms(2) by (cases ds) auto
  with assms(1) show "isDigit (hd (layoutNumber ds n))"
    by (auto simp: layoutNumber_def Let_def take_Cons' hd_append)
qed

lemma stripZeros_append: "\<exists>z. s = stripZeros s @ replicate z (CHR ''0'')"
proof -
  let ?p = "\<lambda>c. c = CHR ''0''"
  have "rev s = takeWhile ?p (rev s) @ dropWhile ?p (rev s)" by simp
  then have "s = stripZeros s @ rev (takeWhile ?p (rev s))"
    unfolding stripZeros_def by (metis rev_append rev_rev_ident)
  moreover have "takeWhile ?p (rev s) = replicate (length (takeWhile ?p (rev s))) (CHR ''0'')"
    by (rule replicate_length_same [symmetric]) (auto dest: set_takeWhileD)
  ultimately show ?thesis by (metis rev_replicate)
qed

lemma trim_no_white: "list_all (\<lambda>c. \<not> isWhite c) s \<Longrightarrow> trim s = s"
  unfolding trim_def by (rule trimBy_id) (auto simp: list_all_iff)

lemma numChar_props:
  "numChar c \<Longrightarrow> \<not> isWhite c \<and> c \<noteq> CHR ''x'' \<and> c \<noteq> CHR ''X'' \<and> c \<noteq> CHR ''o'' \<and> c \<noteq> CHR ''O'' \<and>
   c \<noteq> CHR ''b'' \<and> c \<noteq> CHR ''B'' \<and> c \<noteq> CHR ''I''"
  by (auto simp: numChar_def char_class_defs)

lemma strToNumber_unsigned:
  assumes "list_all numChar s" and "s \<noteq> []" and "isDigit (hd s)"
  shows "strToNumber s = unsignedNumber s" and "strToNumber (CHR ''-'' # s) = negNum (unsignedNumber s)"
proof -
  obtain c cs where s: "s = c # cs" using assms(2) by (cases s) auto
  have w: "list_all (\<lambda>c. \<not> isWhite c) s" using assms(1) numChar_props by (auto simp: list_all_iff)
  then have w': "list_all (\<lambda>c. \<not> isWhite c) (CHR ''-'' # s)" by (simp add: char_class_defs)
  have h: "\<not> (cs \<noteq> [] \<and> (hd cs = x \<or> hd cs = y))" if "\<not> numChar x" "\<not> numChar y" for x y
    using assms(1) s that by (cases cs) auto
  have nh: "\<not> numChar (CHR ''x'')" "\<not> numChar (CHR ''X'')" "\<not> numChar (CHR ''o'')"
    "\<not> numChar (CHR ''O'')" "\<not> numChar (CHR ''b'')" "\<not> numChar (CHR ''B'')"
    by (simp_all add: numChar_def char_class_defs)
  have c: "c \<noteq> CHR ''-''" "c \<noteq> CHR ''+''" using assms(3) isDigit_props [of c] s by auto
  have "strToNumber (c # cs) = unsignedNumber (c # cs)"
    unfolding strToNumber_def Let_def trim_no_white [OF w, unfolded s]
    by (simp only: list.case h [OF nh(1,2)] h [OF nh(3,4)] h [OF nh(5,6)] c if_False simp_thms)
  then show "strToNumber s = unsignedNumber s" by (simp only: s)
  show "strToNumber (CHR ''-'' # s) = negNum (unsignedNumber s)"
    unfolding strToNumber_def Let_def trim_no_white [OF w'] by simp
qed

lemma posNumStr_layout:
  assumes "roundDouble q = JFin q" and "0 < q"
  obtains ds n where "posNumStr q = layoutNumber ds n" and "list_all isDigit ds" and "ds \<noteq> []"
    and "roundDouble (of_nat (digitsVal ds) * pow10 (n - int (length ds))) = JFin q"
proof -
  obtain s p where sp: "shortestDecimal q = Some (s, p)" and r: "readsAs q p s"
    using shortestDecimal_reads [OF assms] by blast
  define ds where "ds = stripZeros (natStr s)"
  obtain z where z: "natStr s = ds @ replicate z (CHR ''0'')"
    using stripZeros_append [of "natStr s"] unfolding ds_def by blast
  have s: "s = digitsVal ds * 10 ^ z"
    using digitsVal_natStr [of s] unfolding z by (simp add: digitsVal_append)
  have "s \<noteq> 0"
  proof
    assume "s = 0"
    with r have "JFin 0 = JFin q" by (simp add: readsAs_def roundDouble_def)
    with assms(2) show False by simp
  qed
  with s have ne: "ds \<noteq> []" by auto
  have dg: "list_all isDigit ds" using natStr_digits [of s] unfolding z by (auto simp: list_all_iff)
  have l: "posNumStr q = layoutNumber ds (p + int (length (natStr s)))"
    by (simp add: posNumStr_def sp ds_def)
  have e: "p + int (length (natStr s)) - int (length ds) = int z + p" by (simp add: z)
  have v: "of_nat (digitsVal ds) * (10 ^ z * pow10 p) = of_nat s * pow10 p" by (subst s) simp
  have "roundDouble (of_nat (digitsVal ds) * pow10 (p + int (length (natStr s)) - int (length ds))) = JFin q"
    unfolding e pow10_add pow10_nat v using r by (simp add: readsAs_def)
  with that [OF l dg ne] show thesis by blast
qed

lemma posNumStr_reads:
  assumes "roundDouble q = JFin q" and "0 < q"
  shows "list_all numChar (posNumStr q)" and "posNumStr q \<noteq> []" and "isDigit (hd (posNumStr q))"
    and "\<exists>v. decimalVal (posNumStr q) = Some v \<and> roundDouble v = JFin q"
proof -
  obtain ds n where l: "posNumStr q = layoutNumber ds n" and d: "list_all isDigit ds" "ds \<noteq> []"
    and v: "roundDouble (of_nat (digitsVal ds) * pow10 (n - int (length ds))) = JFin q"
    using posNumStr_layout [OF assms] .
  show "list_all numChar (posNumStr q)" "posNumStr q \<noteq> []" "isDigit (hd (posNumStr q))"
    unfolding l by (rule layout_chars [OF d])+
  show "\<exists>v. decimalVal (posNumStr q) = Some v \<and> roundDouble v = JFin q"
    unfolding l layout_value [OF d] using v by blast
qed

text \<open>\<open>Number(String(n)) === n\<close> for every finite double.\<close>

lemma roundDouble_minus: "roundDouble x = JFin y \<Longrightarrow> roundDouble (- x) = JFin (- y)"
  by (auto simp: roundDouble_def Let_def sgn_minus split: if_splits)

lemma strToNumber_numStr:
  assumes "roundDouble q = JFin q"
  shows "strToNumber (numStr q) = JFin q"
proof -
  have pos: "unsignedNumber (posNumStr x) = JFin x" if x: "roundDouble x = JFin x" "0 < x" for x
  proof -
    have "posNumStr x \<noteq> ''Infinity''" using posNumStr_reads(3) [OF x] by (auto simp: char_class_defs)
    with posNumStr_reads(4) [OF x] show ?thesis by (auto simp: unsignedNumber_def)
  qed
  consider "q = 0" | "q < 0" | "0 < q" by linarith
  then show ?thesis
  proof cases
    case 1
    then show ?thesis by (simp add: numStr_def strToNumber_def trim_def trimBy_def char_class_defs
          unsignedNumber_def decimalVal_digits list_all_iff digitsVal_def roundDouble_def)
  next
    case 2
    have "roundDouble (- q) = JFin (- q)" using assms 2 by (auto simp: roundDouble_def Let_def split: if_splits)
    with 2 pos [of "- q"] posNumStr_reads(1-3) [of "- q"] show ?thesis
      by (simp add: numStr_def strToNumber_unsigned)
  next
    case 3
    with pos [of q] posNumStr_reads(1-3) [of q] assms show ?thesis
      by (simp add: numStr_def strToNumber_unsigned)
  qed
qed

lemma numStr_inject:
  "roundDouble q = JFin q \<Longrightarrow> roundDouble r = JFin r \<Longrightarrow> numStr q = numStr r \<Longrightarrow> q = r"
  using strToNumber_numStr by (metis jnum.inject(1))

end
