(* ===== verification/JsonText.thy ===== *)
theory JsonText
  imports NumberText TableTypes "HOL-Library.Char_ord" "HOL-Library.List_Lexorder"
begin

text \<open>
  \<open>JSON.stringify\<close> on JSON values, and the canonical form of \<open>src/database/schema-operation-log.ts\<close>:
  object members sorted by key, no white space.  Array holes print as \<open>null\<close> in the first and as
  nothing in the second; JSON values of the program have none.
\<close>

abbreviation backslash :: char where "backslash \<equiv> CHR 0x5C"

definition hexDigit :: "nat \<Rightarrow> char" where
  "hexDigit n = (if n < 10 then char_of (48 + n) else char_of (87 + n))"

text \<open>The escape of one character; JSON escapes the quote, the backslash and the C0 controls.\<close>

definition jsonChar :: "char \<Rightarrow> string" where
  "jsonChar c =
     (if c = dquote then [backslash, dquote]
      else if c = backslash then [backslash, backslash]
      else if ccode c = 8 then [backslash, CHR ''b'']
      else if ccode c = 9 then [backslash, CHR ''t'']
      else if ccode c = 10 then [backslash, CHR ''n'']
      else if ccode c = 12 then [backslash, CHR ''f'']
      else if ccode c = 13 then [backslash, CHR ''r'']
      else if ccode c < 32 then
        [backslash, CHR ''u'', CHR ''0'', CHR ''0'', hexDigit (ccode c div 16), hexDigit (ccode c mod 16)]
      else [c])"

definition jsonQuote :: "string \<Rightarrow> string" where
  "jsonQuote s = dquote # concat (map jsonChar s) @ [dquote]"

definition jsonNumber :: "jnum \<Rightarrow> string" where
  "jsonNumber n = (case n of JFin q \<Rightarrow> numStr q | _ \<Rightarrow> ''null'')"

definition jsonBool :: "bool \<Rightarrow> string" where
  "jsonBool b = (if b then ''true'' else ''false'')"

definition jsonList :: "string list \<Rightarrow> string" where
  "jsonList ts = CHR ''['' # joinWith '','' ts @ '']''"

definition jsonMembers :: "(string \<times> string) list \<Rightarrow> string" where
  "jsonMembers kts = CHR ''{'' # joinWith '','' (map (\<lambda>(k, t). jsonQuote k @ CHR '':'' # t) kts) @ ''}''"

fun jsonStringify :: "json \<Rightarrow> string" where
  "jsonStringify JNull = ''null''"
| "jsonStringify (JStr s) = jsonQuote s"
| "jsonStringify (JNum n) = jsonNumber n"
| "jsonStringify (JBool b) = jsonBool b"
| "jsonStringify (JArr js) =
     jsonList (map (\<lambda>x. case x of None \<Rightarrow> ''null'' | Some j \<Rightarrow> jsonStringify j) js)"
| "jsonStringify (JObj ps) = jsonMembers (map (\<lambda>(k, j). (k, jsonStringify j)) ps)"

text \<open>\<open>Object.keys(value).sort()\<close>: by UTF-16 code units, here by characters.\<close>

fun canonicalJson :: "json \<Rightarrow> string" where
  "canonicalJson JNull = ''null''"
| "canonicalJson (JStr s) = jsonQuote s"
| "canonicalJson (JNum n) = jsonNumber n"
| "canonicalJson (JBool b) = jsonBool b"
| "canonicalJson (JArr js) =
     jsonList (map (\<lambda>x. case x of None \<Rightarrow> [] | Some j \<Rightarrow> canonicalJson j) js)"
| "canonicalJson (JObj ps) =
     jsonMembers (sort_key fst (map (\<lambda>(k, j). (k, canonicalJson j)) ps))"

definition jsonStrings :: "string list \<Rightarrow> string" where
  "jsonStrings ss = jsonList (map jsonQuote ss)"

subsection \<open>The canonical form determines the value\<close>

text \<open>A JSON value of the program: no holes, and every number a finite double.\<close>

fun plainJson :: "json \<Rightarrow> bool" where
  "plainJson (JNum n) = (case n of JFin q \<Rightarrow> roundDouble q = JFin q | _ \<Rightarrow> False)"
| "plainJson (JArr js) = list_all (\<lambda>x. case x of None \<Rightarrow> False | Some j \<Rightarrow> plainJson j) js"
| "plainJson (JObj ps) = list_all (\<lambda>(k, j). plainJson j) ps"
| "plainJson _ = True"

text \<open>A value up to the order of members.\<close>

fun normJson :: "json \<Rightarrow> json" where
  "normJson (JArr js) = JArr (map (map_option normJson) js)"
| "normJson (JObj ps) = JObj (sort_key fst (map (\<lambda>(k, j). (k, normJson j)) ps))"
| "normJson j = j"

lemma insort_key_map:
  "insort_key fst (k, h j) (map (\<lambda>(k, j). (k, h j)) xs) = map (\<lambda>(k, j). (k, h j)) (insort_key fst (k, j) xs)"
  by (induction xs) auto

lemma sort_key_map_snd:
  "sort_key fst (map (\<lambda>(k, j). (k, h j)) xs) = map (\<lambda>(k, j). (k, h j)) (sort_key fst xs)"
  by (induction xs) (auto simp: insort_key_map)

text \<open>Reading one escaped character.\<close>

definition hexValue :: "char \<Rightarrow> nat" where
  "hexValue c = (if ccode c < 58 then ccode c - 48 else ccode c - 87)"

lemma hexValue_hexDigit [simp]: "n < 16 \<Longrightarrow> hexValue (hexDigit n) = n"
  by (simp add: hexValue_def hexDigit_def)

text \<open>The reader of one escape, what it denotes and what is left.\<close>

definition jsonUnescape :: "string \<Rightarrow> char \<times> string" where
  "jsonUnescape s =
     (case s of
        c # d # r \<Rightarrow>
          if c \<noteq> backslash then (c, d # r)
          else if d = CHR ''b'' then (char_of (8 :: nat), r)
          else if d = CHR ''t'' then (char_of (9 :: nat), r)
          else if d = CHR ''n'' then (char_of (10 :: nat), r)
          else if d = CHR ''f'' then (char_of (12 :: nat), r)
          else if d = CHR ''r'' then (char_of (13 :: nat), r)
          else if d = CHR ''u'' then (char_of (16 * hexValue (r ! 2) + hexValue (r ! 3)), drop 4 r)
          else (d, r)
      | _ \<Rightarrow> (hd s, []))"

lemma jsonUnescape_char: "jsonUnescape (jsonChar c @ r) = (c, r)"
proof -
  consider (q) "c = dquote" | (b) "c = backslash" | (ctl) "ccode c < 32" | (plain) "c \<noteq> dquote" "c \<noteq> backslash" "32 \<le> ccode c"
    by linarith
  then show ?thesis
  proof cases
    case ctl
    define n where "n = ccode c"
    have c: "c = char_of n" by (simp add: n_def)
    have n: "n < 32" using ctl by (simp add: n_def)
    then have d: "n div 16 < 16" "n mod 16 < 16" by auto
    have neq: "c \<noteq> dquote" "c \<noteq> backslash" using ctl by auto
    show ?thesis
    proof (cases "n \<in> {8, 9, 10, 12, 13}")
      case True
      with neq show ?thesis by (auto simp: jsonChar_def jsonUnescape_def n_def [symmetric] c)
    next
      case False
      with neq ctl d show ?thesis
        by (auto simp: jsonChar_def jsonUnescape_def n_def [symmetric]) (simp add: c)
    qed
  next
    case plain
    then have "jsonChar c = [c]" by (auto simp: jsonChar_def)
    with plain show ?thesis by (cases r) (auto simp: jsonUnescape_def)
  qed (simp_all add: jsonChar_def jsonUnescape_def)
qed

lemma jsonChar_start: "\<exists>d t. jsonChar c = d # t \<and> d \<noteq> dquote"
  by (auto simp: jsonChar_def)

lemma jsonQuote_cancel: "jsonQuote s @ r = jsonQuote s' @ r' \<Longrightarrow> s = s' \<and> r = r'"
proof -
  have "concat (map jsonChar s) @ dquote # r = concat (map jsonChar s') @ dquote # r' \<Longrightarrow> s = s' \<and> r = r'"
  proof (induction s arbitrary: s')
    case Nil
    show ?case
    proof (cases s')
      case (Cons c t)
      with Nil jsonChar_start [of c] show ?thesis by auto
    qed (use Nil in simp)
  next
    case (Cons c s)
    show ?case
    proof (cases s')
      case Nil
      with Cons.prems jsonChar_start [of c] show ?thesis by auto
    next
      case (Cons c' t')
      with Cons.prems have "jsonUnescape (jsonChar c @ concat (map jsonChar s) @ dquote # r) =
          jsonUnescape (jsonChar c' @ concat (map jsonChar t') @ dquote # r')" by simp
      then have "c = c'" "concat (map jsonChar s) @ dquote # r = concat (map jsonChar t') @ dquote # r'"
        by (simp_all add: jsonUnescape_char)
      with Cons.IH [of t'] Cons show ?thesis by simp
    qed
  qed
  then show "jsonQuote s @ r = jsonQuote s' @ r' \<Longrightarrow> s = s' \<and> r = r'" by (simp add: jsonQuote_def)
qed

text \<open>What may follow a value: nothing, a separator, a closing bracket, or the bar of a checksum text.\<close>

definition delimited :: "string \<Rightarrow> bool" where
  "delimited r \<longleftrightarrow> r = [] \<or> hd r = CHR '','' \<or> hd r = CHR '']'' \<or> hd r = CHR ''}'' \<or> hd r = CHR ''|''"

lemma delimited_simps [simp]:
  "delimited (CHR '','' # r)" "delimited (CHR '']'' # r)" "delimited (CHR ''}'' # r)" "delimited (CHR ''|'' # r)"
  "delimited []"
  by (simp_all add: delimited_def)

text \<open>A separated list, element by element.\<close>

lemma joined_cancel:
  assumes close: "close = CHR '']'' \<or> close = CHR ''}''"
    and start: "\<And>x. x \<in> set xs \<union> set ys \<Longrightarrow> \<exists>c t. f x = c # t \<and> c \<noteq> close"
    and elem: "\<And>x y r r'. x \<in> set xs \<Longrightarrow> y \<in> set ys \<Longrightarrow> delimited r \<Longrightarrow> delimited r' \<Longrightarrow>
      f x @ r = f y @ r' \<Longrightarrow> g x = g y \<and> r = r'"
  shows "joinWith '','' (map f xs) @ close # r = joinWith '','' (map f ys) @ close # r' \<Longrightarrow>
    map g xs = map g ys \<and> r = r'"
  using start elem
proof (induction xs arbitrary: ys)
  case Nil
  show ?case
  proof (cases ys)
    case (Cons y ys')
    with Nil.prems(2) [of y] obtain c t where "f y = c # t" "c \<noteq> close" by auto
    with Nil.prems(1) Cons show ?thesis by (simp add: joinWith_Cons split: if_splits)
  qed (use Nil in simp)
next
  case (Cons x xs)
  obtain cx tx where fx: "f x = cx # tx" "cx \<noteq> close" using Cons.prems(2) [of x] by auto
  show ?case
  proof (cases ys)
    case Nil
    with Cons.prems(1) fx show ?thesis by (simp add: joinWith_Cons split: if_splits)
  next
    case (Cons y ys')
    define rx where "rx = (if xs = [] then close # r else CHR '','' # joinWith '','' (map f xs) @ close # r)"
    define ry where "ry = (if ys' = [] then close # r' else CHR '','' # joinWith '','' (map f ys') @ close # r')"
    have eq: "f x @ rx = f y @ ry"
      using Cons.prems(1) Cons
      by (cases "xs = []"; cases "ys' = []") (simp_all add: joinWith_Cons rx_def ry_def)
    have "delimited rx" "delimited ry" using close by (auto simp: rx_def ry_def)
    with Cons.prems(3) [of x y rx ry] Cons eq have g: "g x = g y" and r: "rx = ry" by auto
    have cc: "close \<noteq> CHR '',''" using close by auto
    show ?thesis
    proof (cases "xs = []")
      case True
      with r cc Cons g show ?thesis by (auto simp: rx_def ry_def split: if_splits)
    next
      case False
      with r cc have ys': "ys' \<noteq> []" "joinWith '','' (map f xs) @ close # r = joinWith '','' (map f ys') @ close # r'"
        by (auto simp: rx_def ry_def split: if_splits)
      have "map g xs = map g ys' \<and> r = r'"
      proof (rule Cons.IH [OF ys'(2)])
        show "\<exists>c t. f u = c # t \<and> c \<noteq> close" if "u \<in> set xs \<union> set ys'" for u
          using Cons.prems(2) [of u] that Cons by auto
        show "g u = g v \<and> q = q'"
          if "u \<in> set xs" "v \<in> set ys'" "delimited q" "delimited q'" "f u @ q = f v @ q'" for u v q q'
          using Cons.prems(3) [of u v q q'] that Cons by auto
      qed
      with g Cons show ?thesis by simp
    qed
  qed
qed

text \<open>The first character tells the kinds of value apart.\<close>

lemma numStr_chars:
  assumes "roundDouble q = JFin q"
  shows "list_all numChar (numStr q)" and "numStr q \<noteq> []"
    and "hd (numStr q) = CHR ''-'' \<or> isDigit (hd (numStr q))"
proof -
  have m: "roundDouble (- q) = JFin (- q)" if "q < 0"
    using assms that by (auto simp: roundDouble_def Let_def split: if_splits)
  show "list_all numChar (numStr q)" "numStr q \<noteq> []"
    "hd (numStr q) = CHR ''-'' \<or> isDigit (hd (numStr q))"
    using posNumStr_reads [OF assms] posNumStr_reads [of "- q"] m
    by (auto simp: numStr_def numChar_def)
qed

lemma canonicalJson_start:
  "plainJson j \<Longrightarrow> \<exists>c t. canonicalJson j = c # t \<and>
     (case j of JNull \<Rightarrow> c = CHR ''n'' | JBool b \<Rightarrow> c = (if b then CHR ''t'' else CHR ''f'')
      | JNum n \<Rightarrow> c = CHR ''-'' \<or> isDigit c | JStr s \<Rightarrow> c = dquote | JArr js \<Rightarrow> c = CHR ''['' | JObj ps \<Rightarrow> c = CHR ''{'')"
proof (cases j)
  case (JNum n)
  assume "plainJson j"
  with JNum obtain q where "n = JFin q" "roundDouble q = JFin q" by (auto split: jnum.splits)
  with JNum numStr_chars [of q] show ?thesis by (cases "numStr q") (auto simp: jsonNumber_def)
qed (auto simp: jsonQuote_def jsonBool_def jsonList_def jsonMembers_def)

lemma canonicalJson_not_closing:
  assumes "plainJson j"
  shows "\<exists>c t. canonicalJson j = c # t \<and> c \<noteq> CHR '']''"
proof -
  obtain c t where "canonicalJson j = c # t"
    "case j of JNull \<Rightarrow> c = CHR ''n'' | JBool b \<Rightarrow> c = (if b then CHR ''t'' else CHR ''f'')
      | JNum n \<Rightarrow> c = CHR ''-'' \<or> isDigit c | JStr s \<Rightarrow> c = dquote | JArr js \<Rightarrow> c = CHR ''['' | JObj ps \<Rightarrow> c = CHR ''{''"
    using canonicalJson_start [OF assms] by blast
  then show ?thesis by (cases j) (auto simp: char_class_defs split: if_splits)
qed

lemma takeWhile_delimited:
  "list_all numChar s \<Longrightarrow> delimited r \<Longrightarrow> takeWhile numChar (s @ r) = s"
  by (cases r) (auto simp: list_all_iff delimited_def numChar_def char_class_defs)

lemma canonicalJson_JObj:
  "canonicalJson (JObj ps) = jsonMembers (map (\<lambda>(k, j). (k, canonicalJson j)) (sort_key fst ps))"
  "normJson (JObj ps) = JObj (map (\<lambda>(k, j). (k, normJson j)) (sort_key fst ps))"
  by (simp_all add: sort_key_map_snd)

definition memberText :: "string \<times> json \<Rightarrow> string" where
  "memberText m = jsonQuote (fst m) @ CHR '':'' # canonicalJson (snd m)"

definition elementText :: "json option \<Rightarrow> string" where
  "elementText x = (case x of None \<Rightarrow> [] | Some j \<Rightarrow> canonicalJson j)"

lemma canonicalJson_texts:
  "canonicalJson (JArr js) = CHR ''['' # joinWith '','' (map elementText js) @ '']''"
  "canonicalJson (JObj ps) = CHR ''{'' # joinWith '','' (map memberText (sort_key fst ps)) @ ''}''"
  unfolding canonicalJson_JObj
  by (simp_all add: jsonList_def jsonMembers_def elementText_def [abs_def] memberText_def [abs_def]
      case_prod_unfold comp_def)

lemma canonicalJson_cancel:
  "plainJson j \<Longrightarrow> plainJson j' \<Longrightarrow> delimited r \<Longrightarrow> delimited r' \<Longrightarrow>
   canonicalJson j @ r = canonicalJson j' @ r' \<Longrightarrow> normJson j = normJson j' \<and> r = r'"
proof (induction j arbitrary: j' r r')
  case JNull
  from JNull canonicalJson_start [of j'] show ?case
    by (cases j') (auto simp: char_class_defs jsonBool_def split: if_splits)
next
  case (JBool b)
  from JBool canonicalJson_start [of j'] show ?case
    by (cases j') (auto simp: char_class_defs jsonBool_def split: if_splits)
next
  case (JNum n)
  from JNum.prems obtain q where q: "n = JFin q" "roundDouble q = JFin q" by (auto split: jnum.splits)
  obtain c t where c: "numStr q = c # t" "c = CHR ''-'' \<or> isDigit c"
    using numStr_chars [OF q(2)] by (cases "numStr q") auto
  from JNum.prems q c canonicalJson_start [of j'] obtain n' where j': "j' = JNum n'"
    by (cases j') (auto simp: char_class_defs jsonNumber_def split: if_splits)
  with JNum.prems(2) obtain q' where q': "n' = JFin q'" "roundDouble q' = JFin q'" by (auto split: jnum.splits)
  have eq: "numStr q @ r = numStr q' @ r'" using JNum.prems(5) by (simp add: j' q q' jsonNumber_def)
  then have "takeWhile numChar (numStr q @ r) = takeWhile numChar (numStr q' @ r')" by simp
  then have "numStr q = numStr q'"
    by (simp only: takeWhile_delimited [OF numStr_chars(1) [OF q(2)] JNum.prems(3)]
        takeWhile_delimited [OF numStr_chars(1) [OF q'(2)] JNum.prems(4)])
  with eq numStr_inject [OF q(2) q'(2)] show ?case by (simp add: j' q q')
next
  case (JStr s)
  from JStr canonicalJson_start [of j'] obtain s' where j': "j' = JStr s'"
    by (cases j') (auto simp: jsonQuote_def char_class_defs split: if_splits)
  with JStr.prems(5) jsonQuote_cancel [of s r s' r'] show ?case by simp
next
  case (JArr js)
  from JArr.prems canonicalJson_start [of j'] obtain js' where j': "j' = JArr js'"
    by (cases j') (auto simp: jsonList_def char_class_defs split: if_splits)
  have plain: "plainJson x" if "Some x \<in> set js \<union> set js'" for x
    using JArr.prems(1,2) that by (auto simp: j' list_all_iff split: option.splits)
  have some: "\<exists>x. u = Some x" if "u \<in> set js \<union> set js'" for u
    using JArr.prems(1,2) that by (fastforce simp: j' list_all_iff split: option.splits)
  have "map (map_option normJson) js = map (map_option normJson) js' \<and> r = r'"
  proof (rule joined_cancel [where close = "CHR '']''" and f = elementText])
    show "\<exists>c t. elementText u = c # t \<and> c \<noteq> CHR '']''" if u: "u \<in> set js \<union> set js'" for u
    proof -
      obtain x where "u = Some x" using some [OF u] by blast
      with plain [of x] u canonicalJson_not_closing [of x] show ?thesis by (simp add: elementText_def)
    qed
    show "map_option normJson u = map_option normJson v \<and> q = q'"
      if uv: "u \<in> set js" "v \<in> set js'" "delimited q" "delimited q'" "elementText u @ q = elementText v @ q'"
      for u v q q'
    proof -
      obtain x y where xy: "u = Some x" "v = Some y" using some uv(1,2) by blast
      have "normJson x = normJson y \<and> q = q'"
        by (rule JArr.IH [of u x])
           (use uv xy plain in \<open>auto simp: elementText_def\<close>)
      then show ?thesis by (simp add: xy)
    qed
  qed (use JArr.prems(5) in \<open>simp_all add: j' canonicalJson_texts del: canonicalJson.simps\<close>)
  then show ?case by (simp add: j')
next
  case (JObj ps)
  from JObj.prems canonicalJson_start [of j'] obtain ps' where j': "j' = JObj ps'"
    by (cases j') (auto simp: jsonMembers_def char_class_defs split: if_splits)
  have plain: "plainJson (snd m)" if "m \<in> set ps \<union> set ps'" for m
    using JObj.prems(1,2) that by (fastforce simp: j' list_all_iff)
  have "map (\<lambda>m. (fst m, normJson (snd m))) (sort_key fst ps) =
      map (\<lambda>m. (fst m, normJson (snd m))) (sort_key fst ps') \<and> r = r'"
  proof (rule joined_cancel [where close = "CHR ''}''" and f = memberText])
    show "\<exists>c t. memberText m = c # t \<and> c \<noteq> CHR ''}''" for m
      by (simp add: memberText_def jsonQuote_def)
    show "(fst m, normJson (snd m)) = (fst m', normJson (snd m')) \<and> q = q'"
      if "m \<in> set (sort_key fst ps)" "m' \<in> set (sort_key fst ps')" "delimited q" "delimited q'"
        "memberText m @ q = memberText m' @ q'" for m m' q q'
    proof -
      from that(5) have k: "fst m = fst m'" and t: "canonicalJson (snd m) @ q = canonicalJson (snd m') @ q'"
        by (auto simp: memberText_def dest!: jsonQuote_cancel)
      have "normJson (snd m) = normJson (snd m') \<and> q = q'"
        by (rule JObj.IH [of m "snd m"]) (use that t plain in \<open>auto simp: prod_set_simps intro: snds.intros\<close>)
      with k show ?thesis by simp
    qed
  qed (use JObj.prems(5) in \<open>simp_all add: j' canonicalJson_texts del: canonicalJson.simps\<close>)
  then show ?case by (simp add: j' canonicalJson_JObj case_prod_unfold del: normJson.simps)
qed

lemma jsonStrings_inject: "jsonStrings ss = jsonStrings ss' \<Longrightarrow> ss = ss'"
proof -
  assume eq: "jsonStrings ss = jsonStrings ss'"
  have "map id ss = map id ss' \<and> ([]::string) = []"
  proof (rule joined_cancel [where close = "CHR '']''" and f = jsonQuote])
    show "\<exists>c t. jsonQuote x = c # t \<and> c \<noteq> CHR '']''" for x by (simp add: jsonQuote_def)
    show "id x = id y \<and> r = r'" if "jsonQuote x @ r = jsonQuote y @ r'" for x y r r'
      using jsonQuote_cancel [OF that] by simp
  qed (use eq in \<open>simp_all add: jsonStrings_def jsonList_def\<close>)
  then show ?thesis by simp
qed

end
