(* ===== verification/DdlTypes.thy ===== *)
theory DdlTypes
  imports JsonText Identifiers
begin

text \<open>
  The types and the value templates of \<open>src/database/schema-ddl.ts\<close>: column types, identifiers,
  internal schemas, quoted literals, and the typed \<open>DEFAULT\<close> clauses.
\<close>

subsection \<open>Column types\<close>

datatype DdlColumnType =
    TyText | TyInteger | TyBigint | TyBoolean | TyUuid | TyTimestamp | TyTimestamptz | TyDate | TyNumeric | TyJsonb

definition ALL_TYPES :: "DdlColumnType list" where
  "ALL_TYPES = [TyText, TyInteger, TyBigint, TyBoolean, TyUuid, TyTimestamp, TyTimestamptz, TyDate, TyNumeric, TyJsonb]"

fun typeName :: "DdlColumnType \<Rightarrow> string" where
  "typeName TyText = ''text''"
| "typeName TyInteger = ''integer''"
| "typeName TyBigint = ''bigint''"
| "typeName TyBoolean = ''boolean''"
| "typeName TyUuid = ''uuid''"
| "typeName TyTimestamp = ''timestamp''"
| "typeName TyTimestamptz = ''timestamptz''"
| "typeName TyDate = ''date''"
| "typeName TyNumeric = ''numeric''"
| "typeName TyJsonb = ''jsonb''"

text \<open>\<open>Object.hasOwn(TYPE_ALLOWLIST, value)\<close>, and the type it names.\<close>

definition isDdlColumnType :: "string \<Rightarrow> DdlColumnType option" where
  "isDdlColumnType s = find (\<lambda>t. typeName t = s) ALL_TYPES"

lemma isDdlColumnType_Some: "isDdlColumnType s = Some t \<longleftrightarrow> typeName t = s"
proof -
  have inj: "typeName a = typeName b \<longleftrightarrow> a = b" for a b by (cases a; cases b) simp_all
  have "isDdlColumnType (typeName t) = Some t" for t by (cases t) (simp_all add: isDdlColumnType_def ALL_TYPES_def)
  then show ?thesis by (auto simp: isDdlColumnType_def find_Some_iff inj)
qed

datatype DdlColumnDefault = DefNone | DefLiteral jsval | DefCurrentTimestamp | DefRandomUuid

text \<open>The frozen safe conversions.\<close>

fun SAFE_TYPE_CONVERSIONS :: "DdlColumnType \<Rightarrow> DdlColumnType list" where
  "SAFE_TYPE_CONVERSIONS TyInteger = [TyBigint, TyNumeric]"
| "SAFE_TYPE_CONVERSIONS TyBigint = [TyNumeric]"
| "SAFE_TYPE_CONVERSIONS TyDate = [TyTimestamp]"
| "SAFE_TYPE_CONVERSIONS _ = []"

text \<open>\<open>format_type\<close>'s rendering of a type.\<close>

fun CATALOGUE_TYPE_RENDERINGS :: "DdlColumnType \<Rightarrow> string" where
  "CATALOGUE_TYPE_RENDERINGS TyTimestamp = ''timestamp without time zone''"
| "CATALOGUE_TYPE_RENDERINGS TyTimestamptz = ''timestamp with time zone''"
| "CATALOGUE_TYPE_RENDERINGS t = typeName t"

subsection \<open>Validation helpers\<close>

definition invalidInput :: "string \<Rightarrow> thrown" where
  "invalidInput message = AppErr (mkErr VALIDATION_ERROR message 400 None)"

definition invalidIdentifier :: thrown where
  "invalidIdentifier = AppErr (mkErr VALIDATION_ERROR ''Invalid SQL identifier'' 400 None)"

definition assertDdlIdentifier :: "string \<Rightarrow> thrown + unit" where
  "assertDdlIdentifier name = (if \<not> simpleIdentifier name then Inl invalidIdentifier else Inr ())"

definition ddlQuoteIdentifier :: "string \<Rightarrow> thrown + string" where
  "ddlQuoteIdentifier name =
     (if \<not> simpleIdentifier name then Inl invalidIdentifier
      else Inr (dquote # doubleQuotes name @ [dquote]))"

abbreviation squote :: char where "squote \<equiv> CHR 0x27"

text \<open>\<open>value.replace(/'/g, "''")\<close>.\<close>

definition doubleSquotes :: "string \<Rightarrow> string" where
  "doubleSquotes value = concat (map (\<lambda>c. if c = squote then [squote, squote] else [c]) value)"

definition quoteLiteral :: "string \<Rightarrow> thrown + string" where
  "quoteLiteral value =
     (if CHR 0x00 \<in> set value then Inl (invalidInput ''literal defaults must not contain NUL characters'')
      else if backslash \<in> set value then
        Inl (invalidInput ''literal defaults must not contain backslash characters'')
      else Inr (squote # doubleSquotes value @ [squote]))"

definition INTERNAL_SCHEMA_NAMES :: "string list" where
  "INTERNAL_SCHEMA_NAMES = [''microjbase'', ''pg_catalog'', ''information_schema'']"

definition assertManageableSchema :: "string \<Rightarrow> thrown + unit" where
  "assertManageableSchema schema =
     (let normalized = toLowerCase schema
      in if normalized \<in> set INTERNAL_SCHEMA_NAMES \<or> startsWith normalized ''pg_'' then
           Inl (invalidInput ''Internal schemas cannot be modified'')
         else Inr ())"

subsection \<open>Dates and patterns\<close>

definition isLeapYear :: "nat \<Rightarrow> bool" where
  "isLeapYear year \<longleftrightarrow> year mod 4 = 0 \<and> year mod 100 \<noteq> 0 \<or> year mod 400 = 0"

text \<open>Exactly \<open>n\<close> decimal digits, and what follows.\<close>

definition digitRun :: "nat \<Rightarrow> string \<Rightarrow> (string \<times> string) option" where
  "digitRun n s =
     (if n \<le> length s \<and> list_all isDigit (take n s) then Some (take n s, drop n s) else None)"

definition expectChar :: "char \<Rightarrow> string \<Rightarrow> string option" where
  "expectChar c s = (case s of d # r \<Rightarrow> if d = c then Some r else None | [] \<Rightarrow> None)"

text \<open>The groups of \<open>(\d{4})-(\d{2})-(\d{2})\<close> at the start of a text, and what follows.\<close>

definition dateParts :: "string \<Rightarrow> (nat \<times> nat \<times> nat \<times> string) option" where
  "dateParts s =
     Option.bind (digitRun 4 s) (\<lambda>(y, r1).
     Option.bind (expectChar (CHR ''-'') r1) (\<lambda>r2.
     Option.bind (digitRun 2 r2) (\<lambda>(m, r3).
     Option.bind (expectChar (CHR ''-'') r3) (\<lambda>r4.
     Option.bind (digitRun 2 r4) (\<lambda>(d, r5).
       Some (digitsVal y, digitsVal m, digitsVal d, r5))))))"

definition daysInMonth :: "nat \<Rightarrow> nat \<Rightarrow> nat" where
  "daysInMonth year month =
     (if month = 2 then (if isLeapYear year then 29 else 28)
      else if month = 4 \<or> month = 6 \<or> month = 9 \<or> month = 11 then 30 else 31)"

definition isValidDate :: "string \<Rightarrow> bool" where
  "isValidDate value =
     (case dateParts value of
        Some (year, month, day, []) \<Rightarrow>
          if month < 1 \<or> 12 < month \<or> day < 1 then False else day \<le> daysInMonth year month
      | _ \<Rightarrow> False)"

definition datePattern :: "string \<Rightarrow> bool" where
  "datePattern s \<longleftrightarrow> (case dateParts s of Some (y, m, d, []) \<Rightarrow> True | _ \<Rightarrow> False)"

text \<open>\<open>(Z|[+-]\d{2}:?\d{2})?$\<close>.\<close>

definition zonePattern :: "string \<Rightarrow> bool" where
  "zonePattern s =
     (case s of
        [] \<Rightarrow> True
      | c # r \<Rightarrow>
          if c = CHR ''Z'' then r = []
          else if c = CHR ''+'' \<or> c = CHR ''-'' then
            (case digitRun 2 r of
               None \<Rightarrow> False
             | Some (h, r1) \<Rightarrow>
                 (let r2 = (case expectChar (CHR '':'') r1 of Some q \<Rightarrow> q | None \<Rightarrow> r1)
                  in (case digitRun 2 r2 of Some (m, []) \<Rightarrow> True | _ \<Rightarrow> False)))
          else False)"

text \<open>\<open>(:\d{2}(\.\d{1,6})?)?\<close> and the zone: what follows the minutes.\<close>

definition secondsPattern :: "string \<Rightarrow> bool" where
  "secondsPattern s =
     (case expectChar (CHR '':'') s of
        None \<Rightarrow> zonePattern s
      | Some r \<Rightarrow>
          (case digitRun 2 r of
             None \<Rightarrow> False
           | Some (sec, r1) \<Rightarrow>
               (case expectChar (CHR ''.'') r1 of
                  None \<Rightarrow> zonePattern r1
                | Some r2 \<Rightarrow>
                    (let n = length (takeWhile isDigit r2)
                     in 1 \<le> n \<and> n \<le> 6 \<and> zonePattern (drop n r2)))))"

definition timestampPattern :: "string \<Rightarrow> bool" where
  "timestampPattern s =
     (case dateParts s of
        Some (y, m, d, c # r) \<Rightarrow>
          (c = CHR ''T'' \<or> c = CHR '' '') \<and>
          (case digitRun 2 r of
             None \<Rightarrow> False
           | Some (hh, r1) \<Rightarrow>
               (case expectChar (CHR '':'') r1 of
                  None \<Rightarrow> False
                | Some r2 \<Rightarrow>
                    (case digitRun 2 r2 of None \<Rightarrow> False | Some (mm, r3) \<Rightarrow> secondsPattern r3)))
      | _ \<Rightarrow> False)"

definition isHexAny :: "char \<Rightarrow> bool" where
  "isHexAny c \<longleftrightarrow> isDigit c \<or> between 97 102 c \<or> between 65 70 c"

text \<open>The UUID pattern: groups of 8, 4, 4, 4 and 12 hexadecimal digits.\<close>

definition uuidPattern :: "string \<Rightarrow> bool" where
  "uuidPattern s \<longleftrightarrow>
     (let gs = splitOn (CHR ''-'') s
      in map length gs = [8, 4, 4, 4, 12] \<and> list_all (list_all isHexAny) gs)"

subsection \<open>Literals\<close>

definition isSafeInt :: "jnum \<Rightarrow> bool" where
  "isSafeInt n \<longleftrightarrow> intInRange (- 9007199254740991) 9007199254740991 (VNum n) \<noteq> None"

definition jnumStr :: "jnum \<Rightarrow> string" where
  "jnumStr n = (case n of JFin q \<Rightarrow> numStr q | JNaN \<Rightarrow> ''NaN'' | JInf p \<Rightarrow> if p then ''Infinity'' else ''-Infinity'')"

text \<open>\<open>Number(s)\<close> of the exponent of a rendered number: a sign and up to three digits.\<close>

definition exponentOf :: "string \<Rightarrow> int" where
  "exponentOf s =
     (case s of
        [] \<Rightarrow> 0
      | c # r \<Rightarrow>
          if c = CHR ''-'' then - int (digitsVal r)
          else if c = CHR ''+'' then int (digitsVal r) else int (digitsVal s))"

definition expandExponential :: "string \<Rightarrow> string" where
  "expandExponential rendered =
     (let parts = splitOn (CHR ''e'') rendered;
          mantissa = hd parts;
          exponent = exponentOf (if length parts < 2 then ''0'' else parts ! 1);
          negative = startsWith mantissa ''-'';
          unsigned = (if negative then drop 1 mantissa else mantissa);
          integerDigits = (case indexOf (CHR ''.'') unsigned of None \<Rightarrow> length unsigned | Some i \<Rightarrow> i);
          digits = takeWhile (\<lambda>c. c \<noteq> CHR ''.'') unsigned @ drop 1 (dropWhile (\<lambda>c. c \<noteq> CHR ''.'') unsigned);
          pointAt = int integerDigits + exponent;
          plain =
            (if pointAt \<le> 0 then ''0.'' @ zeros (- pointAt) @ digits
             else if int (length digits) \<le> pointAt then digits @ zeros (pointAt - int (length digits))
             else take (nat pointAt) digits @ ''.'' @ drop (nat pointAt) digits)
      in if negative then CHR ''-'' # plain else plain)"

definition renderNumericDefault :: "jnum \<Rightarrow> string" where
  "renderNumericDefault value =
     (if isSafeInt value then jnumStr value
      else (let rendered = jnumStr value
            in if CHR ''e'' \<notin> set rendered \<and> CHR ''E'' \<notin> set rendered then rendered
               else expandExponential rendered))"

text \<open>A quoted literal with its cast.\<close>

definition castLiteral :: "string \<Rightarrow> string \<Rightarrow> thrown + string" where
  "castLiteral value type = bindR (quoteLiteral value) (\<lambda>q. Inr (q @ ''::'' @ type))"

definition renderInteger :: "string \<Rightarrow> string \<Rightarrow> (jnum \<Rightarrow> bool) \<Rightarrow> jsval \<Rightarrow> thrown + string" where
  "renderInteger wholeMessage rangeMessage fits value =
     (case value of
        VNum n \<Rightarrow>
          if \<not> numIsInteger n then Inl (invalidInput wholeMessage)
          else if \<not> fits n then Inl (invalidInput rangeMessage)
          else Inr (jnumStr n)
      | _ \<Rightarrow> Inl (invalidInput wholeMessage))"

definition fitsInt4 :: "jnum \<Rightarrow> bool" where
  "fitsInt4 n \<longleftrightarrow> isSafeInt n \<and> intInRange (- 2147483648) 2147483647 (VNum n) \<noteq> None"

definition renderTimestamp :: "string \<Rightarrow> jsval \<Rightarrow> thrown + string" where
  "renderTimestamp cast value =
     (case value of
        VStr s \<Rightarrow>
          if \<not> timestampPattern s \<or> \<not> isValidDate (take 10 s) then
            Inl (invalidInput ''timestamp literal defaults must be ISO-8601 timestamp strings'')
          else castLiteral s cast
      | _ \<Rightarrow> Inl (invalidInput ''timestamp literal defaults must be ISO-8601 timestamp strings''))"

fun renderLiteralDefault :: "DdlColumnType \<Rightarrow> jsval \<Rightarrow> thrown + string" where
  "renderLiteralDefault TyText value =
     (case value of
        VStr s \<Rightarrow> castLiteral s ''text''
      | _ \<Rightarrow> Inl (invalidInput ''text literal defaults must be strings''))"
| "renderLiteralDefault TyInteger value =
     renderInteger ''integer literal defaults must be whole numbers''
       ''integer literal defaults must fit the int4 range'' fitsInt4 value"
| "renderLiteralDefault TyBigint value =
     renderInteger ''bigint literal defaults must be whole numbers''
       ''bigint literal defaults must fit the int8 range'' isSafeInt value"
| "renderLiteralDefault TyNumeric value =
     (case value of
        VNum n \<Rightarrow>
          if \<not> numIsFinite n then Inl (invalidInput ''numeric literal defaults must be finite numbers'')
          else Inr (renderNumericDefault n)
      | _ \<Rightarrow> Inl (invalidInput ''numeric literal defaults must be finite numbers''))"
| "renderLiteralDefault TyBoolean value =
     (case value of
        VBool b \<Rightarrow> Inr (if b then ''TRUE'' else ''FALSE'')
      | _ \<Rightarrow> Inl (invalidInput ''boolean literal defaults must be true or false''))"
| "renderLiteralDefault TyUuid value =
     (case value of
        VStr s \<Rightarrow>
          if \<not> uuidPattern s then Inl (invalidInput ''uuid literal defaults must be UUID strings'')
          else castLiteral (toLowerCase s) ''uuid''
      | _ \<Rightarrow> Inl (invalidInput ''uuid literal defaults must be UUID strings''))"
| "renderLiteralDefault TyDate value =
     (case value of
        VStr s \<Rightarrow>
          if \<not> datePattern s then Inl (invalidInput ''date literal defaults must be YYYY-MM-DD strings'')
          else if \<not> isValidDate s then Inl (invalidInput ''date literal defaults must be real calendar dates'')
          else castLiteral s ''date''
      | _ \<Rightarrow> Inl (invalidInput ''date literal defaults must be YYYY-MM-DD strings''))"
| "renderLiteralDefault TyTimestamp value = renderTimestamp ''timestamp'' value"
| "renderLiteralDefault TyTimestamptz value = renderTimestamp ''timestamptz'' value"
| "renderLiteralDefault TyJsonb value =
     (case value of
        VNull \<Rightarrow> Inr ''NULL::jsonb''
      | VStr s \<Rightarrow> castLiteral (jsonQuote s) ''jsonb''
      | VNum n \<Rightarrow> castLiteral (jsonNumber n) ''jsonb''
      | VBool b \<Rightarrow> castLiteral (jsonBool b) ''jsonb''
      | _ \<Rightarrow> Inl (invalidInput ''jsonb literal defaults must be JSON values''))"

fun renderDefaultClause :: "DdlColumnType \<Rightarrow> DdlColumnDefault \<Rightarrow> thrown + string" where
  "renderDefaultClause type DefNone = Inr []"
| "renderDefaultClause type (DefLiteral v) =
     bindR (renderLiteralDefault type v) (\<lambda>l. Inr ('' DEFAULT '' @ l))"
| "renderDefaultClause type DefCurrentTimestamp =
     (if type \<noteq> TyTimestamp \<and> type \<noteq> TyTimestamptz then
        Inl (invalidInput ''current_timestamp defaults are only allowed for timestamp and timestamptz columns'')
      else Inr '' DEFAULT CURRENT_TIMESTAMP'')"
| "renderDefaultClause type DefRandomUuid =
     (if type \<noteq> TyUuid then Inl (invalidInput ''random_uuid defaults are only allowed for uuid columns'')
      else Inr '' DEFAULT pg_catalog.gen_random_uuid()'')"

end
