(* ===== verification/AdminGuard.thy ===== *)
theory AdminGuard
  imports HttpReplies RateLimiter DdlTypes
begin

text \<open>
  The shared guard of the admin routes and the typed validation of command bodies
  (\<open>src/http/admin-guard.ts\<close>).
\<close>

subsection \<open>The operator gate\<close>

definition invalidOperatorToken :: app_error where
  "invalidOperatorToken = mkErr INVALID_CREDENTIALS ''Invalid operator token'' 401 None"

text \<open>The new limiter table, and the reply when the request is rejected.\<close>

definition rejectUnlessAdminOperator ::
  "heap \<Rightarrow> (bytes \<Rightarrow> bytes) \<Rightarrow> bytes \<Rightarrow> RateLimiterOptions \<Rightarrow> int \<Rightarrow> string \<Rightarrow> request \<Rightarrow> reply \<Rightarrow>
   limiter_state \<Rightarrow> limiter_state \<times> reply option" where
  "rejectUnlessAdminOperator h sha tokenDigest opt now endpoint request rp m =
     (let (limit, m') = check opt now (''admin:'' @ endpoint @ '':'' @ rq_ip request) m
      in (m',
          if \<not> allowed limit then
            Some (sendAppError h (setHeader ''Retry-After'' (intStr (retryAfterSeconds limit)) rp)
              (AppErr (mkErr RATE_LIMITED ''Rate limit exceeded'' 429 None)))
          else
            (case extractBearerToken (rq_authorization request) of
               None \<Rightarrow>
                 Some (sendAppError h rp
                   (AppErr (mkErr AUTH_REQUIRED ''Authentication required'' 401 None)))
             | Some token \<Rightarrow>
                 if \<not> verifyOperatorToken sha (Some token) tokenDigest then
                   Some (sendAppError h rp (AppErr invalidOperatorToken))
                 else None)))"

subsection \<open>The idempotency key\<close>

definition keyStart :: "char \<Rightarrow> bool" where
  "keyStart c \<longleftrightarrow> isUpperAZ c \<or> isLowerAZ c \<or> isDigit c"

definition keyChar :: "char \<Rightarrow> bool" where
  "keyChar c \<longleftrightarrow> keyStart c \<or> c = CHR ''.'' \<or> c = CHR ''_'' \<or> c = CHR ''-''"

fun idempotencyKeyPattern :: "string \<Rightarrow> bool" where
  "idempotencyKeyPattern [] = False"
| "idempotencyKeyPattern (c # cs) = (keyStart c \<and> length cs \<le> 199 \<and> list_all keyChar cs)"

definition IDEMPOTENCY_KEY_SOURCE :: string where
  "IDEMPOTENCY_KEY_SOURCE = ''^[A-Za-z0-9][A-Za-z0-9._-]{0,199}$''"

definition fieldError :: "string \<Rightarrow> string \<Rightarrow> thrown" where
  "fieldError field message = AppErr (validationError [(field, dstr message)])"

definition requireIdempotencyKey :: "header \<Rightarrow> thrown + string" where
  "requireIdempotencyKey raw =
     (let v = (case raw of
                 HAbsent \<Rightarrow> None
               | HOne s \<Rightarrow> Some s
               | HMany hs \<Rightarrow> (case hs of [] \<Rightarrow> None | s # _ \<Rightarrow> Some s))
      in case v of
           None \<Rightarrow> Inl (fieldError ''idempotency_key'' (''Required header must match '' @ IDEMPOTENCY_KEY_SOURCE))
         | Some s \<Rightarrow>
             if \<not> idempotencyKeyPattern s then
               Inl (fieldError ''idempotency_key'' (''Required header must match '' @ IDEMPOTENCY_KEY_SOURCE))
             else Inr s)"

definition HTTP_OPERATOR_ACTOR :: string where
  "HTTP_OPERATOR_ACTOR = ''http-operator''"

subsection \<open>Body fields\<close>

type_synonym body_props = "(string \<times> jsval) list"

definition requirePlainBody :: "heap \<Rightarrow> jsval \<Rightarrow> thrown + body_props" where
  "requirePlainBody h raw =
     (case getPlainObjectBody h raw of
        None \<Rightarrow> Inl (fieldError ''body'' ''Must be a JSON object'')
      | Some b \<Rightarrow> Inr b)"

definition rejectUnknownFields :: "body_props \<Rightarrow> string list \<Rightarrow> thrown + unit" where
  "rejectUnknownFields b allowedFields =
     (let unknown = filter (\<lambda>k. k \<notin> set allowedFields) (map fst b)
      in if unknown \<noteq> [] then
           Inl (fieldError ''body'' (''Unknown field'' @ (if length unknown = 1 then [] else ''s'') @
                  '': '' @ joinWith '', '' unknown))
         else Inr ())"

definition nonEmptyString :: "string \<Rightarrow> jsval \<Rightarrow> thrown + string" where
  "nonEmptyString field value =
     (case value of
        VStr s \<Rightarrow> if s = [] then Inl (fieldError field ''Must be a non-empty string'') else Inr s
      | _ \<Rightarrow> Inl (fieldError field ''Must be a non-empty string''))"

definition requireStringField :: "body_props \<Rightarrow> string \<Rightarrow> thrown + string" where
  "requireStringField b field = nonEmptyString field (propOf b field)"

definition optionalStringField :: "body_props \<Rightarrow> string \<Rightarrow> thrown + string option" where
  "optionalStringField b field =
     (if propOf b field = VUndef then Inr None
      else bindR (nonEmptyString field (propOf b field)) (\<lambda>s. Inr (Some s)))"

definition requireBooleanField :: "body_props \<Rightarrow> string \<Rightarrow> thrown + bool" where
  "requireBooleanField b field =
     (case propOf b field of
        VBool v \<Rightarrow> Inr v
      | _ \<Rightarrow> Inl (fieldError field ''Must be a boolean''))"

definition optionalBooleanField :: "body_props \<Rightarrow> string \<Rightarrow> thrown + bool option" where
  "optionalBooleanField b field =
     (case propOf b field of
        VUndef \<Rightarrow> Inr None
      | VBool v \<Rightarrow> Inr (Some v)
      | _ \<Rightarrow> Inl (fieldError field ''Must be a boolean''))"

definition requireEnumField :: "body_props \<Rightarrow> string \<Rightarrow> string list \<Rightarrow> thrown + string" where
  "requireEnumField b field allowedValues =
     (case propOf b field of
        VStr s \<Rightarrow> if s \<in> set allowedValues then Inr s
                  else Inl (fieldError field (''Must be one of: '' @ joinWith '', '' allowedValues))
      | _ \<Rightarrow> Inl (fieldError field (''Must be one of: '' @ joinWith '', '' allowedValues)))"

definition entryString :: "string \<Rightarrow> jsval option \<Rightarrow> thrown + string" where
  "entryString field entry =
     (case entry of
        Some (VStr s) \<Rightarrow> if s = [] then Inl (fieldError field ''Must contain only non-empty strings'') else Inr s
      | _ \<Rightarrow> Inl (fieldError field ''Must contain only non-empty strings''))"

definition requireStringArrayField ::
  "heap \<Rightarrow> body_props \<Rightarrow> string \<Rightarrow> nat \<Rightarrow> nat \<Rightarrow> thrown + string list" where
  "requireStringArrayField h b field lo hi =
     (case deref h (propOf b field) of
        Some (OArr xs) \<Rightarrow>
          if length xs < lo \<or> length xs > hi then
            Inl (fieldError field (''Must contain between '' @ natStr lo @ '' and '' @ natStr hi @ '' entries''))
          else mapR (entryString field) xs
      | _ \<Rightarrow> Inl (fieldError field ''Must be an array of strings''))"

subsection \<open>Column specifications\<close>

definition DDL_COLUMN_TYPES :: "string list" where
  "DDL_COLUMN_TYPES =
     [''text'', ''integer'', ''bigint'', ''boolean'', ''uuid'', ''timestamp'', ''timestamptz'', ''date'',
      ''numeric'', ''jsonb'']"

definition FOREIGN_KEY_ACTIONS :: "string list" where
  "FOREIGN_KEY_ACTIONS = [''no_action'', ''restrict'', ''cascade'', ''set_null'']"

definition OWNERSHIP_POLICY_TEMPLATES :: "string list" where
  "OWNERSHIP_POLICY_TEMPLATES = [''read'', ''insert'', ''update'', ''delete'']"

record ColumnSpecInput =
  cs_name :: string
  cs_type :: string
  cs_nullable :: bool
  cs_default :: DdlColumnDefault

definition DEFAULT_KINDS :: "string list" where
  "DEFAULT_KINDS = [''none'', ''literal'', ''current_timestamp'', ''random_uuid'']"

fun jsonPrimitive :: "jsval \<Rightarrow> bool" where
  "jsonPrimitive VNull = True"
| "jsonPrimitive (VStr s) = True"
| "jsonPrimitive (VNum n) = True"
| "jsonPrimitive (VBool b) = True"
| "jsonPrimitive _ = False"

definition mapColumnDefault :: "heap \<Rightarrow> jsval \<Rightarrow> string \<Rightarrow> thrown + DdlColumnDefault" where
  "mapColumnDefault h value field =
     (case getPlainObjectBody h value of
        None \<Rightarrow> Inl (fieldError field ''Must be an object'')
      | Some spec \<Rightarrow>
          bindR (requireEnumField spec ''kind'' DEFAULT_KINDS) (\<lambda>kind.
          bindR (rejectUnknownFields spec
                   (if kind = ''literal'' then [''kind'', ''value''] else [''kind''])) (\<lambda>_.
            if kind = ''none'' then Inr DefNone
            else if kind = ''current_timestamp'' then Inr DefCurrentTimestamp
            else if kind = ''random_uuid'' then Inr DefRandomUuid
            else if kind = ''literal'' then
              (let literal = propOf spec ''value''
               in if \<not> jsonPrimitive literal then
                    Inl (fieldError (field @ ''.value'') ''Must be a JSON primitive'')
                  else Inr (DefLiteral literal))
            else Inl (fieldError field ''Must be a recognised default kind''))))"

definition mapColumnSpec :: "heap \<Rightarrow> jsval \<Rightarrow> string \<Rightarrow> thrown + ColumnSpecInput" where
  "mapColumnSpec h value field =
     (case getPlainObjectBody h value of
        None \<Rightarrow> Inl (fieldError field ''Must be an object'')
      | Some spec \<Rightarrow>
          bindR (rejectUnknownFields spec [''name'', ''type'', ''nullable'', ''default'']) (\<lambda>_.
          bindR (requireStringField spec ''name'') (\<lambda>name.
          bindR (requireEnumField spec ''type'' DDL_COLUMN_TYPES) (\<lambda>type.
          bindR (requireBooleanField spec ''nullable'') (\<lambda>nullable.
          bindR (mapColumnDefault h (propOf spec ''default'') (field @ ''.default'')) (\<lambda>dflt.
            Inr \<lparr>cs_name = name, cs_type = type, cs_nullable = nullable, cs_default = dflt\<rparr>))))))"

record CommandBase =
  cb_idempotencyKey :: string
  cb_actor :: string
  cb_dryRun :: "bool option"

definition commandBase :: "header \<Rightarrow> body_props \<Rightarrow> thrown + CommandBase" where
  "commandBase keyHeader b =
     bindR (requireIdempotencyKey keyHeader) (\<lambda>key.
     bindR (optionalBooleanField b ''dry_run'') (\<lambda>dryRun.
       Inr \<lparr>cb_idempotencyKey = key, cb_actor = HTTP_OPERATOR_ACTOR, cb_dryRun = dryRun\<rparr>))"

subsection \<open>Facts\<close>

text \<open>The gate opens exactly for an allowed request whose bearer token has the configured digest.\<close>

lemma rejectUnlessAdminOperator_open:
  assumes "check opt now (''admin:'' @ endpoint @ '':'' @ rq_ip request) m = (limit, m')"
  shows "rejectUnlessAdminOperator h sha tokenDigest opt now endpoint request rp m = (m', None) \<longleftrightarrow>
    allowed limit \<and>
    (\<exists>token. extractBearerToken (rq_authorization request) = Some token \<and>
       verifyOperatorToken sha (Some token) tokenDigest)"
  using assms by (auto simp: rejectUnlessAdminOperator_def split: option.splits)

lemma rejectUnknownFields_Inr:
  "rejectUnknownFields b fs = Inr u \<longleftrightarrow> set (map fst b) \<subseteq> set fs"
  by (auto simp: rejectUnknownFields_def Let_def filter_empty_conv)

lemma requireStringField_Inr:
  "requireStringField b f = Inr s \<longleftrightarrow> propOf b f = VStr s \<and> s \<noteq> []"
  by (auto simp: requireStringField_def nonEmptyString_def split: jsval.splits if_splits)

lemma optionalStringField_Inr:
  "optionalStringField b f = Inr r \<longleftrightarrow>
   (propOf b f = VUndef \<and> r = None) \<or> (\<exists>s. propOf b f = VStr s \<and> s \<noteq> [] \<and> r = Some s)"
  by (auto simp: optionalStringField_def nonEmptyString_def res_simps split: jsval.splits if_splits)

lemma requireBooleanField_Inr: "requireBooleanField b f = Inr v \<longleftrightarrow> propOf b f = VBool v"
  by (auto simp: requireBooleanField_def split: jsval.splits)

lemma requireEnumField_Inr:
  "requireEnumField b f vs = Inr s \<longleftrightarrow> propOf b f = VStr s \<and> s \<in> set vs"
  by (auto simp: requireEnumField_def split: jsval.splits if_splits)

lemma requireStringArrayField_Inr:
  "requireStringArrayField h b f lo hi = Inr ss \<longleftrightarrow>
   deref h (propOf b f) = Some (OArr (map (\<lambda>s. Some (VStr s)) ss)) \<and>
   lo \<le> length ss \<and> length ss \<le> hi \<and> [] \<notin> set ss" (is "?l \<longleftrightarrow> ?r")
proof -
  have e: "entryString f x = Inr s \<longleftrightarrow> x = Some (VStr s) \<and> s \<noteq> []" for x s
    by (auto simp: entryString_def split: option.splits jsval.splits if_splits)
  have m: "mapR (entryString f) xs = Inr ss \<longleftrightarrow> xs = map (\<lambda>s. Some (VStr s)) ss \<and> [] \<notin> set ss" for xs
  proof (induction xs arbitrary: ss)
    case (Cons x xs)
    then show ?case by (cases ss) (auto simp: res_simps e)
  qed auto
  show ?thesis
    by (auto simp: requireStringArrayField_def m split: option.splits obj.splits)
qed

lemma requireIdempotencyKey_Inr: "requireIdempotencyKey raw = Inr s \<Longrightarrow> idempotencyKeyPattern s"
  by (auto simp: requireIdempotencyKey_def Let_def split: header.splits list.splits if_splits)

text \<open>An idempotency key is one path-safe token of at most 200 characters.\<close>

lemma idempotencyKeyPattern_bounds:
  "idempotencyKeyPattern s \<Longrightarrow> 1 \<le> length s \<and> length s \<le> 200 \<and> list_all keyChar s"
  by (cases s) (auto simp: keyChar_def)

text \<open>The property map a default's body must have.\<close>

fun defaultBody :: "DdlColumnDefault \<Rightarrow> string \<rightharpoonup> jsval" where
  "defaultBody DefNone = [''kind'' \<mapsto> VStr ''none'']"
| "defaultBody DefCurrentTimestamp = [''kind'' \<mapsto> VStr ''current_timestamp'']"
| "defaultBody DefRandomUuid = [''kind'' \<mapsto> VStr ''random_uuid'']"
| "defaultBody (DefLiteral v) = [''kind'' \<mapsto> VStr ''literal'', ''value'' \<mapsto> v]"

lemma propOf_map_of: "propOf ps k = v \<Longrightarrow> v \<noteq> VUndef \<Longrightarrow> map_of ps k = Some v"
  by (auto simp: propOf_def split: option.splits)

lemma map_of_keys: "set (map fst ps) \<subseteq> ks \<Longrightarrow> k \<notin> ks \<Longrightarrow> map_of ps k = None"
  by (auto simp: map_of_eq_None_iff)

lemma mapColumnDefault_body:
  assumes "mapColumnDefault h v f = Inr d"
  shows "map_of (ownProps h v) = defaultBody d"
proof -
  from assms obtain kind where s: "getPlainObjectBody h v = Some (ownProps h v)"
    "propOf (ownProps h v) ''kind'' = VStr kind" "kind \<in> set DEFAULT_KINDS"
    "set (map fst (ownProps h v)) \<subseteq> set (if kind = ''literal'' then [''kind'', ''value''] else [''kind''])"
    by (auto simp: mapColumnDefault_def res_simps requireEnumField_Inr rejectUnknownFields_Inr
        getPlainObjectBody_def split: option.splits if_splits)
  have k: "map_of (ownProps h v) ''kind'' = Some (VStr kind)" using s(2) by (rule propOf_map_of) simp
  show ?thesis
  proof (cases "kind = ''literal''")
    case True
    with assms s obtain x where d: "d = DefLiteral x" "propOf (ownProps h v) ''value'' = x" "jsonPrimitive x"
      by (auto simp: mapColumnDefault_def res_simps requireEnumField_Inr rejectUnknownFields_Inr Let_def
          split: if_splits)
    then have "map_of (ownProps h v) ''value'' = Some x" by (intro propOf_map_of) auto
    with k True d s(4) map_of_keys [of "ownProps h v" "{''kind'', ''value''}"] show ?thesis
      by (auto simp: fun_eq_iff)
  next
    case False
    with assms s k map_of_keys [of "ownProps h v" "{''kind''}"] show ?thesis
      by (auto simp: mapColumnDefault_def res_simps requireEnumField_Inr rejectUnknownFields_Inr fun_eq_iff
          split: if_splits)
  qed
qed

lemma mapColumnSpec_Inr:
  assumes "mapColumnSpec h v f = Inr s"
  shows "set (objectKeys h v) \<subseteq> {''name'', ''type'', ''nullable'', ''default''} \<and>
    propOf (ownProps h v) ''name'' = VStr (cs_name s) \<and> cs_name s \<noteq> [] \<and>
    propOf (ownProps h v) ''type'' = VStr (cs_type s) \<and> cs_type s \<in> set DDL_COLUMN_TYPES \<and>
    propOf (ownProps h v) ''nullable'' = VBool (cs_nullable s) \<and>
    map_of (ownProps h (propOf (ownProps h v) ''default'')) = defaultBody (cs_default s)"
  using assms
  by (auto simp: mapColumnSpec_def res_simps rejectUnknownFields_Inr requireStringField_Inr
      requireEnumField_Inr requireBooleanField_Inr getPlainObjectBody_def
      dest!: mapColumnDefault_body split: option.splits if_splits)

section \<open>Properties\<close>

text \<open>The operator gate opens exactly for a request within its limit whose bearer token hashes to the
  configured digest; the limit is counted before the token is looked at.\<close>
theorem operator_gate_exact:
  assumes "check opt now (''admin:'' @ endpoint @ '':'' @ rq_ip req) m = (limit, m')"
  shows "fst (rejectUnlessAdminOperator h sh digest opt now endpoint req rp m) = m' \<and>
    (snd (rejectUnlessAdminOperator h sh digest opt now endpoint req rp m) = None \<longleftrightarrow>
     allowed limit \<and> digest \<noteq> [] \<and>
     (\<exists>token. extractBearerToken (rq_authorization req) = Some token \<and> sh (utf8 token) = digest))"
  using assms by (auto simp: rejectUnlessAdminOperator_def verifyOperatorToken_iff split: option.splits)

theorem operator_gate_exact_witness:
  "\<exists>m'. rejectUnlessAdminOperator [] id (utf8 ''op'') defaultRateLimiterOptions 0 ''history''
      \<lparr>rq_ip = ''::1'', rq_authorization = HOne ''Bearer op'', rq_table = [], rq_id = [], rq_limit = QAbsent,
       rq_offset = QAbsent, rq_body = VNull\<rparr> freshReply [] = (m', None)"
proof -
  let ?r = "\<lparr>rq_ip = ''::1'', rq_authorization = HOne ''Bearer op'', rq_table = [], rq_id = [], rq_limit = QAbsent,
       rq_offset = QAbsent, rq_body = VNull\<rparr> :: request"
  let ?c = "check defaultRateLimiterOptions 0 (''admin:'' @ ''history'' @ '':'' @ rq_ip ?r) []"
  have "allowed (fst ?c)" "utf8 ''op'' \<noteq> []"
    "extractBearerToken (rq_authorization ?r) = Some ''op''" by code_simp+
  then have "snd (rejectUnlessAdminOperator [] id (utf8 ''op'') defaultRateLimiterOptions 0 ''history'' ?r
      freshReply []) = None"
    using operator_gate_exact [OF surjective_pairing, of "[]" id "utf8 ''op''" defaultRateLimiterOptions 0
        "''history''" ?r freshReply "[]"] by auto
  then show ?thesis by (metis prod.collapse)
qed

text \<open>A column default determines its body: two request bodies that are mapped to the same default
  have the same properties, so no part of a body is silently ignored.\<close>
theorem column_default_injective:
  assumes "mapColumnDefault h v f = Inr d" and "mapColumnDefault h v' f' = Inr d"
  shows "map_of (ownProps h v) = map_of (ownProps h v') \<and> map_of (ownProps h v) = defaultBody d"
  using mapColumnDefault_body [OF assms(1)] mapColumnDefault_body [OF assms(2)] by simp

theorem column_default_injective_witness:
  "map_of (ownProps [OObj ObjectProto [(''kind'', VStr ''literal''), (''value'', VBool True)]] (VRef 0)) =
   defaultBody (DefLiteral (VBool True))"
proof -
  have "mapColumnDefault [OObj ObjectProto [(''kind'', VStr ''literal''), (''value'', VBool True)]] (VRef 0)
      ''default'' = Inr (DefLiteral (VBool True))" by code_simp
  from column_default_injective [OF this this] show ?thesis by blast
qed

text \<open>A column specification is mapped field by field: only the four known fields occur, the name is
  not empty, the type is one of the allowed column types, and the default is the body's default.\<close>
theorem column_spec_exact:
  assumes "mapColumnSpec h v f = Inr s"
  shows "set (objectKeys h v) \<subseteq> {''name'', ''type'', ''nullable'', ''default''} \<and>
    propOf (ownProps h v) ''name'' = VStr (cs_name s) \<and> cs_name s \<noteq> [] \<and>
    propOf (ownProps h v) ''type'' = VStr (cs_type s) \<and> cs_type s \<in> set DDL_COLUMN_TYPES \<and>
    propOf (ownProps h v) ''nullable'' = VBool (cs_nullable s) \<and>
    map_of (ownProps h (propOf (ownProps h v) ''default'')) = defaultBody (cs_default s)"
  by (rule mapColumnSpec_Inr [OF assms])

theorem column_spec_exact_witness:
  "\<exists>s. mapColumnSpec [OObj ObjectProto [(''name'', VStr ''body''), (''type'', VStr ''text''),
        (''nullable'', VBool True), (''default'', VRef 1)], OObj ObjectProto [(''kind'', VStr ''none'')]]
      (VRef 0) ''column'' = Inr s \<and> cs_type s \<in> set DDL_COLUMN_TYPES"
proof -
  let ?m = "mapColumnSpec [OObj ObjectProto [(''name'', VStr ''body''), (''type'', VStr ''text''),
        (''nullable'', VBool True), (''default'', VRef 1)], OObj ObjectProto [(''kind'', VStr ''none'')]]
      (VRef 0) ''column''"
  have "case ?m of Inl e \<Rightarrow> False | Inr s \<Rightarrow> True" by code_simp
  then obtain s where "?m = Inr s" by (auto split: sum.splits)
  with column_spec_exact [OF this] show ?thesis by blast
qed

end
