(* ===== verification/OperationLog.thy ===== *)
theory OperationLog
  imports JsonText TableRegistry Tokens
begin

text \<open>
  The durable schema-operation log of \<open>src/database/schema-operation-log.ts\<close>: one row per
  idempotency key, with the replay, conflict and retry rules of \<open>begin\<close>.  The query capability is an
  argument, as in the source; SHA-256 and the process-local HMAC are parameters.
\<close>

datatype SchemaOperationStatus = Running | Succeeded | Failed

fun statusText :: "SchemaOperationStatus \<Rightarrow> string" where
  "statusText Running = ''running''"
| "statusText Succeeded = ''succeeded''"
| "statusText Failed = ''failed''"

record SchemaOperationRecord =
  so_id :: int
  so_key :: string
  so_commandType :: string
  so_command :: jsval
  so_checksum :: string
  so_status :: SchemaOperationStatus
  so_actorFingerprint :: string
  so_errorCode :: "string option"
  so_result :: jsval
  so_createdAt :: jsval
  so_finishedAt :: jsval

datatype SchemaOperationBeginOutcome =
    Accepted SchemaOperationRecord bool
  | Replay SchemaOperationRecord
  | InProgress SchemaOperationRecord

subsection \<open>The statements\<close>

definition RECORD_COLUMNS :: string where
  "RECORD_COLUMNS =
     ''id, idempotency_key, command_type, command, checksum, status, '' @
     ''actor_fingerprint, error_code, result, created_at, finished_at''"

definition INSERT_SQL :: string where
  "INSERT_SQL =
     ''INSERT INTO microjbase.schema_operations '' @
     ''(idempotency_key, command_type, command, checksum, status, actor_fingerprint) '' @
     ''VALUES ($1, $2, $3::jsonb, $4, '' @ sq ''running'' @ '', $5) '' @
     ''ON CONFLICT (idempotency_key) DO NOTHING RETURNING '' @ RECORD_COLUMNS"

definition SELECT_BY_KEY_SQL :: string where
  "SELECT_BY_KEY_SQL =
     ''SELECT '' @ RECORD_COLUMNS @
     '' FROM microjbase.schema_operations WHERE idempotency_key = $1''"

definition RESTART_FAILED_SQL :: string where
  "RESTART_FAILED_SQL =
     ''UPDATE microjbase.schema_operations SET status = '' @ sq ''running'' @
     '', error_code = NULL, finished_at = NULL WHERE id = $1 AND status = '' @ sq ''failed'' @
     '' RETURNING '' @ RECORD_COLUMNS"

definition SUCCEED_SQL :: string where
  "SUCCEED_SQL =
     ''UPDATE microjbase.schema_operations SET status = '' @ sq ''succeeded'' @
     '', result = $2::jsonb, finished_at = now() WHERE id = $1 AND status = '' @ sq ''running'' @
     '' RETURNING id''"

definition FAIL_SQL :: string where
  "FAIL_SQL =
     ''UPDATE microjbase.schema_operations SET status = '' @ sq ''failed'' @
     '', error_code = $2, finished_at = now() WHERE id = $1 AND status = '' @ sq ''running'' @
     '' RETURNING id''"

definition LIST_SQL :: string where
  "LIST_SQL =
     ''SELECT '' @ RECORD_COLUMNS @
     '' FROM microjbase.schema_operations ORDER BY id DESC LIMIT $1 OFFSET $2''"

definition SELECT_BY_ID_SQL :: string where
  "SELECT_BY_ID_SQL =
     ''SELECT '' @ RECORD_COLUMNS @ '' FROM microjbase.schema_operations WHERE id = $1''"

subsection \<open>Checksum and fingerprint\<close>

definition toHex :: "bytes \<Rightarrow> string" where
  "toHex bs = concat (map (\<lambda>b. [hexDigit (unat b div 16), hexDigit (unat b mod 16)]) bs)"

definition sha256Hex :: "(bytes \<Rightarrow> bytes) \<Rightarrow> string \<Rightarrow> string" where
  "sha256Hex sha input = toHex (sha (utf8 input))"

text \<open>The text that is hashed: the command type, the canonical command and the statement list.\<close>

definition checksumText :: "string \<Rightarrow> json \<Rightarrow> string list \<Rightarrow> string" where
  "checksumText commandType command statements =
     ''v1|'' @ commandType @ ''|'' @ canonicalJson command @ ''|'' @ jsonStrings statements"

definition computeOperationChecksum ::
  "(bytes \<Rightarrow> bytes) \<Rightarrow> string \<Rightarrow> json \<Rightarrow> string list option \<Rightarrow> string" where
  "computeOperationChecksum sha commandType command statements =
     sha256Hex sha (checksumText commandType command
       (case statements of None \<Rightarrow> [] | Some ss \<Rightarrow> ss))"

definition computeActorFingerprint :: "(bytes \<Rightarrow> bytes) \<Rightarrow> string \<Rightarrow> string" where
  "computeActorFingerprint hmac actor =
     toHex (hmac (utf8 (''v1|actor|'' @ toLowerCase (trim actor))))"

subsection \<open>Decoding a row\<close>

definition malformedRecord :: "string \<Rightarrow> thrown" where
  "malformedRecord reason =
     AppErr (mkErr INTERNAL_ERROR (''Malformed schema operation record: '' @ reason) 500 None)"

definition requireString :: "jsval \<Rightarrow> string \<Rightarrow> thrown + string" where
  "requireString value field =
     (case value of
        VStr s \<Rightarrow> if s = [] then Inl (malformedRecord (field @ '' must be a non-empty string'')) else Inr s
      | _ \<Rightarrow> Inl (malformedRecord (field @ '' must be a non-empty string'')))"

definition mapStatus :: "jsval \<Rightarrow> thrown + SchemaOperationStatus" where
  "mapStatus v =
     bindR (requireString v ''status'') (\<lambda>status.
       if status = ''running'' then Inr Running
       else if status = ''succeeded'' then Inr Succeeded
       else if status = ''failed'' then Inr Failed
       else Inl (malformedRecord (''status '' @ inQuotes status @ '' is unknown'')))"

text \<open>\<open>Number.isSafeInteger\<close>, and the integer.\<close>

definition safeInteger :: "jnum \<Rightarrow> int option" where
  "safeInteger n = intInRange (- 9007199254740991) 9007199254740991 (VNum n)"

definition recordId :: "jsval \<Rightarrow> thrown + int" where
  "recordId v =
     (let n = (case v of
                 VNum n \<Rightarrow> safeInteger n
               | VStr s \<Rightarrow> if s \<noteq> [] \<and> list_all isDigit s then safeInteger (strToNumber s) else None
               | _ \<Rightarrow> None)
      in (case n of None \<Rightarrow> Inl (malformedRecord ''id must be an integer'') | Some i \<Rightarrow> Inr i))"

definition isJsonObject :: "heap \<Rightarrow> jsval \<Rightarrow> bool" where
  "isJsonObject h v \<longleftrightarrow> v \<noteq> VNull \<and> typeofObject v \<and> \<not> isArray h v"

definition resultOk :: "heap \<Rightarrow> jsval \<Rightarrow> bool" where
  "resultOk h v \<longleftrightarrow>
     v = VNull \<or> typeofObject v \<and> \<not> isArray h v \<or>
     (case v of VStr s \<Rightarrow> True | VNum n \<Rightarrow> True | VBool b \<Rightarrow> True | _ \<Rightarrow> False)"

definition mapOperationRow :: "heap \<Rightarrow> (string \<times> jsval) list \<Rightarrow> thrown + SchemaOperationRecord" where
  "mapOperationRow h r =
     bindR (mapStatus (propOf r ''status'')) (\<lambda>status.
     bindR (recordId (propOf r ''id'')) (\<lambda>i.
     let command = propOf r ''command''; res = propOf r ''result'';
         created = propOf r ''created_at''; finished = propOf r ''finished_at''
     in if \<not> isJsonObject h command then Inl (malformedRecord ''command must be a JSON object'')
        else if \<not> resultOk h res then Inl (malformedRecord ''result must be JSON or null'')
        else if dateOf h created = None then Inl (malformedRecord ''created_at must be a timestamp'')
        else if finished \<noteq> VNull \<and> dateOf h finished = None then
          Inl (malformedRecord ''finished_at must be a timestamp or null'')
        else
          bindR (requireString (propOf r ''idempotency_key'') ''idempotency_key'') (\<lambda>key.
          bindR (requireString (propOf r ''command_type'') ''command_type'') (\<lambda>ct.
          bindR (requireString (propOf r ''checksum'') ''checksum'') (\<lambda>cs.
          bindR (requireString (propOf r ''actor_fingerprint'') ''actor_fingerprint'') (\<lambda>fp.
            Inr \<lparr>so_id = i, so_key = key, so_commandType = ct, so_command = command,
                 so_checksum = cs, so_status = status, so_actorFingerprint = fp,
                 so_errorCode = (case propOf r ''error_code'' of VStr e \<Rightarrow> Some e | _ \<Rightarrow> None),
                 so_result = res, so_createdAt = created, so_finishedAt = finished\<rparr>))))))"

subsection \<open>Input validation\<close>

definition alnumChar :: "char \<Rightarrow> bool" where
  "alnumChar c \<longleftrightarrow> isUpperAZ c \<or> isLowerAZ c \<or> isDigit c"

fun logKeyPattern :: "string \<Rightarrow> bool" where
  "logKeyPattern [] = False"
| "logKeyPattern (c # cs) =
     (alnumChar c \<and> list_all (\<lambda>d. alnumChar d \<or> d = CHR ''.'' \<or> d = CHR ''_'' \<or> d = CHR ''-'') cs)"

definition invalidArgument :: "string \<Rightarrow> thrown" where
  "invalidArgument message = AppErr (mkErr VALIDATION_ERROR message 400 None)"

definition validateIdempotencyKey :: "string \<Rightarrow> thrown + unit" where
  "validateIdempotencyKey key =
     (if length key = 0 \<or> 200 < length key \<or> \<not> logKeyPattern key then
        Inl (invalidArgument (''idempotencyKey must start with an alphanumeric character and contain only letters, digits, '' @
          sq ''.'' @ '', '' @ sq ''_'' @ '' or '' @ sq ''-''))
      else Inr ())"

fun commandTypePattern :: "string \<Rightarrow> bool" where
  "commandTypePattern [] = False"
| "commandTypePattern (c # cs) =
     (isLowerAZ c \<and> length cs \<le> 63 \<and>
      list_all (\<lambda>d. isLowerAZ d \<or> isDigit d \<or> d = CHR ''_'' \<or> d = CHR ''.'' \<or> d = CHR ''-'') cs)"

definition validateCommandType :: "string \<Rightarrow> thrown + unit" where
  "validateCommandType commandType =
     (if \<not> commandTypePattern commandType then
        Inl (invalidArgument ''commandType must match the typed command naming pattern'')
      else Inr ())"

definition validateCommand :: "json \<Rightarrow> thrown + unit" where
  "validateCommand command =
     (case command of JObj ps \<Rightarrow> Inr () | _ \<Rightarrow> Inl (invalidArgument ''command must be a JSON object''))"

definition validateActor :: "string \<Rightarrow> thrown + unit" where
  "validateActor actor =
     (if length (trim actor) = 0 \<or> 200 < length actor then
        Inl (invalidArgument ''actor must be a non-empty string'')
      else Inr ())"

fun errorCodePattern :: "string \<Rightarrow> bool" where
  "errorCodePattern [] = False"
| "errorCodePattern (c # cs) =
     (isUpperAZ c \<and> length cs \<le> 40 \<and>
      list_all (\<lambda>d. isUpperAZ d \<or> isDigit d \<or> d = CHR ''_'') cs)"

subsection \<open>The operations\<close>

record log_env =
  le_runtime :: runtime
  le_sha :: "bytes \<Rightarrow> bytes"
  le_hmac :: "bytes \<Rightarrow> bytes" \<comment> \<open>HMAC-SHA-256 under the process-local secret\<close>
  le_query :: queryOp

definition queryRow :: "log_env \<Rightarrow> string \<Rightarrow> jsval list \<Rightarrow> qresult io" where
  "queryRow L sql values =
     catchM (le_query L sql values) (\<lambda>error. throwM (AppErr (translatePoolError (le_runtime L) error)))"

definition logGet :: "log_env \<Rightarrow> string \<Rightarrow> SchemaOperationRecord option io" where
  "logGet L key =
     bindM (liftR (validateIdempotencyKey key)) (\<lambda>_.
     bindM (queryRow L SELECT_BY_KEY_SQL [VStr key]) (\<lambda>result.
       (case row0 result of
          None \<Rightarrow> returnM None
        | Some r \<Rightarrow> liftR (bindR (mapOperationRow (heap (le_runtime L)) r) (\<lambda>x. Inr (Some x))))))"

definition getById :: "log_env \<Rightarrow> int \<Rightarrow> SchemaOperationRecord io" where
  "getById L i =
     bindM (queryRow L SELECT_BY_ID_SQL [VNum (JFin (of_int i))]) (\<lambda>result.
       (case row0 result of
          None \<Rightarrow> throwM (malformedRecord (''operation '' @ intStr i @ '' is missing''))
        | Some r \<Rightarrow> liftR (mapOperationRow (heap (le_runtime L)) r)))"

definition keyConflict :: "string \<Rightarrow> string \<Rightarrow> thrown" where
  "keyConflict message key =
     AppErr (mkErr CONFLICT message 409 (Some [(''idempotencyKey'', dstr key)]))"

text \<open>The retry loop; its argument counts the attempts left (four at the start).\<close>

fun retryFailed :: "nat \<Rightarrow> log_env \<Rightarrow> SchemaOperationRecord \<Rightarrow> SchemaOperationBeginOutcome io" where
  "retryFailed 0 L record =
     throwM (keyConflict ''Operation retry is already being claimed by another caller'' (so_key record))"
| "retryFailed (Suc n) L record =
     bindM (queryRow L RESTART_FAILED_SQL [VNum (JFin (of_int (so_id record)))]) (\<lambda>restartResult.
       (case row0 restartResult of
          Some restarted \<Rightarrow>
            bindM (liftR (mapOperationRow (heap (le_runtime L)) restarted)) (\<lambda>r. returnM (Accepted r True))
        | None \<Rightarrow>
            bindM (logGet L (so_key record)) (\<lambda>latest.
              (case latest of
                 None \<Rightarrow> throwM (malformedRecord ''record disappeared during retry'')
               | Some l \<Rightarrow>
                   if so_status l = Succeeded then returnM (Replay l)
                   else if so_status l = Running then returnM (InProgress l)
                   else retryFailed n L record))))"

definition classifyExisting ::
  "log_env \<Rightarrow> SchemaOperationRecord \<Rightarrow> string \<Rightarrow> SchemaOperationBeginOutcome io" where
  "classifyExisting L record checksum =
     (if so_checksum record \<noteq> checksum then
        throwM (keyConflict ''Idempotency key was already used with a different operation'' (so_key record))
      else if so_status record = Succeeded then returnM (Replay record)
      else if so_status record = Running then returnM (InProgress record)
      else retryFailed 4 L record)"

record BeginOperationInput =
  bo_key :: string
  bo_commandType :: string
  bo_command :: json
  bo_actor :: string
  bo_statements :: "string list option"

definition logBegin :: "log_env \<Rightarrow> BeginOperationInput \<Rightarrow> SchemaOperationBeginOutcome io" where
  "logBegin L input =
     bindM (liftR (validateIdempotencyKey (bo_key input))) (\<lambda>_.
     bindM (liftR (validateCommandType (bo_commandType input))) (\<lambda>_.
     bindM (liftR (validateCommand (bo_command input))) (\<lambda>_.
     bindM (liftR (validateActor (bo_actor input))) (\<lambda>_.
     let checksum = computeOperationChecksum (le_sha L) (bo_commandType input) (bo_command input)
                      (bo_statements input);
         fingerprint = computeActorFingerprint (le_hmac L) (bo_actor input)
     in
     bindM (queryRow L INSERT_SQL
              [VStr (bo_key input), VStr (bo_commandType input),
               VStr (jsonStringify (bo_command input)), VStr checksum, VStr fingerprint]) (\<lambda>insertedResult.
       (case row0 insertedResult of
          Some inserted \<Rightarrow>
            bindM (liftR (mapOperationRow (heap (le_runtime L)) inserted)) (\<lambda>r.
              returnM (Accepted r False))
        | None \<Rightarrow>
            bindM (logGet L (bo_key input)) (\<lambda>existing.
              (case existing of
                 None \<Rightarrow> throwM (malformedRecord ''insert conflicted but no record is visible'')
               | Some record \<Rightarrow> classifyExisting L record checksum))))))))"

definition notRunning :: "int \<Rightarrow> thrown" where
  "notRunning i = malformedRecord (''operation '' @ intStr i @ '' is not running'')"

definition logSucceed :: "log_env \<Rightarrow> int \<Rightarrow> json \<Rightarrow> SchemaOperationRecord io" where
  "logSucceed L i res =
     bindM (queryRow L SUCCEED_SQL [VNum (JFin (of_int i)), VStr (jsonStringify res)]) (\<lambda>outcome.
       if qr_rows outcome = [] then throwM (notRunning i) else getById L i)"

definition logFail :: "log_env \<Rightarrow> int \<Rightarrow> string \<Rightarrow> SchemaOperationRecord io" where
  "logFail L i errorCode =
     (if \<not> errorCodePattern errorCode then
        throwM (invalidArgument ''errorCode must be a stable uppercase error code'')
      else
        bindM (queryRow L FAIL_SQL [VNum (JFin (of_int i)), VStr errorCode]) (\<lambda>outcome.
          if qr_rows outcome = [] then throwM (notRunning i) else getById L i))"

text \<open>\<open>Math.floor\<close> and \<open>Math.min\<close> on the limit; infinities pass through.\<close>

definition jsFloor :: "jnum \<Rightarrow> jnum" where
  "jsFloor n = (case n of JFin q \<Rightarrow> JFin (of_int \<lfloor>q\<rfloor>) | _ \<Rightarrow> n)"

definition jsMin :: "jnum \<Rightarrow> rat \<Rightarrow> jnum" where
  "jsMin n b =
     (case n of
        JFin q \<Rightarrow> JFin (min q b)
      | JNaN \<Rightarrow> JNaN
      | JInf pos \<Rightarrow> if pos then JFin b else JInf False)"

definition listBound :: "int \<Rightarrow> jnum \<Rightarrow> string \<Rightarrow> thrown + jnum" where
  "listBound lo n message =
     (case n of
        JFin q \<Rightarrow> if of_int \<lfloor>q\<rfloor> = q \<and> of_int lo \<le> q then Inr (JFin q) else Inl (invalidArgument message)
      | _ \<Rightarrow> Inl (invalidArgument message))"

definition logList ::
  "log_env \<Rightarrow> jnum option \<Rightarrow> jnum option \<Rightarrow> SchemaOperationRecord list io" where
  "logList L limitOpt offsetOpt =
     (let limit = (case limitOpt of None \<Rightarrow> JFin 50 | Some n \<Rightarrow> jsMin (jsFloor n) 500);
          offset = (case offsetOpt of None \<Rightarrow> JFin 0 | Some n \<Rightarrow> jsFloor n)
      in
      bindM (liftR (listBound 1 limit ''limit must be a positive integer'')) (\<lambda>lim.
      bindM (liftR (listBound 0 offset ''offset must be a non-negative integer'')) (\<lambda>off.
      bindM (queryRow L LIST_SQL [VNum lim, VNum off]) (\<lambda>result.
        liftR (mapR (mapOperationRow (heap (le_runtime L))) (qr_rows result))))))"

subsection \<open>The startup probe\<close>

definition REQUIRED_OPERATION_LOG_PRIVILEGES :: "(bool \<times> string \<times> string) list" where
  "REQUIRED_OPERATION_LOG_PRIVILEGES =
     [(True, ''microjbase.schema_operations'', ''INSERT''),
      (True, ''microjbase.schema_operations'', ''UPDATE''),
      (False, ''microjbase.schema_operations_id_seq'', ''USAGE'')]"

definition missingPrivilege :: "string \<Rightarrow> string \<Rightarrow> thrown" where
  "missingPrivilege name privilege =
     unavailable (''Schema-admin database role is missing required privilege '' @ privilege @ '' on '' @ name)
       [(''object'', dstr name), (''privilege'', dstr privilege)]"

definition checkPrivilege :: "queryOp \<Rightarrow> bool \<times> string \<times> string \<Rightarrow> unit io" where
  "checkPrivilege query = (\<lambda>(isTable, name, privilege).
     bindM (query (''SELECT '' @ (if isTable then ''has_table_privilege'' else ''has_sequence_privilege'') @
                   ''(current_user, $1, $2) AS has'') [VStr name, VStr privilege]) (\<lambda>result.
       (case row0 result of
          Some r \<Rightarrow> if truthy (propOf r ''has'') then returnM () else throwM (missingPrivilege name privilege)
        | None \<Rightarrow> throwM (missingPrivilege name privilege))))"

fun checkPrivileges :: "queryOp \<Rightarrow> (bool \<times> string \<times> string) list \<Rightarrow> unit io" where
  "checkPrivileges query [] = returnM ()"
| "checkPrivileges query (p # ps) = bindM (checkPrivilege query p) (\<lambda>_. checkPrivileges query ps)"

definition checkSchemaOperationLogWriteAccess :: "queryOp \<Rightarrow> unit io" where
  "checkSchemaOperationLogWriteAccess query = checkPrivileges query REQUIRED_OPERATION_LOG_PRIVILEGES"

subsection \<open>What a checksum covers\<close>

lemma canonicalJson_norm: "canonicalJson (normJson j) = canonicalJson j"
proof (induction j)
  case (JArr js)
  then have "elementText (map_option normJson x) = elementText x" if "x \<in> set js" for x
    using that by (cases x) (auto simp: elementText_def)
  then have "map elementText (map (map_option normJson) js) = map elementText js" by simp
  then show ?case unfolding normJson.simps canonicalJson_texts by (simp only:)
next
  case (JObj ps)
  have s: "sort_key fst (map (\<lambda>m. (fst m, normJson (snd m))) (sort_key fst ps)) =
      map (\<lambda>m. (fst m, normJson (snd m))) (sort_key fst ps)"
    by (rule sort_key_id_if_sorted) (simp add: comp_def)
  have "canonicalJson (normJson (snd m)) = canonicalJson (snd m)" if "m \<in> set ps" for m
    using JObj [of m "snd m"] that by (auto simp: prod_set_simps intro: snds.intros)
  then have "map memberText (map (\<lambda>m. (fst m, normJson (snd m))) (sort_key fst ps)) =
      map memberText (sort_key fst ps)"
    by (simp add: memberText_def)
  then show ?case unfolding canonicalJson_JObj(2) canonicalJson_texts case_prod_unfold s
    by (simp only:)
qed simp_all

lemma commandTypePattern_no_bar: "commandTypePattern t \<Longrightarrow> CHR ''|'' \<notin> set t"
  by (cases t) (auto simp: list_all_iff char_class_defs)

lemma bar_cancel:
  "x \<notin> set s \<Longrightarrow> x \<notin> set t \<Longrightarrow> s @ x # r = t @ x # r' \<longleftrightarrow> s = t \<and> r = r'"
proof (induction s arbitrary: t)
  case Nil
  then show ?case by (cases t) auto
next
  case (Cons a s)
  then show ?case by (cases t) auto
qed

text \<open>C36: The text under the checksum separates operations exactly: two of them have the same
  text if and only if they have the same command type, the same command up to the order of members, and
  the same statements in the same order.\<close>
theorem checksum_text_exact:
  assumes "commandTypePattern ct" and "commandTypePattern ct'" and "plainJson c" and "plainJson c'"
  shows "checksumText ct c ss = checksumText ct' c' ss' \<longleftrightarrow>
    ct = ct' \<and> normJson c = normJson c' \<and> ss = ss'"
proof
  assume eq: "checksumText ct c ss = checksumText ct' c' ss'"
  then have "ct @ CHR ''|'' # (canonicalJson c @ CHR ''|'' # jsonStrings ss) =
      ct' @ CHR ''|'' # (canonicalJson c' @ CHR ''|'' # jsonStrings ss')"
    by (simp add: checksumText_def)
  then have "ct = ct' \<and> canonicalJson c @ CHR ''|'' # jsonStrings ss = canonicalJson c' @ CHR ''|'' # jsonStrings ss'"
    unfolding bar_cancel [OF commandTypePattern_no_bar [OF assms(1)] commandTypePattern_no_bar [OF assms(2)]] .
  then have ct: "ct = ct'"
    and r: "canonicalJson c @ CHR ''|'' # jsonStrings ss = canonicalJson c' @ CHR ''|'' # jsonStrings ss'"
    by simp_all
  have "normJson c = normJson c' \<and> CHR ''|'' # jsonStrings ss = CHR ''|'' # jsonStrings ss'"
    by (rule canonicalJson_cancel) (use assms r in simp_all)
  with ct show "ct = ct' \<and> normJson c = normJson c' \<and> ss = ss'" using jsonStrings_inject by simp
next
  assume eq: "ct = ct' \<and> normJson c = normJson c' \<and> ss = ss'"
  have "canonicalJson c = canonicalJson (normJson c)" by (simp only: canonicalJson_norm)
  also have "\<dots> = canonicalJson c'" using eq by (simp only: canonicalJson_norm)
  finally show "checksumText ct c ss = checksumText ct' c' ss'" using eq by (simp add: checksumText_def)
qed

text \<open>Reordered members keep the text; swapped statements change it.\<close>

theorem checksum_text_exact_witness:
  "let c = JObj [(''table'', JStr ''notes''), (''expose'', JBool True)];
       d = JObj [(''expose'', JBool True), (''table'', JStr ''notes'')]
   in commandTypePattern ''create_table'' \<and> plainJson c \<and> plainJson d \<and>
      checksumText ''create_table'' c [''A'', ''B''] = checksumText ''create_table'' d [''A'', ''B''] \<and>
      checksumText ''create_table'' c [''A'', ''B''] \<noteq> checksumText ''create_table'' d [''B'', ''A'']"
proof -
  let ?c = "JObj [(''table'', JStr ''notes''), (''expose'', JBool True)]"
  let ?d = "JObj [(''expose'', JBool True), (''table'', JStr ''notes'')]"
  have t: "commandTypePattern ''create_table''" by code_simp
  have p: "plainJson ?c" "plainJson ?d" by code_simp+
  have n: "normJson ?c = normJson ?d" by code_simp
  note ex = checksum_text_exact [OF t t p]
  show ?thesis unfolding Let_def using t p n by (simp add: ex del: normJson.simps plainJson.simps commandTypePattern.simps)
qed

end
