(* ===== verification/OperationTable.thy ===== *)
theory OperationTable
  imports OperationLog
begin

text \<open>
  The table \<open>microjbase.schema_operations\<close> behind the operation log: what its statements do
  (migration 0005 and the documented semantics of \<open>INSERT .. ON CONFLICT\<close>, \<open>UPDATE .. RETURNING\<close>
  and \<open>SELECT\<close>, each atomic), the life of one idempotency key, and the operations of the log run
  against such a table while other clients run statements in between.
\<close>

subsection \<open>The statements\<close>

text \<open>What the driver makes of a stored JSON text and of a timestamp.\<close>

record op_server =
  sv_heap :: heap
  sv_json :: "string \<Rightarrow> jsval"
  sv_now :: "nat \<Rightarrow> jsval"

record op_table =
  ot_rows :: "SchemaOperationRecord list"
  ot_next :: int
  ot_clock :: nat

datatype opStmt =
    SInsert string string string string string
  | SSelectKey string
  | SRestart int
  | SSucceed int string
  | SFail int string
  | SSelectId int

definition nullOr :: "string option \<Rightarrow> jsval" where
  "nullOr x = (case x of None \<Rightarrow> VNull | Some s \<Rightarrow> VStr s)"

definition encodeRow :: "SchemaOperationRecord \<Rightarrow> (string \<times> jsval) list" where
  "encodeRow r =
     [(''id'', VStr (intStr (so_id r))), (''idempotency_key'', VStr (so_key r)),
      (''command_type'', VStr (so_commandType r)), (''command'', so_command r),
      (''checksum'', VStr (so_checksum r)), (''status'', VStr (statusText (so_status r))),
      (''actor_fingerprint'', VStr (so_actorFingerprint r)), (''error_code'', nullOr (so_errorCode r)),
      (''result'', so_result r), (''created_at'', so_createdAt r), (''finished_at'', so_finishedAt r)]"

definition rowsResult :: "(string \<times> jsval) list list \<Rightarrow> qresult" where
  "rowsResult rs = \<lparr>qr_rows = rs, qr_count = Some (length rs)\<rparr>"

definition newRow :: "op_server \<Rightarrow> op_table \<Rightarrow> string \<Rightarrow> string \<Rightarrow> string \<Rightarrow> string \<Rightarrow> string \<Rightarrow> SchemaOperationRecord" where
  "newRow S t k ty c cs fp =
     \<lparr>so_id = ot_next t, so_key = k, so_commandType = ty, so_command = sv_json S c, so_checksum = cs,
      so_status = Running, so_actorFingerprint = fp, so_errorCode = None, so_result = VNull,
      so_createdAt = sv_now S (ot_clock t), so_finishedAt = VNull\<rparr>"

definition keyUsed :: "op_table \<Rightarrow> string \<Rightarrow> bool" where
  "keyUsed t k \<longleftrightarrow> k \<in> set (map so_key (ot_rows t))"

text \<open>An update of the row with a given id, provided it has a given status.\<close>

definition hit :: "int \<Rightarrow> SchemaOperationStatus \<Rightarrow> SchemaOperationRecord \<Rightarrow> bool" where
  "hit i st r \<longleftrightarrow> so_id r = i \<and> so_status r = st"

definition updateRow ::
  "int \<Rightarrow> SchemaOperationStatus \<Rightarrow> (SchemaOperationRecord \<Rightarrow> SchemaOperationRecord) \<Rightarrow> op_table \<Rightarrow> op_table" where
  "updateRow i st f t =
     t\<lparr>ot_rows := map (\<lambda>r. if hit i st r then f r else r) (ot_rows t), ot_clock := Suc (ot_clock t)\<rparr>"

definition restartRow :: "SchemaOperationRecord \<Rightarrow> SchemaOperationRecord" where
  "restartRow r = r\<lparr>so_status := Running, so_errorCode := None, so_finishedAt := VNull\<rparr>"

definition succeedRow :: "op_server \<Rightarrow> op_table \<Rightarrow> string \<Rightarrow> SchemaOperationRecord \<Rightarrow> SchemaOperationRecord" where
  "succeedRow S t tx r =
     r\<lparr>so_status := Succeeded, so_result := sv_json S tx, so_finishedAt := sv_now S (ot_clock t)\<rparr>"

definition failRow :: "op_server \<Rightarrow> op_table \<Rightarrow> string \<Rightarrow> SchemaOperationRecord \<Rightarrow> SchemaOperationRecord" where
  "failRow S t code r =
     r\<lparr>so_status := Failed, so_errorCode := Some code, so_finishedAt := sv_now S (ot_clock t)\<rparr>"

definition idRow :: "SchemaOperationRecord \<Rightarrow> (string \<times> jsval) list" where
  "idRow r = [(''id'', VStr (intStr (so_id r)))]"

fun applyStmt :: "op_server \<Rightarrow> op_table \<Rightarrow> opStmt \<Rightarrow> op_table \<times> qresult" where
  "applyStmt S t (SInsert k ty c cs fp) =
     (if keyUsed t k then (t\<lparr>ot_next := ot_next t + 1\<rparr>, rowsResult [])
      else (let r = newRow S t k ty c cs fp
            in (t\<lparr>ot_rows := ot_rows t @ [r], ot_next := ot_next t + 1, ot_clock := Suc (ot_clock t)\<rparr>,
                rowsResult [encodeRow r])))"
| "applyStmt S t (SSelectKey k) =
     (t, rowsResult (map encodeRow (filter (\<lambda>r. so_key r = k) (ot_rows t))))"
| "applyStmt S t (SSelectId i) =
     (t, rowsResult (map encodeRow (filter (\<lambda>r. so_id r = i) (ot_rows t))))"
| "applyStmt S t (SRestart i) =
     (updateRow i Failed restartRow t,
      rowsResult (map (\<lambda>r. encodeRow (restartRow r)) (filter (hit i Failed) (ot_rows t))))"
| "applyStmt S t (SSucceed i tx) =
     (updateRow i Running (succeedRow S t tx) t,
      rowsResult (map idRow (filter (hit i Running) (ot_rows t))))"
| "applyStmt S t (SFail i code) =
     (updateRow i Running (failRow S t code) t,
      rowsResult (map idRow (filter (hit i Running) (ot_rows t))))"

fun runStmts :: "op_server \<Rightarrow> op_table \<Rightarrow> opStmt list \<Rightarrow> op_table" where
  "runStmts S t [] = t"
| "runStmts S t (s # ss) = runStmts S (fst (applyStmt S t s)) ss"

definition emptyTable :: op_table where
  "emptyTable = \<lparr>ot_rows = [], ot_next = 1, ot_clock = 0\<rparr>"

subsection \<open>The life of a key\<close>

datatype keyState = Unused | Claimed string | Done string | Broken string

fun stateOf :: "SchemaOperationRecord \<Rightarrow> keyState" where
  "stateOf r =
     (case so_status r of
        Running \<Rightarrow> Claimed (so_checksum r)
      | Succeeded \<Rightarrow> Done (so_checksum r)
      | Failed \<Rightarrow> Broken (so_checksum r))"

definition keyRow :: "op_table \<Rightarrow> string \<Rightarrow> SchemaOperationRecord option" where
  "keyRow t k = find (\<lambda>r. so_key r = k) (ot_rows t)"

definition absKey :: "op_table \<Rightarrow> string \<Rightarrow> keyState" where
  "absKey t k = (case keyRow t k of None \<Rightarrow> Unused | Some r \<Rightarrow> stateOf r)"

text \<open>One step of a key.\<close>

inductive keyMove :: "keyState \<Rightarrow> keyState \<Rightarrow> bool" where
  stay: "keyMove a a"
| claim: "keyMove Unused (Claimed c)"
| retry: "keyMove (Broken c) (Claimed c)"
| finish: "keyMove (Claimed c) (Done c)"
| break_off: "keyMove (Claimed c) (Broken c)"

inductive_simps keyMove_simps:
  "keyMove Unused b" "keyMove (Claimed c) b" "keyMove (Done c) b" "keyMove (Broken c) b"

fun stateChecksum :: "keyState \<Rightarrow> string option" where
  "stateChecksum Unused = None"
| "stateChecksum (Claimed c) = Some c"
| "stateChecksum (Done c) = Some c"
| "stateChecksum (Broken c) = Some c"

definition tableOk :: "op_table \<Rightarrow> bool" where
  "tableOk t \<longleftrightarrow>
     distinct (map so_key (ot_rows t)) \<and> distinct (map so_id (ot_rows t)) \<and>
     (\<forall>r\<in>set (ot_rows t). 1 \<le> so_id r \<and> so_id r < ot_next t) \<and> 1 \<le> ot_next t"

lemma tableOk_empty [simp]: "tableOk emptyTable"
  by (simp add: tableOk_def emptyTable_def)

lemma touched_fields [simp]:
  "so_id (restartRow r) = so_id r" "so_key (restartRow r) = so_key r" "so_checksum (restartRow r) = so_checksum r"
  "so_id (succeedRow S t x r) = so_id r" "so_key (succeedRow S t x r) = so_key r"
  "so_checksum (succeedRow S t x r) = so_checksum r"
  "so_id (failRow S t x r) = so_id r" "so_key (failRow S t x r) = so_key r" "so_checksum (failRow S t x r) = so_checksum r"
  "so_status (restartRow r) = Running" "so_status (succeedRow S t x r) = Succeeded" "so_status (failRow S t x r) = Failed"
  by (simp_all add: restartRow_def succeedRow_def failRow_def)

lemma updateRow_keys:
  assumes "\<And>r. so_key (f r) = so_key r" and "\<And>r. so_id (f r) = so_id r"
  shows "map so_key (ot_rows (updateRow i st f t)) = map so_key (ot_rows t)"
    and "map so_id (ot_rows (updateRow i st f t)) = map so_id (ot_rows t)"
    and "ot_next (updateRow i st f t) = ot_next t"
  by (simp_all add: updateRow_def assms)

lemma updateRow_ok:
  assumes "\<And>r. so_key (f r) = so_key r" and "\<And>r. so_id (f r) = so_id r" and "tableOk t"
  shows "tableOk (updateRow i st f t)"
proof -
  have "1 \<le> so_id r \<and> so_id r < ot_next t" if "r \<in> set (ot_rows (updateRow i st f t))" for r
    using that assms by (auto simp: tableOk_def updateRow_def)
  with assms(3) show ?thesis by (simp add: tableOk_def updateRow_keys assms(1,2))
qed

lemma applyStmt_ok: "tableOk t \<Longrightarrow> tableOk (fst (applyStmt S t s))"
proof (cases s)
  case (SInsert k ty c cs fp)
  assume ok: "tableOk t"
  then have "ot_next t \<notin> so_id ` set (ot_rows t)" by (auto simp: tableOk_def)
  with ok SInsert show ?thesis by (auto simp: tableOk_def keyUsed_def newRow_def Let_def)
qed (simp_all add: updateRow_ok)

lemma runStmts_ok: "tableOk t \<Longrightarrow> tableOk (runStmts S t ss)"
  by (induction ss arbitrary: t) (simp_all add: applyStmt_ok)

lemma find_key_map:
  assumes "\<And>r. so_key (g r) = so_key r"
  shows "find (\<lambda>r. so_key r = k) (map g rs) = map_option g (find (\<lambda>r. so_key r = k) rs)"
  by (induction rs) (simp_all add: assms)

lemma keyRow_update:
  assumes "\<And>r. so_key (f r) = so_key r"
  shows "keyRow (updateRow i st f t) k = map_option (\<lambda>r. if hit i st r then f r else r) (keyRow t k)"
  by (simp add: keyRow_def updateRow_def find_key_map assms)

lemma keyRow_Some: "keyRow t k = Some r \<Longrightarrow> r \<in> set (ot_rows t) \<and> so_key r = k"
  by (auto simp: keyRow_def find_Some_iff)

lemma keyRow_None: "keyRow t k = None \<longleftrightarrow> \<not> keyUsed t k"
  by (auto simp: keyRow_def keyUsed_def find_None_iff)

lemma find_append: "find P (xs @ ys) = (case find P xs of None \<Rightarrow> find P ys | Some x \<Rightarrow> Some x)"
  by (induction xs) simp_all

text \<open>Every statement moves every key by at most one step of its life.\<close>

lemma applyStmt_moves: "keyMove (absKey t k) (absKey (fst (applyStmt S t s)) k)"
proof (cases s)
  case (SInsert k' ty c cs fp)
  show ?thesis
  proof (cases "keyUsed t k'")
    case True
    then show ?thesis by (simp add: SInsert absKey_def keyRow_def keyMove.stay)
  next
    case False
    then have "keyRow t k' = None" by (simp add: keyRow_None)
    then show ?thesis using False
      by (cases "keyRow t k")
         (auto simp: SInsert absKey_def keyRow_def find_append newRow_def Let_def
          intro: keyMove.intros)
  qed
next
  case (SRestart i)
  then show ?thesis
    by (cases "keyRow t k") (auto simp: absKey_def keyRow_update hit_def intro: keyMove.intros)
next
  case (SSucceed i tx)
  then show ?thesis
    by (cases "keyRow t k") (auto simp: absKey_def keyRow_update hit_def intro: keyMove.intros)
next
  case (SFail i code)
  then show ?thesis
    by (cases "keyRow t k") (auto simp: absKey_def keyRow_update hit_def intro: keyMove.intros)
qed (simp_all add: keyMove.stay)

lemma runStmts_moves: "keyMove\<^sup>*\<^sup>* (absKey t k) (absKey (runStmts S t ss) k)"
proof (induction ss arbitrary: t)
  case (Cons s ss)
  show ?case using converse_rtranclp_into_rtranclp [OF applyStmt_moves Cons.IH] by simp
qed simp

lemma moves_checksum: "keyMove\<^sup>*\<^sup>* a b \<Longrightarrow> stateChecksum a = Some c \<Longrightarrow> stateChecksum b = Some c"
  by (induction rule: rtranclp_induct) (auto elim: keyMove.cases)

lemma moves_done: "keyMove\<^sup>*\<^sup>* (Done c) b \<Longrightarrow> b = Done c"
  by (induction rule: rtranclp_induct) (auto simp: keyMove_simps)

end
