(* ===== verification/OperationClaims.thy ===== *)
theory OperationClaims
  imports OperationTable
begin

text \<open>
  The operation log run against its table while other clients run statements in between: every
  \<open>begin\<close> takes effect at one of its own statements, as the life of the key prescribes, and at any
  time at most one accepted operation of a key is outstanding.
\<close>

subsection \<open>Rows are read back\<close>

definition recordOk :: "heap \<Rightarrow> SchemaOperationRecord \<Rightarrow> bool" where
  "recordOk h r \<longleftrightarrow>
     so_key r \<noteq> [] \<and> so_commandType r \<noteq> [] \<and> so_checksum r \<noteq> [] \<and> so_actorFingerprint r \<noteq> [] \<and>
     isJsonObject h (so_command r) \<and> resultOk h (so_result r) \<and> dateOf h (so_createdAt r) \<noteq> None \<and>
     (so_finishedAt r = VNull \<or> dateOf h (so_finishedAt r) \<noteq> None)"

lemma safeInteger_natStr:
  assumes "n \<le> 9007199254740991"
  shows "safeInteger (strToNumber (natStr n)) = Some (int n)"
proof -
  have d: "list_all isDigit (natStr n)" using natStr_digits by (simp add: list_all_iff)
  then have c: "list_all numChar (natStr n)" by (auto simp: list_all_iff numChar_def)
  have "isDigit (hd (natStr n))" using d by (cases "natStr n") auto
  then have "strToNumber (natStr n) = unsignedNumber (natStr n)"
    and i: "natStr n \<noteq> ''Infinity''"
    using strToNumber_unsigned [OF c] by (auto simp: char_class_defs)
  moreover have "decimalVal (natStr n) = Some (of_nat n)"
    using decimalVal_plain [OF d, of "[]" 0] by (simp add: pow10_def)
  moreover have "roundDouble (of_nat n) = JFin (of_nat n)"
    by (rule roundDouble_nat) (use assms in simp)
  ultimately have "strToNumber (natStr n) = JFin (of_int (int n))" by (simp add: unsignedNumber_def)
  then show ?thesis using assms by (simp only: safeInteger_def intInRange_of_int) simp
qed

lemma recordId_intStr:
  assumes "1 \<le> i" and "i \<le> 9007199254740991"
  shows "recordId (VStr (intStr i)) = Inr i"
proof -
  have "safeInteger (strToNumber (natStr (nat i))) = Some (int (nat i))"
    by (rule safeInteger_natStr) (use assms in simp)
  moreover have "list_all isDigit (natStr (nat i))" using natStr_digits by (simp add: list_all_iff)
  ultimately show ?thesis using assms by (simp add: recordId_def intStr_def)
qed

lemma mapStatus_text [simp]: "mapStatus (VStr (statusText st)) = Inr st"
  by (cases st) (simp_all add: mapStatus_def requireString_def)

lemma mapOperationRow_encode:
  assumes "recordOk h r" and "1 \<le> so_id r" and "so_id r \<le> 9007199254740991"
  shows "mapOperationRow h (encodeRow r) = Inr r"
  using assms recordId_intStr [OF assms(2,3)]
  by (cases "so_errorCode r")
     (auto simp: mapOperationRow_def encodeRow_def propOf_def recordOk_def requireString_def nullOr_def)

subsection \<open>A log against its table\<close>

text \<open>The statement an event carries.\<close>

definition stmtOf :: "string \<Rightarrow> jsval list \<Rightarrow> opStmt option" where
  "stmtOf sql vs =
     (if sql = INSERT_SQL then
        (case vs of [VStr k, VStr ty, VStr c, VStr cs, VStr fp] \<Rightarrow> Some (SInsert k ty c cs fp) | _ \<Rightarrow> None)
      else if sql = SELECT_BY_KEY_SQL then
        (case vs of [VStr k] \<Rightarrow> Some (SSelectKey k) | _ \<Rightarrow> None)
      else if sql = RESTART_FAILED_SQL then
        (case vs of [VNum (JFin q)] \<Rightarrow> Some (SRestart \<lfloor>q\<rfloor>) | _ \<Rightarrow> None)
      else if sql = SUCCEED_SQL then
        (case vs of [VNum (JFin q), VStr t] \<Rightarrow> Some (SSucceed \<lfloor>q\<rfloor> t) | _ \<Rightarrow> None)
      else if sql = FAIL_SQL then
        (case vs of [VNum (JFin q), VStr e] \<Rightarrow> Some (SFail \<lfloor>q\<rfloor> e) | _ \<Rightarrow> None)
      else if sql = SELECT_BY_ID_SQL then
        (case vs of [VNum (JFin q)] \<Rightarrow> Some (SSelectId \<lfloor>q\<rfloor>) | _ \<Rightarrow> None)
      else None)"

lemma statements_differ:
  "SELECT_BY_KEY_SQL \<noteq> INSERT_SQL" "RESTART_FAILED_SQL \<noteq> INSERT_SQL" "RESTART_FAILED_SQL \<noteq> SELECT_BY_KEY_SQL"
  "SUCCEED_SQL \<noteq> INSERT_SQL" "SUCCEED_SQL \<noteq> SELECT_BY_KEY_SQL" "SUCCEED_SQL \<noteq> RESTART_FAILED_SQL"
  "SELECT_BY_ID_SQL \<noteq> INSERT_SQL" "SELECT_BY_ID_SQL \<noteq> SELECT_BY_KEY_SQL" "SELECT_BY_ID_SQL \<noteq> RESTART_FAILED_SQL"
  "SELECT_BY_ID_SQL \<noteq> SUCCEED_SQL" "SELECT_BY_ID_SQL \<noteq> FAIL_SQL"
  by code_simp+

lemma stmtOf_simps [simp]:
  "stmtOf INSERT_SQL [VStr k, VStr ty, VStr c, VStr cs, VStr fp] = Some (SInsert k ty c cs fp)"
  "stmtOf SELECT_BY_KEY_SQL [VStr k] = Some (SSelectKey k)"
  "stmtOf RESTART_FAILED_SQL [VNum (JFin (of_int i))] = Some (SRestart i)"
  "stmtOf SUCCEED_SQL [VNum (JFin (of_int i)), VStr x] = Some (SSucceed i x)"
  "stmtOf SELECT_BY_ID_SQL [VNum (JFin (of_int i))] = Some (SSelectId i)"
  by (simp_all add: stmtOf_def statements_differ)

definition eventStmt :: "event \<Rightarrow> opStmt option" where
  "eventStmt ev = (case ev of EvQuery sql vs \<Rightarrow> stmtOf sql vs | _ \<Rightarrow> None)"

definition applyEvent :: "op_server \<Rightarrow> op_table \<Rightarrow> event \<Rightarrow> op_table" where
  "applyEvent S t ev = (case eventStmt ev of None \<Rightarrow> t | Some s \<Rightarrow> fst (applyStmt S t s))"

text \<open>
  The table a call sees after the history \<open>w\<close>: the log's own statements in order, and before each of
  them the statements \<open>oth\<close> of other clients.
\<close>

fun seenRev :: "op_server \<Rightarrow> (event list \<Rightarrow> opStmt list) \<Rightarrow> op_table \<Rightarrow> event list \<Rightarrow> op_table" where
  "seenRev S oth t0 [] = runStmts S t0 (oth [])"
| "seenRev S oth t0 (ev # rw) =
     runStmts S (applyEvent S (seenRev S oth t0 rw) ev) (oth (rev (ev # rw)))"

definition tableSeen :: "op_server \<Rightarrow> (event list \<Rightarrow> opStmt list) \<Rightarrow> op_table \<Rightarrow> event list \<Rightarrow> op_table" where
  "tableSeen S oth t0 w = seenRev S oth t0 (rev w)"

lemma tableSeen_Nil: "tableSeen S oth t0 [] = runStmts S t0 (oth [])"
  by (simp add: tableSeen_def)

lemma tableSeen_snoc:
  "tableSeen S oth t0 (w @ [ev]) = runStmts S (applyEvent S (tableSeen S oth t0 w) ev) (oth (w @ [ev]))"
  by (simp add: tableSeen_def)

text \<open>The texts other clients store are of the kinds the log itself stores.\<close>

fun stmtOk :: "op_server \<Rightarrow> opStmt \<Rightarrow> bool" where
  "stmtOk S (SInsert k ty c cs fp) =
     (k \<noteq> [] \<and> ty \<noteq> [] \<and> cs \<noteq> [] \<and> fp \<noteq> [] \<and> isJsonObject (sv_heap S) (sv_json S c))"
| "stmtOk S (SSucceed i t) = resultOk (sv_heap S) (sv_json S t)"
| "stmtOk S s = True"

definition eventOk :: "op_server \<Rightarrow> event \<Rightarrow> bool" where
  "eventOk S ev = (case eventStmt ev of None \<Rightarrow> True | Some s \<Rightarrow> stmtOk S s)"

definition storedOk :: "op_server \<Rightarrow> op_table \<Rightarrow> bool" where
  "storedOk S t \<longleftrightarrow> (\<forall>r\<in>set (ot_rows t). recordOk (sv_heap S) r)"

text \<open>
  The log's queries are answered by the table; the driver makes dates of timestamps and objects of
  stored objects; digests are not empty.
\<close>

definition tableServes ::
  "log_env \<Rightarrow> op_server \<Rightarrow> (event list \<Rightarrow> opStmt list) \<Rightarrow> op_table \<Rightarrow> bool" where
  "tableServes L S oth t0 \<longleftrightarrow>
     heap (le_runtime L) = sv_heap S \<and>
     le_query L = (\<lambda>sql vs. perform (le_runtime L) (EvQuery sql vs)) \<and>
     (\<forall>w sql vs s. stmtOf sql vs = Some s \<longrightarrow>
        db (le_runtime L) (w @ [EvQuery sql vs]) = Inr (snd (applyStmt S (tableSeen S oth t0 w) s))) \<and>
     (\<forall>n. dateOf (sv_heap S) (sv_now S n) \<noteq> None) \<and>
     (\<forall>ps. isJsonObject (sv_heap S) (sv_json S (jsonStringify (JObj ps)))) \<and>
     (\<forall>w. list_all (stmtOk S) (oth w)) \<and> tableOk t0 \<and> storedOk S t0 \<and>
     (\<forall>x. le_sha L x \<noteq> []) \<and> (\<forall>x. le_hmac L x \<noteq> [])"

text \<open>The row ids stay within the safe integers during the next \<open>n\<close> statements.\<close>

definition idsSafe ::
  "op_server \<Rightarrow> (event list \<Rightarrow> opStmt list) \<Rightarrow> op_table \<Rightarrow> event list \<Rightarrow> nat \<Rightarrow> bool" where
  "idsSafe S oth t0 w n \<longleftrightarrow>
     (\<forall>es. length es \<le> n \<longrightarrow> ot_next (tableSeen S oth t0 (w @ es)) \<le> 9007199254740991)"

lemma idsSafe_mono: "idsSafe S oth t0 w n \<Longrightarrow> m \<le> n \<Longrightarrow> idsSafe S oth t0 w m"
  by (auto simp: idsSafe_def)

lemma idsSafe_step: "idsSafe S oth t0 w (Suc n) \<Longrightarrow> idsSafe S oth t0 (w @ [e]) n"
  unfolding idsSafe_def by (metis append.assoc append_Cons append_Nil length_Cons Suc_le_mono)

lemma recordOk_touched:
  assumes "recordOk (sv_heap S) r" and "\<forall>n. dateOf (sv_heap S) (sv_now S n) \<noteq> None"
  shows "recordOk (sv_heap S) (restartRow r)" "recordOk (sv_heap S) (failRow S t e r)"
    and "resultOk (sv_heap S) (sv_json S x) \<Longrightarrow> recordOk (sv_heap S) (succeedRow S t x r)"
  using assms by (simp_all add: recordOk_def restartRow_def failRow_def succeedRow_def)

lemma applyStmt_stored:
  assumes "storedOk S t" and "stmtOk S s" and "\<forall>n. dateOf (sv_heap S) (sv_now S n) \<noteq> None"
  shows "storedOk S (fst (applyStmt S t s))"
proof (cases s)
  case (SInsert k ty c cs fp)
  have "resultOk (sv_heap S) VNull" by (simp add: resultOk_def)
  with assms SInsert have "recordOk (sv_heap S) (newRow S t k ty c cs fp)"
    by (simp add: recordOk_def newRow_def)
  with assms(1) SInsert show ?thesis by (simp add: storedOk_def Let_def)
qed (use assms recordOk_touched in \<open>auto simp: storedOk_def updateRow_def\<close>)

lemma runStmts_stored:
  "storedOk S t \<Longrightarrow> list_all (stmtOk S) ss \<Longrightarrow> \<forall>n. dateOf (sv_heap S) (sv_now S n) \<noteq> None \<Longrightarrow>
   storedOk S (runStmts S t ss)"
  by (induction ss arbitrary: t) (simp_all add: applyStmt_stored)

lemma applyEvent_ok:
  "tableOk t \<Longrightarrow> tableOk (applyEvent S t ev)"
  "storedOk S t \<Longrightarrow> eventOk S ev \<Longrightarrow> \<forall>n. dateOf (sv_heap S) (sv_now S n) \<noteq> None \<Longrightarrow>
   storedOk S (applyEvent S t ev)"
  by (auto simp: applyEvent_def eventOk_def applyStmt_ok applyStmt_stored split: option.splits)

lemma seen_ok:
  assumes "tableServes L S oth t0"
  shows "list_all (eventOk S) w \<Longrightarrow> tableOk (tableSeen S oth t0 w) \<and> storedOk S (tableSeen S oth t0 w)"
proof (induction w rule: rev_induct)
  case Nil
  then show ?case using assms by (simp add: tableSeen_Nil tableServes_def runStmts_ok runStmts_stored)
next
  case (snoc ev w)
  then show ?case using assms
    by (simp add: tableSeen_snoc tableServes_def runStmts_ok runStmts_stored applyEvent_ok)
qed

subsection \<open>Rows persist\<close>

definition holdsRow :: "op_table \<Rightarrow> string \<Rightarrow> int \<Rightarrow> string \<Rightarrow> bool" where
  "holdsRow t k i c \<longleftrightarrow> (\<exists>r. keyRow t k = Some r \<and> so_id r = i \<and> so_checksum r = c)"

lemma applyStmt_holds: "holdsRow t k i c \<Longrightarrow> holdsRow (fst (applyStmt S t s)) k i c"
proof -
  assume "holdsRow t k i c"
  then obtain r where r: "keyRow t k = Some r" "so_id r = i" "so_checksum r = c"
    by (auto simp: holdsRow_def)
  show ?thesis
  proof (cases s)
    case (SInsert k' ty c' cs fp)
    with r show ?thesis by (simp add: holdsRow_def keyRow_def find_append Let_def)
  qed (use r in \<open>simp_all add: holdsRow_def keyRow_update\<close>)
qed

lemma runStmts_holds: "holdsRow t k i c \<Longrightarrow> holdsRow (runStmts S t ss) k i c"
  by (induction ss arbitrary: t) (simp_all add: applyStmt_holds)

lemma seen_holds:
  "holdsRow (tableSeen S oth t0 w) k i c \<Longrightarrow> holdsRow (tableSeen S oth t0 (w @ [ev])) k i c"
  by (auto simp: tableSeen_snoc applyEvent_def intro!: runStmts_holds applyStmt_holds split: option.splits)

lemma keyUsed_holds: "keyUsed t k \<Longrightarrow> \<exists>i c. holdsRow t k i c"
  using keyRow_None [of t k] by (cases "keyRow t k") (auto simp: holdsRow_def)

subsection \<open>Single calls\<close>

lemma queryRow_served:
  assumes "tableServes L S oth t0" and "stmtOf sql vs = Some s"
  shows "queryRow L sql vs w = (Inr (snd (applyStmt S (tableSeen S oth t0 w) s)), w @ [EvQuery sql vs])"
  using assms by (simp add: queryRow_def tableServes_def io_simps)

lemma first_of_filter:
  "(case map f (filter P xs) of [] \<Rightarrow> None | r # _ \<Rightarrow> Some r) = map_option f (find P xs)"
  by (induction xs) simp_all

lemma stored_row:
  assumes "tableServes L S oth t0" and "list_all (eventOk S) w" and "r \<in> set (ot_rows (tableSeen S oth t0 w))"
    and "idsSafe S oth t0 w n"
  shows "recordOk (heap (le_runtime L)) r" "1 \<le> so_id r" "so_id r \<le> 9007199254740990"
proof -
  have "ot_next (tableSeen S oth t0 w) \<le> 9007199254740991"
    using idsSafe_mono [OF assms(4), of 0] by (simp add: idsSafe_def)
  moreover have "heap (le_runtime L) = sv_heap S" using assms(1) by (simp add: tableServes_def)
  ultimately show "recordOk (heap (le_runtime L)) r" "1 \<le> so_id r" "so_id r \<le> 9007199254740990"
    using seen_ok [OF assms(1,2)] assms(3) by (fastforce simp: tableOk_def storedOk_def)+
qed

definition selectEvent :: "string \<Rightarrow> event" where
  "selectEvent k = EvQuery SELECT_BY_KEY_SQL [VStr k]"

definition restartEvent :: "int \<Rightarrow> event" where
  "restartEvent i = EvQuery RESTART_FAILED_SQL [VNum (JFin (of_int i))]"

lemma event_simps [simp]:
  "eventStmt (selectEvent k) = Some (SSelectKey k)" "eventStmt (restartEvent i) = Some (SRestart i)"
  "eventOk S (selectEvent k)" "eventOk S (restartEvent i)"
  "applyEvent S t (selectEvent k) = t" "applyEvent S t (restartEvent i) = updateRow i Failed restartRow t"
  by (simp_all add: eventStmt_def selectEvent_def restartEvent_def eventOk_def applyEvent_def)

lemma logGet_served:
  assumes "tableServes L S oth t0" and "list_all (eventOk S) w" and "validateIdempotencyKey k = Inr ()"
    and "idsSafe S oth t0 w n"
  shows "logGet L k w = (Inr (keyRow (tableSeen S oth t0 w) k), w @ [selectEvent k])"
proof (cases "keyRow (tableSeen S oth t0 w) k")
  case None
  then show ?thesis using assms(3) queryRow_served [OF assms(1) stmtOf_simps(2)]
    by (simp add: logGet_def io_simps rowsResult_def first_of_filter keyRow_def selectEvent_def)
next
  case (Some r)
  then have "mapOperationRow (heap (le_runtime L)) (encodeRow r) = Inr r"
    using keyRow_Some [OF Some] stored_row [OF assms(1,2) _ assms(4), of r]
    by (intro mapOperationRow_encode) simp_all
  with Some show ?thesis using assms(3) queryRow_served [OF assms(1) stmtOf_simps(2)]
    by (simp add: logGet_def io_simps rowsResult_def first_of_filter keyRow_def selectEvent_def)
qed

text \<open>A restart finds the row of its id, if that row has failed.\<close>

lemma hit_key_row:
  assumes "tableOk t" and "keyRow t k = Some r"
  shows "filter (hit (so_id r) st) (ot_rows t) = (if so_status r = st then [r] else [])"
proof -
  have r: "r \<in> set (ot_rows t)" using keyRow_Some [OF assms(2)] by simp
  have inj: "inj_on so_id (set (ot_rows t))" and d: "distinct (ot_rows t)"
    using assms(1) by (auto simp: tableOk_def distinct_map)
  have "hit (so_id r) st x \<longleftrightarrow> x = r \<and> so_status r = st" if "x \<in> set (ot_rows t)" for x
    using inj_onD [OF inj _ that r] by (auto simp: hit_def)
  then have "filter (hit (so_id r) st) (ot_rows t) = filter (\<lambda>x. x = r \<and> so_status r = st) (ot_rows t)"
    by (rule filter_cong [OF refl])
  also have "\<dots> = (if so_status r = st then [r] else [])"
  proof (cases "so_status r = st")
    case True
    have "filter (\<lambda>x. x = r) xs = (if r \<in> set xs then [r] else [])" if "distinct xs" for xs
      using that by (induction xs) (auto simp: filter_empty_conv)
    with True d r show ?thesis by simp
  qed simp
  finally show ?thesis .
qed

subsection \<open>The specification of \<open>begin\<close>\<close>

datatype beginAnswer = AnsAccepted bool | AnsReplay | AnsInProgress | AnsConflict

fun specBegin :: "string \<Rightarrow> keyState \<Rightarrow> beginAnswer \<times> keyState" where
  "specBegin c Unused = (AnsAccepted False, Claimed c)"
| "specBegin c (Claimed d) = (if c = d then AnsInProgress else AnsConflict, Claimed d)"
| "specBegin c (Done d) = (if c = d then AnsReplay else AnsConflict, Done d)"
| "specBegin c (Broken d) = (if c = d then (AnsAccepted True, Claimed d) else (AnsConflict, Broken d))"

definition otherUse :: "string \<Rightarrow> thrown" where
  "otherUse = keyConflict ''Idempotency key was already used with a different operation''"

definition retryBusy :: "string \<Rightarrow> thrown" where
  "retryBusy = keyConflict ''Operation retry is already being claimed by another caller''"

fun outRecord :: "SchemaOperationBeginOutcome \<Rightarrow> SchemaOperationRecord" where
  "outRecord (Accepted r b) = r"
| "outRecord (Replay r) = r"
| "outRecord (InProgress r) = r"

fun outAnswer :: "SchemaOperationBeginOutcome \<Rightarrow> beginAnswer" where
  "outAnswer (Accepted r b) = AnsAccepted b"
| "outAnswer (Replay r) = AnsReplay"
| "outAnswer (InProgress r) = AnsInProgress"

text \<open>The answer of a call for the key \<open>k\<close>, with the table left behind.\<close>

definition answers :: "string \<Rightarrow> thrown + SchemaOperationBeginOutcome \<Rightarrow> beginAnswer \<Rightarrow> op_table \<Rightarrow> bool" where
  "answers k r a t \<longleftrightarrow>
     (case r of
        Inr out \<Rightarrow> a = outAnswer out \<and> keyRow t k = Some (outRecord out)
      | Inl e \<Rightarrow> a = AnsConflict \<and> e = otherUse k)"

abbreviation otherRows :: "string \<Rightarrow> op_table \<Rightarrow> SchemaOperationRecord list" where
  "otherRows k t \<equiv> filter (\<lambda>r. so_key r \<noteq> k) (ot_rows t)"

text \<open>One statement that does to the key \<open>k\<close> what the specification says, and to no other key anything.\<close>

definition effectAt ::
  "op_server \<Rightarrow> op_table \<Rightarrow> event \<Rightarrow> string \<Rightarrow> string \<Rightarrow> thrown + SchemaOperationBeginOutcome \<Rightarrow> bool" where
  "effectAt S t ev k c r \<longleftrightarrow>
     (let t' = applyEvent S t ev
      in answers k r (fst (specBegin c (absKey t k))) t' \<and>
         absKey t' k = snd (specBegin c (absKey t k)) \<and> otherRows k t' = otherRows k t)"

text \<open>Statements that leave all rows as they are.\<close>

fun quiet :: "op_server \<Rightarrow> (event list \<Rightarrow> opStmt list) \<Rightarrow> op_table \<Rightarrow> event list \<Rightarrow> event list \<Rightarrow> bool" where
  "quiet S oth t0 w [] = True"
| "quiet S oth t0 w (e # es) =
     (ot_rows (applyEvent S (tableSeen S oth t0 w) e) = ot_rows (tableSeen S oth t0 w) \<and>
      quiet S oth t0 (w @ [e]) es)"

definition takesEffect ::
  "op_server \<Rightarrow> (event list \<Rightarrow> opStmt list) \<Rightarrow> op_table \<Rightarrow> event list \<Rightarrow> event list \<Rightarrow> string \<Rightarrow> string \<Rightarrow>
   thrown + SchemaOperationBeginOutcome \<Rightarrow> bool" where
  "takesEffect S oth t0 w w' k c r \<longleftrightarrow>
     (\<exists>es1 ev es2. w' = w @ es1 @ ev # es2 \<and> quiet S oth t0 w es1 \<and>
        effectAt S (tableSeen S oth t0 (w @ es1)) ev k c r \<and> quiet S oth t0 (w @ es1 @ [ev]) es2)"

text \<open>The call either takes effect, or gives up after losing every race for a retry, changing nothing.\<close>

definition beginEffect ::
  "op_server \<Rightarrow> (event list \<Rightarrow> opStmt list) \<Rightarrow> op_table \<Rightarrow> event list \<Rightarrow> event list \<Rightarrow> string \<Rightarrow> string \<Rightarrow>
   thrown + SchemaOperationBeginOutcome \<Rightarrow> bool" where
  "beginEffect S oth t0 w w' k c r \<longleftrightarrow>
     takesEffect S oth t0 w w' k c r \<or>
     r = Inl (retryBusy k) \<and> (\<exists>es. w' = w @ es \<and> quiet S oth t0 w es)"

lemma quiet_append:
  "quiet S oth t0 w (es @ es') \<longleftrightarrow> quiet S oth t0 w es \<and> quiet S oth t0 (w @ es) es'"
  by (induction es arbitrary: w) simp_all

lemma effect_now:
  "effectAt S (tableSeen S oth t0 w) ev k c r \<Longrightarrow> beginEffect S oth t0 w (w @ [ev]) k c r"
  unfolding beginEffect_def takesEffect_def by (rule disjI1, intro exI [where x = "[]"] exI [where x = ev]) simp

lemma effect_later:
  assumes "quiet S oth t0 w es" and "beginEffect S oth t0 (w @ es) w' k c r"
  shows "beginEffect S oth t0 w w' k c r"
  using assms(2) unfolding beginEffect_def
proof (elim disjE conjE exE)
  assume "takesEffect S oth t0 (w @ es) w' k c r"
  then obtain es1 ev es2 where "w' = (w @ es) @ es1 @ ev # es2" "quiet S oth t0 (w @ es) es1"
    "effectAt S (tableSeen S oth t0 ((w @ es) @ es1)) ev k c r" "quiet S oth t0 ((w @ es) @ es1 @ [ev]) es2"
    unfolding takesEffect_def by blast
  with assms(1) have "takesEffect S oth t0 w w' k c r"
    unfolding takesEffect_def
    by (intro exI [where x = "es @ es1"] exI [where x = ev] exI [where x = es2]) (simp add: quiet_append)
  then show "takesEffect S oth t0 w w' k c r \<or>
     r = Inl (retryBusy k) \<and> (\<exists>es. w' = w @ es \<and> quiet S oth t0 w es)" ..
next
  fix es' assume "r = Inl (retryBusy k)" "w' = (w @ es) @ es'" "quiet S oth t0 (w @ es) es'"
  with assms(1) have "r = Inl (retryBusy k)" "w' = w @ (es @ es')" "quiet S oth t0 w (es @ es')"
    by (simp_all add: quiet_append)
  then show "takesEffect S oth t0 w w' k c r \<or>
     r = Inl (retryBusy k) \<and> (\<exists>es. w' = w @ es \<and> quiet S oth t0 w es)" by blast
qed

lemma quiet_select [simp]: "quiet S oth t0 w [selectEvent k]"
  by simp

subsection \<open>Reading and retrying\<close>

text \<open>What a settled row answers; a read is its own effect.\<close>

lemma read_effect:
  assumes "keyRow t k = Some r"
  shows "so_checksum r \<noteq> c \<Longrightarrow> effectAt S t (selectEvent k) k c (Inl (otherUse k))"
    and "so_checksum r = c \<Longrightarrow> so_status r = Succeeded \<Longrightarrow> effectAt S t (selectEvent k) k c (Inr (Replay r))"
    and "so_checksum r = c \<Longrightarrow> so_status r = Running \<Longrightarrow> effectAt S t (selectEvent k) k c (Inr (InProgress r))"
  using assms by (cases "so_status r"; auto simp: effectAt_def Let_def answers_def absKey_def)+

lemma restart_quiet:
  assumes "tableOk t" and "keyRow t k = Some r" and "so_status r \<noteq> Failed"
  shows "ot_rows (updateRow (so_id r) Failed f t) = ot_rows t"
proof -
  have "filter (hit (so_id r) Failed) (ot_rows t) = []" using hit_key_row [OF assms(1,2)] assms(3) by simp
  then show ?thesis by (auto simp: updateRow_def filter_empty_conv intro: map_idI)
qed

lemma update_others:
  assumes "tableOk t" and "keyRow t k = Some r" and "\<And>x. so_key (f x) = so_key x"
  shows "otherRows k (updateRow (so_id r) st f t) = otherRows k t"
proof -
  have "\<not> hit (so_id r) st x" if "x \<in> set (ot_rows t)" "so_key x \<noteq> k" for x
  proof
    assume "hit (so_id r) st x"
    with that(1) have "x \<in> set (filter (hit (so_id r) st) (ot_rows t))" by simp
    then have "x = r" unfolding hit_key_row [OF assms(1,2)] by (simp split: if_splits)
    with keyRow_Some [OF assms(2)] that(2) show False by simp
  qed
  then have "filter (\<lambda>x. so_key x \<noteq> k) (map (\<lambda>x. if hit (so_id r) st x then f x else x) xs) =
      filter (\<lambda>x. so_key x \<noteq> k) xs" if "set xs \<subseteq> set (ot_rows t)" for xs
    using that by (induction xs) (auto simp: assms(3))
  then show ?thesis by (simp add: updateRow_def)
qed

lemma restart_effect:
  assumes "tableOk t" and "keyRow t k = Some r" and "so_status r = Failed"
  shows "effectAt S t (restartEvent (so_id r)) k (so_checksum r) (Inr (Accepted (restartRow r) True))"
  using assms update_others [OF assms(1,2), of restartRow Failed]
  by (simp add: effectAt_def Let_def answers_def absKey_def keyRow_update hit_def)

lemma restart_served:
  assumes "tableServes L S oth t0" and "list_all (eventOk S) w" and "keyRow (tableSeen S oth t0 w) k = Some r"
  shows "queryRow L RESTART_FAILED_SQL [VNum (JFin (of_int (so_id r)))] w =
     (Inr (rowsResult (if so_status r = Failed then [encodeRow (restartRow r)] else [])), w @ [restartEvent (so_id r)])"
  using queryRow_served [OF assms(1) stmtOf_simps(3)] hit_key_row [OF _ assms(3)] seen_ok [OF assms(1,2)]
  by (simp add: restartEvent_def)

lemma restart_decodes:
  assumes "tableServes L S oth t0" and "list_all (eventOk S) w" and "keyRow (tableSeen S oth t0 w) k = Some r"
    and "idsSafe S oth t0 w n"
  shows "mapOperationRow (heap (le_runtime L)) (encodeRow (restartRow r)) = Inr (restartRow r)"
proof (rule mapOperationRow_encode)
  have r: "r \<in> set (ot_rows (tableSeen S oth t0 w))" using keyRow_Some [OF assms(3)] by simp
  note s = stored_row [OF assms(1,2) r assms(4)]
  have "heap (le_runtime L) = sv_heap S" "\<forall>n. dateOf (sv_heap S) (sv_now S n) \<noteq> None"
    using assms(1) by (simp_all add: tableServes_def)
  with s(1) show "recordOk (heap (le_runtime L)) (restartRow r)" by (simp add: recordOk_touched)
  show "1 \<le> so_id (restartRow r)" "so_id (restartRow r) \<le> 9007199254740991" using s by simp_all
qed

lemma retry_effect:
  assumes "tableServes L S oth t0" and "validateIdempotencyKey k = Inr ()" and "so_key rec = k"
  shows "list_all (eventOk S) w \<Longrightarrow> holdsRow (tableSeen S oth t0 w) k (so_id rec) c \<Longrightarrow>
    idsSafe S oth t0 w (2 * n) \<Longrightarrow> retryFailed n L rec w = (r, w') \<Longrightarrow> beginEffect S oth t0 w w' k c r"
proof (induction n arbitrary: w)
  case 0
  then have "r = Inl (retryBusy k) \<and> w' = w" using assms(3) by (auto simp: io_simps retryBusy_def)
  then show ?case unfolding beginEffect_def by (intro disjI2 conjI exI [where x = "[]"]) simp_all
next
  case (Suc n)
  obtain row where row: "keyRow (tableSeen S oth t0 w) k = Some row" "so_id row = so_id rec" "so_checksum row = c"
    using Suc.prems(2) by (auto simp: holdsRow_def)
  have ok: "tableOk (tableSeen S oth t0 w)" using seen_ok [OF assms(1) Suc.prems(1)] by simp
  have safe: "idsSafe S oth t0 w (Suc (Suc (2 * n)))" using Suc.prems(3) by simp
  note q = restart_served [OF assms(1) Suc.prems(1) row(1), unfolded row(2)]
  show ?case
  proof (cases "so_status row = Failed")
    case True
    then have "r = Inr (Accepted (restartRow row) True) \<and> w' = w @ [restartEvent (so_id rec)]"
      using Suc.prems(4) q restart_decodes [OF assms(1) Suc.prems(1) row(1) safe] by (simp add: io_simps rowsResult_def)
    with restart_effect [OF ok row(1) True, of S] row show ?thesis by (simp add: effect_now)
  next
    case False
    define w1 where "w1 = w @ [restartEvent (so_id rec)]"
    have ok1: "list_all (eventOk S) w1" using Suc.prems(1) by (simp add: w1_def)
    have quiet1: "quiet S oth t0 w [restartEvent (so_id rec)]"
      using restart_quiet [OF ok row(1) False, of restartRow] row(2) by simp
    have "holdsRow (tableSeen S oth t0 w1) k (so_id rec) c"
      unfolding w1_def by (rule seen_holds [OF Suc.prems(2)])
    then obtain l where l: "keyRow (tableSeen S oth t0 w1) k = Some l" "so_id l = so_id rec" "so_checksum l = c"
      by (auto simp: holdsRow_def)
    define w2 where "w2 = w1 @ [selectEvent k]"
    have safe1: "idsSafe S oth t0 w1 (Suc (2 * n))" unfolding w1_def by (rule idsSafe_step [OF safe])
    then have safe2: "idsSafe S oth t0 w2 (2 * n)" unfolding w2_def by (rule idsSafe_step)
    have get: "logGet L k w1 = (Inr (Some l), w2)"
      using logGet_served [OF assms(1) ok1 assms(2) safe1] l by (simp add: w2_def)
    have "holdsRow (tableSeen S oth t0 w1) k (so_id rec) c" using l by (simp add: holdsRow_def)
    then have holds2: "holdsRow (tableSeen S oth t0 w2) k (so_id rec) c"
      unfolding w2_def by (rule seen_holds)
    have run: "retryFailed (Suc n) L rec w =
        (if so_status l = Succeeded then (Inr (Replay l), w2)
         else if so_status l = Running then (Inr (InProgress l), w2)
         else retryFailed n L rec w2)"
      using q False get assms(3) by (simp add: io_simps rowsResult_def w1_def)
    have "beginEffect S oth t0 w1 w' k c r"
    proof (cases "so_status l")
      case Failed
      with run Suc.prems(4) have "retryFailed n L rec w2 = (r, w')" by simp
      moreover have "list_all (eventOk S) w2" using ok1 by (simp add: w2_def)
      ultimately have "beginEffect S oth t0 (w1 @ [selectEvent k]) w' k c r"
        using Suc.IH [OF _ holds2 safe2] by (simp add: w2_def)
      then show ?thesis by (rule effect_later [OF quiet_select])
    qed (use run Suc.prems(4) read_effect [OF l(1), of c S] l(3) in \<open>auto simp: w2_def intro: effect_now\<close>)
    then show ?thesis unfolding w1_def by (rule effect_later [OF quiet1])
  qed
qed

subsection \<open>Beginning an operation\<close>

definition validBegin :: "BeginOperationInput \<Rightarrow> bool" where
  "validBegin input \<longleftrightarrow>
     validateIdempotencyKey (bo_key input) = Inr () \<and> validateCommandType (bo_commandType input) = Inr () \<and>
     validateCommand (bo_command input) = Inr () \<and> validateActor (bo_actor input) = Inr ()"

definition beginChecksum :: "log_env \<Rightarrow> BeginOperationInput \<Rightarrow> string" where
  "beginChecksum L input =
     computeOperationChecksum (le_sha L) (bo_commandType input) (bo_command input) (bo_statements input)"

definition insertEvent :: "log_env \<Rightarrow> BeginOperationInput \<Rightarrow> event" where
  "insertEvent L input =
     EvQuery INSERT_SQL
       [VStr (bo_key input), VStr (bo_commandType input), VStr (jsonStringify (bo_command input)),
        VStr (beginChecksum L input), VStr (computeActorFingerprint (le_hmac L) (bo_actor input))]"

definition insertStmt :: "log_env \<Rightarrow> BeginOperationInput \<Rightarrow> opStmt" where
  "insertStmt L input =
     SInsert (bo_key input) (bo_commandType input) (jsonStringify (bo_command input))
       (beginChecksum L input) (computeActorFingerprint (le_hmac L) (bo_actor input))"

lemma toHex_Nil [simp]: "toHex bs = [] \<longleftrightarrow> bs = []"
  by (cases bs) (simp_all add: toHex_def)

lemma insertStmt_ok:
  assumes "tableServes L S oth t0" and "validBegin input"
  shows "stmtOk S (insertStmt L input)"
proof -
  have "bo_key input \<noteq> []" "bo_commandType input \<noteq> []"
    using assms(2) by (auto simp: validBegin_def validateIdempotencyKey_def validateCommandType_def split: if_splits)
  moreover obtain ps where "bo_command input = JObj ps"
    using assms(2) by (auto simp: validBegin_def validateCommand_def split: json.splits)
  ultimately show ?thesis using assms(1)
    by (simp add: insertStmt_def tableServes_def beginChecksum_def computeOperationChecksum_def sha256Hex_def
        computeActorFingerprint_def)
qed

lemma insertEvent_simps [simp]:
  "eventStmt (insertEvent L input) = Some (insertStmt L input)"
  "applyEvent S t (insertEvent L input) = fst (applyStmt S t (insertStmt L input))"
  by (simp_all add: eventStmt_def applyEvent_def insertEvent_def insertStmt_def)

lemma newRow_decodes:
  assumes "tableServes L S oth t0" and "list_all (eventOk S) w"
    and "stmtOk S (SInsert k ty c cs fp)" and "idsSafe S oth t0 w n"
  shows "mapOperationRow (heap (le_runtime L)) (encodeRow (newRow S (tableSeen S oth t0 w) k ty c cs fp)) =
    Inr (newRow S (tableSeen S oth t0 w) k ty c cs fp)"
proof (rule mapOperationRow_encode)
  have "resultOk (sv_heap S) VNull" by (simp add: resultOk_def)
  then show "recordOk (heap (le_runtime L)) (newRow S (tableSeen S oth t0 w) k ty c cs fp)"
    using assms(1,3) by (simp add: recordOk_def newRow_def tableServes_def)
qed (use idsSafe_mono [OF assms(4), of 0] seen_ok [OF assms(1,2)] in
      \<open>simp_all add: newRow_def tableOk_def idsSafe_def\<close>)

text \<open>A fresh key is claimed by the insertion itself.\<close>

lemma insert_effect:
  assumes "insertStmt L input = SInsert k ty c cs fp" and "\<not> keyUsed t k"
  shows "effectAt S t (insertEvent L input) k cs (Inr (Accepted (newRow S t k ty c cs fp) False))"
  using assms keyRow_None [of t k]
  by (simp add: effectAt_def Let_def answers_def absKey_def keyRow_def find_append newRow_def)

lemma insert_quiet:
  assumes "insertStmt L input = SInsert k ty c cs fp" and "keyUsed (tableSeen S oth t0 w) k"
  shows "quiet S oth t0 w [insertEvent L input]"
  using assms by simp

text \<open>C14: Whatever statements other clients run in between, a begin either does, at one of its own
  statements and for its own key only, exactly what the specification says of the key's state at
  that moment, with the answer and the record the specification gives, and its other statements change
  no row; or it lost four races for a retry, changed nothing and says so.\<close>
theorem begin_takes_effect:
  assumes "tableServes L S oth t0" and "list_all (eventOk S) w" and "idsSafe S oth t0 w 10"
    and "validBegin input" and "logBegin L input w = (r, w')"
  shows "beginEffect S oth t0 w w' (bo_key input) (beginChecksum L input) r"
proof -
  define k c where "k = bo_key input" and "c = beginChecksum L input"
  define w1 where "w1 = w @ [insertEvent L input]"
  obtain ty cm fp where ins: "insertStmt L input = SInsert k ty cm c fp"
    by (simp add: insertStmt_def k_def c_def)
  have ok1: "list_all (eventOk S) w1"
    using assms(2) insertStmt_ok [OF assms(1,4)] by (simp add: w1_def eventOk_def)
  have key: "validateIdempotencyKey k = Inr ()" using assms(4) by (simp add: validBegin_def k_def)
  have q: "queryRow L INSERT_SQL
      [VStr (bo_key input), VStr (bo_commandType input), VStr (jsonStringify (bo_command input)),
       VStr (beginChecksum L input), VStr (computeActorFingerprint (le_hmac L) (bo_actor input))] w =
     (Inr (snd (applyStmt S (tableSeen S oth t0 w) (SInsert k ty cm c fp))), w1)"
    using queryRow_served [OF assms(1) stmtOf_simps(1)] ins by (simp add: insertStmt_def insertEvent_def w1_def)
  note run = assms(5) [unfolded logBegin_def Let_def, folded beginChecksum_def]
  show ?thesis
  proof (cases "keyUsed (tableSeen S oth t0 w) k")
    case False
    have "stmtOk S (SInsert k ty cm c fp)" using insertStmt_ok [OF assms(1,4)] ins by simp
    from newRow_decodes [OF assms(1,2) this assms(3)] False
    have "r = Inr (Accepted (newRow S (tableSeen S oth t0 w) k ty cm c fp) False) \<and> w' = w1"
      using run q assms(4) by (simp add: validBegin_def io_simps rowsResult_def Let_def)
    with effect_now [OF insert_effect [OF ins False]] show ?thesis by (simp add: w1_def k_def c_def)
  next
    case True
    obtain i d where "holdsRow (tableSeen S oth t0 w1) k i d"
      using keyUsed_holds [OF True] seen_holds unfolding w1_def by blast
    then obtain row where row: "keyRow (tableSeen S oth t0 w1) k = Some row" by (auto simp: holdsRow_def)
    define w2 where "w2 = w1 @ [selectEvent k]"
    have safe1: "idsSafe S oth t0 w1 9"
      unfolding w1_def by (rule idsSafe_step) (use assms(3) in simp)
    have safe2: "idsSafe S oth t0 w2 8"
      unfolding w2_def by (rule idsSafe_step) (use safe1 in simp)
    have get: "logGet L k w1 = (Inr (Some row), w2)"
      using logGet_served [OF assms(1) ok1 key safe1] row by (simp add: w2_def)
    have classify: "classifyExisting L row c w2 = (r, w')"
      using run q assms(4) True get
      by (simp add: validBegin_def io_simps rowsResult_def k_def [symmetric] c_def [symmetric])
    have rk: "so_key row = k" using keyRow_Some [OF row] by simp
    have "beginEffect S oth t0 w1 w' k c r"
    proof (cases "so_checksum row = c \<and> so_status row = Failed")
      case True
      then have "retryFailed 4 L row w2 = (r, w')" using classify by (simp add: classifyExisting_def)
      moreover have "list_all (eventOk S) w2" using ok1 by (simp add: w2_def)
      moreover have "holdsRow (tableSeen S oth t0 w2) k (so_id row) c"
        unfolding w2_def by (rule seen_holds) (use row True in \<open>simp add: holdsRow_def\<close>)
      ultimately have "beginEffect S oth t0 (w1 @ [selectEvent k]) w' k c r"
        using retry_effect [OF assms(1) key rk, where n = 4] safe2 by (simp add: w2_def)
      then show ?thesis by (rule effect_later [OF quiet_select])
    next
      case False
      then show ?thesis using classify read_effect [OF row, of c S] rk
        by (cases "so_status row")
           (auto simp: classifyExisting_def io_simps w2_def otherUse_def intro!: effect_now split: if_splits)
    qed
    with insert_quiet [OF ins True] show ?thesis unfolding w1_def k_def c_def by (rule effect_later)
  qed
qed

subsection \<open>A runtime over the table\<close>

definition tableDb :: "op_server \<Rightarrow> (event list \<Rightarrow> opStmt list) \<Rightarrow> op_table \<Rightarrow> event list \<Rightarrow> thrown + qresult" where
  "tableDb S oth t0 w =
     (case rev w of
        [] \<Rightarrow> Inr emptyResult
      | ev # rw \<Rightarrow>
          (case eventStmt ev of
             None \<Rightarrow> Inr emptyResult
           | Some s \<Rightarrow> Inr (snd (applyStmt S (seenRev S oth t0 rw) s))))"

definition tableEnv ::
  "op_server \<Rightarrow> (event list \<Rightarrow> opStmt list) \<Rightarrow> op_table \<Rightarrow> (bytes \<Rightarrow> bytes) \<Rightarrow> (bytes \<Rightarrow> bytes) \<Rightarrow> log_env" where
  "tableEnv S oth t0 sha hmac =
     (let R = okRuntime\<lparr>heap := sv_heap S, db := tableDb S oth t0\<rparr>
      in \<lparr>le_runtime = R, le_sha = sha, le_hmac = hmac, le_query = (\<lambda>sql vs. perform R (EvQuery sql vs))\<rparr>)"

lemma tableServes_env:
  assumes "\<And>n. dateOf (sv_heap S) (sv_now S n) \<noteq> None"
    and "\<And>ps. isJsonObject (sv_heap S) (sv_json S (jsonStringify (JObj ps)))"
    and "\<And>w. list_all (stmtOk S) (oth w)" and "tableOk t0" and "storedOk S t0"
    and "\<And>x. sha x \<noteq> []" and "\<And>x. hmac x \<noteq> []"
  shows "tableServes (tableEnv S oth t0 sha hmac) S oth t0"
  using assms by (simp add: tableServes_def tableEnv_def Let_def tableDb_def eventStmt_def tableSeen_def)

lemma applyStmt_next: "ot_next (fst (applyStmt S t s)) \<le> ot_next t + 1"
  by (cases s) (simp_all add: updateRow_def Let_def)

lemma runStmts_next: "ot_next (runStmts S t ss) \<le> ot_next t + int (length ss)"
proof (induction ss arbitrary: t)
  case (Cons s ss)
  show ?case using Cons [of "fst (applyStmt S t s)"] applyStmt_next [of S t s] by simp
qed simp

lemma seen_next:
  assumes "\<And>w. length (oth w) \<le> m"
  shows "ot_next (tableSeen S oth t0 w) \<le> ot_next t0 + (int m + 1) * (int (length w) + 1)"
proof (induction w rule: rev_induct)
  case Nil
  show ?case using runStmts_next [of S t0 "oth []"] assms [of "[]"] by (simp add: tableSeen_Nil)
next
  case (snoc ev w)
  have "ot_next (applyEvent S (tableSeen S oth t0 w) ev) \<le> ot_next (tableSeen S oth t0 w) + 1"
    by (simp add: applyEvent_def applyStmt_next split: option.splits)
  then show ?case
    using snoc runStmts_next [of S "applyEvent S (tableSeen S oth t0 w) ev" "oth (w @ [ev])"] assms [of "w @ [ev]"]
    by (simp add: tableSeen_snoc algebra_simps)
qed

lemma idsSafe_bound:
  assumes "\<And>w. length (oth w) \<le> m"
    and "ot_next t0 + (int m + 1) * (int (length w + n) + 1) \<le> 9007199254740991"
  shows "idsSafe S oth t0 w n"
  unfolding idsSafe_def
proof (intro allI impI)
  fix es :: "event list" assume "length es \<le> n"
  then have "(int m + 1) * (int (length (w @ es)) + 1) \<le> (int m + 1) * (int (length w + n) + 1)"
    by (intro mult_left_mono) simp_all
  moreover have "ot_next (tableSeen S oth t0 (w @ es)) \<le> ot_next t0 + (int m + 1) * (int (length (w @ es)) + 1)"
    by (rule seen_next) (rule assms(1))
  ultimately show "ot_next (tableSeen S oth t0 (w @ es)) \<le> 9007199254740991" using assms(2) by linarith
qed

text \<open>
  Another client begins the same operation and fails, just before our call; a third retries it and
  fails again between our insertion and our read.
\<close>

definition demoServer :: op_server where
  "demoServer = \<lparr>sv_heap = [OObj ObjectProto []], sv_json = (\<lambda>_. VRef 0), sv_now = (\<lambda>_. VDate (Some 0))\<rparr>"

definition demoBegin :: BeginOperationInput where
  "demoBegin = \<lparr>bo_key = ''k1'', bo_commandType = ''create_table'', bo_command = JObj [],
     bo_actor = ''Ann'', bo_statements = Some [''SELECT 1'']\<rparr>"

definition demoOthers :: "event list \<Rightarrow> opStmt list" where
  "demoOthers w =
     (if length w = 0 then [SInsert ''k1'' ''create_table'' ''{}'' ''ab'' ''f'', SFail 1 ''CONFLICT'']
      else if length w = 1 then [SRestart 1, SFail 1 ''INTERNAL_ERROR''] else [])"

definition demoEnv :: log_env where
  "demoEnv = tableEnv demoServer demoOthers emptyTable (\<lambda>_. [171]) (\<lambda>_. [1])"

lemma demo_serves: "tableServes demoEnv demoServer demoOthers emptyTable"
  unfolding demoEnv_def
  by (rule tableServes_env)
     (simp_all add: demoServer_def dateOf_def isJsonObject_def isArray_def demoOthers_def emptyTable_def
       tableOk_def storedOk_def)

lemma demo_ids: "idsSafe demoServer demoOthers emptyTable [] 10"
  by (rule idsSafe_bound [where m = 2]) (simp_all add: demoOthers_def emptyTable_def)

lemma begin_takes_effect_witness:
  "beginEffect demoServer demoOthers emptyTable [] (snd (logBegin demoEnv demoBegin [])) ''k1'' ''ab''
     (fst (logBegin demoEnv demoBegin []))"
proof -
  have v: "validBegin demoBegin" by code_simp
  have k: "bo_key demoBegin = ''k1''" "beginChecksum demoEnv demoBegin = ''ab''" by code_simp+
  show ?thesis
    using begin_takes_effect [OF demo_serves _ demo_ids v, of "fst (logBegin demoEnv demoBegin [])"] k by simp
qed

subsection \<open>At most one claim is outstanding\<close>

text \<open>The key of the row with an id.\<close>

definition keyOfId :: "op_table \<Rightarrow> int \<Rightarrow> string option" where
  "keyOfId t i = map_option so_key (find (\<lambda>r. so_id r = i) (ot_rows t))"

text \<open>What a statement that was answered with a row did: it claimed a key (1) or released it (-1).\<close>

fun claimDelta :: "op_table \<Rightarrow> string \<Rightarrow> opStmt \<Rightarrow> int" where
  "claimDelta t k (SInsert k' ty c cs fp) = (if k' = k then 1 else 0)"
| "claimDelta t k (SRestart i) = (if keyOfId t i = Some k then 1 else 0)"
| "claimDelta t k (SSucceed i x) = (if keyOfId t i = Some k then - 1 else 0)"
| "claimDelta t k (SFail i e) = (if keyOfId t i = Some k then - 1 else 0)"
| "claimDelta t k s = 0"

fun outstanding :: "op_server \<Rightarrow> op_table \<Rightarrow> string \<Rightarrow> opStmt list \<Rightarrow> int" where
  "outstanding S t k [] = 0"
| "outstanding S t k (s # ss) =
     (if qr_rows (snd (applyStmt S t s)) = [] then 0 else claimDelta t k s) +
     outstanding S (fst (applyStmt S t s)) k ss"

definition claimedNow :: "op_table \<Rightarrow> string \<Rightarrow> int" where
  "claimedNow t k = (case absKey t k of Claimed c \<Rightarrow> 1 | _ \<Rightarrow> 0)"

lemma keyOfId_row:
  assumes "tableOk t" and "keyRow t k = Some r"
  shows "keyOfId t i = Some k \<longleftrightarrow> i = so_id r"
proof
  assume "keyOfId t i = Some k"
  then obtain x where "find (\<lambda>r. so_id r = i) (ot_rows t) = Some x" "so_key x = k" by (auto simp: keyOfId_def)
  then have x: "x \<in> set (ot_rows t)" "so_id x = i" "so_key x = k" by (auto simp: find_Some_iff)
  have "x = r" using assms keyRow_Some [OF assms(2)] x by (auto simp: tableOk_def distinct_map dest: inj_onD)
  with x show "i = so_id r" by simp
next
  assume i: "i = so_id r"
  have r: "r \<in> set (ot_rows t)" "so_key r = k" using keyRow_Some [OF assms(2)] by simp_all
  then obtain x where x: "find (\<lambda>r. so_id r = i) (ot_rows t) = Some x"
    using i by (cases "find (\<lambda>r. so_id r = i) (ot_rows t)") (auto simp: find_None_iff)
  then have "x \<in> set (ot_rows t)" "so_id x = so_id r" using i by (auto simp: find_Some_iff)
  then have "x = r" using assms(1) r by (auto simp: tableOk_def distinct_map dest: inj_onD)
  with x r show "keyOfId t i = Some k" by (simp add: keyOfId_def)
qed

lemma keyOfId_unused:
  assumes "keyRow t k = None"
  shows "keyOfId t i \<noteq> Some k"
proof
  assume "keyOfId t i = Some k"
  then obtain x where "find (\<lambda>r. so_id r = i) (ot_rows t) = Some x" "so_key x = k" by (auto simp: keyOfId_def)
  then have "x \<in> set (ot_rows t)" "so_key x = k" by (auto simp: find_Some_iff)
  with assms show False by (auto simp: keyRow_def find_None_iff)
qed

text \<open>An update of a row: what it does to the claim of a key.\<close>

lemma update_claim:
  assumes "tableOk t" and "\<And>r. so_key (f r) = so_key r" and "\<And>r. so_id (f r) = so_id r"
    and "\<And>r. so_status (f r) = st'"
  shows "claimedNow (updateRow i st f t) k =
    claimedNow t k + (if filter (hit i st) (ot_rows t) = [] \<or> keyOfId t i \<noteq> Some k then 0
      else (if st' = Running then 1 else 0) - (if st = Running then 1 else 0))"
proof (cases "keyRow t k")
  case None
  then show ?thesis using keyOfId_unused [OF None]
    by (simp add: claimedNow_def absKey_def keyRow_update assms(2))
next
  case (Some r)
  show ?thesis
  proof (cases "i = so_id r")
    case True
    then show ?thesis using Some keyOfId_row [OF assms(1) Some] hit_key_row [OF assms(1) Some, of st] assms(4) [of r]
      by (cases "so_status r"; cases st')
         (auto simp: claimedNow_def absKey_def keyRow_update assms(2) hit_def)
  next
    case False
    then show ?thesis using Some keyOfId_row [OF assms(1) Some]
      by (simp add: claimedNow_def absKey_def keyRow_update assms(2) hit_def)
  qed
qed

lemma claim_step:
  assumes "tableOk t"
  shows "claimedNow (fst (applyStmt S t s)) k =
    claimedNow t k + (if qr_rows (snd (applyStmt S t s)) = [] then 0 else claimDelta t k s)"
proof (cases s)
  case (SInsert k' ty c cs fp)
  show ?thesis
  proof (cases "keyUsed t k'")
    case True
    then show ?thesis by (simp add: SInsert rowsResult_def claimedNow_def absKey_def keyRow_def)
  next
    case False
    then have "keyRow t k' = None" by (simp add: keyRow_None)
    with False show ?thesis
      by (cases "keyRow t k")
         (auto simp: SInsert rowsResult_def claimedNow_def absKey_def keyRow_def find_append Let_def newRow_def)
  qed
qed (use assms update_claim [OF assms] in \<open>simp_all add: rowsResult_def\<close>)

lemma outstanding_from:
  "tableOk t \<Longrightarrow> claimedNow t k + outstanding S t k ss = claimedNow (runStmts S t ss) k"
proof (induction ss arbitrary: t)
  case (Cons s ss)
  from Cons.IH [OF applyStmt_ok [OF Cons.prems, of S s]] claim_step [OF Cons.prems, of S s k]
  show ?case by simp
qed simp

text \<open>C13: From the empty table, however the statements of all clients interleave, the number of claims of a
  key that were granted less the number that were released is 1 while the key is running and 0 otherwise;
  so no claim is granted before the previous one has ended.\<close>
theorem claims_exclusive:
  "outstanding S emptyTable k ss =
     (case absKey (runStmts S emptyTable ss) k of Claimed c \<Rightarrow> 1 | _ \<Rightarrow> 0)"
  using outstanding_from [OF tableOk_empty, of k S ss]
  by (simp add: claimedNow_def absKey_def keyRow_def emptyTable_def)

text \<open>C38: Once a key has been given a checksum it keeps it, and once it has succeeded it stays so,
  whatever statements follow.\<close>
theorem settled_key_final:
  assumes "stateChecksum (absKey t k) = Some c"
  shows "stateChecksum (absKey (runStmts S t ss) k) = Some c \<and>
    (absKey t k = Done c \<longrightarrow> absKey (runStmts S t ss) k = Done c)"
  using moves_checksum [OF runStmts_moves assms] moves_done runStmts_moves [of t k S ss] by metis

lemma settled_key_final_witness:
  "stateChecksum (absKey (runStmts demoServer emptyTable (demoOthers []) ) ''k1'') = Some ''ab'' \<and>
   stateChecksum (absKey (runStmts demoServer (runStmts demoServer emptyTable (demoOthers []))
     [SInsert ''k1'' ''x'' ''{}'' ''cd'' ''f'', SRestart 1, SSucceed 1 ''null'']) ''k1'') = Some ''ab''"
proof -
  have c: "stateChecksum (absKey (runStmts demoServer emptyTable (demoOthers [])) ''k1'') = Some ''ab''"
    by code_simp
  with settled_key_final [OF c] show ?thesis by blast
qed

end
