(* ===== verification/DdlCompiler.thy ===== *)
theory DdlCompiler
  imports DdlTypes OperationLog
begin

text \<open>
  The typed builders of \<open>src/database/schema-ddl.ts\<close>: every schema change is compiled to a sealed plan, a list
  of single statements.  SHA-256 (for object names) is a parameter.  Statement text has its white space
  collapsed, except between the columns of a \<open>CREATE TABLE\<close>.
\<close>

subsection \<open>Plans\<close>

text \<open>Membership of the plan object in \<open>SEALED_PLANS\<close> is its flag; only \<open>sealPlan\<close> sets it.\<close>

record DdlPlan =
  pl_statements :: "string list"
  pl_description :: string
  pl_sealed :: bool

definition sealPlan :: "string list \<Rightarrow> string \<Rightarrow> DdlPlan" where
  "sealPlan statements description =
     \<lparr>pl_statements = statements, pl_description = description, pl_sealed = True\<rparr>"

definition assertPlanSealed :: "DdlPlan \<Rightarrow> thrown + unit" where
  "assertPlanSealed plan =
     (if \<not> pl_sealed plan then
        Inl (invalidInput ''DDL plans must be compiled by the typed schema DDL compiler'')
      else Inr ())"

definition quoteTarget :: "string \<Rightarrow> string \<Rightarrow> thrown + string" where
  "quoteTarget schema table =
     bindR (ddlQuoteIdentifier schema) (\<lambda>s.
     bindR (ddlQuoteIdentifier table) (\<lambda>t. Inr (s @ ''.'' @ t)))"

definition onTable :: "string \<Rightarrow> string \<Rightarrow> string" where
  "onTable schema table = schema @ ''.'' @ table"

subsection \<open>Tables and columns\<close>

record DdlColumnSpec =
  dc_name :: string
  dc_type :: string
  dc_nullable :: bool
  dc_default :: DdlColumnDefault
  dc_primaryKey :: bool

definition columnClause :: "DdlColumnType \<Rightarrow> DdlColumnSpec \<Rightarrow> string \<Rightarrow> string" where
  "columnClause type c defaultClause =
     '' '' @ typeName type @ (if dc_nullable c then [] else '' NOT NULL'') @ defaultClause @
     (if dc_primaryKey c then '' PRIMARY KEY'' else [])"

definition notAllowlisted :: "string \<Rightarrow> thrown" where
  "notAllowlisted type = invalidInput (''column type '' @ inQuotes type @ '' is not allowlisted'')"

fun renderColumns :: "string list \<Rightarrow> DdlColumnSpec list \<Rightarrow> thrown + string list" where
  "renderColumns seen [] = Inr []"
| "renderColumns seen (c # cs) =
     (case isDdlColumnType (dc_type c) of
        None \<Rightarrow> Inl (notAllowlisted (dc_type c))
      | Some type \<Rightarrow>
          if dc_name c \<in> set seen then
            Inl (invalidInput (''duplicate column name '' @ inQuotes (dc_name c)))
          else
            bindR (renderDefaultClause type (dc_default c)) (\<lambda>d.
            bindR (ddlQuoteIdentifier (dc_name c)) (\<lambda>n.
            bindR (renderColumns (dc_name c # seen) cs) (\<lambda>rest.
              Inr ((n @ columnClause type c d) # rest)))))"

definition compileCreateTable :: "string \<Rightarrow> string \<Rightarrow> DdlColumnSpec list \<Rightarrow> thrown + DdlPlan" where
  "compileCreateTable schema table columns =
     bindR (assertManageableSchema schema) (\<lambda>_.
     if columns = [] then Inl (invalidInput ''a table needs at least one column'')
     else
       bindR (renderColumns [] columns) (\<lambda>rendered.
       bindR (quoteTarget schema table) (\<lambda>t.
         Inr (sealPlan
           [''CREATE TABLE '' @ t @ '' ('' @ CHR 0x0A # ''  '' @
              joinWith ('','' @ CHR 0x0A # ''  '') rendered @ CHR 0x0A # '')'']
           (''create table '' @ onTable schema table @ '' with '' @ natStr (length columns) @ '' column(s)'')))))"

definition compileRenameTable :: "string \<Rightarrow> string \<Rightarrow> string \<Rightarrow> thrown + DdlPlan" where
  "compileRenameTable schema table newName =
     bindR (assertManageableSchema schema) (\<lambda>_.
     bindR (quoteTarget schema table) (\<lambda>t.
     bindR (ddlQuoteIdentifier newName) (\<lambda>n.
       Inr (sealPlan [''ALTER TABLE '' @ t @ '' RENAME TO '' @ n]
         (''rename table '' @ onTable schema table @ '' to '' @ newName)))))"

definition compileDropTable :: "string \<Rightarrow> string \<Rightarrow> thrown + DdlPlan" where
  "compileDropTable schema table =
     bindR (assertManageableSchema schema) (\<lambda>_.
     bindR (quoteTarget schema table) (\<lambda>t.
       Inr (sealPlan [''DROP TABLE '' @ t] (''drop table '' @ onTable schema table))))"

definition compileAddColumn :: "string \<Rightarrow> string \<Rightarrow> DdlColumnSpec \<Rightarrow> thrown + DdlPlan" where
  "compileAddColumn schema table column =
     bindR (assertManageableSchema schema) (\<lambda>_.
     (case isDdlColumnType (dc_type column) of
        None \<Rightarrow> Inl (notAllowlisted (dc_type column))
      | Some type \<Rightarrow>
          bindR (renderDefaultClause type (dc_default column)) (\<lambda>d.
          bindR (quoteTarget schema table) (\<lambda>t.
          bindR (ddlQuoteIdentifier (dc_name column)) (\<lambda>n.
            Inr (sealPlan [''ALTER TABLE '' @ t @ '' ADD COLUMN '' @ n @ columnClause type column d]
              (''add column '' @ dc_name column @ '' to '' @ onTable schema table)))))))"

text \<open>\<open>ALTER TABLE target <action> "column" <rest>\<close>, the shape of the column statements.\<close>

definition alterColumn :: "string \<Rightarrow> string \<Rightarrow> string \<Rightarrow> string \<Rightarrow> string \<Rightarrow> thrown + string" where
  "alterColumn schema table action column rest =
     bindR (quoteTarget schema table) (\<lambda>t.
     bindR (ddlQuoteIdentifier column) (\<lambda>c.
       Inr (''ALTER TABLE '' @ t @ action @ c @ rest)))"

definition compileRenameColumn :: "string \<Rightarrow> string \<Rightarrow> string \<Rightarrow> string \<Rightarrow> thrown + DdlPlan" where
  "compileRenameColumn schema table column newName =
     bindR (assertManageableSchema schema) (\<lambda>_.
     bindR (alterColumn schema table '' RENAME COLUMN '' column '' TO '') (\<lambda>s.
     bindR (ddlQuoteIdentifier newName) (\<lambda>n.
       Inr (sealPlan [s @ n]
         (''rename column '' @ column @ '' on '' @ onTable schema table @ '' to '' @ newName)))))"

definition compileDropColumn :: "string \<Rightarrow> string \<Rightarrow> string \<Rightarrow> thrown + DdlPlan" where
  "compileDropColumn schema table column =
     bindR (assertManageableSchema schema) (\<lambda>_.
     bindR (alterColumn schema table '' DROP COLUMN '' column []) (\<lambda>s.
       Inr (sealPlan [s] (''drop column '' @ column @ '' from '' @ onTable schema table))))"

definition compileSetColumnDefault ::
  "string \<Rightarrow> string \<Rightarrow> string \<Rightarrow> DdlColumnType \<Rightarrow> DdlColumnDefault \<Rightarrow> thrown + DdlPlan" where
  "compileSetColumnDefault schema table column type dflt =
     bindR (assertManageableSchema schema) (\<lambda>_.
     bindR (renderDefaultClause type dflt) (\<lambda>d.
     if d = [] then Inl (invalidInput ''a default value is required to set a column default'')
     else
       bindR (alterColumn schema table '' ALTER COLUMN '' column ('' SET'' @ d)) (\<lambda>s.
         Inr (sealPlan [s] (''set the default of column '' @ column @ '' on '' @ onTable schema table)))))"

definition compileDropColumnDefault :: "string \<Rightarrow> string \<Rightarrow> string \<Rightarrow> thrown + DdlPlan" where
  "compileDropColumnDefault schema table column =
     bindR (assertManageableSchema schema) (\<lambda>_.
     bindR (alterColumn schema table '' ALTER COLUMN '' column '' DROP DEFAULT'') (\<lambda>s.
       Inr (sealPlan [s] (''drop the default of column '' @ column @ '' on '' @ onTable schema table))))"

definition compileSetNotNull :: "string \<Rightarrow> string \<Rightarrow> string \<Rightarrow> thrown + DdlPlan" where
  "compileSetNotNull schema table column =
     bindR (assertManageableSchema schema) (\<lambda>_.
     bindR (alterColumn schema table '' ALTER COLUMN '' column '' SET NOT NULL'') (\<lambda>s.
       Inr (sealPlan [s] (''set column '' @ column @ '' on '' @ onTable schema table @ '' NOT NULL''))))"

definition compileDropNotNull :: "string \<Rightarrow> string \<Rightarrow> string \<Rightarrow> thrown + DdlPlan" where
  "compileDropNotNull schema table column =
     bindR (assertManageableSchema schema) (\<lambda>_.
     bindR (alterColumn schema table '' ALTER COLUMN '' column '' DROP NOT NULL'') (\<lambda>s.
       Inr (sealPlan [s]
         (''drop the NOT NULL constraint of column '' @ column @ '' on '' @ onTable schema table))))"

subsection \<open>Changing a type under the lock\<close>

definition DO_OPEN :: string where
  "DO_OPEN = ''DO $microjbase$ ''"

definition DO_CLOSE :: string where
  "DO_CLOSE = '' END $microjbase$''"

definition raiseUnless :: "string \<Rightarrow> string \<Rightarrow> string" where
  "raiseUnless message sqlstate =
     ''RAISE EXCEPTION '' @ sq message @ '' USING ERRCODE = '' @ sq sqlstate @ ''; END IF;''"

text \<open>The body of the assertion, over quoted literals.\<close>

definition sourceTypeBody :: "string \<Rightarrow> string \<Rightarrow> string \<Rightarrow> string \<Rightarrow> string" where
  "sourceTypeBody s t c e =
     DO_OPEN @ ''DECLARE microjbase_actual_type text; BEGIN '' @
     ''SELECT format_type(a.atttypid, a.atttypmod) INTO microjbase_actual_type '' @
     ''FROM pg_catalog.pg_attribute a JOIN pg_catalog.pg_class c ON c.oid = a.attrelid '' @
     ''JOIN pg_catalog.pg_namespace n ON n.oid = c.relnamespace '' @
     ''WHERE n.nspname = '' @ s @ '' AND c.relname = '' @ t @ '' AND a.attname = '' @ c @
     '' AND a.attnum > 0 AND NOT a.attisdropped; '' @
     ''IF microjbase_actual_type IS DISTINCT FROM '' @ e @ '' THEN '' @
     raiseUnless ''compiled source type no longer matches the column'' ''9C001'' @ DO_CLOSE"

definition compileLockedSourceTypeAssertion ::
  "string \<Rightarrow> string \<Rightarrow> string \<Rightarrow> DdlColumnType \<Rightarrow> thrown + string" where
  "compileLockedSourceTypeAssertion schema table column fromType =
     bindR (quoteLiteral schema) (\<lambda>s.
     bindR (quoteLiteral table) (\<lambda>t.
     bindR (quoteLiteral column) (\<lambda>c.
     bindR (quoteLiteral (CATALOGUE_TYPE_RENDERINGS fromType)) (\<lambda>e.
       Inr (sourceTypeBody s t c e)))))"

definition compileChangeColumnType ::
  "string \<Rightarrow> string \<Rightarrow> string \<Rightarrow> DdlColumnType \<Rightarrow> DdlColumnType \<Rightarrow> thrown + DdlPlan" where
  "compileChangeColumnType schema table column fromType toType =
     bindR (assertManageableSchema schema) (\<lambda>_.
     if toType \<notin> set (SAFE_TYPE_CONVERSIONS fromType) then
       Inl (invalidInput (''type conversion from '' @ typeName fromType @ '' to '' @ typeName toType @
         '' is not in the safe conversion matrix''))
     else
       bindR (compileLockedSourceTypeAssertion schema table column fromType) (\<lambda>a.
       bindR (alterColumn schema table '' ALTER COLUMN '' column ('' TYPE '' @ typeName toType)) (\<lambda>s.
         Inr (sealPlan [a, s]
           (''change the type of column '' @ column @ '' on '' @ onTable schema table @ '' from '' @
            typeName fromType @ '' to '' @ typeName toType)))))"

subsection \<open>Names of keys and indexes\<close>

definition MAX_IDENTIFIER_LENGTH :: nat where
  "MAX_IDENTIFIER_LENGTH = 63"

definition assertDdlName :: "string \<Rightarrow> string \<Rightarrow> thrown + unit" where
  "assertDdlName name context =
     bindR (assertDdlIdentifier name) (\<lambda>_.
       if MAX_IDENTIFIER_LENGTH < length name then
         Inl (invalidInput (context @ '' must be at most 63 characters''))
       else Inr ())"

definition nameDigestInput :: "string \<Rightarrow> string \<Rightarrow> string list \<Rightarrow> string" where
  "nameDigestInput kind table columns =
     table @ CHR 0x00 # joinWith [CHR 0x00] columns @ CHR 0x00 # kind"

definition deterministicObjectName ::
  "(bytes \<Rightarrow> bytes) \<Rightarrow> string \<Rightarrow> string \<Rightarrow> string list \<Rightarrow> string" where
  "deterministicObjectName sha kind table columns =
     (let digest = take 8 (sha256Hex sha (nameDigestInput kind table columns));
          readable = ''mjb_'' @ table @ ''_'' @ joinWith ''_'' columns @ ''_'' @ kind
      in if length readable + length digest + 1 \<le> MAX_IDENTIFIER_LENGTH then readable @ ''_'' @ digest
         else take (MAX_IDENTIFIER_LENGTH - length digest - 1) readable @ ''_'' @ digest)"

fun distinctColumns :: "string \<Rightarrow> string list \<Rightarrow> string list \<Rightarrow> thrown + unit" where
  "distinctColumns context seen [] = Inr ()"
| "distinctColumns context seen (c # cs) =
     bindR (assertDdlIdentifier c) (\<lambda>_.
       if c \<in> set seen then
         Inl (invalidInput (context @ '' lists column '' @ inQuotes c @ '' more than once''))
       else distinctColumns context (c # seen) cs)"

definition assertKeyColumns :: "string list \<Rightarrow> string \<Rightarrow> thrown + unit" where
  "assertKeyColumns columns context =
     (if columns = [] then Inl (invalidInput (context @ '' needs at least one column''))
      else if 16 < length columns then
        Inl (invalidInput (context @ '' must have at most 16 columns''))
      else distinctColumns context [] columns)"

definition quoteColumnList :: "string list \<Rightarrow> thrown + string" where
  "quoteColumnList columns =
     bindR (mapR ddlQuoteIdentifier columns) (\<lambda>cs. Inr (''('' @ joinWith '', '' cs @ '')''))"

definition chosenName ::
  "(bytes \<Rightarrow> bytes) \<Rightarrow> string option \<Rightarrow> string \<Rightarrow> string \<Rightarrow> string list \<Rightarrow> string" where
  "chosenName sha name kind table columns =
     (case name of Some n \<Rightarrow> n | None \<Rightarrow> deterministicObjectName sha kind table columns)"

subsection \<open>Indexes and constraints\<close>

definition compileCreateIndex ::
  "(bytes \<Rightarrow> bytes) \<Rightarrow> string \<Rightarrow> string \<Rightarrow> string list \<Rightarrow> string option \<Rightarrow> thrown + DdlPlan" where
  "compileCreateIndex sha schema table columns nameOpt =
     bindR (assertManageableSchema schema) (\<lambda>_.
     bindR (assertDdlIdentifier table) (\<lambda>_.
     bindR (assertKeyColumns columns ''an index'') (\<lambda>_.
     let name = chosenName sha nameOpt ''idx'' table columns in
     bindR (assertDdlName name ''index name'') (\<lambda>_.
     bindR (ddlQuoteIdentifier name) (\<lambda>n.
     bindR (quoteTarget schema table) (\<lambda>t.
     bindR (quoteColumnList columns) (\<lambda>cs.
       Inr (sealPlan [''CREATE INDEX '' @ n @ '' ON '' @ t @ '' '' @ cs]
         (''create index '' @ name @ '' on '' @ onTable schema table)))))))))"

definition compileDropIndex :: "string \<Rightarrow> string \<Rightarrow> thrown + DdlPlan" where
  "compileDropIndex schema name =
     bindR (assertManageableSchema schema) (\<lambda>_.
     bindR (assertDdlName name ''index name'') (\<lambda>_.
     bindR (quoteTarget schema name) (\<lambda>t.
       Inr (sealPlan [''DROP INDEX '' @ t] (''drop index '' @ onTable schema name)))))"

definition compileAddUniqueConstraint ::
  "(bytes \<Rightarrow> bytes) \<Rightarrow> string \<Rightarrow> string \<Rightarrow> string list \<Rightarrow> string option \<Rightarrow> thrown + DdlPlan" where
  "compileAddUniqueConstraint sha schema table columns nameOpt =
     bindR (assertManageableSchema schema) (\<lambda>_.
     bindR (assertDdlIdentifier table) (\<lambda>_.
     bindR (assertKeyColumns columns ''a unique constraint'') (\<lambda>_.
     let name = chosenName sha nameOpt ''uniq'' table columns in
     bindR (assertDdlName name ''constraint name'') (\<lambda>_.
     bindR (alterColumn schema table '' ADD CONSTRAINT '' name '' UNIQUE '') (\<lambda>s.
     bindR (quoteColumnList columns) (\<lambda>cs.
       Inr (sealPlan [s @ cs]
         (''add unique constraint '' @ name @ '' on '' @ onTable schema table))))))))"

definition compileDropConstraint :: "string \<Rightarrow> string \<Rightarrow> string \<Rightarrow> thrown + DdlPlan" where
  "compileDropConstraint schema table name =
     bindR (assertManageableSchema schema) (\<lambda>_.
     bindR (assertDdlIdentifier table) (\<lambda>_.
     bindR (assertDdlName name ''constraint name'') (\<lambda>_.
     bindR (alterColumn schema table '' DROP CONSTRAINT '' name []) (\<lambda>s.
       Inr (sealPlan [s] (''drop constraint '' @ name @ '' on '' @ onTable schema table))))))"

text \<open>The locked exposure guard.\<close>

definition exposedGuardBody :: "string \<Rightarrow> string \<Rightarrow> string" where
  "exposedGuardBody s t =
     DO_OPEN @ ''BEGIN IF EXISTS ( SELECT 1 FROM microjbase.exposure_registry '' @
     ''WHERE schema_name = '' @ s @ '' AND table_name = '' @ t @ '' AND exposed = TRUE ) THEN '' @
     raiseUnless ''table is exposed to the data API and cannot be modified'' ''9C003'' @ DO_CLOSE"

definition exposedGuardStatement :: "string \<Rightarrow> string \<Rightarrow> thrown + string" where
  "exposedGuardStatement schema table =
     bindR (quoteLiteral schema) (\<lambda>s.
     bindR (quoteLiteral table) (\<lambda>t. Inr (exposedGuardBody s t)))"

definition FOREIGN_KEY_ACTION_SQL :: "string \<Rightarrow> string option" where
  "FOREIGN_KEY_ACTION_SQL = map_of
     [(''no_action'', ''NO ACTION''), (''restrict'', ''RESTRICT''), (''cascade'', ''CASCADE''),
      (''set_null'', ''SET NULL'')]"

definition rewritingAction :: "string \<Rightarrow> bool" where
  "rewritingAction a \<longleftrightarrow> a = ''cascade'' \<or> a = ''set_null''"

record AddForeignKeySpec =
  fk_schema :: string
  fk_table :: string
  fk_columns :: "string list"
  fk_refSchema :: string
  fk_refTable :: string
  fk_refColumns :: "string list"
  fk_onUpdate :: string
  fk_onDelete :: string
  fk_name :: "string option"

definition foreignKeyAction :: "string \<Rightarrow> string \<Rightarrow> thrown + string" where
  "foreignKeyAction which action =
     (case FOREIGN_KEY_ACTION_SQL action of
        None \<Rightarrow> Inl (invalidInput (which @ '' action '' @ inQuotes action @ '' is not allowlisted''))
      | Some t \<Rightarrow> Inr t)"

definition foreignKeyGuards :: "AddForeignKeySpec \<Rightarrow> thrown + string list" where
  "foreignKeyGuards spec =
     (if rewritingAction (fk_onUpdate spec) \<or> rewritingAction (fk_onDelete spec) then
        bindR (exposedGuardStatement (fk_schema spec) (fk_table spec)) (\<lambda>g1.
        bindR (exposedGuardStatement (fk_refSchema spec) (fk_refTable spec)) (\<lambda>g2.
          Inr [g1, g2]))
      else Inr [])"

definition compileAddForeignKey :: "(bytes \<Rightarrow> bytes) \<Rightarrow> AddForeignKeySpec \<Rightarrow> thrown + DdlPlan" where
  "compileAddForeignKey sha spec =
     bindR (assertManageableSchema (fk_schema spec)) (\<lambda>_.
     bindR (assertManageableSchema (fk_refSchema spec)) (\<lambda>_.
     bindR (assertDdlIdentifier (fk_table spec)) (\<lambda>_.
     bindR (assertDdlIdentifier (fk_refTable spec)) (\<lambda>_.
     bindR (assertKeyColumns (fk_columns spec) ''a foreign key'') (\<lambda>_.
     bindR (assertKeyColumns (fk_refColumns spec) ''a foreign key target'') (\<lambda>_.
     if length (fk_columns spec) \<noteq> length (fk_refColumns spec) then
       Inl (invalidInput ''a foreign key must reference the same number of columns it constrains'')
     else
       bindR (foreignKeyAction ''onUpdate'' (fk_onUpdate spec)) (\<lambda>onUpdate.
       bindR (foreignKeyAction ''onDelete'' (fk_onDelete spec)) (\<lambda>onDelete.
       let name = chosenName sha (fk_name spec) ''fkey'' (fk_table spec) (fk_columns spec) in
       bindR (assertDdlName name ''constraint name'') (\<lambda>_.
       bindR (foreignKeyGuards spec) (\<lambda>guards.
       bindR (alterColumn (fk_schema spec) (fk_table spec) '' ADD CONSTRAINT '' name '' FOREIGN KEY '') (\<lambda>s.
       bindR (quoteColumnList (fk_columns spec)) (\<lambda>cs.
       bindR (quoteTarget (fk_refSchema spec) (fk_refTable spec)) (\<lambda>rt.
       bindR (quoteColumnList (fk_refColumns spec)) (\<lambda>rcs.
         Inr (sealPlan
           (guards @ [s @ cs @ '' REFERENCES '' @ rt @ '' '' @ rcs @ '' ON UPDATE '' @ onUpdate @
                      '' ON DELETE '' @ onDelete])
           (''add foreign key '' @ name @ '' on '' @ onTable (fk_schema spec) (fk_table spec)))))))))))))))))"

subsection \<open>Exposure plans\<close>

definition COLUMN_PRIVILEGE_SQL :: "string list" where
  "COLUMN_PRIVILEGE_SQL = [''SELECT'', ''INSERT'', ''UPDATE'']"

definition grantStatement :: "string \<Rightarrow> string \<Rightarrow> string \<Rightarrow> string \<times> string list \<Rightarrow> thrown + string" where
  "grantStatement schema table role grant =
     (let (privilege, columns) = grant in
      if privilege \<notin> set COLUMN_PRIVILEGE_SQL then
        Inl (invalidInput (''column privilege '' @ inQuotes privilege @ '' is not allowlisted''))
      else
        bindR (assertKeyColumns columns (''a '' @ privilege @ '' grant'')) (\<lambda>_.
        bindR (quoteColumnList columns) (\<lambda>cs.
        bindR (quoteTarget schema table) (\<lambda>t.
        bindR (ddlQuoteIdentifier role) (\<lambda>r.
          Inr (''GRANT '' @ privilege @ '' '' @ cs @ '' ON TABLE '' @ t @ '' TO '' @ r))))))"

record GrantRuntimePrivilegesSpec =
  gr_schema :: string
  gr_table :: string
  gr_role :: string
  gr_schemaUsage :: bool
  gr_delete :: bool
  gr_columnGrants :: "(string \<times> string list) list"

definition schemaUsageGrant :: "GrantRuntimePrivilegesSpec \<Rightarrow> thrown + string list" where
  "schemaUsageGrant spec =
     (if gr_schemaUsage spec then
        bindR (ddlQuoteIdentifier (gr_schema spec)) (\<lambda>s.
        bindR (ddlQuoteIdentifier (gr_role spec)) (\<lambda>r.
          Inr [''GRANT USAGE ON SCHEMA '' @ s @ '' TO '' @ r]))
      else Inr [])"

definition deleteGrant :: "GrantRuntimePrivilegesSpec \<Rightarrow> thrown + string list" where
  "deleteGrant spec =
     (if gr_delete spec then
        bindR (quoteTarget (gr_schema spec) (gr_table spec)) (\<lambda>t.
        bindR (ddlQuoteIdentifier (gr_role spec)) (\<lambda>r.
          Inr [''GRANT DELETE ON TABLE '' @ t @ '' TO '' @ r]))
      else Inr [])"

definition compileGrantRuntimePrivileges :: "GrantRuntimePrivilegesSpec \<Rightarrow> thrown + DdlPlan" where
  "compileGrantRuntimePrivileges spec =
     bindR (assertManageableSchema (gr_schema spec)) (\<lambda>_.
     bindR (assertDdlIdentifier (gr_table spec)) (\<lambda>_.
     bindR (assertDdlIdentifier (gr_role spec)) (\<lambda>_.
     bindR (schemaUsageGrant spec) (\<lambda>usage.
     bindR (deleteGrant spec) (\<lambda>del.
     bindR (mapR (grantStatement (gr_schema spec) (gr_table spec) (gr_role spec)) (gr_columnGrants spec)) (\<lambda>grants.
       let statements = usage @ del @ grants in
       if statements = [] then Inl (invalidInput ''a privilege grant plan needs at least one statement'')
       else Inr (sealPlan statements
         (''grant runtime privileges on '' @ onTable (gr_schema spec) (gr_table spec)))))))))"

definition compileRevokeRuntimePrivileges :: "string \<Rightarrow> string \<Rightarrow> string \<Rightarrow> thrown + DdlPlan" where
  "compileRevokeRuntimePrivileges schema table role =
     bindR (assertManageableSchema schema) (\<lambda>_.
     bindR (assertDdlIdentifier table) (\<lambda>_.
     bindR (assertDdlIdentifier role) (\<lambda>_.
     bindR (quoteTarget schema table) (\<lambda>t.
     bindR (ddlQuoteIdentifier role) (\<lambda>r.
       Inr (sealPlan [''REVOKE SELECT, INSERT, UPDATE, DELETE ON TABLE '' @ t @ '' FROM '' @ r]
         (''revoke runtime privileges on '' @ onTable schema table)))))))"

definition columnPrivilegeTest :: "string \<Rightarrow> string \<Rightarrow> string \<Rightarrow> string" where
  "columnPrivilegeTest role qualified privilege =
     ''pg_catalog.has_column_privilege('' @ role @ '', '' @ qualified @ '', a.attname, '' @ sq privilege @ '')''"

definition privilegesRevokedBody :: "string \<Rightarrow> string \<Rightarrow> string \<Rightarrow> string \<Rightarrow> string" where
  "privilegesRevokedBody r q s t =
     DO_OPEN @ ''BEGIN IF pg_catalog.has_table_privilege('' @ r @ '', '' @ q @ '', '' @ sq ''DELETE'' @
     '') THEN '' @ raiseUnless ''runtime role retains DELETE on the unexposed table'' ''9C002'' @
     '' IF EXISTS ( SELECT 1 FROM pg_catalog.pg_attribute a '' @
     ''JOIN pg_catalog.pg_class c ON c.oid = a.attrelid '' @
     ''JOIN pg_catalog.pg_namespace n ON n.oid = c.relnamespace '' @
     ''WHERE n.nspname = '' @ s @ '' AND c.relname = '' @ t @
     '' AND a.attnum > 0 AND NOT a.attisdropped AND ( '' @ columnPrivilegeTest r q ''SELECT'' @
     '' OR '' @ columnPrivilegeTest r q ''INSERT'' @ '' OR '' @ columnPrivilegeTest r q ''UPDATE'' @
     '' ) ) THEN '' @
     raiseUnless ''runtime role retains column privileges on the unexposed table'' ''9C002'' @ DO_CLOSE"

definition compileVerifyRuntimePrivilegesRevoked :: "string \<Rightarrow> string \<Rightarrow> string \<Rightarrow> thrown + DdlPlan" where
  "compileVerifyRuntimePrivilegesRevoked schema table role =
     bindR (assertManageableSchema schema) (\<lambda>_.
     bindR (assertDdlIdentifier table) (\<lambda>_.
     bindR (assertDdlIdentifier role) (\<lambda>_.
     bindR (quoteLiteral role) (\<lambda>r.
     bindR (quoteLiteral (schema @ ''.'' @ table)) (\<lambda>q.
     bindR (quoteLiteral schema) (\<lambda>s.
     bindR (quoteLiteral table) (\<lambda>t.
       Inr (sealPlan [privilegesRevokedBody r q s t]
         (''verify runtime privileges were revoked on '' @ onTable schema table)))))))))"

definition assertRegistryAlias :: "string \<Rightarrow> thrown + unit" where
  "assertRegistryAlias al =
     (if \<not> aliasPattern al then Inl (invalidInput ''registry alias is not a valid alias'') else Inr ())"

definition assertRegistryIdentifier :: "string \<Rightarrow> string \<Rightarrow> thrown + unit" where
  "assertRegistryIdentifier name context =
     (if \<not> simpleIdentifier name \<or> MAX_IDENTIFIER_LENGTH < length name then
        Inl (invalidInput (context @ '' is not a valid identifier''))
      else Inr ())"

definition compileMarkExposed :: "string \<Rightarrow> string \<Rightarrow> string \<Rightarrow> thrown + DdlPlan" where
  "compileMarkExposed al schema table =
     bindR (assertRegistryAlias al) (\<lambda>_.
     bindR (assertRegistryIdentifier schema ''registry schema'') (\<lambda>_.
     bindR (assertRegistryIdentifier table ''registry table'') (\<lambda>_.
     bindR (quoteLiteral al) (\<lambda>a.
     bindR (quoteLiteral schema) (\<lambda>s.
     bindR (quoteLiteral table) (\<lambda>t.
       Inr (sealPlan
         [''INSERT INTO microjbase.exposure_registry '' @
          ''(alias, schema_name, table_name, exposed, exposed_at, unexposed_at, updated_at) '' @
          ''VALUES ('' @ a @ '', '' @ s @ '', '' @ t @ '', TRUE, now(), NULL, now()) '' @
          ''ON CONFLICT (schema_name, table_name) DO UPDATE SET '' @
          ''alias = EXCLUDED.alias, exposed = TRUE, exposed_at = now(), '' @
          ''unexposed_at = NULL, updated_at = now()'']
         ''mark a table exposed in the durable exposure registry'')))))))"

definition compileMarkUnexposed :: "string \<Rightarrow> string \<Rightarrow> thrown + DdlPlan" where
  "compileMarkUnexposed schema table =
     bindR (assertRegistryIdentifier schema ''registry schema'') (\<lambda>_.
     bindR (assertRegistryIdentifier table ''registry table'') (\<lambda>_.
     bindR (quoteLiteral schema) (\<lambda>s.
     bindR (quoteLiteral table) (\<lambda>t.
       Inr (sealPlan
         [''UPDATE microjbase.exposure_registry SET exposed = FALSE, '' @
          ''unexposed_at = now(), updated_at = now() '' @
          ''WHERE schema_name = '' @ s @ '' AND table_name = '' @ t]
         ''mark a table unexposed in the durable exposure registry'')))))"

subsection \<open>Row security and ownership policies\<close>

definition compileEnableRowSecurity :: "string \<Rightarrow> string \<Rightarrow> thrown + DdlPlan" where
  "compileEnableRowSecurity schema table =
     bindR (assertManageableSchema schema) (\<lambda>_.
     bindR (assertDdlIdentifier table) (\<lambda>_.
     bindR (quoteTarget schema table) (\<lambda>target.
       Inr (sealPlan
         [''ALTER TABLE '' @ target @ '' ENABLE ROW LEVEL SECURITY'',
          ''ALTER TABLE '' @ target @ '' FORCE ROW LEVEL SECURITY'']
         (''enable and force row-level security on '' @ onTable schema table)))))"

definition compileDisableRowSecurity :: "string \<Rightarrow> string \<Rightarrow> thrown + DdlPlan" where
  "compileDisableRowSecurity schema table =
     bindR (assertManageableSchema schema) (\<lambda>_.
     bindR (assertDdlIdentifier table) (\<lambda>_.
     bindR (quoteTarget schema table) (\<lambda>target.
     bindR (exposedGuardStatement schema table) (\<lambda>guard.
       Inr (sealPlan
         [guard,
          ''ALTER TABLE '' @ target @ '' NO FORCE ROW LEVEL SECURITY'',
          ''ALTER TABLE '' @ target @ '' DISABLE ROW LEVEL SECURITY'']
         (''disable row-level security on '' @ onTable schema table))))))"

record OwnershipPolicyTemplateShape =
  ts_command :: string
  ts_using :: bool
  ts_withCheck :: bool

definition OWNERSHIP_POLICY_TEMPLATES :: "string \<Rightarrow> OwnershipPolicyTemplateShape option" where
  "OWNERSHIP_POLICY_TEMPLATES = map_of
     [(''read'', \<lparr>ts_command = ''SELECT'', ts_using = True, ts_withCheck = False\<rparr>),
      (''insert'', \<lparr>ts_command = ''INSERT'', ts_using = False, ts_withCheck = True\<rparr>),
      (''update'', \<lparr>ts_command = ''UPDATE'', ts_using = True, ts_withCheck = True\<rparr>),
      (''delete'', \<lparr>ts_command = ''DELETE'', ts_using = True, ts_withCheck = False\<rparr>)]"

definition OWNERSHIP_EXPRESSION :: string where
  "OWNERSHIP_EXPRESSION =
     ''nullif(current_setting('' @ sq ''microjbase.user_id'' @ '', true), '' @ sq [] @ '')::uuid''"

definition ownershipPolicyName :: "(bytes \<Rightarrow> bytes) \<Rightarrow> string \<Rightarrow> string \<Rightarrow> string \<Rightarrow> string" where
  "ownershipPolicyName sha table column template = deterministicObjectName sha template table [column]"

definition compileOwnershipComparison :: "string \<Rightarrow> thrown + string" where
  "compileOwnershipComparison column =
     bindR (ddlQuoteIdentifier column) (\<lambda>c. Inr (c @ '' = '' @ OWNERSHIP_EXPRESSION))"

definition assertOwnershipPolicySpec ::
  "string \<Rightarrow> string \<Rightarrow> string \<Rightarrow> string \<Rightarrow> thrown + OwnershipPolicyTemplateShape" where
  "assertOwnershipPolicySpec schema table column template =
     bindR (assertManageableSchema schema) (\<lambda>_.
     bindR (assertDdlIdentifier table) (\<lambda>_.
     bindR (assertDdlIdentifier column) (\<lambda>_.
       (case OWNERSHIP_POLICY_TEMPLATES template of
          None \<Rightarrow> Inl (invalidInput (''policy template '' @ inQuotes template @ '' is not allowlisted''))
        | Some shape \<Rightarrow> Inr shape))))"

definition compileCreateOwnershipPolicy ::
  "(bytes \<Rightarrow> bytes) \<Rightarrow> string \<Rightarrow> string \<Rightarrow> string \<Rightarrow> string \<Rightarrow> string \<Rightarrow> thrown + DdlPlan" where
  "compileCreateOwnershipPolicy sha schema table column template role =
     bindR (assertOwnershipPolicySpec schema table column template) (\<lambda>shape.
     bindR (assertDdlIdentifier role) (\<lambda>_.
     let name = ownershipPolicyName sha table column template in
     bindR (assertDdlName name ''policy name'') (\<lambda>_.
     bindR (quoteTarget schema table) (\<lambda>target.
     bindR (compileOwnershipComparison column) (\<lambda>comparison.
     bindR (ddlQuoteIdentifier name) (\<lambda>n.
     bindR (ddlQuoteIdentifier role) (\<lambda>r.
       Inr (sealPlan
         [''CREATE POLICY '' @ n @ '' ON '' @ target @ '' FOR '' @ ts_command shape @ '' TO '' @ r @
          (if ts_using shape then '' USING ('' @ comparison @ '')'' else []) @
          (if ts_withCheck shape then '' WITH CHECK ('' @ comparison @ '')'' else [])]
         (''create '' @ template @ '' ownership policy on '' @ onTable schema table)))))))))"

definition compileDropOwnershipPolicy ::
  "(bytes \<Rightarrow> bytes) \<Rightarrow> string \<Rightarrow> string \<Rightarrow> string \<Rightarrow> string \<Rightarrow> thrown + DdlPlan" where
  "compileDropOwnershipPolicy sha schema table column template =
     bindR (assertOwnershipPolicySpec schema table column template) (\<lambda>_.
     let name = ownershipPolicyName sha table column template in
     bindR (assertDdlName name ''policy name'') (\<lambda>_.
     bindR (quoteTarget schema table) (\<lambda>target.
     bindR (ddlQuoteIdentifier name) (\<lambda>n.
       Inr (sealPlan [''DROP POLICY '' @ n @ '' ON '' @ target]
         (''drop '' @ template @ '' ownership policy on '' @ onTable schema table))))))"

subsection \<open>Locked guards\<close>

definition compileAssertNotExposed :: "string \<Rightarrow> string \<Rightarrow> thrown + DdlPlan" where
  "compileAssertNotExposed schema table =
     bindR (assertManageableSchema schema) (\<lambda>_.
     bindR (assertDdlIdentifier table) (\<lambda>_.
     bindR (exposedGuardStatement schema table) (\<lambda>guard.
       Inr (sealPlan [guard] (''assert '' @ onTable schema table @ '' is not exposed'')))))"

definition prerequisitesBody :: "string \<Rightarrow> string \<Rightarrow> string \<Rightarrow> string" where
  "prerequisitesBody s t r =
     DO_OPEN @
     ''DECLARE microjbase_security_forced boolean; microjbase_policy_applies boolean; '' @
     ''microjbase_cascading_fkey boolean; BEGIN '' @
     ''SELECT EXISTS ( SELECT 1 FROM pg_catalog.pg_constraint con '' @
     ''JOIN pg_catalog.pg_class c ON c.oid = con.conrelid OR c.oid = con.confrelid '' @
     ''JOIN pg_catalog.pg_namespace n ON n.oid = c.relnamespace '' @
     ''WHERE n.nspname = '' @ s @ '' AND c.relname = '' @ t @ '' AND con.contype = '' @ sq ''f'' @
     '' AND (con.confupdtype IN ('' @ sq ''c'' @ '', '' @ sq ''n'' @ '') OR con.confdeltype IN ('' @
     sq ''c'' @ '', '' @ sq ''n'' @ '')) ) INTO microjbase_cascading_fkey; '' @
     ''IF microjbase_cascading_fkey THEN '' @
     raiseUnless ''table participates in a cascading or nullifying foreign key and cannot be exposed'' ''9C004'' @
     '' IF EXISTS ( SELECT 1 FROM microjbase.exposure_registry WHERE schema_name = '' @ s @
     '' AND table_name = '' @ t @ '' AND exposed = TRUE ) THEN '' @
     raiseUnless ''table is already exposed to the data API'' ''9C004'' @
     '' SELECT (c.relrowsecurity AND c.relforcerowsecurity) INTO microjbase_security_forced '' @
     ''FROM pg_catalog.pg_class c JOIN pg_catalog.pg_namespace n ON n.oid = c.relnamespace '' @
     ''WHERE n.nspname = '' @ s @ '' AND c.relname = '' @ t @ '' AND c.relkind = '' @ sq ''r'' @ ''; '' @
     ''IF microjbase_security_forced IS DISTINCT FROM TRUE THEN '' @
     raiseUnless ''row-level security is not enabled and forced on the table'' ''9C004'' @
     '' SELECT EXISTS ( SELECT 1 FROM pg_catalog.pg_policy pol '' @
     ''JOIN pg_catalog.pg_class c ON c.oid = pol.polrelid '' @
     ''JOIN pg_catalog.pg_namespace n ON n.oid = c.relnamespace '' @
     ''WHERE n.nspname = '' @ s @ '' AND c.relname = '' @ t @
     '' AND ( pol.polroles = ARRAY[0]::oid[] OR EXISTS ( SELECT 1 '' @
     ''FROM pg_catalog.unnest(pol.polroles) AS policy_role '' @
     ''WHERE pg_catalog.pg_has_role('' @ r @ '', policy_role, '' @ sq ''MEMBER'' @ '') ) ) ) '' @
     ''INTO microjbase_policy_applies; IF microjbase_policy_applies IS DISTINCT FROM TRUE THEN '' @
     raiseUnless ''no row-level security policy applies to the runtime role'' ''9C004'' @ DO_CLOSE"

definition compileAssertExposurePrerequisites :: "string \<Rightarrow> string \<Rightarrow> string \<Rightarrow> thrown + DdlPlan" where
  "compileAssertExposurePrerequisites schema table role =
     bindR (assertManageableSchema schema) (\<lambda>_.
     bindR (assertDdlIdentifier table) (\<lambda>_.
     bindR (assertDdlIdentifier role) (\<lambda>_.
     bindR (quoteLiteral schema) (\<lambda>s.
     bindR (quoteLiteral table) (\<lambda>t.
     bindR (quoteLiteral role) (\<lambda>r.
       Inr (sealPlan [prerequisitesBody s t r]
         (''assert '' @ onTable schema table @ '' satisfies exposure prerequisites''))))))))"

end
