(* ===== verification/SqlLexer.thy ===== *)
theory SqlLexer
  imports DdlCompiler
begin

text \<open>
  The part of PostgreSQL's lexical structure that decides where one command ends: quoted identifiers,
  string constants, dollar-quoted bodies, comments and the semicolon; and the statements of
  \<open>src/database/schema-ddl.ts\<close> read by it.
\<close>

subsection \<open>The scanner\<close>

datatype lexState = LPlain | LIdent | LString | LDollar string

text \<open>The tag of a dollar quote: identifier characters up to the second dollar sign.\<close>

definition dollarTag :: "string \<Rightarrow> string option" where
  "dollarTag s =
     (let tag = takeWhile identChar s
      in (case drop (length tag) s of
            c # r \<Rightarrow> if c = CHR ''$'' then Some tag else None
          | [] \<Rightarrow> None))"

definition closesDollar :: "string \<Rightarrow> string \<Rightarrow> bool" where
  "closesDollar tag s \<longleftrightarrow> take (length tag + 2) s = CHR ''$'' # tag @ ''$''"

text \<open>
  \<open>lexSql st s\<close>: from state \<open>st\<close>, the text \<open>s\<close> ends outside every quote and holds no semicolon and no
  comment outside quotes.  A doubled quote closes and reopens.
\<close>

function lexSql :: "lexState \<Rightarrow> string \<Rightarrow> bool" where
  "lexSql st [] = (st = LPlain)"
| "lexSql LPlain (c # cs) =
     (if c = CHR '';'' then False
      else if c = CHR ''-'' \<and> take 1 cs = ''-'' then False
      else if c = CHR ''/'' \<and> take 1 cs = ''*'' then False
      else if c = dquote then lexSql LIdent cs
      else if c = squote then lexSql LString cs
      else if c = CHR ''$'' then
        (case dollarTag cs of
           Some tag \<Rightarrow> lexSql (LDollar tag) (drop (length tag + 1) cs)
         | None \<Rightarrow> lexSql LPlain cs)
      else lexSql LPlain cs)"
| "lexSql LIdent (c # cs) = lexSql (if c = dquote then LPlain else LIdent) cs"
| "lexSql LString (c # cs) = lexSql (if c = squote then LPlain else LString) cs"
| "lexSql (LDollar tag) (c # cs) =
     (if closesDollar tag (c # cs) then lexSql LPlain (drop (length tag + 1) cs)
      else lexSql (LDollar tag) cs)"
  by pat_completeness auto
termination by (relation "measure (\<lambda>(st, s). length s)") auto

abbreviation oneCommand :: "string \<Rightarrow> bool" where
  "oneCommand s \<equiv> lexSql LPlain s"

subsection \<open>Neutral texts\<close>

text \<open>A text after which the scanner is where it was.\<close>

definition neutral :: "string \<Rightarrow> bool" where
  "neutral s \<longleftrightarrow> (\<forall>t. lexSql LPlain (s @ t) = lexSql LPlain t)"

lemma neutral_one: "neutral s \<Longrightarrow> oneCommand s"
  unfolding neutral_def by (metis append_Nil2 lexSql.simps(1))

lemma neutral_Nil [simp]: "neutral []"
  by (simp add: neutral_def)

lemma neutral_append: "neutral s \<Longrightarrow> neutral t \<Longrightarrow> neutral (s @ t)"
  by (simp add: neutral_def)

text \<open>Characters without a meaning to the scanner.\<close>

definition plainChar :: "char \<Rightarrow> bool" where
  "plainChar c \<longleftrightarrow>
     c \<noteq> CHR '';'' \<and> c \<noteq> CHR ''-'' \<and> c \<noteq> CHR ''/'' \<and> c \<noteq> dquote \<and> c \<noteq> squote \<and> c \<noteq> CHR ''$''"

lemma neutral_Cons: "plainChar c \<Longrightarrow> neutral s \<Longrightarrow> neutral (c # s)"
  by (simp add: neutral_def plainChar_def)

lemma neutral_plain: "list_all plainChar s \<Longrightarrow> neutral s"
  by (induction s) (simp_all add: neutral_Cons)

lemma lexSql_ident: "dquote \<notin> set s \<Longrightarrow> lexSql LIdent (s @ dquote # t) = lexSql LPlain t"
  by (induction s) auto

lemma neutral_ident:
  assumes "simpleIdentifier s"
  shows "neutral (dquote # s @ [dquote])"
  unfolding neutral_def using lexSql_ident [OF simpleIdentifier_no_dquote [OF assms]] by simp

lemma lexSql_string: "lexSql LString (doubleSquotes v @ squote # t) = lexSql LPlain t"
  by (induction v) (auto simp: doubleSquotes_def)

lemma neutral_string: "neutral (squote # doubleSquotes v @ [squote])"
  unfolding neutral_def using lexSql_string by simp

lemma neutral_sq: "squote \<notin> set s \<Longrightarrow> neutral (sq s)"
proof -
  assume "squote \<notin> set s"
  then have "doubleSquotes s = s" by (induction s) (auto simp: doubleSquotes_def)
  then show ?thesis using neutral_string [of s] by (simp add: sq_def)
qed

text \<open>A dollar-quoted body without dollar signs.\<close>

lemma lexSql_body:
  "CHR ''$'' \<notin> set s \<Longrightarrow>
   lexSql (LDollar tag) (s @ CHR ''$'' # tag @ CHR ''$'' # t) = lexSql LPlain t"
proof (induction s)
  case Nil
  then show ?case by (simp add: closesDollar_def)
next
  case (Cons c s)
  then have "\<not> closesDollar tag (c # s @ CHR ''$'' # tag @ CHR ''$'' # t)" by (auto simp: closesDollar_def)
  with Cons show ?case by simp
qed

lemma neutral_do:
  assumes "CHR ''$'' \<notin> set s"
  shows "neutral (DO_OPEN @ s @ DO_CLOSE)"
  unfolding neutral_def
proof
  fix t
  have "dollarTag (''microjbase'' @ CHR ''$'' # r) = Some ''microjbase''" for r
    by (simp add: dollarTag_def identChar_def identStart_def char_class_defs)
  then have "lexSql LPlain ((DO_OPEN @ s @ DO_CLOSE) @ t) =
      lexSql (LDollar ''microjbase'') ('' '' @ s @ '' END '' @ CHR ''$'' # ''microjbase'' @ CHR ''$'' # t)"
    by (simp add: DO_OPEN_def DO_CLOSE_def)
  also have "\<dots> = lexSql LPlain t"
    using lexSql_body [of "'' '' @ s @ '' END ''" "''microjbase''" t] assms by simp
  finally show "lexSql LPlain ((DO_OPEN @ s @ DO_CLOSE) @ t) = lexSql LPlain t" .
qed

end
