(* ===== verification/DdlLiterals.thy ===== *)
theory DdlLiterals
  imports DdlTypes
begin

text \<open>
  What the server reads back from the constants the compiler of \<open>src/database/schema-ddl.ts\<close> renders:
  every literal default denotes exactly the value it was made from.
\<close>

subsection \<open>Reading a constant\<close>

text \<open>After the opening quote (\<open>standard_conforming_strings\<close> is on): the text and what follows.\<close>

fun readQuoted :: "string \<Rightarrow> (string \<times> string) option" where
  "readQuoted [] = None"
| "readQuoted [c] = (if c = squote then Some ([], []) else None)"
| "readQuoted (c # d # s) =
     (if c = squote then
        (if d = squote then map_option (\<lambda>(v, r). (squote # v, r)) (readQuoted s) else Some ([], d # s))
      else map_option (\<lambda>(v, r). (c # v, r)) (readQuoted (d # s)))"

datatype SqlConst = CText string string | CNumber rat | CBool bool | CNull string

text \<open>A quoted literal with a cast, a key word, or a signed decimal.\<close>

definition readConst :: "string \<Rightarrow> SqlConst option" where
  "readConst s =
     (case s of
        [] \<Rightarrow> None
      | c # r \<Rightarrow>
          if c = squote then
            (case readQuoted r of
               Some (v, x # y # cast) \<Rightarrow> if x = CHR '':'' \<and> y = CHR '':'' then Some (CText v cast) else None
             | _ \<Rightarrow> None)
          else if s = ''TRUE'' then Some (CBool True)
          else if s = ''FALSE'' then Some (CBool False)
          else if take 6 s = ''NULL::'' then Some (CNull (drop 6 s))
          else if c = CHR ''-'' then map_option (\<lambda>q. CNumber (- q)) (decimalVal r)
          else map_option CNumber (decimalVal s))"

lemma readQuoted_doubled:
  assumes "r = [] \<or> hd r \<noteq> squote"
  shows "readQuoted (doubleSquotes v @ squote # r) = Some (v, r)"
proof (induction v)
  case Nil
  show ?case using assms by (cases r) (simp_all add: doubleSquotes_def)
next
  case (Cons c v)
  obtain d t where dt: "doubleSquotes v @ squote # r = d # t" by (cases "doubleSquotes v @ squote # r") simp_all
  have "doubleSquotes (c # v) = (if c = squote then [squote, squote] else [c]) @ doubleSquotes v"
    by (simp add: doubleSquotes_def)
  with Cons dt show ?case by (simp add: doubleSquotes_def)
qed

lemma quoteLiteral_Inr:
  "quoteLiteral v = Inr q \<longleftrightarrow> CHR 0x00 \<notin> set v \<and> backslash \<notin> set v \<and> q = squote # doubleSquotes v @ [squote]"
  by (auto simp: quoteLiteral_def)

lemma castLiteral_reads:
  assumes "castLiteral v ty = Inr s"
  shows "readConst s = Some (CText v ty)"
proof -
  have "s = squote # (doubleSquotes v @ squote # ''::'' @ ty)"
    using assms by (auto simp: castLiteral_def res_simps quoteLiteral_Inr)
  then show ?thesis by (simp add: readConst_def readQuoted_doubled)
qed

subsection \<open>Numbers without an exponent\<close>

lemma splitOn_absent: "x \<notin> set s \<Longrightarrow> splitOn x s = [s]"
  by (induction s) auto

lemma splitOn_one: "x \<notin> set s \<Longrightarrow> x \<notin> set t \<Longrightarrow> splitOn x (s @ x # t) = [s, t]"
  by (induction s) (auto simp: splitOn_absent)

lemma digit_not: "list_all isDigit ds \<Longrightarrow> CHR ''.'' \<notin> set ds \<and> CHR ''e'' \<notin> set ds \<and> CHR ''E'' \<notin> set ds \<and>
  CHR ''-'' \<notin> set ds \<and> CHR ''+'' \<notin> set ds"
  by (auto simp: list_all_iff char_class_defs)

text \<open>A layout without exponent, for any position of the point.\<close>

definition plainLayout :: "string \<Rightarrow> int \<Rightarrow> string" where
  "plainLayout ds n =
     (if n \<le> 0 then ''0.'' @ zeros (- n) @ ds
      else if int (length ds) \<le> n then ds @ zeros (n - int (length ds))
      else take (nat n) ds @ ''.'' @ drop (nat n) ds)"

lemma plainLayout_value:
  assumes d: "list_all isDigit ds" "ds \<noteq> []"
  shows "decimalVal (plainLayout ds n) = Some (of_nat (digitsVal ds) * pow10 (n - int (length ds)))"
proof -
  define k where "k = int (length ds)"
  consider (small) "n \<le> 0" | (int) "0 < n" "k \<le> n" | (mid) "0 < n" "\<not> k \<le> n" by linarith
  then show ?thesis
  proof cases
    case int
    then have l: "plainLayout ds n = (ds @ zeros (n - k)) @ []" by (simp add: plainLayout_def k_def)
    have "list_all isDigit (ds @ zeros (n - k))" using d by (auto simp: zeros_def list_all_iff)
    from decimalVal_plain [OF this, of "[]" 0] d int show ?thesis
      unfolding l by (simp add: digitsVal_append zeros_def k_def pow10_def)
  next
    case mid
    then have l: "plainLayout ds n = take (nat n) ds @ CHR ''.'' # drop (nat n) ds @ []"
      by (simp add: plainLayout_def k_def)
    have a: "list_all isDigit (take (nat n) ds)" "list_all isDigit (drop (nat n) ds)" "take (nat n) ds \<noteq> []"
      using d mid by (auto simp: list_all_iff dest: in_set_takeD in_set_dropD)
    from decimalVal_point [OF a, of "[]" 0] mid show ?thesis unfolding l by (simp add: k_def)
  next
    case small
    then have l: "plainLayout ds n = ''0'' @ CHR ''.'' # (zeros (- n) @ ds) @ []"
      by (simp add: plainLayout_def k_def)
    have a: "list_all isDigit ''0''" "list_all isDigit (zeros (- n) @ ds)" "''0'' \<noteq> ([]::string)"
      using d by (auto simp: zeros_def list_all_iff)
    have "digitsVal (''0'' @ zeros (- n) @ ds) = digitsVal ds"
      by (simp add: zeros_def digitsVal_append)
    with decimalVal_point [OF a, of "[]" 0] small show ?thesis
      unfolding l by (simp add: k_def zeros_def)
  qed
qed

lemma plainLayout_chars:
  assumes "list_all isDigit ds" and "ds \<noteq> []"
  shows "list_all (\<lambda>c. isDigit c \<or> c = CHR ''.'') (plainLayout ds n)" and "plainLayout ds n \<noteq> []"
    and "isDigit (hd (plainLayout ds n))"
proof -
  have t: "list_all (\<lambda>c. isDigit c \<or> c = CHR ''.'') (take i ds)" "list_all (\<lambda>c. isDigit c \<or> c = CHR ''.'') (drop i ds)" for i
    using assms by (auto simp: list_all_iff dest: in_set_takeD in_set_dropD)
  show "list_all (\<lambda>c. isDigit c \<or> c = CHR ''.'') (plainLayout ds n)"
    using t [of "nat n"] assms by (auto simp: plainLayout_def zeros_def list_all_iff char_class_defs)
  show "plainLayout ds n \<noteq> []" using assms by (auto simp: plainLayout_def)
  show "isDigit (hd (plainLayout ds n))" using assms
    by (cases ds) (auto simp: plainLayout_def zeros_def hd_append take_Cons' list_all_iff)
qed

text \<open>A layout with an exponent, and what the expansion makes of it.\<close>

lemma layout_exponent:
  assumes d: "list_all isDigit ds" "ds \<noteq> []" and e: "CHR ''e'' \<in> set (layoutNumber ds n)"
  obtains ex where "layoutNumber ds n = (take 1 ds @ (if length ds = 1 then [] else CHR ''.'' # drop 1 ds)) @ CHR ''e'' # ex"
    and "exponentOf ex = n - 1" and "CHR ''e'' \<notin> set ex"
proof -
  have ds: "CHR ''e'' \<notin> set (take i ds)" "CHR ''e'' \<notin> set (drop i ds)" "CHR ''e'' \<notin> set ds" for i
    using digit_not [OF d(1)] by (auto dest: in_set_takeD in_set_dropD)
  define ex where "ex = (if 0 \<le> n - 1 then CHR ''+'' # natStr (nat (n - 1)) else CHR ''-'' # natStr (nat (- (n - 1))))"
  show thesis
  proof (rule that)
    show "layoutNumber ds n = (take 1 ds @ (if length ds = 1 then [] else CHR ''.'' # drop 1 ds)) @ CHR ''e'' # ex"
      using e ds by (auto simp: layoutNumber_def Let_def zeros_def ex_def split: if_splits)
    show "exponentOf ex = n - 1" by (simp add: ex_def exponentOf_def)
    have "CHR ''e'' \<notin> set (natStr m)" for m using natStr_digits [of m] not_digits(2) by blast
    then show "CHR ''e'' \<notin> set ex" by (simp add: ex_def)
  qed
qed

lemma indexOf_absent: "x \<notin> set s \<Longrightarrow> indexOf x s = None"
  by (induction s) auto

lemma expand_layout:
  assumes d: "list_all isDigit ds" "ds \<noteq> []" and e: "CHR ''e'' \<in> set (layoutNumber ds n)"
  shows "expandExponential (layoutNumber ds n) = plainLayout ds n"
    and "expandExponential (CHR ''-'' # layoutNumber ds n) = CHR ''-'' # plainLayout ds n"
proof -
  define mant where "mant = take 1 ds @ (if length ds = 1 then [] else CHR ''.'' # drop 1 ds)"
  obtain ex where l: "layoutNumber ds n = mant @ CHR ''e'' # ex" and ex: "exponentOf ex = n - 1" "CHR ''e'' \<notin> set ex"
    using layout_exponent [OF d e] unfolding mant_def by blast
  obtain c cs where ds: "ds = c # cs" using d(2) by (cases ds) auto
  have c: "c \<noteq> CHR ''.''" "c \<noteq> CHR ''-''" "CHR ''.'' \<notin> set cs" "CHR ''e'' \<notin> set ds"
    using digit_not [OF d(1)] ds by auto
  have m: "CHR ''e'' \<notin> set mant" using c ds by (auto simp: mant_def)
  have mm: "mant = c # (if cs = [] then [] else CHR ''.'' # cs)" by (simp add: mant_def ds)
  have s: "splitOn (CHR ''e'') (mant @ CHR ''e'' # ex) = [mant, ex]" by (rule splitOn_one [OF m ex(2)])
  have s': "splitOn (CHR ''e'') ((CHR ''-'' # mant) @ CHR ''e'' # ex) = [CHR ''-'' # mant, ex]"
    by (rule splitOn_one [OF _ ex(2)]) (use m in simp)
  have dg: "takeWhile (\<lambda>x. x \<noteq> CHR ''.'') mant @ drop 1 (dropWhile (\<lambda>x. x \<noteq> CHR ''.'') mant) = ds"
    using c by (simp add: mm ds)
  have i: "(case indexOf (CHR ''.'') mant of None \<Rightarrow> length mant | Some i \<Rightarrow> i) = 1"
    using c by (simp add: mm indexOf_absent)
  show "expandExponential (layoutNumber ds n) = plainLayout ds n"
    unfolding expandExponential_def Let_def l s using dg i ex c
    by (simp add: startsWith_def plainLayout_def mm ds diff_diff_eq add.commute)
  show "expandExponential (CHR ''-'' # layoutNumber ds n) = CHR ''-'' # plainLayout ds n"
    unfolding expandExponential_def Let_def l s' [unfolded append_Cons] using dg i ex c
    by (simp add: startsWith_def plainLayout_def mm ds diff_diff_eq add.commute)
qed

subsection \<open>Every literal default denotes its value\<close>

lemma plain_read:
  assumes "isDigit (hd t)" and "decimalVal t = Some r"
  shows "readConst t = Some (CNumber r)" and "readConst (CHR ''-'' # t) = Some (CNumber (- r))"
proof -
  obtain c cs where t: "t = c # cs" using assms(2) by (cases t) (auto simp: decimalVal_def)
  with assms(1) have c: "c \<noteq> squote" "c \<noteq> CHR ''T''" "c \<noteq> CHR ''F''" "c \<noteq> CHR ''N''" "c \<noteq> CHR ''-''"
    by (auto simp: char_class_defs)
  then show "readConst t = Some (CNumber r)" using assms(2) by (simp add: readConst_def t)
  show "readConst (CHR ''-'' # t) = Some (CNumber (- r))" using assms(2) by (simp add: readConst_def)
qed

text \<open>A positive double, as it is or expanded.\<close>

lemma posNumber_reads:
  assumes "roundDouble q = JFin q" and "0 < q"
  shows "\<exists>r. decimalVal (posNumStr q) = Some r \<and> roundDouble r = JFin q \<and> isDigit (hd (posNumStr q))"
    and "CHR ''e'' \<in> set (posNumStr q) \<Longrightarrow> \<exists>t r. expandExponential (posNumStr q) = t \<and>
      expandExponential (CHR ''-'' # posNumStr q) = CHR ''-'' # t \<and>
      decimalVal t = Some r \<and> roundDouble r = JFin q \<and> isDigit (hd t)"
proof -
  obtain ds n where l: "posNumStr q = layoutNumber ds n" and d: "list_all isDigit ds" "ds \<noteq> []"
    and v: "roundDouble (of_nat (digitsVal ds) * pow10 (n - int (length ds))) = JFin q"
    using posNumStr_layout [OF assms] .
  show "\<exists>r. decimalVal (posNumStr q) = Some r \<and> roundDouble r = JFin q \<and> isDigit (hd (posNumStr q))"
    using posNumStr_reads [OF assms] by blast
  show "\<exists>t r. expandExponential (posNumStr q) = t \<and>
      expandExponential (CHR ''-'' # posNumStr q) = CHR ''-'' # t \<and>
      decimalVal t = Some r \<and> roundDouble r = JFin q \<and> isDigit (hd t)" if "CHR ''e'' \<in> set (posNumStr q)"
    using expand_layout [OF d, of n] that plainLayout_value [OF d, of n] plainLayout_chars(3) [OF d, of n] v
    unfolding l by auto
qed

lemma jnumStr_sign:
  "jnumStr (JFin q) = (if q = 0 then ''0'' else if q < 0 then CHR ''-'' # posNumStr (- q) else posNumStr q)"
  by (simp add: jnumStr_def numStr_def)

lemma readConst_zero: "readConst ''0'' = Some (CNumber 0)"
  by code_simp

lemma number_reads:
  assumes "roundDouble q = JFin q"
  shows "\<exists>r. readConst (jnumStr (JFin q)) = Some (CNumber r) \<and> roundDouble r = JFin q"
    and "\<exists>r. readConst (renderNumericDefault (JFin q)) = Some (CNumber r) \<and> roundDouble r = JFin q"
proof -
  have neg: "roundDouble (- q) = JFin (- q)" using roundDouble_minus [OF assms] .
  have pos: "\<exists>r. readConst (jnumStr (JFin q)) = Some (CNumber r) \<and> roundDouble r = JFin q"
  proof -
    consider "q = 0" | "0 < q" | "q < 0" by linarith
    then show ?thesis
    proof cases
      case 1
      then show ?thesis by (simp add: jnumStr_sign readConst_zero roundDouble_def)
    next
      case 2
      from posNumber_reads(1) [OF assms 2] obtain r where r: "decimalVal (posNumStr q) = Some r" "roundDouble r = JFin q"
        "isDigit (hd (posNumStr q))" by blast
      with 2 plain_read(1) [OF r(3,1)] show ?thesis by (simp add: jnumStr_sign)
    next
      case 3
      then have "0 < - q" by simp
      from posNumber_reads(1) [OF neg this] obtain r where r: "decimalVal (posNumStr (- q)) = Some r"
        "roundDouble r = JFin (- q)" "isDigit (hd (posNumStr (- q)))" by blast
      with 3 plain_read(2) [OF r(3,1)] roundDouble_minus [OF r(2)] show ?thesis by (simp add: jnumStr_sign)
    qed
  qed
  then show "\<exists>r. readConst (jnumStr (JFin q)) = Some (CNumber r) \<and> roundDouble r = JFin q" .
  show "\<exists>r. readConst (renderNumericDefault (JFin q)) = Some (CNumber r) \<and> roundDouble r = JFin q"
  proof (cases "CHR ''e'' \<in> set (jnumStr (JFin q)) \<or> CHR ''E'' \<in> set (jnumStr (JFin q))")
    case False
    with pos show ?thesis by (simp add: renderNumericDefault_def Let_def)
  next
    case True
    have E: "CHR ''E'' \<notin> set (posNumStr x)" if "roundDouble x = JFin x" "0 < x" for x
      using posNumStr_reads(1) [OF that] by (auto simp: list_all_iff numChar_def char_class_defs)
    show ?thesis
    proof (cases "isSafeInt (JFin q)")
      case True
      with pos show ?thesis by (simp add: renderNumericDefault_def)
    next
      case False
      then have r: "renderNumericDefault (JFin q) = expandExponential (jnumStr (JFin q))"
        using True by (auto simp: renderNumericDefault_def Let_def)
      consider "q = 0" | "0 < q" | "q < 0" by linarith
      then show ?thesis
      proof cases
        case 1
        with True show ?thesis by (simp add: jnumStr_sign)
      next
        case 2
        with True E [OF assms 2] have "CHR ''e'' \<in> set (posNumStr q)" by (simp add: jnumStr_sign)
        from posNumber_reads(2) [OF assms 2 this] obtain t v where t: "expandExponential (posNumStr q) = t"
          "decimalVal t = Some v" "roundDouble v = JFin q" "isDigit (hd t)" by blast
        with 2 r plain_read(1) [OF t(4,2)] show ?thesis by (simp add: jnumStr_sign)
      next
        case 3
        then have p: "0 < - q" by simp
        with True 3 E [OF neg p] have "CHR ''e'' \<in> set (posNumStr (- q))" by (simp add: jnumStr_sign)
        from posNumber_reads(2) [OF neg p this] obtain t v where t: "expandExponential (CHR ''-'' # posNumStr (- q)) = CHR ''-'' # t"
          "decimalVal t = Some v" "roundDouble v = JFin (- q)" "isDigit (hd t)" by blast
        with 3 r plain_read(2) [OF t(4,2)] roundDouble_minus [OF t(3)] show ?thesis by (simp add: jnumStr_sign)
      qed
    qed
  qed
qed

text \<open>What a literal default of a type means.\<close>

definition constDenotes :: "DdlColumnType \<Rightarrow> jsval \<Rightarrow> SqlConst \<Rightarrow> bool" where
  "constDenotes ty v c \<longleftrightarrow>
     (case v of
        VStr s \<Rightarrow>
          c = CText (if ty = TyUuid then toLowerCase s else if ty = TyJsonb then jsonQuote s else s) (typeName ty)
      | VNum n \<Rightarrow>
          if ty = TyJsonb then c = CText (jsonNumber n) ''jsonb''
          else (case c of CNumber r \<Rightarrow> roundDouble r = n | _ \<Rightarrow> False)
      | VBool b \<Rightarrow> c = (if ty = TyJsonb then CText (jsonBool b) ''jsonb'' else CBool b)
      | VNull \<Rightarrow> c = CNull ''jsonb''
      | _ \<Rightarrow> False)"

text \<open>C35: A literal default that compiles is read by the server as exactly the value it was made from:
  a text is read back character by character with the cast of its column's type, a number reads
  back as the same double, also where its rendering had an exponent, and nothing follows the constant.\<close>
theorem literal_default_denotes:
  assumes "renderLiteralDefault ty v = Inr s" and "\<forall>q. v = VNum (JFin q) \<longrightarrow> roundDouble q = JFin q"
  shows "\<exists>c. readConst s = Some c \<and> constDenotes ty v c"
proof -
  have int: "\<exists>c. readConst s = Some c \<and> constDenotes ty v c"
    if "renderInteger m m' fits v = Inr s" "ty \<noteq> TyJsonb" for m m' fits
  proof -
    from that obtain n where n: "v = VNum n" "numIsInteger n" "s = jnumStr n"
      by (auto simp: renderInteger_def split: jsval.splits if_splits)
    then obtain q where q: "n = JFin q" by (cases n) auto
    with number_reads(1) [of q] assms(2) n that(2) show ?thesis by (auto simp: constDenotes_def)
  qed
  have ts: "\<exists>c. readConst s = Some c \<and> constDenotes ty v c"
    if "renderTimestamp cast v = Inr s" "typeName ty = cast" "ty \<noteq> TyJsonb" "ty \<noteq> TyUuid" for cast
    using that castLiteral_reads by (auto simp: renderTimestamp_def constDenotes_def split: jsval.splits if_splits)
  have num: "\<exists>c. readConst s = Some c \<and> constDenotes ty v c"
    if "v = VNum n" "numIsFinite n" "s = renderNumericDefault n" "ty = TyNumeric" for n
  proof -
    from that(2) obtain q where q: "n = JFin q" by (cases n) auto
    with number_reads(2) [of q] assms(2) that show ?thesis by (auto simp: constDenotes_def)
  qed
  have b: "readConst ''TRUE'' = Some (CBool True)" "readConst ''FALSE'' = Some (CBool False)"
    "readConst ''NULL::jsonb'' = Some (CNull ''jsonb'')" by code_simp+
  show ?thesis
  proof (cases ty)
    case TyInteger
    with assms(1) int show ?thesis by simp
  next
    case TyBigint
    with assms(1) int show ?thesis by simp
  next
    case TyTimestamp
    with assms(1) ts show ?thesis by simp
  next
    case TyTimestamptz
    with assms(1) ts show ?thesis by simp
  next
    case TyNumeric
    with assms(1) num show ?thesis by (auto split: jsval.splits if_splits)
  qed (use assms(1) castLiteral_reads b in
      \<open>auto simp: constDenotes_def split: jsval.splits if_splits\<close>)
qed

lemma literal_default_denotes_witness:
  "\<exists>s c. renderLiteralDefault TyText (VStr ''it's'') = Inr s \<and> readConst s = Some c \<and>
     constDenotes TyText (VStr ''it's'') c"
proof -
  have r: "renderLiteralDefault TyText (VStr ''it's'') = Inr ([squote] @ ''it'' @ [squote, squote] @ ''s'' @ [squote] @ ''::text'')"
    by code_simp
  show ?thesis using literal_default_denotes [OF r] r by auto
qed

end
