(* ===== verification/DdlSafety.thy ===== *)
theory DdlSafety
  imports SqlLexer DdlLiterals
begin

text \<open>
  Every sealed plan of \<open>src/database/schema-ddl.ts\<close> is a list of single commands: no builder can be
  made to emit a second command, whatever names and values it is given.
\<close>

subsection \<open>The parts\<close>

lemma ddlQuoteIdentifier_Inr:
  "ddlQuoteIdentifier s = Inr q \<longleftrightarrow> simpleIdentifier s \<and> q = dquote # s @ [dquote]"
  by (auto simp: ddlQuoteIdentifier_def doubleQuotes_id simpleIdentifier_no_dquote)

lemma assertDdlIdentifier_Inr [simp]: "assertDdlIdentifier s = Inr u \<longleftrightarrow> simpleIdentifier s"
  by (simp add: assertDdlIdentifier_def)

lemma neutral_quoted: "ddlQuoteIdentifier s = Inr q \<Longrightarrow> neutral q"
  by (auto simp: ddlQuoteIdentifier_Inr intro: neutral_ident)

lemma neutral_literal: "quoteLiteral v = Inr q \<Longrightarrow> neutral q"
  by (auto simp: quoteLiteral_Inr intro: neutral_string)

lemma neutral_Cons_simp [simp]: "plainChar c \<Longrightarrow> neutral (c # s) \<longleftrightarrow> neutral s"
  by (simp add: neutral_def plainChar_def)

lemma neutral_append_simp [simp]: "neutral s \<Longrightarrow> neutral t \<Longrightarrow> neutral (s @ t)"
  by (rule neutral_append)

lemma quoteTarget_Inr:
  "quoteTarget s t = Inr q \<longleftrightarrow> simpleIdentifier s \<and> simpleIdentifier t \<and>
     q = (dquote # s @ [dquote]) @ ''.'' @ (dquote # t @ [dquote])"
  by (auto simp: quoteTarget_def res_simps ddlQuoteIdentifier_Inr)

lemma neutral_target: "quoteTarget s t = Inr q \<Longrightarrow> neutral q"
  unfolding quoteTarget_Inr
  by (elim conjE) (simp only:, intro neutral_append neutral_ident neutral_plain, simp_all add: plainChar_def)

lemma neutral_join: "neutral sep \<Longrightarrow> list_all neutral xs \<Longrightarrow> neutral (joinWith sep xs)"
  by (induction sep xs rule: joinWith.induct) simp_all

lemma mapR_quoted_neutral: "mapR ddlQuoteIdentifier cs = Inr qs \<Longrightarrow> list_all neutral qs"
  by (induction cs arbitrary: qs) (auto simp: res_simps neutral_quoted)

lemma neutral_columnList: "quoteColumnList cs = Inr q \<Longrightarrow> neutral q"
  by (auto simp: quoteColumnList_def res_simps plainChar_def
      intro!: neutral_Cons neutral_append neutral_join mapR_quoted_neutral)

lemma neutral_alter:
  assumes "alterColumn s t a c r = Inr q" and "neutral a" and "neutral r"
  shows "neutral q"
  using assms by (auto simp: alterColumn_def res_simps plainChar_def neutral_target neutral_quoted)

lemma neutral_alter_plain:
  "alterColumn s t a c r = Inr q \<Longrightarrow> list_all plainChar a \<Longrightarrow> list_all plainChar r \<Longrightarrow> neutral q"
  by (rule neutral_alter, assumption, (rule neutral_plain, assumption)+)

subsection \<open>Numbers and defaults\<close>

lemma neutral_minus: "c \<noteq> CHR ''-'' \<Longrightarrow> neutral (c # s) \<Longrightarrow> neutral (CHR ''-'' # c # s)"
  by (simp add: neutral_def)

lemma digit_plain: "isDigit c \<Longrightarrow> plainChar c \<and> c \<noteq> CHR ''-''"
  by (auto simp: plainChar_def char_class_defs)

lemma neutral_digits: "list_all isDigit s \<Longrightarrow> neutral s"
  by (rule neutral_plain) (auto simp: list_all_iff digit_plain)

lemma neutral_minus_digits: "list_all isDigit s \<Longrightarrow> s \<noteq> [] \<Longrightarrow> neutral (CHR ''-'' # s)"
  using neutral_digits [of s] by (cases s) (simp_all add: neutral_minus digit_plain)

lemma natStr_all_digits: "list_all isDigit (natStr n)"
  using natStr_digits by (simp add: list_all_iff)

lemma zeros_digits: "list_all isDigit (zeros n)"
  by (simp add: zeros_def list_all_iff)

lemma part_digits: "list_all isDigit ds \<Longrightarrow> list_all isDigit (take n ds)" "list_all isDigit ds \<Longrightarrow> list_all isDigit (drop n ds)"
  by (auto simp: list_all_iff dest: in_set_takeD in_set_dropD)

lemma neutral_layout: "list_all isDigit ds \<Longrightarrow> neutral (layoutNumber ds n)"
  unfolding layoutNumber_def Let_def
  by (simp add: plainChar_def neutral_digits neutral_minus_digits natStr_all_digits zeros_digits part_digits)

lemma neutral_plainLayout: "list_all isDigit ds \<Longrightarrow> neutral (plainLayout ds n)"
  unfolding plainLayout_def
  by (simp add: plainChar_def neutral_digits zeros_digits part_digits)

lemma neutral_signed: "isDigit (hd s) \<Longrightarrow> s \<noteq> [] \<Longrightarrow> neutral s \<Longrightarrow> neutral (CHR ''-'' # s)"
  by (cases s) (simp_all add: neutral_minus digit_plain)

text \<open>The numbers of the program are doubles.\<close>

fun doubleValue :: "jsval \<Rightarrow> bool" where
  "doubleValue (VNum (JFin q)) = (roundDouble q = JFin q)"
| "doubleValue v = True"

lemma neutral_posNumStr:
  assumes "roundDouble q = JFin q" and "0 < q"
  shows "neutral (posNumStr q)" "neutral (CHR ''-'' # posNumStr q)"
    and "CHR ''e'' \<in> set (posNumStr q) \<Longrightarrow> neutral (expandExponential (posNumStr q))"
    and "CHR ''e'' \<in> set (posNumStr q) \<Longrightarrow> neutral (expandExponential (CHR ''-'' # posNumStr q))"
proof -
  obtain ds n where l: "posNumStr q = layoutNumber ds n" and d: "list_all isDigit ds" "ds \<noteq> []"
    using posNumStr_layout [OF assms] .
  show "neutral (posNumStr q)" "neutral (CHR ''-'' # posNumStr q)" unfolding l
    using neutral_layout [OF d(1)] layout_chars(2,3) [OF d] by (simp_all add: neutral_signed)
  show "neutral (expandExponential (posNumStr q))" "neutral (expandExponential (CHR ''-'' # posNumStr q))"
    if "CHR ''e'' \<in> set (posNumStr q)"
    using expand_layout [OF d, of n] that neutral_plainLayout [OF d(1)] plainLayout_chars(2,3) [OF d]
    unfolding l by (simp_all add: neutral_signed)
qed

lemma neutral_jnumStr: "roundDouble q = JFin q \<Longrightarrow> neutral (jnumStr (JFin q))"
  using neutral_posNumStr [of q] neutral_posNumStr [of "- q"] roundDouble_minus [of q q]
  by (simp add: jnumStr_sign plainChar_def)

lemma posNumStr_no_E: "roundDouble q = JFin q \<Longrightarrow> 0 < q \<Longrightarrow> CHR ''E'' \<notin> set (posNumStr q)"
  using posNumStr_reads(1) [of q] by (auto simp: list_all_iff numChar_def char_class_defs)

lemma neutral_numeric: "roundDouble q = JFin q \<Longrightarrow> neutral (renderNumericDefault (JFin q))"
  using neutral_posNumStr [of q] neutral_posNumStr [of "- q"] roundDouble_minus [of q q] neutral_jnumStr [of q]
    posNumStr_no_E [of q] posNumStr_no_E [of "- q"]
  by (auto simp: renderNumericDefault_def Let_def jnumStr_sign)

lemma neutral_cast: "castLiteral v (typeName ty) = Inr s \<Longrightarrow> neutral s"
  using neutral_literal by (cases ty) (auto simp: castLiteral_def res_simps plainChar_def)

lemma neutral_literalDefault:
  assumes "renderLiteralDefault ty v = Inr s" and "doubleValue v"
  shows "neutral s"
proof -
  have int: "neutral s" if "renderInteger m m' fits v = Inr s" for m m' fits
  proof -
    from that obtain n where n: "v = VNum n" "numIsInteger n" "s = jnumStr n"
      by (auto simp: renderInteger_def split: jsval.splits if_splits)
    then obtain q where "n = JFin q" by (cases n) auto
    with n assms(2) show ?thesis by (simp add: neutral_jnumStr)
  qed
  have ts: "neutral s" if "renderTimestamp (typeName ty') v = Inr s" for ty'
    using that neutral_cast by (auto simp: renderTimestamp_def split: jsval.splits if_splits)
  have num: "neutral s" if "v = VNum n" "numIsFinite n" "s = renderNumericDefault n" for n
    using that assms(2) neutral_numeric by (cases n) auto
  have k: "neutral ''TRUE''" "neutral ''FALSE''" "neutral ''NULL::jsonb''"
    by (simp_all add: plainChar_def)
  show ?thesis
  proof (cases ty)
    case TyInteger
    with assms(1) int show ?thesis by simp
  next
    case TyBigint
    with assms(1) int show ?thesis by simp
  next
    case TyTimestamp
    with assms(1) ts [of TyTimestamp] show ?thesis by simp
  next
    case TyTimestamptz
    with assms(1) ts [of TyTimestamptz] show ?thesis by simp
  next
    case TyNumeric
    with assms(1) num show ?thesis by (auto split: jsval.splits if_splits)
  next
    case TyText
    with assms(1) neutral_cast [of _ TyText] show ?thesis by (auto split: jsval.splits)
  next
    case TyUuid
    with assms(1) neutral_cast [of _ TyUuid] show ?thesis by (auto split: jsval.splits if_splits)
  next
    case TyDate
    with assms(1) neutral_cast [of _ TyDate] show ?thesis by (auto split: jsval.splits if_splits)
  next
    case TyJsonb
    with assms(1) neutral_cast [of _ TyJsonb] k show ?thesis by (auto split: jsval.splits)
  qed (use assms(1) k in \<open>auto split: jsval.splits\<close>)
qed

fun doubleDefault :: "DdlColumnDefault \<Rightarrow> bool" where
  "doubleDefault (DefLiteral v) = doubleValue v"
| "doubleDefault d = True"

lemma neutral_defaultClause: "renderDefaultClause ty d = Inr s \<Longrightarrow> doubleDefault d \<Longrightarrow> neutral s"
  by (cases d) (auto simp: res_simps plainChar_def neutral_literalDefault split: if_splits)

lemma neutral_typeName: "neutral (typeName ty)"
  by (cases ty) (simp_all add: plainChar_def)

lemma neutral_columnClause: "neutral d \<Longrightarrow> neutral (columnClause ty c d)"
  by (simp add: columnClause_def plainChar_def neutral_typeName)

lemma neutral_renderColumns:
  "renderColumns seen cs = Inr rs \<Longrightarrow> list_all (\<lambda>c. doubleDefault (dc_default c)) cs \<Longrightarrow> list_all neutral rs"
proof (induction cs arbitrary: seen rs)
  case (Cons c cs)
  then show ?case
    by (auto simp: res_simps neutral_quoted neutral_columnClause neutral_defaultClause
        split: option.splits if_splits)
qed simp

subsection \<open>Bodies\<close>

text \<open>A text that closes the body of a \<open>DO\<close> and has no dollar sign before.\<close>

definition closesBody :: "string \<Rightarrow> bool" where
  "closesBody x \<longleftrightarrow> (\<exists>s. x = s @ DO_CLOSE \<and> CHR ''$'' \<notin> set s)"

lemma closesBody_close [simp]: "closesBody DO_CLOSE"
  unfolding closesBody_def by (intro exI [where x = "[]"]) simp

lemma closesBody_append [simp]: "CHR ''$'' \<notin> set a \<Longrightarrow> closesBody b \<Longrightarrow> closesBody (a @ b)"
  unfolding closesBody_def by (metis Un_iff append.assoc set_append)

lemma closesBody_Cons [simp]: "c \<noteq> CHR ''$'' \<Longrightarrow> closesBody b \<Longrightarrow> closesBody (c # b)"
  using closesBody_append [of "[c]" b] by simp

lemma neutral_body: "closesBody x \<Longrightarrow> neutral (DO_OPEN @ x)"
  by (auto simp: closesBody_def intro: neutral_do)

lemma doubled_chars: "set (doubleSquotes v) \<subseteq> insert squote (set v)"
  by (auto simp: doubleSquotes_def split: if_splits)

lemma literal_no_dollar:
  assumes "quoteLiteral v = Inr q" and "CHR ''$'' \<notin> set v"
  shows "CHR ''$'' \<notin> set q"
  using assms doubled_chars [of v] by (auto simp: quoteLiteral_Inr)

lemma identifier_no_dollar: "simpleIdentifier s \<Longrightarrow> CHR ''$'' \<notin> set s"
  using simpleIdentifier_chars [of s "CHR ''$''"] by (auto simp: identChar_def identStart_def char_class_defs)

lemma sq_no_dollar: "CHR ''$'' \<notin> set s \<Longrightarrow> CHR ''$'' \<notin> set (sq s)"
  by (simp add: sq_def)

lemma raise_no_dollar:
  "CHR ''$'' \<notin> set m \<Longrightarrow> CHR ''$'' \<notin> set e \<Longrightarrow> CHR ''$'' \<notin> set (raiseUnless m e)"
  by (simp add: raiseUnless_def sq_def)

lemma rendering_no_dollar: "CHR ''$'' \<notin> set (CATALOGUE_TYPE_RENDERINGS ty)"
  by (cases ty) simp_all

lemma test_no_dollar:
  "CHR ''$'' \<notin> set r \<Longrightarrow> CHR ''$'' \<notin> set q \<Longrightarrow> CHR ''$'' \<notin> set p \<Longrightarrow> CHR ''$'' \<notin> set (columnPrivilegeTest r q p)"
  by (simp add: columnPrivilegeTest_def sq_def)

lemma neutral_exposedGuardBody:
  "CHR ''$'' \<notin> set s \<Longrightarrow> CHR ''$'' \<notin> set t \<Longrightarrow> neutral (exposedGuardBody s t)"
  unfolding exposedGuardBody_def by (rule neutral_body, intro closesBody_append closesBody_close) (simp_all add: raise_no_dollar)

lemma neutral_sourceTypeBody:
  "CHR ''$'' \<notin> set s \<Longrightarrow> CHR ''$'' \<notin> set t \<Longrightarrow> CHR ''$'' \<notin> set c \<Longrightarrow> CHR ''$'' \<notin> set e \<Longrightarrow>
   neutral (sourceTypeBody s t c e)"
  unfolding sourceTypeBody_def by (rule neutral_body, intro closesBody_append closesBody_close) (simp_all add: raise_no_dollar)

lemma neutral_privilegesRevokedBody:
  "CHR ''$'' \<notin> set r \<Longrightarrow> CHR ''$'' \<notin> set q \<Longrightarrow> CHR ''$'' \<notin> set s \<Longrightarrow> CHR ''$'' \<notin> set t \<Longrightarrow>
   neutral (privilegesRevokedBody r q s t)"
  unfolding privilegesRevokedBody_def
  by (rule neutral_body, intro closesBody_append closesBody_close) (simp_all add: raise_no_dollar test_no_dollar sq_no_dollar)

lemma neutral_prerequisitesBody:
  "CHR ''$'' \<notin> set s \<Longrightarrow> CHR ''$'' \<notin> set t \<Longrightarrow> CHR ''$'' \<notin> set r \<Longrightarrow> neutral (prerequisitesBody s t r)"
  unfolding prerequisitesBody_def
  by (rule neutral_body, intro closesBody_append closesBody_close) (simp_all add: raise_no_dollar sq_no_dollar)

lemma neutral_guard:
  assumes "exposedGuardStatement s t = Inr g" and "simpleIdentifier s" and "simpleIdentifier t"
  shows "neutral g"
proof -
  obtain a b where q: "quoteLiteral s = Inr a" "quoteLiteral t = Inr b" "g = exposedGuardBody a b"
    using assms(1) by (auto simp: exposedGuardStatement_def res_simps)
  show ?thesis unfolding q(3)
    using literal_no_dollar [OF q(1) identifier_no_dollar [OF assms(2)]]
      literal_no_dollar [OF q(2) identifier_no_dollar [OF assms(3)]]
    by (rule neutral_exposedGuardBody)
qed

subsection \<open>Every builder\<close>

text \<open>
  The plans the builders produce, for any digest function and any arguments; the numbers in defaults
  are doubles, and the three stand-alone guards are given a schema that is an identifier, as their callers do.
\<close>

inductive compiled :: "(bytes \<Rightarrow> bytes) \<Rightarrow> DdlPlan \<Rightarrow> bool" for sha :: "bytes \<Rightarrow> bytes" where
  "compileCreateTable s t cs = Inr p \<Longrightarrow> list_all (\<lambda>c. doubleDefault (dc_default c)) cs \<Longrightarrow> compiled sha p"
| "compileRenameTable s t n = Inr p \<Longrightarrow> compiled sha p"
| "compileDropTable s t = Inr p \<Longrightarrow> compiled sha p"
| "compileAddColumn s t c = Inr p \<Longrightarrow> doubleDefault (dc_default c) \<Longrightarrow> compiled sha p"
| "compileRenameColumn s t col n = Inr p \<Longrightarrow> compiled sha p"
| "compileDropColumn s t col = Inr p \<Longrightarrow> compiled sha p"
| "compileSetColumnDefault s t col ty d = Inr p \<Longrightarrow> doubleDefault d \<Longrightarrow> compiled sha p"
| "compileDropColumnDefault s t col = Inr p \<Longrightarrow> compiled sha p"
| "compileSetNotNull s t col = Inr p \<Longrightarrow> compiled sha p"
| "compileDropNotNull s t col = Inr p \<Longrightarrow> compiled sha p"
| "compileChangeColumnType s t col ty ty' = Inr p \<Longrightarrow> compiled sha p"
| "compileCreateIndex sha s t cols nm = Inr p \<Longrightarrow> compiled sha p"
| "compileDropIndex s n = Inr p \<Longrightarrow> compiled sha p"
| "compileAddUniqueConstraint sha s t cols nm = Inr p \<Longrightarrow> compiled sha p"
| "compileDropConstraint s t n = Inr p \<Longrightarrow> compiled sha p"
| "compileAddForeignKey sha fk = Inr p \<Longrightarrow> compiled sha p"
| "compileGrantRuntimePrivileges gr = Inr p \<Longrightarrow> compiled sha p"
| "compileRevokeRuntimePrivileges s t r = Inr p \<Longrightarrow> compiled sha p"
| "compileVerifyRuntimePrivilegesRevoked s t r = Inr p \<Longrightarrow> simpleIdentifier s \<Longrightarrow> compiled sha p"
| "compileMarkExposed al s t = Inr p \<Longrightarrow> compiled sha p"
| "compileMarkUnexposed s t = Inr p \<Longrightarrow> compiled sha p"
| "compileEnableRowSecurity s t = Inr p \<Longrightarrow> compiled sha p"
| "compileDisableRowSecurity s t = Inr p \<Longrightarrow> compiled sha p"
| "compileCreateOwnershipPolicy sha s t col tm r = Inr p \<Longrightarrow> compiled sha p"
| "compileDropOwnershipPolicy sha s t col tm = Inr p \<Longrightarrow> compiled sha p"
| "compileAssertNotExposed s t = Inr p \<Longrightarrow> simpleIdentifier s \<Longrightarrow> compiled sha p"
| "compileAssertExposurePrerequisites s t r = Inr p \<Longrightarrow> simpleIdentifier s \<Longrightarrow> compiled sha p"

definition neutralPlan :: "DdlPlan \<Rightarrow> bool" where
  "neutralPlan p \<longleftrightarrow> list_all neutral (pl_statements p) \<and> pl_statements p \<noteq> [] \<and> pl_sealed p"

lemma neutralPlan_seal [simp]:
  "neutralPlan (sealPlan ss d) \<longleftrightarrow> list_all neutral ss \<and> ss \<noteq> []"
  by (simp add: neutralPlan_def sealPlan_def)

lemma neutral_createTable:
  assumes "compileCreateTable s t cs = Inr p" and "list_all (\<lambda>c. doubleDefault (dc_default c)) cs"
  shows "neutralPlan p"
  using assms(1) neutral_renderColumns [OF _ assms(2)]
  by (auto simp: compileCreateTable_def res_simps neutral_target plainChar_def neutral_join split: if_splits)

lemma neutral_tables:
  "compileRenameTable s t n = Inr p \<Longrightarrow> neutralPlan p"
  "compileDropTable s t = Inr p \<Longrightarrow> neutralPlan p"
  by (auto simp: compileRenameTable_def compileDropTable_def res_simps neutral_target neutral_quoted plainChar_def)

lemma neutral_addColumn:
  "compileAddColumn s t c = Inr p \<Longrightarrow> doubleDefault (dc_default c) \<Longrightarrow> neutralPlan p"
  by (auto simp: compileAddColumn_def res_simps neutral_target neutral_quoted plainChar_def neutral_columnClause
      neutral_defaultClause split: option.splits)

lemma neutral_columns:
  "compileRenameColumn s t col n = Inr p \<Longrightarrow> neutralPlan p"
  "compileDropColumn s t col = Inr p \<Longrightarrow> neutralPlan p"
  "compileDropColumnDefault s t col = Inr p \<Longrightarrow> neutralPlan p"
  "compileSetNotNull s t col = Inr p \<Longrightarrow> neutralPlan p"
  "compileDropNotNull s t col = Inr p \<Longrightarrow> neutralPlan p"
  by (auto simp: compileRenameColumn_def compileDropColumn_def compileDropColumnDefault_def compileSetNotNull_def
      compileDropNotNull_def res_simps neutral_quoted plainChar_def neutral_alter_plain)

lemma neutral_setDefault:
  assumes "compileSetColumnDefault s t col ty d = Inr p" and "doubleDefault d"
  shows "neutralPlan p"
proof -
  obtain x q where x: "renderDefaultClause ty d = Inr x"
    and q: "alterColumn s t '' ALTER COLUMN '' col ('' SET'' @ x) = Inr q"
    and p: "pl_statements p = [q]" "pl_sealed p"
    using assms(1) by (auto simp: compileSetColumnDefault_def res_simps sealPlan_def split: if_splits)
  have "neutral q"
    by (rule neutral_alter [OF q]) (simp_all add: plainChar_def neutral_defaultClause [OF x assms(2)])
  with p show ?thesis by (simp add: neutralPlan_def)
qed

lemma alterColumn_Inr:
  "alterColumn s t a c r = Inr q \<Longrightarrow> simpleIdentifier s \<and> simpleIdentifier t \<and> simpleIdentifier c"
  by (auto simp: alterColumn_def res_simps quoteTarget_Inr ddlQuoteIdentifier_Inr)

lemma neutral_changeType:
  assumes "compileChangeColumnType s t col ty ty' = Inr p"
  shows "neutralPlan p"
proof -
  obtain a b where ab: "compileLockedSourceTypeAssertion s t col ty = Inr a"
    "alterColumn s t '' ALTER COLUMN '' col ('' TYPE '' @ typeName ty') = Inr b"
    and p: "pl_statements p = [a, b]" "pl_sealed p"
    using assms by (auto simp: compileChangeColumnType_def res_simps sealPlan_def split: if_splits)
  have b: "neutral b"
    by (rule neutral_alter [OF ab(2)]) (simp_all add: plainChar_def neutral_typeName)
  note ids = alterColumn_Inr [OF ab(2)]
  obtain w x y z where q: "quoteLiteral s = Inr w" "quoteLiteral t = Inr x" "quoteLiteral col = Inr y"
    "quoteLiteral (CATALOGUE_TYPE_RENDERINGS ty) = Inr z" "a = sourceTypeBody w x y z"
    using ab(1) by (auto simp: compileLockedSourceTypeAssertion_def res_simps)
  have "neutral a" unfolding q(5)
    using ids literal_no_dollar [OF q(1)] literal_no_dollar [OF q(2)] literal_no_dollar [OF q(3)]
      literal_no_dollar [OF q(4) rendering_no_dollar] identifier_no_dollar
    by (blast intro: neutral_sourceTypeBody)
  with b p show ?thesis by (simp add: neutralPlan_def)
qed

lemma neutral_keys:
  "compileCreateIndex sha s t cols nm = Inr p \<Longrightarrow> neutralPlan p"
  "compileDropIndex s n = Inr p \<Longrightarrow> neutralPlan p"
  "compileAddUniqueConstraint sha s t cols nm = Inr p \<Longrightarrow> neutralPlan p"
  "compileDropConstraint s t n = Inr p \<Longrightarrow> neutralPlan p"
  by (auto simp: compileCreateIndex_def compileDropIndex_def compileAddUniqueConstraint_def
      compileDropConstraint_def Let_def res_simps neutral_quoted neutral_target neutral_columnList plainChar_def
      neutral_alter_plain)

lemma neutral_action: "foreignKeyAction w a = Inr x \<Longrightarrow> neutral x"
  by (auto simp: foreignKeyAction_def FOREIGN_KEY_ACTION_SQL_def plainChar_def split: if_splits option.splits)

lemma neutral_foreignKeyGuards:
  assumes "foreignKeyGuards fk = Inr gs"
    and "simpleIdentifier (fk_schema fk)" "simpleIdentifier (fk_table fk)"
    and "simpleIdentifier (fk_refSchema fk)" "simpleIdentifier (fk_refTable fk)"
  shows "list_all neutral gs"
  using assms neutral_guard by (auto simp: foreignKeyGuards_def res_simps split: if_splits)

lemma neutral_foreignKey:
  assumes "compileAddForeignKey sha fk = Inr p"
  shows "neutralPlan p"
proof -
  obtain nm gs s cs rt rcs up del where
    g: "foreignKeyGuards fk = Inr gs" and u: "foreignKeyAction ''onUpdate'' (fk_onUpdate fk) = Inr up"
    and d: "foreignKeyAction ''onDelete'' (fk_onDelete fk) = Inr del"
    and s: "alterColumn (fk_schema fk) (fk_table fk) '' ADD CONSTRAINT '' nm '' FOREIGN KEY '' = Inr s"
    and cs: "quoteColumnList (fk_columns fk) = Inr cs"
    and rt: "quoteTarget (fk_refSchema fk) (fk_refTable fk) = Inr rt"
    and rcs: "quoteColumnList (fk_refColumns fk) = Inr rcs"
    and p: "pl_statements p = gs @ [s @ cs @ '' REFERENCES '' @ rt @ '' '' @ rcs @ '' ON UPDATE '' @ up @
              '' ON DELETE '' @ del]" "pl_sealed p"
    using assms by (auto simp: compileAddForeignKey_def res_simps sealPlan_def Let_def split: if_splits)
  have n: "neutral s" by (rule neutral_alter [OF s]) (simp_all add: plainChar_def)
  have "list_all neutral gs"
    using neutral_foreignKeyGuards [OF g] alterColumn_Inr [OF s] rt by (simp add: quoteTarget_Inr)
  with n p show ?thesis
    using neutral_columnList [OF cs] neutral_columnList [OF rcs] neutral_target [OF rt]
      neutral_action [OF u] neutral_action [OF d]
    by (simp add: neutralPlan_def plainChar_def)
qed

lemma neutral_grantStatement:
  assumes "grantStatement s t r g = Inr x"
  shows "neutral x"
proof -
  obtain pr cols where g: "g = (pr, cols)" by (cases g)
  from assms have "pr = ''SELECT'' \<or> pr = ''INSERT'' \<or> pr = ''UPDATE''"
    by (auto simp: g grantStatement_def COLUMN_PRIVILEGE_SQL_def split: if_splits)
  then have "neutral pr" by (auto simp: plainChar_def)
  with assms show ?thesis
    by (auto simp: g grantStatement_def res_simps plainChar_def neutral_columnList neutral_target neutral_quoted
        split: if_splits)
qed

lemma neutral_grants: "mapR (grantStatement s t r) gs = Inr xs \<Longrightarrow> list_all neutral xs"
  by (induction gs arbitrary: xs) (auto simp: res_simps neutral_grantStatement)

lemma neutral_privileges:
  "compileGrantRuntimePrivileges gr = Inr p \<Longrightarrow> neutralPlan p"
  "compileRevokeRuntimePrivileges s t r = Inr p \<Longrightarrow> neutralPlan p"
proof -
  assume "compileGrantRuntimePrivileges gr = Inr p"
  then obtain us ds gs where us: "schemaUsageGrant gr = Inr us" and ds: "deleteGrant gr = Inr ds"
    and gs: "mapR (grantStatement (gr_schema gr) (gr_table gr) (gr_role gr)) (gr_columnGrants gr) = Inr gs"
    and p: "pl_statements p = us @ ds @ gs" "pl_statements p \<noteq> []" "pl_sealed p"
    by (auto simp: compileGrantRuntimePrivileges_def Let_def res_simps sealPlan_def split: if_splits)
  have "list_all neutral us"
    using us by (auto simp: schemaUsageGrant_def res_simps plainChar_def neutral_quoted split: if_splits)
  moreover have "list_all neutral ds"
    using ds by (auto simp: deleteGrant_def res_simps plainChar_def neutral_quoted neutral_target split: if_splits)
  ultimately show "neutralPlan p" using neutral_grants [OF gs] p by (simp add: neutralPlan_def)
next
  assume "compileRevokeRuntimePrivileges s t r = Inr p"
  then show "neutralPlan p"
    by (auto simp: compileRevokeRuntimePrivileges_def res_simps plainChar_def neutral_target neutral_quoted)
qed

lemma neutral_registry:
  "compileMarkExposed al s t = Inr p \<Longrightarrow> neutralPlan p"
  "compileMarkUnexposed s t = Inr p \<Longrightarrow> neutralPlan p"
  by (auto simp: compileMarkExposed_def compileMarkUnexposed_def res_simps plainChar_def neutral_literal)

lemma neutral_rowSecurity:
  "compileEnableRowSecurity s t = Inr p \<Longrightarrow> neutralPlan p"
  "compileDisableRowSecurity s t = Inr p \<Longrightarrow> neutralPlan p"
  using neutral_guard
  by (auto simp: compileEnableRowSecurity_def compileDisableRowSecurity_def res_simps plainChar_def neutral_target)
     (auto simp: quoteTarget_Inr)

lemma neutral_template: "OWNERSHIP_POLICY_TEMPLATES tm = Some sh \<Longrightarrow> neutral (ts_command sh)"
  by (auto simp: OWNERSHIP_POLICY_TEMPLATES_def plainChar_def split: if_splits)

lemma neutral_comparison: "compileOwnershipComparison c = Inr x \<Longrightarrow> neutral x"
  by (auto simp: compileOwnershipComparison_def OWNERSHIP_EXPRESSION_def res_simps plainChar_def neutral_quoted
      neutral_sq)

lemma neutral_policies:
  "compileCreateOwnershipPolicy sha s t col tm r = Inr p \<Longrightarrow> neutralPlan p"
  "compileDropOwnershipPolicy sha s t col tm = Inr p \<Longrightarrow> neutralPlan p"
  by (auto simp: compileCreateOwnershipPolicy_def compileDropOwnershipPolicy_def assertOwnershipPolicySpec_def
      Let_def res_simps plainChar_def neutral_quoted neutral_target neutral_comparison neutral_template
      split: option.splits)

lemma dotted_no_dollar: "simpleIdentifier s \<Longrightarrow> simpleIdentifier t \<Longrightarrow> CHR ''$'' \<notin> set (s @ ''.'' @ t)"
  using identifier_no_dollar by simp

lemma neutral_guards:
  "compileAssertNotExposed s t = Inr p \<Longrightarrow> simpleIdentifier s \<Longrightarrow> neutralPlan p"
  "compileAssertExposurePrerequisites s t r = Inr p \<Longrightarrow> simpleIdentifier s \<Longrightarrow> neutralPlan p"
  "compileVerifyRuntimePrivilegesRevoked s t r = Inr p \<Longrightarrow> simpleIdentifier s \<Longrightarrow> neutralPlan p"
proof -
  assume s: "simpleIdentifier s"
  show "neutralPlan p" if "compileAssertNotExposed s t = Inr p"
    using that s neutral_guard by (auto simp: compileAssertNotExposed_def res_simps)
  show "neutralPlan p" if c: "compileAssertExposurePrerequisites s t r = Inr p"
  proof -
    from c obtain x y z where q: "simpleIdentifier t" "simpleIdentifier r" "quoteLiteral s = Inr x" "quoteLiteral t = Inr y"
      "quoteLiteral r = Inr z" "pl_statements p = [prerequisitesBody x y z]" "pl_sealed p"
      by (auto simp: compileAssertExposurePrerequisites_def res_simps sealPlan_def)
    from q show ?thesis
      using literal_no_dollar [OF q(3) identifier_no_dollar [OF s]] literal_no_dollar [OF q(4) identifier_no_dollar [OF q(1)]]
        literal_no_dollar [OF q(5) identifier_no_dollar [OF q(2)]]
      by (simp add: neutralPlan_def neutral_prerequisitesBody)
  qed
  show "neutralPlan p" if c: "compileVerifyRuntimePrivilegesRevoked s t r = Inr p"
  proof -
    from c obtain x y z u where q: "simpleIdentifier t" "simpleIdentifier r" "quoteLiteral r = Inr x"
      "quoteLiteral (s @ ''.'' @ t) = Inr y" "quoteLiteral s = Inr z" "quoteLiteral t = Inr u"
      "pl_statements p = [privilegesRevokedBody x y z u]" "pl_sealed p"
      by (auto simp: compileVerifyRuntimePrivilegesRevoked_def res_simps sealPlan_def)
    from q show ?thesis
      using literal_no_dollar [OF q(3) identifier_no_dollar [OF q(2)]] literal_no_dollar [OF q(4) dotted_no_dollar [OF s q(1)]]
        literal_no_dollar [OF q(5) identifier_no_dollar [OF s]] literal_no_dollar [OF q(6) identifier_no_dollar [OF q(1)]]
      by (simp add: neutralPlan_def neutral_privilegesRevokedBody)
  qed
qed

lemma compiled_neutral: "compiled sha p \<Longrightarrow> neutralPlan p"
  by (induction rule: compiled.induct)
     (blast intro: neutral_createTable neutral_tables neutral_addColumn neutral_columns neutral_setDefault
       neutral_changeType neutral_keys neutral_foreignKey neutral_privileges neutral_registry
       neutral_rowSecurity neutral_policies neutral_guards)+


text \<open>A default that tries to end the statement stays inside its literal.\<close>

definition hostileDefault :: "thrown + DdlPlan" where
  "hostileDefault =
     compileSetColumnDefault ''public'' ''notes'' ''body'' TyText
       (DefLiteral (VStr (''x'' @ [squote] @ ''; DROP TABLE users; --'')))"


text \<open>The stand-alone exposure guard, the exposure prerequisites and the revocation check embed the
  schema without checking that it is an identifier; a schema that holds the tag of the dollar quote ends the
  body early, so that more than one command follows.\<close>
theorem guard_schema_unchecked:
  "\<exists>schema p. compileAssertNotExposed schema ''notes'' = Inr p \<and> \<not> simpleIdentifier schema \<and>
     \<not> oneCommand (hd (pl_statements p))"
proof -
  define schema where "schema = ''a$microjbase$; DROP TABLE users; SELECT $microjbase$''"
  have "(case compileAssertNotExposed schema ''notes'' of Inr p \<Rightarrow> \<not> oneCommand (hd (pl_statements p)) | Inl e \<Rightarrow> False)"
    unfolding schema_def by code_simp
  moreover have "\<not> simpleIdentifier schema" unfolding schema_def by code_simp
  ultimately show ?thesis by (auto split: sum.splits)
qed

end
