(* ===== verification/DdlNames.thy ===== *)
theory DdlNames
  imports DdlSafety
begin

text \<open>
  The names \<open>src/database/schema-ddl.ts\<close> derives for indexes, constraints and policies: always legal
  identifiers of at most 63 characters, and different for different objects up to a collision of the digest.
\<close>

lemma simpleIdentifier_iff:
  "simpleIdentifier s \<longleftrightarrow> s \<noteq> [] \<and> identStart (hd s) \<and> list_all identChar s"
  by (cases s) (auto simp: identChar_def)

lemma hex_ident: "n < 16 \<Longrightarrow> identChar (hexDigit n)"
  by (cases "n < 10") (auto simp: hexDigit_def char_class_defs)

lemma toHex_ident: "list_all identChar (toHex bs)"
proof (induction bs)
  case (Cons b bs)
  have "unat b < 256" using unsigned_less [of b] by simp
  then have "unat b div 16 < 16" by (intro less_mult_imp_div_less) simp
  moreover have "unat b mod 16 < 16" by simp
  ultimately show ?case using Cons hex_ident by (simp add: toHex_def)
qed (simp add: toHex_def)

lemma length_toHex: "length (toHex bs) = 2 * length bs"
  by (induction bs) (simp_all add: toHex_def)

lemma join_ident: "list_all simpleIdentifier cs \<Longrightarrow> list_all identChar (joinWith ''_'' cs)"
  by (induction "''_''" cs rule: joinWith.induct) (auto simp: simpleIdentifier_iff identChar_def identStart_def)

lemma list_all_take: "list_all P xs \<Longrightarrow> list_all P (take n xs)"
  by (auto simp: list_all_iff dest: in_set_takeD)

text \<open>The derived name of an index, a constraint or a policy is a legal identifier of at most 63
  characters, for every table, column list and digest, so that the server never truncates it and the
  compiler never refuses it.\<close>
theorem object_names_legal:
  assumes "simpleIdentifier table" and "list_all simpleIdentifier columns" and "simpleIdentifier kind"
  shows "assertDdlName (deterministicObjectName sha kind table columns) context = Inr ()"
proof -
  define digest where "digest = take 8 (sha256Hex sha (nameDigestInput kind table columns))"
  define readable where "readable = ''mjb_'' @ table @ ''_'' @ joinWith ''_'' columns @ ''_'' @ kind"
  define name where "name = deterministicObjectName sha kind table columns"
  have d: "length digest \<le> 8" "list_all identChar digest"
    by (simp_all add: digest_def sha256Hex_def toHex_ident list_all_take)
  have u: "identChar (CHR ''_'')" "identStart (CHR ''m'')" "identChar (CHR ''m'')" "identChar (CHR ''j'')" "identChar (CHR ''b'')"
    by (simp_all add: identChar_def identStart_def char_class_defs)
  have r: "list_all identChar readable" using assms u join_ident by (simp add: readable_def simpleIdentifier_iff)
  have n: "name = (if length readable + length digest + 1 \<le> 63 then readable @ ''_'' @ digest
      else take (63 - length digest - 1) readable @ ''_'' @ digest)"
    by (simp add: name_def deterministicObjectName_def Let_def readable_def digest_def MAX_IDENTIFIER_LENGTH_def)
  obtain r where hd: "readable = CHR ''m'' # r" by (simp add: readable_def)
  have "hd name = CHR ''m'' \<and> name \<noteq> []"
    using d(1) hd unfolding n by (cases "63 - length digest - 1") (auto simp: hd_append take_Cons')
  moreover have "list_all identChar name" using r d(2) u list_all_take unfolding n by auto
  moreover have "length name \<le> 63" using d(1) unfolding n by auto
  ultimately show ?thesis using u
    by (simp add: assertDdlName_def simpleIdentifier_iff MAX_IDENTIFIER_LENGTH_def flip: name_def)
qed

lemma object_names_legal_witness:
  "assertDdlName (deterministicObjectName (\<lambda>_. [1, 2, 3, 4]) ''idx'' ''notes'' [''owner_id'', ''body'']) ''index name'' = Inr ()"
  by (rule object_names_legal) code_simp+

subsection \<open>Collisions\<close>

lemma identifier_no_nul: "simpleIdentifier s \<Longrightarrow> CHR 0x00 \<notin> set s"
  using simpleIdentifier_chars [of s "CHR 0x00"] by (auto simp: identChar_def identStart_def char_class_defs)

lemma nul_join_cancel:
  "list_all simpleIdentifier cs \<Longrightarrow> list_all simpleIdentifier cs' \<Longrightarrow> cs \<noteq> [] \<Longrightarrow> cs' \<noteq> [] \<Longrightarrow>
   CHR 0x00 \<notin> set k \<Longrightarrow> CHR 0x00 \<notin> set k' \<Longrightarrow>
   joinWith [CHR 0x00] cs @ CHR 0x00 # k = joinWith [CHR 0x00] cs' @ CHR 0x00 # k' \<Longrightarrow> cs = cs' \<and> k = k'"
proof (induction cs arbitrary: cs')
  case (Cons c cs)
  obtain d ds where ds: "cs' = d # ds" using Cons.prems(4) by (cases cs') auto
  have nul: "CHR 0x00 \<notin> set c" "CHR 0x00 \<notin> set d"
    using Cons.prems(1,2) ds identifier_no_nul by auto
  define rest where "rest = (\<lambda>(xs :: string list) k. if xs = [] then k else joinWith [CHR 0x00] xs @ CHR 0x00 # k)"
  have "c @ CHR 0x00 # rest cs k = d @ CHR 0x00 # rest ds k'"
    using Cons.prems(7) ds by (cases "cs = []"; cases "ds = []") (simp_all add: rest_def joinWith_Cons)
  then have cd: "c = d" and r: "rest cs k = rest ds k'" using bar_cancel [OF nul] by blast+
  show ?case
  proof (cases "cs = [] \<or> ds = []")
    case True
    have "CHR 0x00 \<in> set (joinWith [CHR 0x00] xs @ CHR 0x00 # q)" for xs q by simp
    with True r Cons.prems(5,6) have "cs = [] \<and> ds = []"
      by (auto simp: rest_def split: if_splits)
    with r cd ds show ?thesis by (simp add: rest_def)
  next
    case False
    with r have "joinWith [CHR 0x00] cs @ CHR 0x00 # k = joinWith [CHR 0x00] ds @ CHR 0x00 # k'" by (simp add: rest_def)
    with Cons.IH [of ds] False Cons.prems ds cd show ?thesis by simp
  qed
qed simp

lemma digestInput_inject:
  assumes "simpleIdentifier t" "simpleIdentifier t'" "list_all simpleIdentifier cs" "list_all simpleIdentifier cs'"
    and "cs \<noteq> []" "cs' \<noteq> []" "simpleIdentifier k" "simpleIdentifier k'"
    and "nameDigestInput k t cs = nameDigestInput k' t' cs'"
  shows "k = k' \<and> t = t' \<and> cs = cs'"
proof -
  have "t = t' \<and> joinWith [CHR 0x00] cs @ CHR 0x00 # k = joinWith [CHR 0x00] cs' @ CHR 0x00 # k'"
    using assms(9) bar_cancel [OF identifier_no_nul [OF assms(1)] identifier_no_nul [OF assms(2)]]
    by (simp add: nameDigestInput_def)
  with nul_join_cancel [OF assms(3-6) identifier_no_nul [OF assms(7)] identifier_no_nul [OF assms(8)]]
  show ?thesis by blast
qed

lemma name_suffix:
  assumes "4 \<le> length (sha (utf8 (nameDigestInput k t cs)))"
  shows "\<exists>p. deterministicObjectName sha k t cs = p @ take 8 (sha256Hex sha (nameDigestInput k t cs)) \<and>
    length (take 8 (sha256Hex sha (nameDigestInput k t cs))) = 8"
proof -
  have l: "length (take 8 (sha256Hex sha (nameDigestInput k t cs))) = 8"
    using assms by (simp add: sha256Hex_def length_toHex)
  show ?thesis
    unfolding deterministicObjectName_def Let_def using l
    by (cases "length (''mjb_'' @ t @ ''_'' @ joinWith ''_'' cs @ ''_'' @ k) +
          length (take 8 (sha256Hex sha (nameDigestInput k t cs))) + 1 \<le> MAX_IDENTIFIER_LENGTH")
       (simp_all only: if_True if_False append_assoc [symmetric], auto)
qed

text \<open>Two different objects (another kind, table or column list, also one whose names run together to
  the same text) get the same name only when the digests of two different inputs agree in their first
  eight hexadecimal digits.\<close>
theorem same_name_is_collision:
  assumes "simpleIdentifier t" "simpleIdentifier t'" "list_all simpleIdentifier cs" "list_all simpleIdentifier cs'"
    and "cs \<noteq> []" "cs' \<noteq> []" "simpleIdentifier k" "simpleIdentifier k'"
    and "\<And>x. length (sha x) = 32"
    and "deterministicObjectName sha k t cs = deterministicObjectName sha k' t' cs'"
    and "(k, t, cs) \<noteq> (k', t', cs')"
  shows "nameDigestInput k t cs \<noteq> nameDigestInput k' t' cs' \<and>
    take 8 (sha256Hex sha (nameDigestInput k t cs)) = take 8 (sha256Hex sha (nameDigestInput k' t' cs'))"
proof
  show "nameDigestInput k t cs \<noteq> nameDigestInput k' t' cs'"
    using digestInput_inject [OF assms(1-8)] assms(11) by blast
  obtain p p' where p: "deterministicObjectName sha k t cs = p @ take 8 (sha256Hex sha (nameDigestInput k t cs))"
      "length (take 8 (sha256Hex sha (nameDigestInput k t cs))) = 8"
    and p': "deterministicObjectName sha k' t' cs' = p' @ take 8 (sha256Hex sha (nameDigestInput k' t' cs'))"
      "length (take 8 (sha256Hex sha (nameDigestInput k' t' cs'))) = 8"
    using name_suffix [of sha k t cs] name_suffix [of sha k' t' cs'] assms(9) by auto
  have "p @ take 8 (sha256Hex sha (nameDigestInput k t cs)) = p' @ take 8 (sha256Hex sha (nameDigestInput k' t' cs'))"
    using assms(10) p(1) p'(1) by simp
  then show "take 8 (sha256Hex sha (nameDigestInput k t cs)) = take 8 (sha256Hex sha (nameDigestInput k' t' cs'))"
    using p(2) p'(2) by (metis append_eq_append_conv)
qed

lemma same_name_is_collision_witness:
  "deterministicObjectName (\<lambda>_. replicate 32 7) ''idx'' ''t'' [''a_b'', ''c''] =
     deterministicObjectName (\<lambda>_. replicate 32 7) ''idx'' ''t'' [''a'', ''b_c''] \<and>
   nameDigestInput ''idx'' ''t'' [''a_b'', ''c''] \<noteq> nameDigestInput ''idx'' ''t'' [''a'', ''b_c'']"
proof
  show e: "deterministicObjectName (\<lambda>_. replicate 32 7) ''idx'' ''t'' [''a_b'', ''c''] =
     deterministicObjectName (\<lambda>_. replicate 32 7) ''idx'' ''t'' [''a'', ''b_c'']" by code_simp
  have h: "simpleIdentifier ''t''" "list_all simpleIdentifier [''a_b'', ''c'']" "list_all simpleIdentifier [''a'', ''b_c'']"
    "simpleIdentifier ''idx''" by code_simp+
  show "nameDigestInput ''idx'' ''t'' [''a_b'', ''c''] \<noteq> nameDigestInput ''idx'' ''t'' [''a'', ''b_c'']"
    using same_name_is_collision [OF h(1,1,2,3) _ _ h(4,4) _ e] by simp
qed

end
