(* ===== verification/Refresher.thy ===== *)
theory Refresher
  imports TableRegistry
begin

text \<open>
  The post-commit refresh of the runtime registry (\<open>createRuntimeRegistryRefresher\<close> in \<open>src/main.ts\<close>): every
  call takes a ticket, rebuilds, and swaps its snapshot in only while its ticket is the newest.
\<close>

subsection \<open>The refresher\<close>

record refresher =
  rf_latestTicket :: nat
  rf_registry :: registry \<comment> \<open>the delegate of the swappable registry\<close>

text \<open>A call up to \<open>await deps.rebuild()\<close>, and from there on.\<close>

definition refreshBegin :: "refresher \<Rightarrow> nat \<times> refresher" where
  "refreshBegin s = (Suc (rf_latestTicket s), s\<lparr>rf_latestTicket := Suc (rf_latestTicket s)\<rparr>)"

definition refreshSettle :: "nat \<Rightarrow> thrown + registry \<Rightarrow> refresher \<Rightarrow> (thrown + unit) \<times> refresher" where
  "refreshSettle ticket rebuilt s =
     (case rebuilt of
        Inl e \<Rightarrow> (Inl e, s)
      | Inr next \<Rightarrow>
          (Inr (), if ticket = rf_latestTicket s
                   then s\<lparr>rf_registry := snd (swappableStep (rf_registry s) (OpReplace next))\<rparr> else s))"

subsection \<open>Refreshes beside commits\<close>

text \<open>
  The durable registry goes through versions, one more per commit; \<open>content v\<close> is what a rebuild makes of
  version \<open>v\<close>.  A rebuild in flight has its ticket and, once it read, the version it read.  \<open>rw_served\<close> is the
  version of the snapshot in service.
\<close>

record refresh_world =
  rw_refresher :: refresher
  rw_durable :: nat
  rw_served :: nat
  rw_inflight :: "(nat \<times> nat option) list"

datatype refresh_op = DurableCommit | RefreshBegin | RefreshRead nat | RefreshFinish nat | RefreshFail nat thrown

fun refreshStep :: "(nat \<Rightarrow> registry) \<Rightarrow> refresh_op \<Rightarrow> refresh_world \<Rightarrow> refresh_world option" where
  "refreshStep content DurableCommit w = Some (w\<lparr>rw_durable := Suc (rw_durable w)\<rparr>)"
| "refreshStep content RefreshBegin w =
     (case refreshBegin (rw_refresher w) of
        (t, s) \<Rightarrow> Some (w\<lparr>rw_refresher := s, rw_inflight := (t, None) # rw_inflight w\<rparr>))"
| "refreshStep content (RefreshRead t) w =
     (if map_of (rw_inflight w) t = Some None
      then Some (w\<lparr>rw_inflight := map (\<lambda>(t', v). (t', if t' = t then Some (rw_durable w) else v)) (rw_inflight w)\<rparr>)
      else None)"
| "refreshStep content (RefreshFinish t) w =
     (case map_of (rw_inflight w) t of
        Some (Some v) \<Rightarrow>
          Some (w\<lparr>rw_refresher := snd (refreshSettle t (Inr (content v)) (rw_refresher w)),
                  rw_served := (if t = rf_latestTicket (rw_refresher w) then v else rw_served w),
                  rw_inflight := filter (\<lambda>p. fst p \<noteq> t) (rw_inflight w)\<rparr>)
      | _ \<Rightarrow> None)"
| "refreshStep content (RefreshFail t e) w =
     (if t \<in> fst ` set (rw_inflight w)
      then Some (w\<lparr>rw_refresher := snd (refreshSettle t (Inl e) (rw_refresher w)),
                   rw_inflight := filter (\<lambda>p. fst p \<noteq> t) (rw_inflight w)\<rparr>)
      else None)"

fun runRefresh :: "(nat \<Rightarrow> registry) \<Rightarrow> refresh_op list \<Rightarrow> refresh_world \<Rightarrow> refresh_world option" where
  "runRefresh content [] w = Some w"
| "runRefresh content (p # ps) w =
     (case refreshStep content p w of None \<Rightarrow> None | Some w' \<Rightarrow> runRefresh content ps w')"

definition startedWorld :: "(nat \<Rightarrow> registry) \<Rightarrow> refresh_world" where
  "startedWorld content =
     \<lparr>rw_refresher = \<lparr>rf_latestTicket = 0, rf_registry = content 0\<rparr>, rw_durable = 0, rw_served = 0, rw_inflight = []\<rparr>"

subsection \<open>Invariant\<close>

text \<open>
  Tickets in flight are distinct and not newer than the latest; the newest has read nothing older than what
  is served.
\<close>

definition refreshInv :: "(nat \<Rightarrow> registry) \<Rightarrow> refresh_world \<Rightarrow> bool" where
  "refreshInv content w \<longleftrightarrow>
     rf_registry (rw_refresher w) = content (rw_served w) \<and> rw_served w \<le> rw_durable w \<and>
     distinct (map fst (rw_inflight w)) \<and>
     (\<forall>t v. (t, v) \<in> set (rw_inflight w) \<longrightarrow> t \<le> rf_latestTicket (rw_refresher w)) \<and>
     (\<forall>t n. (t, Some n) \<in> set (rw_inflight w) \<longrightarrow>
        n \<le> rw_durable w \<and> (t = rf_latestTicket (rw_refresher w) \<longrightarrow> rw_served w \<le> n))"

lemma refreshInv_started: "refreshInv content (startedWorld content)"
  by (simp add: refreshInv_def startedWorld_def)

lemma map_of_inflight: "map_of xs t = Some v \<Longrightarrow> (t, v) \<in> set xs"
  by (rule map_of_SomeD)

lemma refreshStep_keeps:
  assumes "refreshInv content w" and "refreshStep content p w = Some w'"
  shows "refreshInv content w' \<and> rw_served w \<le> rw_served w' \<and> rw_durable w \<le> rw_durable w'"
proof (cases p)
  case DurableCommit
  then have "w' = w\<lparr>rw_durable := Suc (rw_durable w)\<rparr>" using assms(2) by simp
  with assms(1) show ?thesis by (fastforce simp: refreshInv_def)
next
  case RefreshBegin
  have "(Suc (rf_latestTicket (rw_refresher w)), v) \<notin> set (rw_inflight w)" for v
    using assms(1) unfolding refreshInv_def by fastforce
  with RefreshBegin assms show ?thesis
    by (fastforce simp: refreshInv_def refreshBegin_def)
next
  case (RefreshRead t)
  let ?L = "map (\<lambda>(t', v). (t', if t' = t then Some (rw_durable w) else v)) (rw_inflight w)"
  have k: "map fst ?L = map fst (rw_inflight w)" by (simp add: case_prod_unfold comp_def)
  have w': "w' = w\<lparr>rw_inflight := ?L\<rparr>" using RefreshRead assms(2) by (auto split: if_splits)
  have sub: "\<exists>v'. (t', v') \<in> set (rw_inflight w) \<and> (v = v' \<or> v = Some (rw_durable w))" if "(t', v) \<in> set ?L" for t' v
    using that by (auto split: if_splits)
  have b1: "t' \<le> rf_latestTicket (rw_refresher w)" if "(t', v) \<in> set ?L" for t' v
    using sub [OF that] assms(1) unfolding refreshInv_def by blast
  have b2: "n \<le> rw_durable w \<and> (t' = rf_latestTicket (rw_refresher w) \<longrightarrow> rw_served w \<le> n)"
    if "(t', Some n) \<in> set ?L" for t' n
    using sub [OF that] assms(1) unfolding refreshInv_def by blast
  from assms(1) k b1 b2 show ?thesis unfolding refreshInv_def w'
    by (simp del: set_map map_map map_eq_conv)
next
  case (RefreshFinish t)
  with assms obtain v where v: "map_of (rw_inflight w) t = Some (Some v)" by (auto split: option.splits)
  from map_of_inflight [OF this] assms(1)
  have "v \<le> rw_durable w" "t = rf_latestTicket (rw_refresher w) \<longrightarrow> rw_served w \<le> v"
    unfolding refreshInv_def by blast+
  with RefreshFinish assms v show ?thesis
    by (auto simp: refreshInv_def refreshSettle_def distinct_map_filter) blast+
next
  case (RefreshFail t e)
  with assms show ?thesis
    by (auto simp: refreshInv_def refreshSettle_def distinct_map_filter split: if_splits) blast+
qed

lemma runRefresh_keeps:
  "refreshInv content w \<Longrightarrow> runRefresh content ps w = Some w' \<Longrightarrow>
     refreshInv content w' \<and> rw_served w \<le> rw_served w' \<and> rw_durable w \<le> rw_durable w'"
proof (induction ps arbitrary: w)
  case (Cons p ps)
  then obtain w1 where 1: "refreshStep content p w = Some w1" "runRefresh content ps w1 = Some w'"
    by (auto split: option.splits)
  from refreshStep_keeps [OF Cons.prems(1) 1(1)] Cons.IH [OF _ 1(2)] show ?case by auto
qed simp

lemma runRefresh_append:
  "runRefresh content (ps @ qs) w = (case runRefresh content ps w of None \<Rightarrow> None | Some w' \<Rightarrow> runRefresh content qs w')"
  by (induction ps arbitrary: w) (auto split: option.splits)

text \<open>C9: However commits and overlapping refreshes interleave, the registry in service is always the snapshot of a
  version the durable registry had, and it never goes back to an older one: a slow rebuild cannot replace a newer
  snapshot.\<close>
theorem refresh_never_goes_back:
  assumes "runRefresh content ps (startedWorld content) = Some w" and "runRefresh content qs w = Some w'"
  shows "rf_registry (rw_refresher w) = content (rw_served w) \<and>
    rf_registry (rw_refresher w') = content (rw_served w') \<and> rw_served w \<le> rw_served w' \<and> rw_served w' \<le> rw_durable w'"
  using runRefresh_keeps [OF refreshInv_started assms(1)] runRefresh_keeps [OF _ assms(2)]
  unfolding refreshInv_def by blast

definition demoTable :: ExposedTable where
  "demoTable = \<lparr>et_ref = 0, et_alias = ''notes'', et_schema = ''app'', et_table = ''notes'', et_readable = [],
     et_insertable = [], et_updatable = []\<rparr>"

definition demoContent :: "nat \<Rightarrow> registry" where
  "demoContent n = replicate n (''notes'', demoTable)"

theorem refresh_never_goes_back_witness:
  "\<exists>w w'. runRefresh demoContent [DurableCommit, RefreshBegin, RefreshBegin, RefreshRead 2, RefreshFinish 2]
        (startedWorld demoContent) = Some w \<and>
     runRefresh demoContent [DurableCommit, RefreshRead 1, RefreshFinish 1] w = Some w' \<and>
     rf_registry (rw_refresher w') = demoContent 1 \<and> rw_served w \<le> rw_served w'"
proof -
  have "case runRefresh demoContent [DurableCommit, RefreshBegin, RefreshBegin, RefreshRead 2, RefreshFinish 2]
        (startedWorld demoContent) of
      None \<Rightarrow> False
    | Some w \<Rightarrow> (case runRefresh demoContent [DurableCommit, RefreshRead 1, RefreshFinish 1] w of
        None \<Rightarrow> False | Some w' \<Rightarrow> rw_served w' = 1)"
    by code_simp
  then obtain w w' where w: "runRefresh demoContent [DurableCommit, RefreshBegin, RefreshBegin, RefreshRead 2, RefreshFinish 2]
      (startedWorld demoContent) = Some w"
    "runRefresh demoContent [DurableCommit, RefreshRead 1, RefreshFinish 1] w = Some w'" "rw_served w' = 1"
    by (auto simp del: runRefresh.simps split: option.splits)
  from refresh_never_goes_back [OF w(1,2)] w show ?thesis by auto
qed

subsection \<open>The newest refresh decides\<close>

lemma refreshStep_latest:
  "refreshStep content p w = Some w' \<Longrightarrow> p \<noteq> RefreshBegin \<Longrightarrow>
     rf_latestTicket (rw_refresher w') = rf_latestTicket (rw_refresher w)"
  by (cases p) (auto simp: refreshSettle_def split: option.splits if_splits)

lemma runRefresh_latest:
  "runRefresh content ps w = Some w' \<Longrightarrow> RefreshBegin \<notin> set ps \<Longrightarrow>
     rf_latestTicket (rw_refresher w') = rf_latestTicket (rw_refresher w)"
  by (induction ps arbitrary: w) (auto split: option.splits dest!: refreshStep_latest)

text \<open>What the newest rebuild reads is at least the version committed when it began.\<close>

definition newestReads :: "nat \<Rightarrow> refresh_world \<Rightarrow> bool" where
  "newestReads n w \<longleftrightarrow>
     n \<le> rw_durable w \<and> (\<forall>v. (rf_latestTicket (rw_refresher w), Some v) \<in> set (rw_inflight w) \<longrightarrow> n \<le> v)"

lemma refreshStep_reads:
  assumes "newestReads n w" and "refreshStep content p w = Some w'" and "p \<noteq> RefreshBegin"
  shows "newestReads n w'"
proof (cases p)
  case (RefreshRead t)
  with assms show ?thesis by (auto simp: newestReads_def split: if_splits)
qed (use assms in \<open>auto simp: newestReads_def refreshSettle_def split: option.splits if_splits\<close>)

lemma newest_finish_serves:
  assumes "newestReads n w" and "refreshStep content (RefreshFinish t) w = Some w'" and "t = rf_latestTicket (rw_refresher w)"
  shows "n \<le> rw_served w'"
proof -
  from assms(2) obtain v where v: "map_of (rw_inflight w) t = Some (Some v)" by (auto split: option.splits)
  with assms(1,3) map_of_inflight [OF v] have "n \<le> v" unfolding newestReads_def by blast
  with v assms(2,3) show ?thesis by auto
qed

lemma newest_finishes:
  assumes "refreshInv content w" and "newestReads n w" and "runRefresh content ps w = Some w'"
    and "RefreshBegin \<notin> set ps" and "RefreshFinish (rf_latestTicket (rw_refresher w)) \<in> set ps"
  shows "n \<le> rw_served w'"
  using assms
proof (induction ps arbitrary: w)
  case (Cons p ps)
  then obtain w1 where 1: "refreshStep content p w = Some w1" "runRefresh content ps w1 = Some w'"
    by (auto split: option.splits)
  from Cons.prems(4) have nb: "p \<noteq> RefreshBegin" "RefreshBegin \<notin> set ps" by auto
  note inv = refreshStep_keeps [OF Cons.prems(1) 1(1)]
  show ?case
  proof (cases "p = RefreshFinish (rf_latestTicket (rw_refresher w))")
    case True
    with newest_finish_serves [OF Cons.prems(2)] 1(1) have "n \<le> rw_served w1" by blast
    with runRefresh_keeps [OF _ 1(2)] inv show ?thesis by auto
  next
    case False
    with Cons.prems(5) refreshStep_latest [OF 1(1) nb(1)]
    have "RefreshFinish (rf_latestTicket (rw_refresher w1)) \<in> set ps" by auto
    with Cons.IH [OF _ refreshStep_reads [OF Cons.prems(2) 1(1) nb(1)] 1(2) nb(2)] inv show ?thesis by blast
  qed
qed simp

text \<open>C10: Once the refresh started last finishes, the registry in service contains everything committed before that
  refresh began, whatever older refreshes are still in flight, fail or finish after it, and whatever is committed
  meanwhile.\<close>
theorem newest_refresh_takes_effect:
  assumes "runRefresh content ps (startedWorld content) = Some w"
    and "refreshBegin (rw_refresher w) = (t, s)"
    and "runRefresh content (RefreshBegin # qs) w = Some w'"
    and "RefreshBegin \<notin> set qs" and "RefreshFinish t \<in> set qs"
  shows "\<exists>v\<ge>rw_durable w. v \<le> rw_durable w' \<and> rf_registry (rw_refresher w') = content v"
proof -
  note inv = runRefresh_keeps [OF refreshInv_started assms(1)]
  from assms(3) obtain w1 where 1: "refreshStep content RefreshBegin w = Some w1" "runRefresh content qs w1 = Some w'"
    by (auto split: option.splits)
  from 1(1) assms(2) have l: "rf_latestTicket (rw_refresher w1) = t" "rw_durable w1 = rw_durable w"
    by (auto simp: refreshBegin_def)
  have "(Suc (rf_latestTicket (rw_refresher w)), Some v) \<notin> set (rw_inflight w)" for v
    using inv unfolding refreshInv_def by fastforce
  with 1(1) have n: "newestReads (rw_durable w) w1" by (auto simp: newestReads_def refreshBegin_def)
  have inv1: "refreshInv content w1" using refreshStep_keeps inv 1(1) by blast
  have "rw_durable w \<le> rw_served w'" using newest_finishes [OF inv1 n 1(2) assms(4)] assms(5) l by simp
  with runRefresh_keeps [OF inv1 1(2)] show ?thesis unfolding refreshInv_def by blast
qed

theorem newest_refresh_takes_effect_witness:
  "\<exists>w'. runRefresh demoContent [DurableCommit, RefreshBegin, RefreshRead 1, RefreshFinish 1] (startedWorld demoContent) = Some w' \<and>
     (\<exists>v\<ge>1. v \<le> rw_durable w' \<and> rf_registry (rw_refresher w') = demoContent v)"
proof -
  have "case runRefresh demoContent [DurableCommit] (startedWorld demoContent) of
      None \<Rightarrow> False
    | Some w \<Rightarrow> rw_durable w = 1 \<and> fst (refreshBegin (rw_refresher w)) = 1 \<and>
        (case runRefresh demoContent [RefreshBegin, RefreshRead 1, RefreshFinish 1] w of
           None \<Rightarrow> False | Some w' \<Rightarrow> True)"
    by code_simp
  then obtain w w' where w: "runRefresh demoContent [DurableCommit] (startedWorld demoContent) = Some w"
    "rw_durable w = 1" "fst (refreshBegin (rw_refresher w)) = 1"
    "runRefresh demoContent [RefreshBegin, RefreshRead 1, RefreshFinish 1] w = Some w'"
    by (auto simp del: runRefresh.simps split: option.splits)
  have "refreshBegin (rw_refresher w) = (1, snd (refreshBegin (rw_refresher w)))" using w(3) by (metis prod.collapse)
  from newest_refresh_takes_effect [OF w(1) this w(4)] w(2) w(4) runRefresh_append [of demoContent "[DurableCommit]"
      "[RefreshBegin, RefreshRead 1, RefreshFinish 1]" "startedWorld demoContent"] w(1)
  show ?thesis by simp
qed


end
