(* ===== verification/DdlExecutor.thy ===== *)
theory DdlExecutor
  imports DdlCompiler Transactions
begin

text \<open>
  The transactional executor of \<open>src/database/schema-ddl.ts\<close>: sealed plans only, one connection, one
  transaction that holds the hardening, the advisory lock, the history row, the statements and the
  history row's completion.  Logging is not modelled.
\<close>

subsection \<open>Errors\<close>

definition DDL_ERROR_MAP :: "string \<Rightarrow> (ErrorCode \<times> string \<times> int) option" where
  "DDL_ERROR_MAP = map_of
     [(''42P07'', CONFLICT, ''Relation already exists'', 409),
      (''42P01'', TABLE_NOT_FOUND, ''Referenced table does not exist'', 404),
      (''42704'', TABLE_NOT_FOUND, ''Referenced object does not exist'', 404),
      (''3F000'', TABLE_NOT_FOUND, ''Referenced schema does not exist'', 404),
      (''23505'', CONFLICT, ''Operation conflicts with existing data'', 409),
      (''42710'', CONFLICT, ''Object already exists'', 409),
      (''42501'', INTERNAL_ERROR, ''Insufficient database privilege for the schema-admin role'', 500),
      (''40P01'', INTERNAL_ERROR, ''Operation conflicted with a concurrent operation'', 500),
      (''9C001'', CONFLICT, ''The column type changed after the operation was compiled; retry with a fresh key'', 409),
      (''9C002'', CONFLICT, ''Runtime role retains privileges on the table; revoke them before unexposing'', 409),
      (''9C003'', CONFLICT, ''Table is exposed to the data API and cannot be modified'', 409),
      (''9C004'', CONFLICT, ''Table no longer satisfies the exposure prerequisites; retry with a fresh key'', 409)]"

text \<open>The \<open>code\<close> of a thrown object, when it is a string.\<close>

definition sqlStateOf :: "runtime \<Rightarrow> thrown \<Rightarrow> string option" where
  "sqlStateOf R error =
     (if errIsObject error then (case errProp R error ''code'' of VStr s \<Rightarrow> Some s | _ \<Rightarrow> None) else None)"

definition translateDdlError :: "runtime \<Rightarrow> thrown \<Rightarrow> app_error" where
  "translateDdlError R error =
     (case error of
        AppErr e \<Rightarrow> e
      | _ \<Rightarrow>
          (case Option.bind (sqlStateOf R error) DDL_ERROR_MAP of
             Some (c, m, st) \<Rightarrow> mkErr c m st None
           | None \<Rightarrow> mkErr INTERNAL_ERROR ''Schema operation failed'' 500 None))"

definition CONCURRENT_WAIT_SQLSTATES :: "string list" where
  "CONCURRENT_WAIT_SQLSTATES = [''55P03'', ''57014'']"

definition inProgressError :: "string \<Rightarrow> app_error" where
  "inProgressError key =
     mkErr CONFLICT ''An identical operation is already in progress'' 409
       (Some [(''idempotencyKey'', dstr key)])"

definition driverTimeout :: "thrown \<Rightarrow> bool" where
  "driverTimeout error \<longleftrightarrow>
     (case error of
        ErrObj m ps \<Rightarrow> m = ''Query read timeout''
      | DomErr e \<Rightarrow> ae_message e = ''Query read timeout''
      | _ \<Rightarrow> False)"

definition toConcurrentWaitConflict :: "runtime \<Rightarrow> thrown \<Rightarrow> string \<Rightarrow> app_error option" where
  "toConcurrentWaitConflict R error key =
     (case error of
        AppErr e \<Rightarrow> None
      | _ \<Rightarrow>
          if driverTimeout error \<or>
             (case sqlStateOf R error of Some s \<Rightarrow> s \<in> set CONCURRENT_WAIT_SQLSTATES | None \<Rightarrow> False)
          then Some (inProgressError key) else None)"

definition translateConcurrentWaitError :: "runtime \<Rightarrow> thrown \<Rightarrow> string \<Rightarrow> app_error" where
  "translateConcurrentWaitError R error key =
     (case error of
        AppErr e \<Rightarrow> e
      | _ \<Rightarrow>
          (case toConcurrentWaitConflict R error key of
             Some e \<Rightarrow> e
           | None \<Rightarrow> translateDdlError R error))"

subsection \<open>The statements of a run\<close>

definition ADMIN_TRANSACTION_HARDENING_SQL :: string where
  "ADMIN_TRANSACTION_HARDENING_SQL =
     ''SELECT set_config('' @ sq ''standard_conforming_strings'' @ '', '' @ sq ''on'' @ '', true), '' @
     ''set_config('' @ sq ''search_path'' @ '', '' @ sq ''pg_catalog'' @ '', true)''"

text \<open>The driver sends the bigint key as its decimal digits.\<close>

definition SCHEMA_DDL_LOCK_KEY :: string where
  "SCHEMA_DDL_LOCK_KEY = ''7921890504698152930''"

definition LOCK_SQL :: string where
  "LOCK_SQL = ''SELECT pg_advisory_xact_lock($1)''"

fun plansStatements :: "DdlPlan list \<Rightarrow> thrown + string list" where
  "plansStatements [] = Inr []"
| "plansStatements (p # ps) =
     bindR (assertPlanSealed p) (\<lambda>_.
     if pl_statements p = [] then Inl (invalidInput ''a compiled DDL plan has no statements'')
     else bindR (plansStatements ps) (\<lambda>rest. Inr (pl_statements p @ rest)))"

definition statementsOf :: "DdlPlan list \<Rightarrow> thrown + string list" where
  "statementsOf plans =
     (if plans = [] then Inl (invalidInput ''a DDL execution needs at least one plan'')
      else plansStatements plans)"

definition runPlanStatement :: "runtime \<Rightarrow> string \<Rightarrow> unit io" where
  "runPlanStatement R statement = bindM (perform R (EvExtended statement)) (\<lambda>_. returnM ())"

fun runStatements :: "runtime \<Rightarrow> string list \<Rightarrow> unit io" where
  "runStatements R [] = returnM ()"
| "runStatements R (s # ss) = bindM (runPlanStatement R s) (\<lambda>_. runStatements R ss)"

definition hardenAndLock :: "runtime \<Rightarrow> unit io" where
  "hardenAndLock R =
     bindM (clientQuery R ADMIN_TRANSACTION_HARDENING_SQL []) (\<lambda>_.
     bindM (clientQuery R LOCK_SQL [VStr SCHEMA_DDL_LOCK_KEY]) (\<lambda>_. returnM ()))"

definition rollbackQuietly :: "runtime \<Rightarrow> unit io" where
  "rollbackQuietly R =
     catchM (bindM (clientQuery R ''ROLLBACK'' []) (\<lambda>_. returnM ())) (\<lambda>_. returnM ())"

text \<open>\<open>try m finally f\<close>: what \<open>f\<close> throws replaces the outcome of \<open>m\<close>.\<close>

definition finallyM :: "'a io \<Rightarrow> unit io \<Rightarrow> 'a io" where
  "finallyM m f w =
     (case m w of (r, w1) \<Rightarrow> (case f w1 of (Inl e, w2) \<Rightarrow> (Inl e, w2) | (Inr u, w2) \<Rightarrow> (r, w2)))"

subsection \<open>Execution\<close>

record ExecuteOptions =
  eo_key :: string
  eo_commandType :: string
  eo_command :: json
  eo_actor :: string
  eo_dryRun :: bool

record ExecuteOutcome =
  ex_dryRun :: bool
  ex_replayed :: bool
  ex_record :: "SchemaOperationRecord option"

record ddl_env =
  dd_runtime :: runtime
  dd_closed :: bool
  dd_sha :: "bytes \<Rightarrow> bytes"
  dd_hmac :: "bytes \<Rightarrow> bytes"

text \<open>The operation log bound to the executor's client.\<close>

definition executorLog :: "ddl_env \<Rightarrow> string \<Rightarrow> log_env" where
  "executorLog D key =
     \<lparr>le_runtime = dd_runtime D, le_sha = dd_sha D, le_hmac = dd_hmac D,
      le_query = (\<lambda>sql values.
        catchM (clientQuery (dd_runtime D) sql values)
          (\<lambda>error. throwM (case toConcurrentWaitConflict (dd_runtime D) error key of
                              Some e \<Rightarrow> AppErr e | None \<Rightarrow> error)))\<rparr>"

definition dryRunBody :: "runtime \<Rightarrow> string list \<Rightarrow> unit io" where
  "dryRunBody R statements =
     catchM
       (bindM (clientQuery R ''BEGIN'' []) (\<lambda>_.
          finallyM (bindM (hardenAndLock R) (\<lambda>_. runStatements R statements))
            (bindM (clientQuery R ''ROLLBACK'' []) (\<lambda>_. returnM ()))))
       (\<lambda>error. throwM (AppErr (translateDdlError R error)))"

definition executeDryRun :: "ddl_env \<Rightarrow> string list \<Rightarrow> ExecuteOutcome io" where
  "executeDryRun D statements =
     bindM (poolConnect (dd_runtime D) (dd_closed D)) (\<lambda>_.
     bindM (finallyM (dryRunBody (dd_runtime D) statements) (releaseClient False)) (\<lambda>_.
       returnM \<lparr>ex_dryRun = True, ex_replayed = False, ex_record = None\<rparr>))"

definition beginPhase :: "ddl_env \<Rightarrow> string list \<Rightarrow> ExecuteOptions \<Rightarrow> SchemaOperationBeginOutcome io" where
  "beginPhase D statements opts =
     catchM
       (bindM (hardenAndLock (dd_runtime D)) (\<lambda>_.
          logBegin (executorLog D (eo_key opts))
            \<lparr>bo_key = eo_key opts, bo_commandType = eo_commandType opts, bo_command = eo_command opts,
             bo_actor = eo_actor opts, bo_statements = Some statements\<rparr>))
       (\<lambda>error.
          bindM (rollbackQuietly (dd_runtime D)) (\<lambda>_.
            throwM (AppErr (translateConcurrentWaitError (dd_runtime D) error (eo_key opts)))))"

definition runPhase :: "ddl_env \<Rightarrow> string list \<Rightarrow> ExecuteOptions \<Rightarrow> SchemaOperationRecord \<Rightarrow> ExecuteOutcome io" where
  "runPhase D statements opts rec =
     catchM
       (bindM (runStatements (dd_runtime D) statements) (\<lambda>_.
        bindM (logSucceed (executorLog D (eo_key opts)) (so_id rec)
                 (JObj [(''statementCount'', JNum (JFin (of_nat (length statements))))])) (\<lambda>record.
        bindM (clientQuery (dd_runtime D) ''COMMIT'' []) (\<lambda>_.
          returnM \<lparr>ex_dryRun = False, ex_replayed = False, ex_record = Some record\<rparr>))))
       (\<lambda>error.
          bindM (rollbackQuietly (dd_runtime D)) (\<lambda>_.
            throwM (AppErr (translateDdlError (dd_runtime D) error))))"

definition executeReal :: "ddl_env \<Rightarrow> string list \<Rightarrow> ExecuteOptions \<Rightarrow> ExecuteOutcome io" where
  "executeReal D statements opts =
     bindM (poolConnect (dd_runtime D) (dd_closed D)) (\<lambda>_.
       finallyM
         (bindM (clientQuery (dd_runtime D) ''BEGIN'' []) (\<lambda>_.
          bindM (beginPhase D statements opts) (\<lambda>begun.
            (case begun of
               Replay rec \<Rightarrow>
                 bindM (rollbackQuietly (dd_runtime D)) (\<lambda>_.
                   returnM \<lparr>ex_dryRun = False, ex_replayed = True, ex_record = Some rec\<rparr>)
             | InProgress rec \<Rightarrow>
                 bindM (rollbackQuietly (dd_runtime D)) (\<lambda>_.
                   throwM (AppErr (inProgressError (eo_key opts))))
             | Accepted rec retry \<Rightarrow> runPhase D statements opts rec))))
         (releaseClient False))"

definition execute :: "ddl_env \<Rightarrow> DdlPlan list \<Rightarrow> ExecuteOptions \<Rightarrow> ExecuteOutcome io" where
  "execute D plans opts =
     bindM (liftR (statementsOf plans)) (\<lambda>statements.
       if eo_dryRun opts then executeDryRun D statements
       else executeReal D statements opts)"

end
