(* ===== verification/RoleSafety.thy ===== *)
theory RoleSafety
  imports TableRegistry OperationLog DdlExecutor
begin

text \<open>
  The startup checks on the database roles: the runtime role and its tables (\<open>src/database/role-safety.ts\<close>) and
  the schema-admin lane (\<open>src/database/schema-admin-pool.ts\<close>).  A client is its \<open>query\<close>.
\<close>

subsection \<open>The runtime role\<close>

definition roleError :: "string \<Rightarrow> thrown" where
  "roleError message = AppErr (mkErr DATABASE_UNAVAILABLE message 503 None)"

definition RUNTIME_ROLE_SQL :: string where
  "RUNTIME_ROLE_SQL =
     ''SELECT rolname, rolsuper, rolbypassrls FROM pg_catalog.pg_roles WHERE rolname = current_user''"

record RequiredPrivilege =
  rp_schema :: string
  rp_table :: "string option" \<comment> \<open>\<open>None\<close>: the privilege is on the schema\<close>
  rp_privilege :: string

definition REQUIRED_PRIVILEGES :: "RequiredPrivilege list" where
  "REQUIRED_PRIVILEGES = map (\<lambda>(t, p). \<lparr>rp_schema = ''microjbase'', rp_table = t, rp_privilege = p\<rparr>)
     [(None, ''USAGE''), (Some ''schema_migrations'', ''SELECT''), (Some ''users'', ''SELECT''),
      (Some ''users'', ''INSERT''), (Some ''sessions'', ''SELECT''), (Some ''sessions'', ''INSERT''),
      (Some ''sessions'', ''UPDATE'')]"

definition missingRuntimePrivilege :: "RequiredPrivilege \<Rightarrow> thrown" where
  "missingRuntimePrivilege required =
     (let s = rp_schema required; p = rp_privilege required in
      (case rp_table required of
         None \<Rightarrow>
           unavailable (''Runtime role is missing required privilege '' @ p @ '' on schema '' @ s)
             [(''schema'', dstr s), (''privilege'', dstr p)]
       | Some t \<Rightarrow>
           unavailable (''Runtime role is missing required privilege '' @ p @ '' on '' @ s @ ''.'' @ t)
             [(''schema'', dstr s), (''table'', dstr t), (''privilege'', dstr p)]))"

text \<open>\<open>row === undefined || !row.has\<close> is an error.\<close>

definition requireHas :: "thrown \<Rightarrow> qresult \<Rightarrow> thrown + unit" where
  "requireHas e result =
     (case row0 result of
        None \<Rightarrow> Inl e
      | Some r \<Rightarrow> if truthy (propOf r ''has'') then Inr () else Inl e)"

definition privilegeQuery :: "queryOp \<Rightarrow> RequiredPrivilege \<Rightarrow> qresult io" where
  "privilegeQuery query required =
     (case rp_table required of
        None \<Rightarrow>
          query ''SELECT pg_catalog.has_schema_privilege(current_user, $1, $2) AS has''
            [VStr (rp_schema required), VStr (rp_privilege required)]
      | Some t \<Rightarrow>
          query ''SELECT pg_catalog.has_table_privilege(current_user, $1, $2) AS has''
            [VStr (rp_schema required @ ''.'' @ t), VStr (rp_privilege required)])"

definition assertRequiredPrivilege :: "queryOp \<Rightarrow> RequiredPrivilege \<Rightarrow> unit io" where
  "assertRequiredPrivilege query required =
     bindM (privilegeQuery query required) (\<lambda>result.
       liftR (requireHas (missingRuntimePrivilege required) result))"

fun assertRequiredPrivileges :: "queryOp \<Rightarrow> RequiredPrivilege list \<Rightarrow> unit io" where
  "assertRequiredPrivileges query [] = returnM ()"
| "assertRequiredPrivileges query (p # ps) =
     bindM (assertRequiredPrivilege query p) (\<lambda>_. assertRequiredPrivileges query ps)"

record RuntimeRoleSafety =
  rs_role :: jsval
  rs_isSuperuser :: jsval
  rs_hasBypassRls :: jsval

definition runtimeRoleRow :: "qresult \<Rightarrow> thrown + RuntimeRoleSafety" where
  "runtimeRoleRow result =
     (case row0 result of
        None \<Rightarrow> Inl (roleError ''Could not determine current database role'')
      | Some role \<Rightarrow>
          if truthy (propOf role ''rolsuper'') then
            Inl (roleError ''Runtime database role must not be a superuser'')
          else if truthy (propOf role ''rolbypassrls'') then
            Inl (roleError ''Runtime database role must not have BYPASSRLS'')
          else Inr \<lparr>rs_role = propOf role ''rolname'', rs_isSuperuser = propOf role ''rolsuper'',
                 rs_hasBypassRls = propOf role ''rolbypassrls''\<rparr>)"

definition checkRuntimeRoleSafety :: "queryOp \<Rightarrow> RuntimeRoleSafety io" where
  "checkRuntimeRoleSafety query =
     bindM (query RUNTIME_ROLE_SQL []) (\<lambda>result.
     bindM (liftR (runtimeRoleRow result)) (\<lambda>safety.
     bindM (assertRequiredPrivileges query REQUIRED_PRIVILEGES) (\<lambda>_. returnM safety)))"

subsection \<open>The exposed tables\<close>

type_synonym target = "string \<times> string"

definition tableError :: "string \<Rightarrow> target \<Rightarrow> thrown" where
  "tableError message = (\<lambda>(schema, table). unavailable message [(''schema'', dstr schema), (''table'', dstr table)])"

definition targetName :: "target \<Rightarrow> string" where
  "targetName = (\<lambda>(schema, table). schema @ ''.'' @ table)"

definition OWNERSHIP_SQL :: string where
  "OWNERSHIP_SQL =
     ''SELECT c.relname, n.nspname, pg_catalog.pg_get_userbyid(c.relowner) AS relowner, '' @
     ''c.relrowsecurity, c.relforcerowsecurity FROM pg_catalog.pg_class c '' @
     ''JOIN pg_catalog.pg_namespace n ON n.oid = c.relnamespace '' @
     ''WHERE n.nspname = $1 AND c.relname = $2 AND c.relkind = '' @ sq ''r''"

record TableOwnershipCheck =
  oc_schema :: jsval
  oc_table :: jsval
  oc_owner :: jsval
  oc_hasRls :: jsval
  oc_hasForceRls :: jsval

definition ownershipRow :: "target \<Rightarrow> qresult \<Rightarrow> thrown + TableOwnershipCheck" where
  "ownershipRow t result =
     (case row0 result of
        None \<Rightarrow> Inl (tableError (''Configured table '' @ targetName t @ '' does not exist'') t)
      | Some row \<Rightarrow>
          if \<not> truthy (propOf row ''relrowsecurity'') then
            Inl (tableError (''Row-level security is not enabled on '' @ targetName t) t)
          else if \<not> truthy (propOf row ''relforcerowsecurity'') then
            Inl (tableError (''Forced row-level security is not enabled on '' @ targetName t) t)
          else Inr \<lparr>oc_schema = propOf row ''nspname'', oc_table = propOf row ''relname'',
                 oc_owner = propOf row ''relowner'', oc_hasRls = propOf row ''relrowsecurity'',
                 oc_hasForceRls = propOf row ''relforcerowsecurity''\<rparr>)"

text \<open>One question per table, in order, the answers collected.\<close>

fun forTables :: "('a \<Rightarrow> 'b io) \<Rightarrow> 'a list \<Rightarrow> 'b list io" where
  "forTables f [] = returnM []"
| "forTables f (t # ts) = bindM (f t) (\<lambda>c. bindM (forTables f ts) (\<lambda>cs. returnM (c # cs)))"

definition checkTableOwnershipAndRls :: "queryOp \<Rightarrow> target list \<Rightarrow> TableOwnershipCheck list io" where
  "checkTableOwnershipAndRls query =
     forTables (\<lambda>t. bindM (query OWNERSHIP_SQL [VStr (fst t), VStr (snd t)]) (\<lambda>result. liftR (ownershipRow t result)))"

definition TABLE_PRIVILEGES_SQL :: string where
  "TABLE_PRIVILEGES_SQL =
     ''SELECT pg_catalog.has_table_privilege(current_user, $1, '' @ sq ''SELECT'' @ '') AS has_select, '' @
     ''pg_catalog.has_table_privilege(current_user, $1, '' @ sq ''INSERT'' @ '') AS has_insert, '' @
     ''pg_catalog.has_table_privilege(current_user, $1, '' @ sq ''UPDATE'' @ '') AS has_update, '' @
     ''pg_catalog.has_table_privilege(current_user, $1, '' @ sq ''DELETE'' @ '') AS has_delete''"

record TablePrivilegeCheck =
  tp_target :: target
  tp_hasSelect :: jsval
  tp_hasInsert :: jsval
  tp_hasUpdate :: jsval
  tp_hasDelete :: jsval

definition privilegeRow :: "target \<Rightarrow> qresult \<Rightarrow> thrown + TablePrivilegeCheck" where
  "privilegeRow t result =
     (case row0 result of
        None \<Rightarrow> Inl (tableError (''Could not determine privileges on '' @ targetName t) t)
      | Some row \<Rightarrow> Inr \<lparr>tp_target = t, tp_hasSelect = propOf row ''has_select'', tp_hasInsert = propOf row ''has_insert'',
             tp_hasUpdate = propOf row ''has_update'', tp_hasDelete = propOf row ''has_delete''\<rparr>)"

definition checkRuntimeTablePrivileges :: "queryOp \<Rightarrow> target list \<Rightarrow> TablePrivilegeCheck list io" where
  "checkRuntimeTablePrivileges query =
     forTables (\<lambda>t. bindM (query TABLE_PRIVILEGES_SQL [VStr (targetName t)]) (\<lambda>result. liftR (privilegeRow t result)))"

definition TABLE_POLICIES_SQL :: string where
  "TABLE_POLICIES_SQL =
     ''SELECT pol.polname AS policyname, ARRAY( SELECT pg_catalog.pg_get_userbyid(role_member) '' @
     ''FROM pg_catalog.unnest(pol.polroles) AS role_member ) AS roles, ( pol.polroles = ARRAY[0]::oid[] '' @
     ''OR EXISTS ( SELECT 1 FROM pg_catalog.unnest(pol.polroles) AS policy_role '' @
     ''WHERE pg_catalog.pg_has_role(current_user, policy_role, '' @ sq ''MEMBER'' @ '') ) ) AS applicable_to_current_user '' @
     ''FROM pg_catalog.pg_policy pol JOIN pg_catalog.pg_class c ON c.oid = pol.polrelid '' @
     ''JOIN pg_catalog.pg_namespace n ON n.oid = c.relnamespace WHERE n.nspname = $1 AND c.relname = $2''"

record PolicyCheck =
  pc_target :: target
  pc_policyName :: jsval
  pc_applicableRoles :: jsval

definition policyRows :: "target \<Rightarrow> qresult \<Rightarrow> thrown + PolicyCheck list" where
  "policyRows t result =
     (if qr_rows result = [] then
        Inl (tableError (''No row-level security policies exist for '' @ targetName t) t)
      else if \<not> list_ex (\<lambda>row. truthy (propOf row ''applicable_to_current_user'')) (qr_rows result) then
        Inl (tableError (''No row-level security policies on '' @ targetName t @ '' apply to the runtime role'') t)
      else Inr (map (\<lambda>row. \<lparr>pc_target = t, pc_policyName = propOf row ''policyname'',
                          pc_applicableRoles = propOf row ''roles''\<rparr>) (qr_rows result)))"

definition checkApplicablePolicies :: "queryOp \<Rightarrow> target list \<Rightarrow> PolicyCheck list io" where
  "checkApplicablePolicies query ts =
     bindM (forTables (\<lambda>t. bindM (query TABLE_POLICIES_SQL [VStr (fst t), VStr (snd t)]) (\<lambda>result.
              liftR (policyRows t result))) ts) (\<lambda>checks. returnM (concat checks))"

subsection \<open>The schema-admin lane\<close>

definition SCHEMA_ADMIN_MAX_CONNECTIONS :: nat where
  "SCHEMA_ADMIN_MAX_CONNECTIONS = 5"

text \<open>The roles; their capabilities are comments for the reader.\<close>

definition FORBIDDEN_ROLE_MEMBERSHIPS :: "string list" where
  "FORBIDDEN_ROLE_MEMBERSHIPS =
     [''pg_execute_server_program'', ''pg_write_server_files'', ''pg_read_all_data'', ''pg_write_all_data'']"

definition membershipSelect :: "string \<Rightarrow> string" where
  "membershipSelect role =
     ''pg_has_role(current_user, '' @ sq role @ '', '' @ sq ''MEMBER'' @ '') AS member_'' @ role"

definition ADMIN_ROLE_SQL :: string where
  "ADMIN_ROLE_SQL =
     ''SELECT rolname, rolsuper, rolbypassrls, rolcreaterole, rolcreatedb, '' @
     joinWith '', '' (map membershipSelect FORBIDDEN_ROLE_MEMBERSHIPS) @
     '' FROM pg_roles WHERE rolname = current_user''"

text \<open>The refused attributes, in the order they are tested.\<close>

definition adminAttributes :: "(string \<times> string) list" where
  "adminAttributes =
     [(''rolsuper'', ''be a superuser''), (''rolbypassrls'', ''have BYPASSRLS''),
      (''rolcreaterole'', ''have role-management rights (CREATEROLE)''), (''rolcreatedb'', ''have CREATEDB'')]"

record SchemaAdminRoleSafety =
  sr_role :: jsval
  sr_attributes :: "jsval list" \<comment> \<open>superuser, BYPASSRLS, CREATEROLE, CREATEDB\<close>
  sr_dangerousMemberships :: "string list"

definition adminRoleRow :: "qresult \<Rightarrow> thrown + SchemaAdminRoleSafety" where
  "adminRoleRow result =
     (case row0 result of
        None \<Rightarrow> Inl (roleError ''Could not determine schema-admin database role'')
      | Some role \<Rightarrow>
          (case find (\<lambda>a. truthy (propOf role (fst a))) adminAttributes of
             Some a \<Rightarrow> Inl (roleError (''Schema-admin database role must not '' @ snd a))
           | None \<Rightarrow>
               (let dangerous = filter (\<lambda>r. propOf role (''member_'' @ r) = VBool True) FORBIDDEN_ROLE_MEMBERSHIPS in
                if dangerous \<noteq> [] then
                  Inl (roleError (''Schema-admin database role must not be a member of '' @ joinWith '', '' dangerous))
                else Inr \<lparr>sr_role = propOf role ''rolname'',
                       sr_attributes = map (\<lambda>a. propOf role (fst a)) adminAttributes,
                       sr_dangerousMemberships = dangerous\<rparr>)))"

definition checkSchemaAdminRoleSafety :: "queryOp \<Rightarrow> SchemaAdminRoleSafety io" where
  "checkSchemaAdminRoleSafety query =
     bindM (query ADMIN_ROLE_SQL []) (\<lambda>result. liftR (adminRoleRow result))"

definition IDENTITY_SQL :: string where
  "IDENTITY_SQL =
     ''SELECT current_user AS user, current_database() AS database, inet_server_addr()::text AS server_addr, '' @
     ''inet_server_port() AS server_port''"

definition sameIdentity :: "(string \<times> jsval) list \<Rightarrow> (string \<times> jsval) list \<Rightarrow> bool" where
  "sameIdentity runtime admin \<longleftrightarrow>
     list_all (\<lambda>k. strictEq (propOf runtime k) (propOf admin k)) [''user'', ''database'', ''server_addr'', ''server_port'']"

definition distinctIdentities :: "qresult \<Rightarrow> qresult \<Rightarrow> thrown + unit" where
  "distinctIdentities runtimeResult adminResult =
     (case (row0 runtimeResult, row0 adminResult) of
        (Some runtime, Some admin) \<Rightarrow>
          if sameIdentity runtime admin then
            Inl (AppErr (mkErr VALIDATION_ERROR
              (''SCHEMA_DATABASE_URL connects with the same database role and database as DATABASE_URL; '' @
               ''the schema-admin lane must stay distinct from the runtime lane (D-011)'') 400 None))
          else Inr ()
      | _ \<Rightarrow> Inl (roleError ''Could not determine database session identity for the schema-admin lane''))"

text \<open>The two queries are sent together; here the runtime's answer comes first.\<close>

definition assertSchemaAdminSessionDistinct :: "queryOp \<Rightarrow> queryOp \<Rightarrow> unit io" where
  "assertSchemaAdminSessionDistinct runtimeQuery adminQuery =
     bindM (runtimeQuery IDENTITY_SQL []) (\<lambda>runtimeResult.
     bindM (adminQuery IDENTITY_SQL []) (\<lambda>adminResult.
       liftR (distinctIdentities runtimeResult adminResult)))"

end
