(* ===== verification/CatalogueSql.thy ===== *)
theory CatalogueSql
  imports TableRegistry
begin

text \<open>
  The one statement of the schema-catalogue reader (\<open>src/database/schema-catalogue.ts\<close>), branch by branch,
  with its white space collapsed and its comment left out.
\<close>

definition CATALOGUE_HEAD_SQL :: string where
  "CATALOGUE_HEAD_SQL =
     ''WITH search_path_pin AS MATERIALIZED ( SELECT pg_catalog.set_config('' @ sq ''search_path'' @ '', '' @
     sq ''pg_catalog'' @
     '', true) AS pinned_path ) SELECT r.row_kind, r.schema_name, r.table_name, r.ordinal, r.name, '' @
     ''r.owner, r.kind, r.has_row_security, r.has_forced_row_security, r.is_nullable, '' @
     ''r.default_expression, r.generated, r.identity, r.rendered_type, r.type_schema, r.type_name, '' @
     ''r.type_kind, r.base_type_schema, r.base_type_name, r.base_type_kind, r.constraint_type, '' @
     ''r.constraint_columns, r.ref_schema, r.ref_table, r.ref_columns, r.on_update, r.on_delete, '' @
     ''r.is_unique, r.is_expression, r.has_predicate, r.index_columns FROM search_path_pin pin CROSS '' @
     ''JOIN LATERAL (''"

definition SCHEMA_ROWS_SQL :: string where
  "SCHEMA_ROWS_SQL =
     ''SELECT '' @ sq ''schema'' @
     '' AS row_kind, n.nspname AS schema_name, NULL::text AS table_name, NULL::integer AS ordinal, '' @
     ''NULL::text AS name, pg_catalog.pg_get_userbyid(n.nspowner) AS owner, NULL::text AS kind, '' @
     ''NULL::boolean AS has_row_security, NULL::boolean AS has_forced_row_security, NULL::boolean AS '' @
     ''is_nullable, NULL::text AS default_expression, NULL::text AS generated, NULL::text AS '' @
     ''identity, NULL::text AS rendered_type, NULL::text AS type_schema, NULL::text AS type_name, '' @
     ''NULL::text AS type_kind, NULL::text AS base_type_schema, NULL::text AS base_type_name, '' @
     ''NULL::text AS base_type_kind, NULL::text AS constraint_type, NULL::text[] AS '' @
     ''constraint_columns, NULL::text AS ref_schema, NULL::text AS ref_table, NULL::text[] AS '' @
     ''ref_columns, NULL::text AS on_update, NULL::text AS on_delete, NULL::boolean AS is_unique, '' @
     ''NULL::boolean AS is_expression, NULL::boolean AS has_predicate, NULL::text[] AS index_columns, '' @
     ''pin.pinned_path FROM pg_catalog.pg_namespace n WHERE n.nspname <> '' @ sq ''information_schema'' @
     '' AND n.nspname NOT LIKE '' @ sq (''pg'' @ [CHR 0x5C] @ ''_%'')"

definition TABLE_ROWS_SQL :: string where
  "TABLE_ROWS_SQL =
     ''SELECT '' @ sq ''table'' @
     '', n.nspname, c.relname, NULL::integer, NULL::text, pg_catalog.pg_get_userbyid(c.relowner), '' @
     ''CASE c.relkind WHEN '' @ sq ''p'' @ '' THEN '' @ sq ''partitioned'' @ '' ELSE '' @ sq ''regular'' @
     '' END, c.relrowsecurity, c.relforcerowsecurity, NULL::boolean, NULL::text, NULL::text, '' @
     ''NULL::text, NULL::text, NULL::text, NULL::text, NULL::text, NULL::text, NULL::text, '' @
     ''NULL::text, NULL::text, NULL::text[], NULL::text, NULL::text, NULL::text[], NULL::text, '' @
     ''NULL::text, NULL::boolean, NULL::boolean, NULL::boolean, NULL::text[], pin.pinned_path FROM '' @
     ''pg_catalog.pg_class c JOIN pg_catalog.pg_namespace n ON n.oid = c.relnamespace WHERE c.relkind '' @
     ''IN ('' @ sq ''r'' @ '', '' @ sq ''p'' @ '') AND n.nspname <> '' @ sq ''information_schema'' @
     '' AND n.nspname NOT LIKE '' @ sq (''pg'' @ [CHR 0x5C] @ ''_%'')"

definition COLUMN_ROWS_SQL :: string where
  "COLUMN_ROWS_SQL =
     ''SELECT '' @ sq ''column'' @
     '', n.nspname, c.relname, a.attnum, a.attname, NULL::text, NULL::text, NULL::boolean, '' @
     ''NULL::boolean, (NOT a.attnotnull), pg_catalog.pg_get_expr(d.adbin, d.adrelid), '' @
     ''a.attgenerated::text, a.attidentity::text, pg_catalog.format_type(a.atttypid, a.atttypmod), '' @
     ''tn.nspname, ty.typname, ty.typtype::text, bn.nspname, bt.typname, bt.typtype::text, '' @
     ''NULL::text, NULL::text[], NULL::text, NULL::text, NULL::text[], NULL::text, NULL::text, '' @
     ''NULL::boolean, NULL::boolean, NULL::boolean, NULL::text[], pin.pinned_path FROM '' @
     ''pg_catalog.pg_attribute a JOIN pg_catalog.pg_class c ON c.oid = a.attrelid JOIN '' @
     ''pg_catalog.pg_namespace n ON n.oid = c.relnamespace LEFT JOIN pg_catalog.pg_attrdef d ON '' @
     ''d.adrelid = a.attrelid AND d.adnum = a.attnum JOIN pg_catalog.pg_type ty ON ty.oid = '' @
     ''a.atttypid JOIN pg_catalog.pg_namespace tn ON tn.oid = ty.typnamespace LEFT JOIN '' @
     ''pg_catalog.pg_type bt ON bt.oid = ty.typbasetype LEFT JOIN pg_catalog.pg_namespace bn ON '' @
     ''bn.oid = bt.typnamespace WHERE a.attnum > 0 AND NOT a.attisdropped AND c.relkind IN ('' @ sq ''r'' @
     '', '' @ sq ''p'' @ '') AND n.nspname <> '' @ sq ''information_schema'' @ '' AND n.nspname NOT LIKE '' @
     sq (''pg'' @ [CHR 0x5C] @ ''_%'')"

definition CONSTRAINT_ROWS_SQL :: string where
  "CONSTRAINT_ROWS_SQL =
     ''SELECT '' @ sq ''constraint'' @
     '', n.nspname, c.relname, NULL::integer, con.conname, NULL::text, NULL::text, NULL::boolean, '' @
     ''NULL::boolean, NULL::boolean, NULL::text, NULL::text, NULL::text, NULL::text, NULL::text, '' @
     ''NULL::text, NULL::text, NULL::text, NULL::text, NULL::text, con.contype::text, CASE WHEN '' @
     ''con.contype <> '' @ sq ''c'' @
     '' THEN (SELECT array_agg(a.attname ORDER BY u.ord) FROM unnest(con.conkey) WITH ORDINALITY AS '' @
     ''u(attnum, ord) JOIN pg_catalog.pg_attribute a ON a.attrelid = con.conrelid AND a.attnum = '' @
     ''u.attnum) END, CASE WHEN con.contype = '' @ sq ''f'' @
     '' THEN rn.nspname END, CASE WHEN con.contype = '' @ sq ''f'' @
     '' THEN rc.relname END, CASE WHEN con.contype = '' @ sq ''f'' @
     '' THEN (SELECT array_agg(ra.attname ORDER BY u.ord) FROM unnest(con.confkey) WITH ORDINALITY AS '' @
     ''u(attnum, ord) JOIN pg_catalog.pg_attribute ra ON ra.attrelid = con.confrelid AND ra.attnum = '' @
     ''u.attnum) END, CASE WHEN con.contype = '' @ sq ''f'' @
     '' THEN con.confupdtype::text END, CASE WHEN con.contype = '' @ sq ''f'' @
     '' THEN con.confdeltype::text END, NULL::boolean, NULL::boolean, NULL::boolean, NULL::text[], '' @
     ''pin.pinned_path FROM pg_catalog.pg_constraint con JOIN pg_catalog.pg_class c ON c.oid = '' @
     ''con.conrelid JOIN pg_catalog.pg_namespace n ON n.oid = c.relnamespace LEFT JOIN '' @
     ''pg_catalog.pg_class rc ON rc.oid = con.confrelid LEFT JOIN pg_catalog.pg_namespace rn ON '' @
     ''rn.oid = rc.relnamespace WHERE c.relkind IN ('' @ sq ''r'' @ '', '' @ sq ''p'' @
     '') AND n.nspname <> '' @ sq ''information_schema'' @ '' AND n.nspname NOT LIKE '' @
     sq (''pg'' @ [CHR 0x5C] @ ''_%'') @ '' AND con.contype IN ('' @ sq ''p'' @ '', '' @ sq ''u'' @
     '', '' @ sq ''f'' @ '', '' @ sq ''c'' @ '', '' @ sq ''x'' @ '')''"

definition INDEX_ROWS_SQL :: string where
  "INDEX_ROWS_SQL =
     ''SELECT '' @ sq ''index'' @
     '', n.nspname, t.relname, NULL::integer, ic.relname, NULL::text, NULL::text, NULL::boolean, '' @
     ''NULL::boolean, NULL::boolean, NULL::text, NULL::text, NULL::text, NULL::text, NULL::text, '' @
     ''NULL::text, NULL::text, NULL::text, NULL::text, NULL::text, NULL::text, NULL::text[], '' @
     ''NULL::text, NULL::text, NULL::text[], NULL::text, NULL::text, i.indisunique, (i.indexprs IS '' @
     ''NOT NULL), (i.indpred IS NOT NULL), (SELECT array_agg( CASE WHEN u.attnum = 0 THEN NULL ELSE '' @
     ''a.attname END ORDER BY u.ord) FROM (SELECT x.attnum::integer AS attnum, x.ord AS ord FROM '' @
     ''unnest(string_to_array(i.indkey::text, '' @ sq '' '' @
     '')) WITH ORDINALITY AS x(attnum, ord)) u LEFT JOIN pg_catalog.pg_attribute a ON a.attrelid = '' @
     ''t.oid AND a.attnum = u.attnum), pin.pinned_path FROM pg_catalog.pg_index i JOIN '' @
     ''pg_catalog.pg_class t ON t.oid = i.indrelid JOIN pg_catalog.pg_namespace n ON n.oid = '' @
     ''t.relnamespace JOIN pg_catalog.pg_class ic ON ic.oid = i.indexrelid LEFT JOIN '' @
     ''pg_catalog.pg_constraint con ON con.conindid = i.indexrelid WHERE t.relkind IN ('' @ sq ''r'' @ '', '' @
     sq ''p'' @ '') AND n.nspname <> '' @ sq ''information_schema'' @ '' AND n.nspname NOT LIKE '' @
     sq (''pg'' @ [CHR 0x5C] @ ''_%'') @ '' AND con.oid IS NULL''"

definition CATALOGUE_TAIL_SQL :: string where
  "CATALOGUE_TAIL_SQL =
     '') r ORDER BY r.row_kind, r.schema_name, r.table_name, r.ordinal, r.name''"


definition SCHEMA_CATALOGUE_SQL :: string where
  "SCHEMA_CATALOGUE_SQL =
     CATALOGUE_HEAD_SQL @ '' '' @ SCHEMA_ROWS_SQL @ '' UNION ALL '' @ TABLE_ROWS_SQL @ '' UNION ALL '' @
     COLUMN_ROWS_SQL @ '' UNION ALL '' @ CONSTRAINT_ROWS_SQL @ '' UNION ALL '' @ INDEX_ROWS_SQL @ '' '' @
     CATALOGUE_TAIL_SQL"

text \<open>The text starts with \<open>WITH\<close>: it is no control statement of a transaction.\<close>

lemma SCHEMA_CATALOGUE_SQL_start: "startsWith SCHEMA_CATALOGUE_SQL ''WITH''"
  by (simp add: SCHEMA_CATALOGUE_SQL_def CATALOGUE_HEAD_SQL_def startsWith_def)

end
