(* ===== verification/Catalogue.thy ===== *)
theory Catalogue
  imports CatalogueSql "HOL-Library.Char_ord" "HOL-Library.List_Lexorder"
begin

text \<open>
  The schema-catalogue reader of \<open>src/database/schema-catalogue.ts\<close> and its contract
  (\<open>src/contracts/schema.ts\<close>): the rows of the one statement are validated, grouped and sorted.  A \<open>Map\<close>
  is an association list in insertion order; the map of maps from schemas to tables is one list keyed by
  both names.  The driver's arrays have no holes; one with a hole is refused like one with \<open>undefined\<close>.
\<close>

subsection \<open>The contract\<close>

datatype TypeKind =
    BaseType | DomainType | EnumType | RangeType | MultirangeType | CompositeType | PseudoType

record TypeIdentity =
  ti_schema :: string
  ti_name :: string
  ti_kind :: TypeKind

datatype SchemaTableKind = RegularTable | PartitionedTable
datatype ColumnGeneratedKind = NotGenerated | StoredGenerated | VirtualGenerated
datatype ColumnIdentityKind = NoIdentity | IdentityAlways | IdentityByDefault

record SchemaCatalogueColumn =
  sc_ordinal :: int
  sc_name :: string
  sc_isNullable :: bool
  sc_defaultExpression :: "string option"
  sc_generated :: ColumnGeneratedKind
  sc_identity :: ColumnIdentityKind
  sc_renderedType :: string
  sc_type :: TypeIdentity
  sc_baseType :: "TypeIdentity option"

datatype ConstraintClassification = PrimaryKey | UniqueKey | ForeignKey | CheckConstraint | Exclusion
datatype ForeignKeyAction = NoAction | Restrict | Cascade | SetNull | SetDefault

record SchemaForeignKeyTarget =
  ft_schema :: string
  ft_table :: string
  ft_columns :: "string list"

record SchemaConstraint =
  cn_name :: string
  cn_classification :: ConstraintClassification
  cn_columns :: "string list"
  cn_references :: "SchemaForeignKeyTarget option"
  cn_onUpdate :: "ForeignKeyAction option"
  cn_onDelete :: "ForeignKeyAction option"

datatype IndexClassification = PlainIndex | ExpressionIndex | PartialIndex

record SchemaIndex =
  ix_name :: string
  ix_classification :: IndexClassification
  ix_isUnique :: bool
  ix_isExpression :: bool
  ix_hasPredicate :: bool
  ix_columns :: "string option list"

record SchemaCatalogueTable =
  ct_schema :: string
  ct_name :: string
  ct_owner :: string
  ct_kind :: SchemaTableKind
  ct_hasRowSecurity :: bool
  ct_hasForcedRowSecurity :: bool
  ct_columns :: "SchemaCatalogueColumn list"
  ct_constraints :: "SchemaConstraint list"
  ct_indexes :: "SchemaIndex list"

record SchemaCatalogueSchema =
  cs_name :: string
  cs_owner :: string
  cs_tables :: "SchemaCatalogueTable list"

record SchemaCatalogue =
  ca_schemas :: "SchemaCatalogueSchema list"

subsection \<open>Fields of a row\<close>

type_synonym catalogueRow = "(string \<times> jsval) list"

definition CONSTRAINT_INDEX_ROW_FIELDS :: "string list" where
  "CONSTRAINT_INDEX_ROW_FIELDS =
     [''constraint_type'', ''constraint_columns'', ''ref_schema'', ''ref_table'', ''ref_columns'',
      ''on_update'', ''on_delete'', ''is_unique'', ''is_expression'', ''has_predicate'', ''index_columns'']"

definition SCHEMA_ROW_NULL_FIELDS :: "string list" where
  "SCHEMA_ROW_NULL_FIELDS =
     [''table_name'', ''ordinal'', ''name'', ''kind'', ''has_row_security'', ''has_forced_row_security'',
      ''is_nullable'', ''default_expression'', ''generated'', ''identity'', ''rendered_type'',
      ''type_schema'', ''type_name'', ''type_kind'', ''base_type_schema'', ''base_type_name'',
      ''base_type_kind''] @ CONSTRAINT_INDEX_ROW_FIELDS"

definition TABLE_ROW_NULL_FIELDS :: "string list" where
  "TABLE_ROW_NULL_FIELDS =
     [''ordinal'', ''name'', ''is_nullable'', ''default_expression'', ''generated'', ''identity'',
      ''rendered_type'', ''type_schema'', ''type_name'', ''type_kind'', ''base_type_schema'',
      ''base_type_name'', ''base_type_kind''] @ CONSTRAINT_INDEX_ROW_FIELDS"

definition COLUMN_ROW_NULL_FIELDS :: "string list" where
  "COLUMN_ROW_NULL_FIELDS =
     [''owner'', ''kind'', ''has_row_security'', ''has_forced_row_security''] @ CONSTRAINT_INDEX_ROW_FIELDS"

definition CONSTRAINT_ROW_NULL_FIELDS :: "string list" where
  "CONSTRAINT_ROW_NULL_FIELDS =
     [''ordinal'', ''owner'', ''kind'', ''has_row_security'', ''has_forced_row_security'', ''is_nullable'',
      ''default_expression'', ''generated'', ''identity'', ''rendered_type'', ''type_schema'',
      ''type_name'', ''type_kind'', ''base_type_schema'', ''base_type_name'', ''base_type_kind'',
      ''is_unique'', ''is_expression'', ''has_predicate'', ''index_columns'']"

definition INDEX_ROW_NULL_FIELDS :: "string list" where
  "INDEX_ROW_NULL_FIELDS =
     [''ordinal'', ''owner'', ''kind'', ''has_row_security'', ''has_forced_row_security'', ''is_nullable'',
      ''default_expression'', ''generated'', ''identity'', ''rendered_type'', ''type_schema'',
      ''type_name'', ''type_kind'', ''base_type_schema'', ''base_type_name'', ''base_type_kind'',
      ''constraint_type'', ''constraint_columns'', ''ref_schema'', ''ref_table'', ''ref_columns'',
      ''on_update'', ''on_delete'']"

definition malformedCatalogue :: "string \<Rightarrow> thrown" where
  "malformedCatalogue reason =
     AppErr (mkErr INTERNAL_ERROR (''Malformed schema catalogue row: '' @ reason) 500 None)"

definition stringField :: "catalogueRow \<Rightarrow> string \<Rightarrow> thrown + string" where
  "stringField row field =
     (case propOf row field of
        VStr s \<Rightarrow> if s = [] then Inl (malformedCatalogue (field @ '' must be a non-empty string'')) else Inr s
      | _ \<Rightarrow> Inl (malformedCatalogue (field @ '' must be a non-empty string'')))"

definition booleanField :: "catalogueRow \<Rightarrow> string \<Rightarrow> thrown + bool" where
  "booleanField row field =
     (case propOf row field of
        VBool b \<Rightarrow> Inr b
      | _ \<Rightarrow> Inl (malformedCatalogue (field @ '' must be a boolean'')))"

definition requireNull :: "catalogueRow \<Rightarrow> string \<Rightarrow> thrown + unit" where
  "requireNull row field =
     (if propOf row field = VNull then Inr () else Inl (malformedCatalogue (field @ '' must be null'')))"

definition requireNulls :: "catalogueRow \<Rightarrow> string list \<Rightarrow> thrown + unit" where
  "requireNulls row names = bindR (mapR (requireNull row) names) (\<lambda>_. Inr ())"

definition requireOrdinal :: "jsval \<Rightarrow> thrown + int" where
  "requireOrdinal v =
     (case v of
        VNum n \<Rightarrow>
          (case n of
             JFin q \<Rightarrow>
               if of_int \<lfloor>q\<rfloor> = q \<and> 1 \<le> q then Inr \<lfloor>q\<rfloor>
               else Inl (malformedCatalogue ''ordinal must be a positive integer'')
           | _ \<Rightarrow> Inl (malformedCatalogue ''ordinal must be a positive integer''))
      | _ \<Rightarrow> Inl (malformedCatalogue ''ordinal must be a positive integer''))"

text \<open>A \<open>switch\<close> over string codes.\<close>

definition codeField :: "(string \<times> 'a) list \<Rightarrow> string \<Rightarrow> jsval \<Rightarrow> thrown + 'a" where
  "codeField codes reason v =
     (case v of
        VStr s \<Rightarrow> (case map_of codes s of Some x \<Rightarrow> Inr x | None \<Rightarrow> Inl (malformedCatalogue reason))
      | _ \<Rightarrow> Inl (malformedCatalogue reason))"

definition mapTypeKind :: "catalogueRow \<Rightarrow> string \<Rightarrow> thrown + TypeKind" where
  "mapTypeKind row field =
     codeField
       [(''b'', BaseType), (''d'', DomainType), (''e'', EnumType), (''r'', RangeType),
        (''m'', MultirangeType), (''c'', CompositeType), (''p'', PseudoType)]
       (field @ '' has unsupported type kind'') (propOf row field)"

definition mapTableKind :: "jsval \<Rightarrow> thrown + SchemaTableKind" where
  "mapTableKind =
     codeField [(''regular'', RegularTable), (''partitioned'', PartitionedTable)]
       ''kind must be regular or partitioned''"

definition mapGenerated :: "jsval \<Rightarrow> thrown + ColumnGeneratedKind" where
  "mapGenerated =
     codeField [([], NotGenerated), (''s'', StoredGenerated), (''v'', VirtualGenerated)]
       (''generated must be empty, '' @ sq ''s'' @ '', or '' @ sq ''v'')"

definition mapIdentity :: "jsval \<Rightarrow> thrown + ColumnIdentityKind" where
  "mapIdentity =
     codeField [([], NoIdentity), (''a'', IdentityAlways), (''d'', IdentityByDefault)]
       (''identity must be empty, '' @ sq ''a'' @ '', or '' @ sq ''d'')"

definition mapConstraintClassification :: "jsval \<Rightarrow> thrown + ConstraintClassification" where
  "mapConstraintClassification =
     codeField
       [(''p'', PrimaryKey), (''u'', UniqueKey), (''f'', ForeignKey), (''c'', CheckConstraint),
        (''x'', Exclusion)]
       (''constraint_type must be '' @ sq ''p'' @ '', '' @ sq ''u'' @ '', '' @ sq ''f'' @ '', '' @ sq ''c'' @
        '', or '' @ sq ''x'')"

definition mapForeignKeyAction :: "catalogueRow \<Rightarrow> string \<Rightarrow> thrown + ForeignKeyAction" where
  "mapForeignKeyAction row field =
     codeField
       [(''a'', NoAction), (''r'', Restrict), (''c'', Cascade), (''n'', SetNull), (''d'', SetDefault)]
       (field @ '' must be '' @ sq ''a'' @ '', '' @ sq ''r'' @ '', '' @ sq ''c'' @ '', '' @ sq ''n'' @
        '', or '' @ sq ''d'')
       (propOf row field)"

definition arrayField :: "heap \<Rightarrow> catalogueRow \<Rightarrow> string \<Rightarrow> jsval option list option" where
  "arrayField h row field =
     (case deref h (propOf row field) of
        Some (OArr xs) \<Rightarrow> if xs = [] then None else Some xs
      | _ \<Rightarrow> None)"

definition nonEmptyElement :: "jsval option \<Rightarrow> string option" where
  "nonEmptyElement x =
     (case x of Some (VStr s) \<Rightarrow> if s = [] then None else Some s | _ \<Rightarrow> None)"

definition requireStringArray :: "heap \<Rightarrow> catalogueRow \<Rightarrow> string \<Rightarrow> thrown + string list" where
  "requireStringArray h row field =
     (case arrayField h row field of
        None \<Rightarrow> Inl (malformedCatalogue (field @ '' must be a non-empty array of strings''))
      | Some xs \<Rightarrow>
          mapR (\<lambda>x. case nonEmptyElement x of
                       None \<Rightarrow> Inl (malformedCatalogue (field @ '' must contain only non-empty strings''))
                     | Some s \<Rightarrow> Inr s) xs)"

definition requireIndexColumnArray :: "heap \<Rightarrow> catalogueRow \<Rightarrow> string \<Rightarrow> thrown + string option list" where
  "requireIndexColumnArray h row field =
     (case arrayField h row field of
        None \<Rightarrow> Inl (malformedCatalogue (field @ '' must be a non-empty array''))
      | Some xs \<Rightarrow>
          mapR (\<lambda>x. if x = Some VNull then Inr None
                     else (case nonEmptyElement x of
                             None \<Rightarrow> Inl (malformedCatalogue
                                       (field @ '' must contain only non-empty strings or null''))
                           | Some s \<Rightarrow> Inr (Some s))) xs)"

subsection \<open>Constraints, indexes and columns\<close>

definition REFERENCE_FIELDS :: "string list" where
  "REFERENCE_FIELDS = [''ref_schema'', ''ref_table'', ''ref_columns'', ''on_update'', ''on_delete'']"

definition plainConstraint :: "string \<Rightarrow> ConstraintClassification \<Rightarrow> string list \<Rightarrow> SchemaConstraint" where
  "plainConstraint name classification columns =
     \<lparr>cn_name = name, cn_classification = classification, cn_columns = columns, cn_references = None,
      cn_onUpdate = None, cn_onDelete = None\<rparr>"

definition foreignKeyTarget :: "heap \<Rightarrow> catalogueRow \<Rightarrow> thrown + SchemaForeignKeyTarget" where
  "foreignKeyTarget h row =
     bindR (stringField row ''ref_schema'') (\<lambda>s.
     bindR (stringField row ''ref_table'') (\<lambda>t.
     bindR (requireStringArray h row ''ref_columns'') (\<lambda>cs.
       Inr \<lparr>ft_schema = s, ft_table = t, ft_columns = cs\<rparr>)))"

definition mapConstraint :: "heap \<Rightarrow> catalogueRow \<Rightarrow> thrown + SchemaConstraint" where
  "mapConstraint h row =
     bindR (mapConstraintClassification (propOf row ''constraint_type'')) (\<lambda>classification.
     bindR (stringField row ''name'') (\<lambda>name.
     if classification = CheckConstraint then
       bindR (requireNulls row (''constraint_columns'' # REFERENCE_FIELDS)) (\<lambda>_.
         Inr (plainConstraint name classification []))
     else
       bindR (requireStringArray h row ''constraint_columns'') (\<lambda>columns.
       if classification = ForeignKey then
         bindR (foreignKeyTarget h row) (\<lambda>target.
         bindR (mapForeignKeyAction row ''on_update'') (\<lambda>up.
         bindR (mapForeignKeyAction row ''on_delete'') (\<lambda>del.
           Inr \<lparr>cn_name = name, cn_classification = classification, cn_columns = columns,
                cn_references = Some target, cn_onUpdate = Some up, cn_onDelete = Some del\<rparr>)))
       else
         bindR (requireNulls row REFERENCE_FIELDS) (\<lambda>_.
           Inr (plainConstraint name classification columns)))))"

definition indexClass :: "bool \<Rightarrow> bool \<Rightarrow> IndexClassification" where
  "indexClass isExpression hasPredicate =
     (if isExpression then ExpressionIndex else if hasPredicate then PartialIndex else PlainIndex)"

definition mapIndex :: "heap \<Rightarrow> catalogueRow \<Rightarrow> thrown + SchemaIndex" where
  "mapIndex h row =
     bindR (booleanField row ''is_unique'') (\<lambda>isUnique.
     bindR (booleanField row ''is_expression'') (\<lambda>isExpression.
     bindR (booleanField row ''has_predicate'') (\<lambda>hasPredicate.
     bindR (requireIndexColumnArray h row ''index_columns'') (\<lambda>columns.
     if \<not> isExpression \<and> None \<in> set columns then
       Inl (malformedCatalogue ''index columns contain null without is_expression'')
     else
       bindR (stringField row ''name'') (\<lambda>name.
         Inr \<lparr>ix_name = name, ix_classification = indexClass isExpression hasPredicate,
              ix_isUnique = isUnique, ix_isExpression = isExpression, ix_hasPredicate = hasPredicate,
              ix_columns = columns\<rparr>)))))"

definition typeIdentity :: "catalogueRow \<Rightarrow> string \<Rightarrow> string \<Rightarrow> string \<Rightarrow> thrown + TypeIdentity" where
  "typeIdentity row schemaField nameField kindField =
     bindR (stringField row schemaField) (\<lambda>s.
     bindR (stringField row nameField) (\<lambda>n.
     bindR (mapTypeKind row kindField) (\<lambda>k.
       Inr \<lparr>ti_schema = s, ti_name = n, ti_kind = k\<rparr>)))"

definition mapBaseType :: "catalogueRow \<Rightarrow> TypeIdentity \<Rightarrow> thrown + TypeIdentity option" where
  "mapBaseType row type =
     (if ti_kind type = DomainType then
        if propOf row ''base_type_name'' = VNull then
          Inl (malformedCatalogue ''domain type is missing its immediate base type'')
        else
          bindR (typeIdentity row ''base_type_schema'' ''base_type_name'' ''base_type_kind'') (\<lambda>b. Inr (Some b))
      else if propOf row ''base_type_name'' \<noteq> VNull then
        Inl (malformedCatalogue ''base type reported for a non-domain type'')
      else
        bindR (requireNulls row [''base_type_schema'', ''base_type_kind'']) (\<lambda>_. Inr None))"

definition mapDefault :: "catalogueRow \<Rightarrow> ColumnGeneratedKind \<Rightarrow> thrown + string option" where
  "mapDefault row generated =
     (if generated = NotGenerated \<and> propOf row ''default_expression'' \<noteq> VNull then
        bindR (stringField row ''default_expression'') (\<lambda>e. Inr (Some e))
      else Inr None)"

definition mapCatalogueColumn :: "catalogueRow \<Rightarrow> thrown + SchemaCatalogueColumn" where
  "mapCatalogueColumn row =
     bindR (mapGenerated (propOf row ''generated'')) (\<lambda>generated.
     bindR (mapDefault row generated) (\<lambda>dflt.
     bindR (typeIdentity row ''type_schema'' ''type_name'' ''type_kind'') (\<lambda>type.
     bindR (mapBaseType row type) (\<lambda>baseType.
     bindR (requireOrdinal (propOf row ''ordinal'')) (\<lambda>ordinal.
     bindR (stringField row ''name'') (\<lambda>name.
     bindR (booleanField row ''is_nullable'') (\<lambda>isNullable.
     bindR (mapIdentity (propOf row ''identity'')) (\<lambda>identity.
     bindR (stringField row ''rendered_type'') (\<lambda>renderedType.
       Inr \<lparr>sc_ordinal = ordinal, sc_name = name, sc_isNullable = isNullable, sc_defaultExpression = dflt,
            sc_generated = generated, sc_identity = identity, sc_renderedType = renderedType,
            sc_type = type, sc_baseType = baseType\<rparr>)))))))))"

subsection \<open>Grouping\<close>

record ValidatedTable =
  vt_owner :: string
  vt_kind :: SchemaTableKind
  vt_hasRowSecurity :: bool
  vt_hasForcedRowSecurity :: bool
  vt_columns :: "SchemaCatalogueColumn list"
  vt_constraints :: "SchemaConstraint list"
  vt_indexes :: "SchemaIndex list"

type_synonym tableKey = "string \<times> string"
type_synonym tableMap = "(tableKey \<times> ValidatedTable) list"

definition keyText :: "tableKey \<Rightarrow> string" where
  "keyText k = inQuotes (fst k @ ''.'' @ snd k)"

text \<open>The checks every loop starts with.\<close>

definition requireKind :: "string \<Rightarrow> string list \<Rightarrow> catalogueRow \<Rightarrow> thrown + unit" where
  "requireKind kind nullFields row =
     (if propOf row ''row_kind'' \<noteq> VStr kind then
        Inl (malformedCatalogue (kind @ '' row set contains a non-'' @ kind @ '' row''))
      else requireNulls row nullFields)"

definition rowTarget :: "catalogueRow \<Rightarrow> thrown + tableKey" where
  "rowTarget row =
     bindR (stringField row ''schema_name'') (\<lambda>s.
     bindR (stringField row ''table_name'') (\<lambda>t. Inr (s, t)))"

definition addSchemaRow :: "(string \<times> string) list \<Rightarrow> catalogueRow \<Rightarrow> thrown + (string \<times> string) list" where
  "addSchemaRow owners row =
     bindR (requireKind ''schema'' SCHEMA_ROW_NULL_FIELDS row) (\<lambda>_.
     bindR (stringField row ''schema_name'') (\<lambda>name.
     if name \<in> fst ` set owners then Inl (malformedCatalogue (''duplicate schema '' @ inQuotes name))
     else bindR (stringField row ''owner'') (\<lambda>owner. Inr (owners @ [(name, owner)]))))"

definition validatedTable :: "catalogueRow \<Rightarrow> thrown + ValidatedTable" where
  "validatedTable row =
     bindR (stringField row ''owner'') (\<lambda>owner.
     bindR (mapTableKind (propOf row ''kind'')) (\<lambda>kind.
     bindR (booleanField row ''has_row_security'') (\<lambda>rs.
     bindR (booleanField row ''has_forced_row_security'') (\<lambda>forced.
       Inr \<lparr>vt_owner = owner, vt_kind = kind, vt_hasRowSecurity = rs, vt_hasForcedRowSecurity = forced,
            vt_columns = [], vt_constraints = [], vt_indexes = []\<rparr>))))"

definition addTableRow :: "(string \<times> string) list \<Rightarrow> tableMap \<Rightarrow> catalogueRow \<Rightarrow> thrown + tableMap" where
  "addTableRow owners tables row =
     bindR (requireKind ''table'' TABLE_ROW_NULL_FIELDS row) (\<lambda>_.
     bindR (rowTarget row) (\<lambda>key.
     if fst key \<notin> fst ` set owners then
       Inl (malformedCatalogue (''table '' @ keyText key @ '' has no matching schema row''))
     else if key \<in> fst ` set tables then
       Inl (malformedCatalogue (''duplicate table '' @ keyText key))
     else bindR (validatedTable row) (\<lambda>t. Inr (tables @ [(key, t)]))))"

definition updateEntry :: "'k \<Rightarrow> ('v \<Rightarrow> 'v) \<Rightarrow> ('k \<times> 'v) list \<Rightarrow> ('k \<times> 'v) list" where
  "updateEntry k f = map (\<lambda>(k', v). if k' = k then (k', f v) else (k', v))"

definition orphan :: "string \<Rightarrow> tableKey \<Rightarrow> thrown" where
  "orphan kind key =
     malformedCatalogue (kind @ '' row for '' @ keyText key @ '' has no matching table row'')"

fun columnClash :: "tableKey \<Rightarrow> SchemaCatalogueColumn \<Rightarrow> SchemaCatalogueColumn list \<Rightarrow> thrown + unit" where
  "columnClash key column [] = Inr ()"
| "columnClash key column (x # existing) =
     (if sc_ordinal x = sc_ordinal column then
        Inl (malformedCatalogue (''duplicate ordinal '' @ intStr (sc_ordinal column) @ '' in '' @ keyText key))
      else if sc_name x = sc_name column then
        Inl (malformedCatalogue (''duplicate column '' @ inQuotes (sc_name column) @ '' in '' @ keyText key))
      else columnClash key column existing)"

definition addColumnRow :: "tableMap \<Rightarrow> catalogueRow \<Rightarrow> thrown + tableMap" where
  "addColumnRow tables row =
     bindR (requireKind ''column'' COLUMN_ROW_NULL_FIELDS row) (\<lambda>_.
     bindR (rowTarget row) (\<lambda>key.
       (case map_of tables key of
          None \<Rightarrow> Inl (orphan ''column'' key)
        | Some table \<Rightarrow>
            bindR (mapCatalogueColumn row) (\<lambda>column.
            bindR (columnClash key column (vt_columns table)) (\<lambda>_.
              Inr (updateEntry key (\<lambda>t. t\<lparr>vt_columns := vt_columns t @ [column]\<rparr>) tables))))))"

definition addConstraintRow :: "heap \<Rightarrow> tableMap \<Rightarrow> catalogueRow \<Rightarrow> thrown + tableMap" where
  "addConstraintRow h tables row =
     bindR (requireKind ''constraint'' CONSTRAINT_ROW_NULL_FIELDS row) (\<lambda>_.
     bindR (rowTarget row) (\<lambda>key.
       (case map_of tables key of
          None \<Rightarrow> Inl (orphan ''constraint'' key)
        | Some table \<Rightarrow>
            bindR (mapConstraint h row) (\<lambda>c.
            if list_ex (\<lambda>x. cn_name x = cn_name c) (vt_constraints table) then
              Inl (malformedCatalogue (''duplicate constraint '' @ inQuotes (cn_name c) @ '' in '' @ keyText key))
            else
              Inr (updateEntry key (\<lambda>t. t\<lparr>vt_constraints := vt_constraints t @ [c]\<rparr>) tables)))))"

definition addIndexRow :: "heap \<Rightarrow> tableMap \<Rightarrow> catalogueRow \<Rightarrow> thrown + tableMap" where
  "addIndexRow h tables row =
     bindR (requireKind ''index'' INDEX_ROW_NULL_FIELDS row) (\<lambda>_.
     bindR (rowTarget row) (\<lambda>key.
       (case map_of tables key of
          None \<Rightarrow> Inl (orphan ''index'' key)
        | Some table \<Rightarrow>
            bindR (mapIndex h row) (\<lambda>i.
            if list_ex (\<lambda>x. ix_name x = ix_name i) (vt_indexes table) then
              Inl (malformedCatalogue (''duplicate index '' @ inQuotes (ix_name i) @ '' in '' @ keyText key))
            else
              Inr (updateEntry key (\<lambda>t. t\<lparr>vt_indexes := vt_indexes t @ [i]\<rparr>) tables)))))"

text \<open>A loop over rows that may throw.\<close>

fun foldR :: "('s \<Rightarrow> 'r \<Rightarrow> 'e + 's) \<Rightarrow> 's \<Rightarrow> 'r list \<Rightarrow> 'e + 's" where
  "foldR f s [] = Inr s"
| "foldR f s (r # rs) = bindR (f s r) (\<lambda>s'. foldR f s' rs)"

subsection \<open>The catalogue\<close>

definition catalogueTable :: "tableKey \<times> ValidatedTable \<Rightarrow> SchemaCatalogueTable" where
  "catalogueTable e =
     (let ((schema, name), t) = e
      in \<lparr>ct_schema = schema, ct_name = name, ct_owner = vt_owner t, ct_kind = vt_kind t,
          ct_hasRowSecurity = vt_hasRowSecurity t, ct_hasForcedRowSecurity = vt_hasForcedRowSecurity t,
          ct_columns = sort_key sc_ordinal (vt_columns t),
          ct_constraints = sort_key cn_name (vt_constraints t),
          ct_indexes = sort_key ix_name (vt_indexes t)\<rparr>)"

definition catalogueSchema :: "tableMap \<Rightarrow> string \<times> string \<Rightarrow> SchemaCatalogueSchema" where
  "catalogueSchema tables owner =
     \<lparr>cs_name = fst owner, cs_owner = snd owner,
      cs_tables =
        sort_key ct_name (map catalogueTable (filter (\<lambda>e. fst (fst e) = fst owner) tables))\<rparr>"

definition mapSchemaCatalogue ::
  "heap \<Rightarrow> catalogueRow list \<Rightarrow> catalogueRow list \<Rightarrow> catalogueRow list \<Rightarrow> catalogueRow list \<Rightarrow>
   catalogueRow list \<Rightarrow> thrown + SchemaCatalogue" where
  "mapSchemaCatalogue h schemaRows tableRows columnRows constraintRows indexRows =
     bindR (foldR addSchemaRow [] schemaRows) (\<lambda>owners.
     bindR (foldR (addTableRow owners) [] tableRows) (\<lambda>tables.
     bindR (foldR addColumnRow tables columnRows) (\<lambda>tables.
     bindR (foldR (addConstraintRow h) tables constraintRows) (\<lambda>tables.
     bindR (foldR (addIndexRow h) tables indexRows) (\<lambda>tables.
       Inr \<lparr>ca_schemas = sort_key cs_name (map (catalogueSchema tables) owners)\<rparr>)))))"

definition ROW_KINDS :: "string list" where
  "ROW_KINDS = [''schema'', ''table'', ''column'', ''constraint'', ''index'']"

definition checkRowKind :: "catalogueRow \<Rightarrow> thrown + unit" where
  "checkRowKind row =
     (if \<exists>k\<in>set ROW_KINDS. propOf row ''row_kind'' = VStr k then Inr ()
      else Inl (malformedCatalogue
        (''row_kind must be '' @ sq ''schema'' @ '', '' @ sq ''table'' @ '', '' @ sq ''column'' @ '', '' @
         sq ''constraint'' @ '', or '' @ sq ''index'')))"

definition rowsOfKind :: "string \<Rightarrow> catalogueRow list \<Rightarrow> catalogueRow list" where
  "rowsOfKind k = filter (\<lambda>row. propOf row ''row_kind'' = VStr k)"

definition mapCatalogueRows :: "heap \<Rightarrow> catalogueRow list \<Rightarrow> thrown + SchemaCatalogue" where
  "mapCatalogueRows h rows =
     bindR (mapR checkRowKind rows) (\<lambda>_.
       mapSchemaCatalogue h (rowsOfKind ''schema'' rows) (rowsOfKind ''table'' rows)
         (rowsOfKind ''column'' rows) (rowsOfKind ''constraint'' rows) (rowsOfKind ''index'' rows))"

definition readSchemaCatalogue :: "runtime \<Rightarrow> queryOp \<Rightarrow> SchemaCatalogue io" where
  "readSchemaCatalogue R query =
     bindM (catchM (query SCHEMA_CATALOGUE_SQL []) (\<lambda>error. throwM (AppErr (translatePoolError R error)))) (\<lambda>result.
       liftR (mapCatalogueRows (heap R) (qr_rows result)))"

end
