(* ===== verification/CatalogueFacts.thy ===== *)
theory CatalogueFacts
  imports Catalogue "HOL-Library.Multiset"
begin

text \<open>
  What the catalogue reader promises: a successful read holds exactly what the rows say, without duplicates
  and sorted, and it does not depend on the order of the rows.
\<close>

subsection \<open>Loops over rows\<close>

lemma mapR_Inr_map:
  "mapR f xs = Inr ys \<longleftrightarrow> (\<forall>x\<in>set xs. \<exists>y. f x = Inr y) \<and> ys = map (\<lambda>x. projr (f x)) xs"
  by (induction xs arbitrary: ys) (auto simp: res_simps)

lemma mapR_permute:
  assumes "mapR f xs = Inr ys" and "mset xs' = mset xs"
  shows "\<exists>ys'. mapR f xs' = Inr ys' \<and> mset ys' = mset ys"
proof -
  have "set xs' = set xs" using assms(2) by (rule mset_eq_setD)
  moreover have "mset (map (\<lambda>x. projr (f x)) xs') = mset (map (\<lambda>x. projr (f x)) xs)" using assms(2) by simp
  ultimately show ?thesis using assms(1) unfolding mapR_Inr_map by auto
qed

lemma foldR_collect:
  assumes step: "\<And>acc r x. step acc r = Inr x \<longleftrightarrow>
      (\<exists>e. entry r = Inr e \<and> ok e \<and> key e \<notin> key ` set acc \<and> x = acc @ [e])"
  shows "foldR step acc rs = Inr x \<longleftrightarrow>
    (\<exists>es. mapR entry rs = Inr es \<and> (\<forall>e\<in>set es. ok e) \<and> distinct (map key es) \<and>
       key ` set es \<inter> key ` set acc = {} \<and> x = acc @ es)"
proof (induction rs arbitrary: acc)
  case Nil
  then show ?case by auto
next
  case (Cons r rs)
  show ?case
    by (auto simp: res_simps step Cons.IH)
qed

text \<open>Rows that belong to a table are appended to a list kept in its entry.\<close>

definition childrenOf :: "'k \<Rightarrow> ('k \<times> 'c) list \<Rightarrow> 'c list" where
  "childrenOf k es = map snd (filter (\<lambda>e. fst e = k) es)"

lemma childrenOf_simps [simp]:
  "childrenOf k [] = []"
  "childrenOf k (e # es) = (if fst e = k then snd e # childrenOf k es else childrenOf k es)"
  by (simp_all add: childrenOf_def)

lemma childrenOf_permute: "mset es' = mset es \<Longrightarrow> mset (childrenOf k es') = mset (childrenOf k es)"
  by (simp add: childrenOf_def)

lemma map_of_updateEntry:
  "map_of (updateEntry k f m) k' = (if k' = k then map_option f (map_of m k) else map_of m k')"
  by (induction m) (auto simp: updateEntry_def)

lemma map_of_map_entry: "map_of (map (\<lambda>(k, v). (k, f k v)) m) k = map_option (f k) (map_of m k)"
  by (induction m) auto

lemma map_fst_updateEntry [simp]: "map fst (updateEntry k f m) = map fst m"
  by (simp add: updateEntry_def comp_def case_prod_beta split: if_split)

locale child_rows =
  fixes step :: "('k \<times> 'v) list \<Rightarrow> 'r \<Rightarrow> 'e + ('k \<times> 'v) list"
    and entry :: "'r \<Rightarrow> 'e + ('k \<times> 'c)"
    and children :: "'v \<Rightarrow> 'c list"
    and add :: "'c list \<Rightarrow> 'v \<Rightarrow> 'v"
    and unique :: "'c list \<Rightarrow> bool"
    and fresh :: "'c \<Rightarrow> 'c list \<Rightarrow> bool"
  assumes step_iff: "step tables r = Inr x \<longleftrightarrow>
      (\<exists>k c v. entry r = Inr (k, c) \<and> map_of tables k = Some v \<and>
         fresh c (children v) \<and> x = updateEntry k (add [c]) tables)"
    and add_nil: "add [] v = v"
    and add_add: "add ds (add cs v) = add (cs @ ds) v"
    and children_add: "children (add cs v) = children v @ cs"
    and unique_nil: "unique []"
    and unique_snoc: "unique (cs @ [c]) \<longleftrightarrow> unique cs \<and> fresh c cs"
begin

lemma unique_prefix: "unique (cs @ ds) \<Longrightarrow> unique cs"
  by (induction ds rule: rev_induct) (auto simp: unique_snoc simp flip: append_assoc)

lemma run:
  assumes "distinct (map fst tables)" and "\<forall>(k, v)\<in>set tables. unique (children v)"
  shows "foldR step tables rs = Inr x \<longleftrightarrow>
    (\<exists>es. mapR entry rs = Inr es \<and> fst ` set es \<subseteq> fst ` set tables \<and>
       (\<forall>(k, v)\<in>set tables. unique (children v @ childrenOf k es)) \<and>
       x = map (\<lambda>(k, v). (k, add (childrenOf k es) v)) tables)"
  using assms
proof (induction rs arbitrary: tables)
  case Nil
  then show ?case by (auto simp: add_nil case_prod_beta)
next
  case (Cons r rs)
  note d = Cons.prems(1) and u = Cons.prems(2)
  have upd: "updateEntry k f tables = map (\<lambda>(k', v). (k', if k' = k then f v else v)) tables"
    for k and f :: "'v \<Rightarrow> 'v" by (auto simp: updateEntry_def)
  have step': "step tables r = Inr y \<longleftrightarrow>
      (\<exists>k c v. entry r = Inr (k, c) \<and> map_of tables k = Some v \<and> unique (children v @ [c]) \<and>
         y = updateEntry k (add [c]) tables)" for y
    unfolding step_iff unique_snoc using u by (fastforce dest: map_of_SomeD)
  have one: "foldR step (updateEntry k (add [c]) tables) rs = Inr x \<longleftrightarrow>
      (\<exists>es. mapR entry rs = Inr es \<and> fst ` set es \<subseteq> fst ` set tables \<and>
         (\<forall>(k', v)\<in>set tables. unique (children v @ childrenOf k' ((k, c) # es))) \<and>
         x = map (\<lambda>(k', v). (k', add (childrenOf k' ((k, c) # es)) v)) tables)"
    if v: "map_of tables k = Some v" "unique (children v @ [c])" for k c v
  proof -
    have kv: "v' = v" if "(k, v') \<in> set tables" for v'
      using that v(1) d by (metis Some_eq_map_of_iff option.inject)
    have "\<forall>(k', w)\<in>set (updateEntry k (add [c]) tables). unique (children w)"
      using u kv v(2) unfolding upd by (auto simp: children_add)
    moreover have "distinct (map fst (updateEntry k (add [c]) tables))" using d by simp
    moreover have "fst ` set (updateEntry k (add [c]) tables) = fst ` set tables"
      by (metis list.set_map map_fst_updateEntry)
    moreover have "(\<forall>(k', w)\<in>set (updateEntry k (add [c]) tables). unique (children w @ childrenOf k' es)) \<longleftrightarrow>
        (\<forall>(k', v)\<in>set tables. unique (children v @ childrenOf k' ((k, c) # es)))" for es
      unfolding upd by (auto simp: children_add split: if_splits)
    moreover have "map (\<lambda>(k', v). (k', add (childrenOf k' es) v)) (updateEntry k (add [c]) tables) =
        map (\<lambda>(k', v). (k', add (childrenOf k' ((k, c) # es)) v)) tables" for es
      unfolding upd by (auto simp: add_add)
    ultimately show ?thesis using Cons.IH [of "updateEntry k (add [c]) tables"] by simp
  qed
  have dom: "k \<in> fst ` set tables \<longleftrightarrow> (\<exists>v. map_of tables k = Some v)" for k
    by (metis domD domI dom_map_of_conv_image_fst)
  have pre: "unique (children v @ [c])"
    if "map_of tables k = Some v" "\<forall>(k', v)\<in>set tables. unique (children v @ childrenOf k' ((k, c) # es))" for k v c es
    using map_of_SomeD [OF that(1)] that(2) unique_prefix [of "children v @ [c]" "childrenOf k es"] by auto
  show ?case
  proof
    assume "foldR step tables (r # rs) = Inr x"
    then obtain k c v where k: "entry r = Inr (k, c)" "map_of tables k = Some v" "unique (children v @ [c])"
      "foldR step (updateEntry k (add [c]) tables) rs = Inr x" by (auto simp: res_simps step')
    with one [OF k(2,3)] obtain es where "mapR entry rs = Inr es" "fst ` set es \<subseteq> fst ` set tables"
      "\<forall>(k', v)\<in>set tables. unique (children v @ childrenOf k' ((k, c) # es))"
      "x = map (\<lambda>(k', v). (k', add (childrenOf k' ((k, c) # es)) v)) tables" by blast
    with k dom show "\<exists>es. mapR entry (r # rs) = Inr es \<and> fst ` set es \<subseteq> fst ` set tables \<and>
       (\<forall>(k, v)\<in>set tables. unique (children v @ childrenOf k es)) \<and>
       x = map (\<lambda>(k, v). (k, add (childrenOf k es) v)) tables"
      by (intro exI [where x = "(k, c) # es"]) auto
  next
    assume "\<exists>es. mapR entry (r # rs) = Inr es \<and> fst ` set es \<subseteq> fst ` set tables \<and>
       (\<forall>(k, v)\<in>set tables. unique (children v @ childrenOf k es)) \<and>
       x = map (\<lambda>(k, v). (k, add (childrenOf k es) v)) tables"
    then obtain k c es where e: "entry r = Inr (k, c)" "mapR entry rs = Inr es"
      "k \<in> fst ` set tables" "fst ` set es \<subseteq> fst ` set tables"
      "\<forall>(k', v)\<in>set tables. unique (children v @ childrenOf k' ((k, c) # es))"
      "x = map (\<lambda>(k', v). (k', add (childrenOf k' ((k, c) # es)) v)) tables"
      by (auto simp: res_simps)
    then obtain v where v: "map_of tables k = Some v" using dom by blast
    note w = pre [OF v e(5)]
    have "foldR step (updateEntry k (add [c]) tables) rs = Inr x"
      unfolding one [OF v w] using e by blast
    with e(1) v w show "foldR step tables (r # rs) = Inr x" by (auto simp: res_simps step')
  qed
qed

lemma run_empty:
  assumes "distinct (map fst tables)" and "\<forall>e\<in>set tables. children (snd e) = []"
  shows "foldR step tables rs = Inr x \<longleftrightarrow>
    (\<exists>es. mapR entry rs = Inr es \<and> fst ` set es \<subseteq> fst ` set tables \<and>
       (\<forall>k\<in>fst ` set tables. unique (childrenOf k es)) \<and>
       x = map (\<lambda>e. (fst e, add (childrenOf (fst e) es) (snd e))) tables)"
proof -
  have "\<forall>(k, v)\<in>set tables. unique (children v)" using assms(2) unique_nil by fastforce
  moreover have "(\<forall>(k, v)\<in>set tables. unique (children v @ childrenOf k es)) \<longleftrightarrow>
      (\<forall>k\<in>fst ` set tables. unique (childrenOf k es))" for es
    using assms(2) by fastforce
  ultimately show ?thesis using run [OF assms(1), of rs x] by (simp add: case_prod_unfold)
qed

end

subsection \<open>Rows as entries\<close>

definition schemaEntry :: "catalogueRow \<Rightarrow> thrown + (string \<times> string)" where
  "schemaEntry row =
     bindR (requireKind ''schema'' SCHEMA_ROW_NULL_FIELDS row) (\<lambda>_.
     bindR (stringField row ''schema_name'') (\<lambda>name.
     bindR (stringField row ''owner'') (\<lambda>owner. Inr (name, owner))))"

definition childEntry ::
  "string \<Rightarrow> string list \<Rightarrow> (catalogueRow \<Rightarrow> thrown + 'c) \<Rightarrow> catalogueRow \<Rightarrow> thrown + (tableKey \<times> 'c)" where
  "childEntry kind nullFields f row =
     bindR (requireKind kind nullFields row) (\<lambda>_.
     bindR (rowTarget row) (\<lambda>key.
     bindR (f row) (\<lambda>c. Inr (key, c))))"

abbreviation tableEntry :: "catalogueRow \<Rightarrow> thrown + (tableKey \<times> ValidatedTable)" where
  "tableEntry \<equiv> childEntry ''table'' TABLE_ROW_NULL_FIELDS validatedTable"

abbreviation columnEntry :: "catalogueRow \<Rightarrow> thrown + (tableKey \<times> SchemaCatalogueColumn)" where
  "columnEntry \<equiv> childEntry ''column'' COLUMN_ROW_NULL_FIELDS mapCatalogueColumn"

abbreviation constraintEntry :: "heap \<Rightarrow> catalogueRow \<Rightarrow> thrown + (tableKey \<times> SchemaConstraint)" where
  "constraintEntry h \<equiv> childEntry ''constraint'' CONSTRAINT_ROW_NULL_FIELDS (mapConstraint h)"

abbreviation indexEntry :: "heap \<Rightarrow> catalogueRow \<Rightarrow> thrown + (tableKey \<times> SchemaIndex)" where
  "indexEntry h \<equiv> childEntry ''index'' INDEX_ROW_NULL_FIELDS (mapIndex h)"

lemma addSchemaRow_Inr:
  "addSchemaRow owners r = Inr x \<longleftrightarrow>
    (\<exists>e. schemaEntry r = Inr e \<and> fst e \<notin> fst ` set owners \<and> x = owners @ [e])"
  by (auto simp: addSchemaRow_def schemaEntry_def res_simps split: if_splits)

lemma addTableRow_Inr:
  "addTableRow owners tables r = Inr x \<longleftrightarrow>
    (\<exists>e. tableEntry r = Inr e \<and> fst (fst e) \<in> fst ` set owners \<and> fst e \<notin> fst ` set tables \<and> x = tables @ [e])"
  by (auto simp: addTableRow_def childEntry_def res_simps split: if_splits)

lemma tableEntry_empty:
  "tableEntry r = Inr e \<Longrightarrow> vt_columns (snd e) = [] \<and> vt_constraints (snd e) = [] \<and> vt_indexes (snd e) = []"
  by (auto simp: childEntry_def validatedTable_def res_simps)

lemma columnClash_Inr:
  "columnClash key c cs = Inr u \<longleftrightarrow> sc_ordinal c \<notin> sc_ordinal ` set cs \<and> sc_name c \<notin> sc_name ` set cs"
  by (induction cs) auto

lemma case_option_Inr:
  "(case m of None \<Rightarrow> Inl e | Some v \<Rightarrow> f v) = Inr x \<longleftrightarrow> (\<exists>v. m = Some v \<and> f v = Inr x)"
  by (cases m) auto

lemma list_ex_eq: "list_ex (\<lambda>x. f x = n) cs \<longleftrightarrow> n \<in> f ` set cs"
  by (induction cs) auto

lemma childEntry_Inr:
  "childEntry kind nulls f row = Inr (k, c) \<longleftrightarrow>
    requireKind kind nulls row = Inr () \<and> rowTarget row = Inr k \<and> f row = Inr c"
  by (cases k) (auto simp: childEntry_def res_simps)

lemma addColumnRow_Inr:
  "addColumnRow tables r = Inr x \<longleftrightarrow>
    (\<exists>k c v. columnEntry r = Inr (k, c) \<and> map_of tables k = Some v \<and>
       (sc_ordinal c \<notin> sc_ordinal ` set (vt_columns v) \<and> sc_name c \<notin> sc_name ` set (vt_columns v)) \<and>
       x = updateEntry k (\<lambda>t. t\<lparr>vt_columns := vt_columns t @ [c]\<rparr>) tables)"
  unfolding addColumnRow_def childEntry_Inr bindR_Inr_iff case_option_Inr columnClash_Inr by auto

lemma addConstraintRow_Inr:
  "addConstraintRow h tables r = Inr x \<longleftrightarrow>
    (\<exists>k c v. constraintEntry h r = Inr (k, c) \<and> map_of tables k = Some v \<and>
       cn_name c \<notin> cn_name ` set (vt_constraints v) \<and>
       x = updateEntry k (\<lambda>t. t\<lparr>vt_constraints := vt_constraints t @ [c]\<rparr>) tables)"
  unfolding addConstraintRow_def childEntry_Inr bindR_Inr_iff case_option_Inr list_ex_eq by auto

lemma addIndexRow_Inr:
  "addIndexRow h tables r = Inr x \<longleftrightarrow>
    (\<exists>k c v. indexEntry h r = Inr (k, c) \<and> map_of tables k = Some v \<and>
       ix_name c \<notin> ix_name ` set (vt_indexes v) \<and>
       x = updateEntry k (\<lambda>t. t\<lparr>vt_indexes := vt_indexes t @ [c]\<rparr>) tables)"
  unfolding addIndexRow_def childEntry_Inr bindR_Inr_iff case_option_Inr list_ex_eq by auto

definition uniqueColumns :: "SchemaCatalogueColumn list \<Rightarrow> bool" where
  "uniqueColumns cs \<longleftrightarrow> distinct (map sc_ordinal cs) \<and> distinct (map sc_name cs)"

interpretation column_rows: child_rows addColumnRow columnEntry vt_columns
    "\<lambda>cs t. t\<lparr>vt_columns := vt_columns t @ cs\<rparr>" uniqueColumns
    "\<lambda>c cs. sc_ordinal c \<notin> sc_ordinal ` set cs \<and> sc_name c \<notin> sc_name ` set cs"
  by unfold_locales (auto simp: addColumnRow_Inr uniqueColumns_def)

interpretation constraint_rows: child_rows "addConstraintRow h" "constraintEntry h" vt_constraints
    "\<lambda>cs t. t\<lparr>vt_constraints := vt_constraints t @ cs\<rparr>" "\<lambda>cs. distinct (map cn_name cs)"
    "\<lambda>c cs. cn_name c \<notin> cn_name ` set cs" for h
  by unfold_locales (auto simp: addConstraintRow_Inr)

interpretation index_rows: child_rows "addIndexRow h" "indexEntry h" vt_indexes
    "\<lambda>cs t. t\<lparr>vt_indexes := vt_indexes t @ cs\<rparr>" "\<lambda>cs. distinct (map ix_name cs)"
    "\<lambda>c cs. ix_name c \<notin> ix_name ` set cs" for h
  by unfold_locales (auto simp: addIndexRow_Inr)

subsection \<open>The catalogue as a function of the entries\<close>

record entries =
  en_schemas :: "(string \<times> string) list"
  en_tables :: tableMap
  en_columns :: "(tableKey \<times> SchemaCatalogueColumn) list"
  en_constraints :: "(tableKey \<times> SchemaConstraint) list"
  en_indexes :: "(tableKey \<times> SchemaIndex) list"

definition entriesOf :: "heap \<Rightarrow> catalogueRow list \<Rightarrow> entries \<Rightarrow> bool" where
  "entriesOf h rows E \<longleftrightarrow>
     mapR schemaEntry (rowsOfKind ''schema'' rows) = Inr (en_schemas E) \<and>
     mapR tableEntry (rowsOfKind ''table'' rows) = Inr (en_tables E) \<and>
     mapR columnEntry (rowsOfKind ''column'' rows) = Inr (en_columns E) \<and>
     mapR (constraintEntry h) (rowsOfKind ''constraint'' rows) = Inr (en_constraints E) \<and>
     mapR (indexEntry h) (rowsOfKind ''index'' rows) = Inr (en_indexes E)"

definition entriesOk :: "entries \<Rightarrow> bool" where
  "entriesOk E \<longleftrightarrow>
     distinct (map fst (en_schemas E)) \<and> distinct (map fst (en_tables E)) \<and>
     (\<forall>k\<in>fst ` set (en_tables E). fst k \<in> fst ` set (en_schemas E) \<and>
        uniqueColumns (childrenOf k (en_columns E)) \<and>
        distinct (map cn_name (childrenOf k (en_constraints E))) \<and>
        distinct (map ix_name (childrenOf k (en_indexes E)))) \<and>
     fst ` set (en_columns E) \<subseteq> fst ` set (en_tables E) \<and>
     fst ` set (en_constraints E) \<subseteq> fst ` set (en_tables E) \<and>
     fst ` set (en_indexes E) \<subseteq> fst ` set (en_tables E)"

definition filledTable :: "entries \<Rightarrow> tableKey \<times> ValidatedTable \<Rightarrow> tableKey \<times> ValidatedTable" where
  "filledTable E e =
     (fst e, (snd e)\<lparr>vt_columns := childrenOf (fst e) (en_columns E),
        vt_constraints := childrenOf (fst e) (en_constraints E),
        vt_indexes := childrenOf (fst e) (en_indexes E)\<rparr>)"

definition catalogueOf :: "entries \<Rightarrow> SchemaCatalogue" where
  "catalogueOf E =
     \<lparr>ca_schemas =
        sort_key cs_name (map (catalogueSchema (map (filledTable E) (en_tables E))) (en_schemas E))\<rparr>"

lemma tableEntries_empty:
  "mapR tableEntry rows = Inr ts \<Longrightarrow> e \<in> set ts \<Longrightarrow>
   vt_columns (snd e) = [] \<and> vt_constraints (snd e) = [] \<and> vt_indexes (snd e) = []"
  using tableEntry_empty by (metis mapR_Inr_set)

text \<open>The first two loops, and the other three over tables without children.\<close>

lemma schema_loop:
  "foldR addSchemaRow [] S = Inr ss \<longleftrightarrow> mapR schemaEntry S = Inr ss \<and> distinct (map fst ss)"
  by (subst foldR_collect [where key = fst and ok = "\<lambda>_. True" and entry = schemaEntry])
     (auto simp: addSchemaRow_Inr)

lemma table_loop:
  "foldR (addTableRow ss) [] T = Inr ts \<longleftrightarrow>
    mapR tableEntry T = Inr ts \<and> (\<forall>e\<in>set ts. fst (fst e) \<in> fst ` set ss) \<and> distinct (map fst ts)"
  by (subst foldR_collect [where key = fst and ok = "\<lambda>e. fst (fst e) \<in> fst ` set ss" and entry = tableEntry])
     (auto simp: addTableRow_Inr)

lemma child_loops:
  assumes d: "distinct (map fst ts)"
    and e: "\<forall>e\<in>set ts. vt_columns (snd e) = [] \<and> vt_constraints (snd e) = [] \<and> vt_indexes (snd e) = []"
  shows "(\<exists>t1 t2. foldR addColumnRow ts C = Inr t1 \<and> foldR (addConstraintRow h) t1 K = Inr t2 \<and>
        foldR (addIndexRow h) t2 I = Inr t3) \<longleftrightarrow>
      (\<exists>cs ks xs. mapR columnEntry C = Inr cs \<and> mapR (constraintEntry h) K = Inr ks \<and> mapR (indexEntry h) I = Inr xs \<and>
         fst ` set cs \<subseteq> fst ` set ts \<and> fst ` set ks \<subseteq> fst ` set ts \<and> fst ` set xs \<subseteq> fst ` set ts \<and>
         (\<forall>k\<in>fst ` set ts. uniqueColumns (childrenOf k cs) \<and> distinct (map cn_name (childrenOf k ks)) \<and>
            distinct (map ix_name (childrenOf k xs))) \<and>
         t3 = map (filledTable \<lparr>en_schemas = ss, en_tables = ts, en_columns = cs, en_constraints = ks, en_indexes = xs\<rparr>) ts)"
proof -
  let ?f = "\<lambda>cs e. (fst e, (snd e)\<lparr>vt_columns := childrenOf (fst e) cs\<rparr>)"
  let ?g = "\<lambda>cs ks e. (fst e, (snd e)\<lparr>vt_columns := childrenOf (fst e) cs, vt_constraints := childrenOf (fst e) ks\<rparr>)"
  have c: "foldR addColumnRow ts C = Inr t1 \<longleftrightarrow> (\<exists>cs. mapR columnEntry C = Inr cs \<and> fst ` set cs \<subseteq> fst ` set ts \<and>
      (\<forall>k\<in>fst ` set ts. uniqueColumns (childrenOf k cs)) \<and> t1 = map (?f cs) ts)" for t1
  proof -
    have "map (\<lambda>e. (fst e, (snd e)\<lparr>vt_columns := vt_columns (snd e) @ childrenOf (fst e) cs\<rparr>)) ts = map (?f cs) ts" for cs
      using e by (intro map_cong refl) auto
    moreover have "\<forall>e\<in>set ts. vt_columns (snd e) = []" using e by blast
    ultimately show ?thesis using column_rows.run_empty [OF d, of C t1] by (simp only: simp_thms)
  qed
  have k: "foldR (addConstraintRow h) (map (?f cs) ts) K = Inr t2 \<longleftrightarrow>
      (\<exists>ks. mapR (constraintEntry h) K = Inr ks \<and> fst ` set ks \<subseteq> fst ` set ts \<and>
        (\<forall>k\<in>fst ` set ts. distinct (map cn_name (childrenOf k ks))) \<and> t2 = map (?g cs ks) ts)" for cs t2
  proof -
    have "map (\<lambda>e. (fst e, (snd e)\<lparr>vt_constraints := vt_constraints (snd e) @ childrenOf (fst e) ks\<rparr>)) (map (?f cs) ts) =
        map (?g cs ks) ts" for ks
      using e by (simp add: comp_def)
    moreover have "distinct (map fst (map (?f cs) ts))" using d by (simp add: comp_def)
    moreover have "fst ` set (map (?f cs) ts) = fst ` set ts" by (simp add: image_image)
    moreover have "\<forall>e\<in>set (map (?f cs) ts). vt_constraints (snd e) = []" using e by simp
    ultimately show ?thesis
      using constraint_rows.run_empty [of "map (?f cs) ts" h K t2] by (simp only: simp_thms)
  qed
  have x: "foldR (addIndexRow h) (map (?g cs ks) ts) I = Inr t3 \<longleftrightarrow>
      (\<exists>xs. mapR (indexEntry h) I = Inr xs \<and> fst ` set xs \<subseteq> fst ` set ts \<and>
        (\<forall>k\<in>fst ` set ts. distinct (map ix_name (childrenOf k xs))) \<and>
        t3 = map (filledTable \<lparr>en_schemas = ss, en_tables = ts, en_columns = cs, en_constraints = ks, en_indexes = xs\<rparr>) ts)" for cs ks
  proof -
    have "map (\<lambda>e. (fst e, (snd e)\<lparr>vt_indexes := vt_indexes (snd e) @ childrenOf (fst e) xs\<rparr>)) (map (?g cs ks) ts) =
        map (filledTable \<lparr>en_schemas = ss, en_tables = ts, en_columns = cs, en_constraints = ks, en_indexes = xs\<rparr>) ts" for xs
      using e by (simp add: comp_def filledTable_def)
    moreover have "distinct (map fst (map (?g cs ks) ts))" using d by (simp add: comp_def)
    moreover have "fst ` set (map (?g cs ks) ts) = fst ` set ts" by (simp add: image_image)
    moreover have "\<forall>e\<in>set (map (?g cs ks) ts). vt_indexes (snd e) = []" using e by simp
    ultimately show ?thesis
      using index_rows.run_empty [of "map (?g cs ks) ts" h I t3] by (simp only: simp_thms)
  qed
  show ?thesis (is "?L = ?R")
  proof
    assume ?L
    then obtain t1 t2 where l: "foldR addColumnRow ts C = Inr t1" "foldR (addConstraintRow h) t1 K = Inr t2"
      "foldR (addIndexRow h) t2 I = Inr t3" by blast
    from l(1) obtain cs where cs: "mapR columnEntry C = Inr cs" "fst ` set cs \<subseteq> fst ` set ts"
      "\<forall>k\<in>fst ` set ts. uniqueColumns (childrenOf k cs)" "t1 = map (?f cs) ts" unfolding c by blast
    from l(2) obtain ks where ks: "mapR (constraintEntry h) K = Inr ks" "fst ` set ks \<subseteq> fst ` set ts"
      "\<forall>k\<in>fst ` set ts. distinct (map cn_name (childrenOf k ks))" "t2 = map (?g cs ks) ts"
      unfolding cs(4) k by blast
    from l(3) obtain xs where xs: "mapR (indexEntry h) I = Inr xs" "fst ` set xs \<subseteq> fst ` set ts"
      "\<forall>k\<in>fst ` set ts. distinct (map ix_name (childrenOf k xs))"
      "t3 = map (filledTable \<lparr>en_schemas = ss, en_tables = ts, en_columns = cs, en_constraints = ks, en_indexes = xs\<rparr>) ts"
      unfolding ks(4) x by blast
    show ?R
      by (rule exI [where x = cs], rule exI [where x = ks], rule exI [where x = xs])
         (use cs(1-3) ks(1-3) xs in simp)
  next
    assume ?R
    then obtain cs ks xs where r: "mapR columnEntry C = Inr cs" "mapR (constraintEntry h) K = Inr ks"
      "mapR (indexEntry h) I = Inr xs" "fst ` set cs \<subseteq> fst ` set ts" "fst ` set ks \<subseteq> fst ` set ts"
      "fst ` set xs \<subseteq> fst ` set ts"
      "\<forall>k\<in>fst ` set ts. uniqueColumns (childrenOf k cs) \<and> distinct (map cn_name (childrenOf k ks)) \<and>
         distinct (map ix_name (childrenOf k xs))"
      "t3 = map (filledTable \<lparr>en_schemas = ss, en_tables = ts, en_columns = cs, en_constraints = ks, en_indexes = xs\<rparr>) ts"
      by blast
    have "foldR addColumnRow ts C = Inr (map (?f cs) ts)" unfolding c using r(1,4,7) by blast
    moreover have "foldR (addConstraintRow h) (map (?f cs) ts) K = Inr (map (?g cs ks) ts)"
      unfolding k using r(2,5,7) by blast
    moreover have "foldR (addIndexRow h) (map (?g cs ks) ts) I = Inr t3" unfolding x using r(3,6,7,8) by blast
    ultimately show ?L by blast
  qed
qed

lemma mapCatalogueRows_Inr:
  "mapCatalogueRows h rows = Inr cat \<longleftrightarrow>
    (\<forall>r\<in>set rows. checkRowKind r = Inr ()) \<and>
    (\<exists>E. entriesOf h rows E \<and> entriesOk E \<and> cat = catalogueOf E)"
proof -
  let ?S = "rowsOfKind ''schema'' rows" and ?T = "rowsOfKind ''table'' rows" and ?C = "rowsOfKind ''column'' rows"
  let ?K = "rowsOfKind ''constraint'' rows" and ?I = "rowsOfKind ''index'' rows"
  have kinds: "(\<exists>us. mapR checkRowKind rows = Inr us) \<longleftrightarrow> (\<forall>r\<in>set rows. checkRowKind r = Inr ())"
    unfolding mapR_Inr_map by auto
  have grouped: "mapSchemaCatalogue h ?S ?T ?C ?K ?I = Inr cat \<longleftrightarrow>
      (\<exists>ss ts t3. mapR schemaEntry ?S = Inr ss \<and> distinct (map fst ss) \<and> mapR tableEntry ?T = Inr ts \<and>
        (\<forall>e\<in>set ts. fst (fst e) \<in> fst ` set ss) \<and> distinct (map fst ts) \<and>
        (\<exists>t1 t2. foldR addColumnRow ts ?C = Inr t1 \<and> foldR (addConstraintRow h) t1 ?K = Inr t2 \<and>
          foldR (addIndexRow h) t2 ?I = Inr t3) \<and>
        cat = \<lparr>ca_schemas = sort_key cs_name (map (catalogueSchema t3) ss)\<rparr>)"
    unfolding mapSchemaCatalogue_def bindR_Inr_iff schema_loop table_loop by blast
  have "mapSchemaCatalogue h ?S ?T ?C ?K ?I = Inr cat \<longleftrightarrow> (\<exists>E. entriesOf h rows E \<and> entriesOk E \<and> cat = catalogueOf E)"
    (is "?L = ?R")
  proof
    assume ?L
    then obtain ss ts t3 where g: "mapR schemaEntry ?S = Inr ss" "distinct (map fst ss)" "mapR tableEntry ?T = Inr ts"
      "\<forall>e\<in>set ts. fst (fst e) \<in> fst ` set ss" "distinct (map fst ts)"
      "\<exists>t1 t2. foldR addColumnRow ts ?C = Inr t1 \<and> foldR (addConstraintRow h) t1 ?K = Inr t2 \<and>
          foldR (addIndexRow h) t2 ?I = Inr t3"
      "cat = \<lparr>ca_schemas = sort_key cs_name (map (catalogueSchema t3) ss)\<rparr>" unfolding grouped by blast
    have e: "\<forall>e\<in>set ts. vt_columns (snd e) = [] \<and> vt_constraints (snd e) = [] \<and> vt_indexes (snd e) = []"
      using tableEntries_empty [OF g(3)] by blast
    from g(6) obtain cs ks xs where r: "mapR columnEntry ?C = Inr cs" "mapR (constraintEntry h) ?K = Inr ks"
      "mapR (indexEntry h) ?I = Inr xs" "fst ` set cs \<subseteq> fst ` set ts" "fst ` set ks \<subseteq> fst ` set ts"
      "fst ` set xs \<subseteq> fst ` set ts"
      "\<forall>k\<in>fst ` set ts. uniqueColumns (childrenOf k cs) \<and> distinct (map cn_name (childrenOf k ks)) \<and>
         distinct (map ix_name (childrenOf k xs))"
      "t3 = map (filledTable \<lparr>en_schemas = ss, en_tables = ts, en_columns = cs, en_constraints = ks, en_indexes = xs\<rparr>) ts"
      unfolding child_loops [OF g(5) e, where ss = ss] by blast
    have "entriesOf h rows \<lparr>en_schemas = ss, en_tables = ts, en_columns = cs, en_constraints = ks, en_indexes = xs\<rparr>"
      using g r by (simp add: entriesOf_def)
    moreover have "entriesOk \<lparr>en_schemas = ss, en_tables = ts, en_columns = cs, en_constraints = ks, en_indexes = xs\<rparr>"
      using g r by (simp add: entriesOk_def)
    ultimately show ?R using g(7) r(8) by (intro exI conjI) (auto simp: catalogueOf_def)
  next
    assume ?R
    then obtain E where E: "entriesOf h rows E" "entriesOk E" "cat = catalogueOf E" by blast
    have e: "\<forall>e\<in>set (en_tables E). vt_columns (snd e) = [] \<and> vt_constraints (snd e) = [] \<and> vt_indexes (snd e) = []"
      using E(1) tableEntries_empty unfolding entriesOf_def by blast
    have d: "distinct (map fst (en_tables E))" using E(2) by (simp add: entriesOk_def)
    have loops: "\<exists>t1 t2. foldR addColumnRow (en_tables E) ?C = Inr t1 \<and> foldR (addConstraintRow h) t1 ?K = Inr t2 \<and>
        foldR (addIndexRow h) t2 ?I = Inr (map (filledTable E) (en_tables E))"
      unfolding child_loops [OF d e, where ss = "en_schemas E"]
      using E(1,2) unfolding entriesOf_def entriesOk_def by (intro exI conjI) (auto simp: filledTable_def)
    have cat: "cat = \<lparr>ca_schemas = sort_key cs_name (map (catalogueSchema (map (filledTable E) (en_tables E))) (en_schemas E))\<rparr>"
      using E(3) by (simp add: catalogueOf_def)
    have parents: "\<forall>e\<in>set (en_tables E). fst (fst e) \<in> fst ` set (en_schemas E)"
      using E(2) by (simp add: entriesOk_def)
    have "mapR schemaEntry ?S = Inr (en_schemas E)" "mapR tableEntry ?T = Inr (en_tables E)"
      "distinct (map fst (en_schemas E))" using E(1,2) by (simp_all add: entriesOf_def entriesOk_def)
    note facts = conjI [OF this(1) conjI [OF this(3) conjI [OF this(2) conjI [OF parents conjI [OF d conjI [OF loops cat]]]]]]
    show ?L unfolding grouped by (intro exI) (rule facts)
  qed
  then show ?thesis unfolding mapCatalogueRows_def bindR_Inr_iff using kinds by blast
qed

subsection \<open>The order of the rows does not matter\<close>

lemma sort_key_permute:
  "mset xs = mset ys \<Longrightarrow> inj_on f (set ys) \<Longrightarrow> sort_key f xs = sort_key f ys"
  by (rule sort_key_inj_key_eq) (simp, metis mset_eq_setD, simp)

lemma sort_key_distinct:
  "mset xs = mset ys \<Longrightarrow> distinct (map f ys) \<Longrightarrow> sort_key f xs = sort_key f ys"
  by (rule sort_key_permute) (simp_all add: distinct_map)

definition sameEntries :: "entries \<Rightarrow> entries \<Rightarrow> bool" where
  "sameEntries E E' \<longleftrightarrow>
     mset (en_schemas E') = mset (en_schemas E) \<and> mset (en_tables E') = mset (en_tables E) \<and>
     mset (en_columns E') = mset (en_columns E) \<and> mset (en_constraints E') = mset (en_constraints E) \<and>
     mset (en_indexes E') = mset (en_indexes E)"

lemma distinct_permute: "mset xs = mset ys \<Longrightarrow> distinct (map f xs) \<longleftrightarrow> distinct (map f ys)"
  by (metis mset_eq_imp_distinct_iff mset_map)

lemma sameEntries_sets:
  assumes "sameEntries E E'"
  shows "set (en_schemas E') = set (en_schemas E)" "set (en_tables E') = set (en_tables E)"
    "set (en_columns E') = set (en_columns E)" "set (en_constraints E') = set (en_constraints E)"
    "set (en_indexes E') = set (en_indexes E)"
  using assms unfolding sameEntries_def by (auto dest: mset_eq_setD)

lemma sameEntries_ok:
  assumes "sameEntries E E'" and "entriesOk E"
  shows "entriesOk E'"
proof -
  have p: "mset (childrenOf k (en_columns E')) = mset (childrenOf k (en_columns E))"
    "mset (childrenOf k (en_constraints E')) = mset (childrenOf k (en_constraints E))"
    "mset (childrenOf k (en_indexes E')) = mset (childrenOf k (en_indexes E))" for k
    using assms(1) unfolding sameEntries_def by (blast intro: childrenOf_permute)+
  have "uniqueColumns (childrenOf k (en_columns E')) = uniqueColumns (childrenOf k (en_columns E))"
    "distinct (map cn_name (childrenOf k (en_constraints E'))) = distinct (map cn_name (childrenOf k (en_constraints E)))"
    "distinct (map ix_name (childrenOf k (en_indexes E'))) = distinct (map ix_name (childrenOf k (en_indexes E)))" for k
    unfolding uniqueColumns_def distinct_permute [OF p(1)] distinct_permute [OF p(2)] distinct_permute [OF p(3)]
    by (rule refl)+
  moreover have "distinct (map fst (en_schemas E')) = distinct (map fst (en_schemas E))"
    "distinct (map fst (en_tables E')) = distinct (map fst (en_tables E))"
    using assms(1) unfolding sameEntries_def by (intro distinct_permute, blast)+
  ultimately show ?thesis
    using assms(2) unfolding entriesOk_def sameEntries_sets [OF assms(1)] by simp
qed

lemma catalogueTable_permute:
  assumes "sameEntries E E'" and "entriesOk E" and "e \<in> set (en_tables E)"
  shows "catalogueTable (filledTable E' e) = catalogueTable (filledTable E e)"
proof -
  obtain s t v where e: "e = ((s, t), v)" by (metis prod.exhaust)
  have u: "uniqueColumns (childrenOf (s, t) (en_columns E))"
    "distinct (map cn_name (childrenOf (s, t) (en_constraints E)))"
    "distinct (map ix_name (childrenOf (s, t) (en_indexes E)))"
    using assms(2,3) unfolding entriesOk_def e by force+
  have "sort_key sc_ordinal (childrenOf (s, t) (en_columns E')) = sort_key sc_ordinal (childrenOf (s, t) (en_columns E))"
    "sort_key cn_name (childrenOf (s, t) (en_constraints E')) = sort_key cn_name (childrenOf (s, t) (en_constraints E))"
    "sort_key ix_name (childrenOf (s, t) (en_indexes E')) = sort_key ix_name (childrenOf (s, t) (en_indexes E))"
    using assms(1) u
    by (auto intro!: sort_key_distinct childrenOf_permute simp: sameEntries_def uniqueColumns_def)
  then show ?thesis by (simp add: catalogueTable_def filledTable_def e)
qed

lemma catalogueTable_names [simp]:
  "ct_name (catalogueTable e) = snd (fst e)" "ct_schema (catalogueTable e) = fst (fst e)"
  by (auto simp: catalogueTable_def split: prod.split)

lemma filledTable_key [simp]: "fst (filledTable E e) = fst e"
  by (simp add: filledTable_def)

lemma distinct_table_names:
  "distinct (map fst ts) \<Longrightarrow> distinct (map (snd \<circ> fst) (filter (\<lambda>e. fst (fst e) = s) ts))"
  by (induction ts) (auto simp: image_iff)

lemma catalogueOf_permute:
  assumes "sameEntries E E'" and "entriesOk E"
  shows "catalogueOf E' = catalogueOf E"
proof -
  let ?ts = "\<lambda>E. map (filledTable E) (en_tables E)"
  have schema: "catalogueSchema (?ts E') x = catalogueSchema (?ts E) x" for x
  proof -
    let ?f = "filter (\<lambda>e. fst (fst e) = fst x)"
    have f: "?f (?ts D) = map (filledTable D) (?f (en_tables D))" for D
      by (simp add: filter_map comp_def)
    have p: "mset (?f (en_tables E')) = mset (?f (en_tables E))"
      using assms(1) by (simp add: sameEntries_def)
    have "sort_key ct_name (map (\<lambda>e. catalogueTable (filledTable E' e)) (?f (en_tables E'))) =
        sort_key ct_name (map (\<lambda>e. catalogueTable (filledTable E' e)) (?f (en_tables E)))"
    proof (rule sort_key_distinct)
      show "mset (map (\<lambda>e. catalogueTable (filledTable E' e)) (?f (en_tables E'))) =
          mset (map (\<lambda>e. catalogueTable (filledTable E' e)) (?f (en_tables E)))"
        using p by simp
      show "distinct (map ct_name (map (\<lambda>e. catalogueTable (filledTable E' e)) (?f (en_tables E))))"
        using distinct_table_names [of "en_tables E" "fst x"] assms(2)
        by (simp add: entriesOk_def comp_def)
    qed
    also have "map (\<lambda>e. catalogueTable (filledTable E' e)) (?f (en_tables E)) =
        map (\<lambda>e. catalogueTable (filledTable E e)) (?f (en_tables E))"
      using catalogueTable_permute [OF assms] by (intro map_cong refl) auto
    finally show ?thesis by (simp add: catalogueSchema_def f comp_def)
  qed
  then have same: "catalogueSchema (?ts E') = catalogueSchema (?ts E)" by (rule ext)
  have "sort_key cs_name (map (catalogueSchema (?ts E')) (en_schemas E')) =
      sort_key cs_name (map (catalogueSchema (?ts E)) (en_schemas E))"
  proof (rule sort_key_distinct)
    show "mset (map (catalogueSchema (?ts E')) (en_schemas E')) = mset (map (catalogueSchema (?ts E)) (en_schemas E))"
      using assms(1) unfolding same by (simp add: sameEntries_def)
    show "distinct (map cs_name (map (catalogueSchema (?ts E)) (en_schemas E)))"
      using assms(2) by (simp add: entriesOk_def catalogueSchema_def comp_def)
  qed
  then show ?thesis by (simp add: catalogueOf_def)
qed

lemma entriesOf_permute:
  assumes "entriesOf h rows E" and "mset rows' = mset rows"
  shows "\<exists>E'. entriesOf h rows' E' \<and> sameEntries E E'"
proof -
  have k: "mset (rowsOfKind k rows') = mset (rowsOfKind k rows)" for k
    using assms(2) by (simp add: rowsOfKind_def)
  note p = mapR_permute [OF _ k]
  obtain ss ts cs ks xs where
    "mapR schemaEntry (rowsOfKind ''schema'' rows') = Inr ss" "mset ss = mset (en_schemas E)"
    "mapR tableEntry (rowsOfKind ''table'' rows') = Inr ts" "mset ts = mset (en_tables E)"
    "mapR columnEntry (rowsOfKind ''column'' rows') = Inr cs" "mset cs = mset (en_columns E)"
    "mapR (constraintEntry h) (rowsOfKind ''constraint'' rows') = Inr ks" "mset ks = mset (en_constraints E)"
    "mapR (indexEntry h) (rowsOfKind ''index'' rows') = Inr xs" "mset xs = mset (en_indexes E)"
    using assms(1) p unfolding entriesOf_def by meson
  then show ?thesis
    by (intro exI [where x = "\<lparr>en_schemas = ss, en_tables = ts, en_columns = cs, en_constraints = ks, en_indexes = xs\<rparr>"])
       (simp add: entriesOf_def sameEntries_def)
qed

text \<open>The catalogue does not depend on the order in which the server returns the rows: whenever one order is
  accepted, every other order is accepted with the same catalogue.\<close>
theorem catalogue_order_independent:
  assumes "mset rows' = mset rows" and "mapCatalogueRows h rows = Inr cat"
  shows "mapCatalogueRows h rows' = Inr cat"
proof -
  from assms(2) obtain E where kinds: "\<forall>r\<in>set rows. checkRowKind r = Inr ()"
    and E: "entriesOf h rows E" "entriesOk E" "cat = catalogueOf E"
    unfolding mapCatalogueRows_Inr by blast
  from entriesOf_permute [OF E(1) assms(1)] obtain E' where E': "entriesOf h rows' E'" "sameEntries E E'" by blast
  have "\<forall>r\<in>set rows'. checkRowKind r = Inr ()" using kinds assms(1) by (metis mset_eq_setD)
  with E' E show ?thesis
    unfolding mapCatalogueRows_Inr using sameEntries_ok catalogueOf_permute by metis
qed

text \<open>A small database: one schema with a table of two columns and a primary key.\<close>

definition ROW_FIELDS :: "string list" where
  "ROW_FIELDS = ''row_kind'' # ''schema_name'' # ''owner'' # SCHEMA_ROW_NULL_FIELDS"

definition demoRow :: "(string \<times> jsval) list \<Rightarrow> catalogueRow" where
  "demoRow given = map (\<lambda>f. (f, case map_of given f of Some v \<Rightarrow> v | None \<Rightarrow> VNull)) ROW_FIELDS"

definition demoColumnRow :: "rat \<Rightarrow> string \<Rightarrow> string \<Rightarrow> catalogueRow" where
  "demoColumnRow n name type =
     demoRow [(''row_kind'', VStr ''column''), (''schema_name'', VStr ''app''), (''table_name'', VStr ''notes''),
       (''ordinal'', VNum (JFin n)), (''name'', VStr name), (''is_nullable'', VBool False), (''generated'', VStr []),
       (''identity'', VStr []), (''rendered_type'', VStr type), (''type_schema'', VStr ''pg_catalog''),
       (''type_name'', VStr type), (''type_kind'', VStr ''b'')]"

definition demoRows :: "catalogueRow list" where
  "demoRows =
     [demoRow [(''row_kind'', VStr ''schema''), (''schema_name'', VStr ''app''), (''owner'', VStr ''admin'')],
      demoRow [(''row_kind'', VStr ''table''), (''schema_name'', VStr ''app''), (''table_name'', VStr ''notes''),
        (''owner'', VStr ''admin''), (''kind'', VStr ''regular''), (''has_row_security'', VBool True),
        (''has_forced_row_security'', VBool True)],
      demoColumnRow 1 ''id'' ''uuid'', demoColumnRow 2 ''body'' ''text'',
      demoRow [(''row_kind'', VStr ''constraint''), (''schema_name'', VStr ''app''), (''table_name'', VStr ''notes''),
        (''name'', VStr ''notes_pkey''), (''constraint_type'', VStr ''p''), (''constraint_columns'', VRef 0)]]"

definition demoHeap :: heap where
  "demoHeap = [OArr [Some (VStr ''id'')]]"

lemma demoRows_accepted: "\<exists>cat. mapCatalogueRows demoHeap demoRows = Inr cat"
proof -
  have "(case mapCatalogueRows demoHeap demoRows of Inr cat \<Rightarrow> length (ca_schemas cat) = 1 | Inl e \<Rightarrow> False)"
    by code_simp
  then show ?thesis by (auto split: sum.splits)
qed

theorem catalogue_order_independent_witness:
  "\<exists>cat. mapCatalogueRows demoHeap demoRows = Inr cat \<and> mapCatalogueRows demoHeap (rev demoRows) = Inr cat"
  using demoRows_accepted catalogue_order_independent [of "rev demoRows" demoRows demoHeap] by auto

subsection \<open>The catalogue holds what the rows say\<close>

definition catalogueTables :: "SchemaCatalogue \<Rightarrow> SchemaCatalogueTable list" where
  "catalogueTables cat = concat (map cs_tables (ca_schemas cat))"

definition tableId :: "SchemaCatalogueTable \<Rightarrow> tableKey" where
  "tableId T = (ct_schema T, ct_name T)"

definition tableAttributes :: "SchemaCatalogueTable \<Rightarrow> ValidatedTable" where
  "tableAttributes T =
     \<lparr>vt_owner = ct_owner T, vt_kind = ct_kind T, vt_hasRowSecurity = ct_hasRowSecurity T,
      vt_hasForcedRowSecurity = ct_hasForcedRowSecurity T, vt_columns = [], vt_constraints = [], vt_indexes = []\<rparr>"

text \<open>Strictly sorted, and every table filed under its own schema.\<close>

definition tableWf :: "SchemaCatalogueTable \<Rightarrow> bool" where
  "tableWf T \<longleftrightarrow>
     sorted_wrt (<) (map sc_ordinal (ct_columns T)) \<and> distinct (map sc_name (ct_columns T)) \<and>
     sorted_wrt (<) (map cn_name (ct_constraints T)) \<and> sorted_wrt (<) (map ix_name (ct_indexes T))"

definition catalogueWf :: "SchemaCatalogue \<Rightarrow> bool" where
  "catalogueWf cat \<longleftrightarrow>
     sorted_wrt (<) (map cs_name (ca_schemas cat)) \<and>
     (\<forall>S\<in>set (ca_schemas cat).
        sorted_wrt (<) (map ct_name (cs_tables S)) \<and>
        (\<forall>T\<in>set (cs_tables S). ct_schema T = cs_name S \<and> tableWf T))"

lemma sorted_strict: "distinct (map f xs) \<Longrightarrow> sorted_wrt (<) (map f (sort_key f xs))"
proof -
  assume "distinct (map f xs)"
  then have "distinct (map f (sort_key f xs))" using distinct_permute [of "sort_key f xs" xs f] by simp
  moreover have "sorted (map f (sort_key f xs))" by simp
  ultimately show ?thesis using strict_sorted_iff by blast
qed

lemma distinct_sort_key: "distinct (map g (sort_key f xs)) \<longleftrightarrow> distinct (map g xs)"
  by (rule distinct_permute) (rule mset_sort)

lemma set_catalogueTables:
  assumes "entriesOk E"
  shows "set (catalogueTables (catalogueOf E)) = (\<lambda>e. catalogueTable (filledTable E e)) ` set (en_tables E)"
proof
  show "set (catalogueTables (catalogueOf E)) \<subseteq> (\<lambda>e. catalogueTable (filledTable E e)) ` set (en_tables E)"
    by (auto simp: catalogueTables_def catalogueOf_def catalogueSchema_def)
  show "(\<lambda>e. catalogueTable (filledTable E e)) ` set (en_tables E) \<subseteq> set (catalogueTables (catalogueOf E))"
  proof (rule image_subsetI)
    fix e assume e: "e \<in> set (en_tables E)"
    with assms have "fst (fst e) \<in> fst ` set (en_schemas E)" by (simp add: entriesOk_def)
    then obtain x where x: "x \<in> set (en_schemas E)" "fst (fst e) = fst x" by auto
    have "filledTable E e \<in> set (filter (\<lambda>e. fst (fst e) = fst x) (map (filledTable E) (en_tables E)))"
      using e x(2) by simp
    then have "catalogueTable (filledTable E e) \<in> set (cs_tables (catalogueSchema (map (filledTable E) (en_tables E)) x))"
      unfolding catalogueSchema_def by (simp only: SchemaCatalogueSchema.simps set_sort set_map) (rule imageI)
    then show "catalogueTable (filledTable E e) \<in> set (catalogueTables (catalogueOf E))"
      using x(1) by (auto simp: catalogueTables_def catalogueOf_def)
  qed
qed

lemma catalogueOf_wf:
  assumes "entriesOk E"
  shows "catalogueWf (catalogueOf E)"
  unfolding catalogueWf_def
proof (intro conjI ballI)
  have "distinct (map cs_name (map (catalogueSchema (map (filledTable E) (en_tables E))) (en_schemas E)))"
    using assms by (simp add: entriesOk_def catalogueSchema_def comp_def)
  then show "sorted_wrt (<) (map cs_name (ca_schemas (catalogueOf E)))"
    unfolding catalogueOf_def by (simp add: sorted_strict)
next
  fix S assume S: "S \<in> set (ca_schemas (catalogueOf E))"
  then obtain x where x: "S = catalogueSchema (map (filledTable E) (en_tables E)) x"
    by (auto simp: catalogueOf_def)
  have "distinct (map ct_name (map catalogueTable (filter (\<lambda>e. fst (fst e) = fst x) (map (filledTable E) (en_tables E)))))"
    using distinct_table_names [of "en_tables E" "fst x"] assms
    by (simp add: entriesOk_def comp_def filter_map)
  then show "sorted_wrt (<) (map ct_name (cs_tables S))"
    unfolding x catalogueSchema_def by (simp add: sorted_strict)
next
  fix S T assume S: "S \<in> set (ca_schemas (catalogueOf E))" and T: "T \<in> set (cs_tables S)"
  then show "ct_schema T = cs_name S" by (auto simp: catalogueOf_def catalogueSchema_def)
  from S T have "T \<in> set (catalogueTables (catalogueOf E))" by (auto simp: catalogueTables_def)
  then obtain e where e: "e \<in> set (en_tables E)" "T = catalogueTable (filledTable E e)"
    unfolding set_catalogueTables [OF assms] by blast
  have u: "uniqueColumns (childrenOf (fst e) (en_columns E))"
    "distinct (map cn_name (childrenOf (fst e) (en_constraints E)))"
    "distinct (map ix_name (childrenOf (fst e) (en_indexes E)))"
    using assms e(1) unfolding entriesOk_def by force+
  show "tableWf T"
    using u by (auto simp: e(2) tableWf_def catalogueTable_def filledTable_def uniqueColumns_def sorted_strict
        distinct_sort_key split: prod.split)
qed

lemma mapCatalogueRows_wf: "mapCatalogueRows h rows = Inr cat \<Longrightarrow> catalogueWf cat"
  unfolding mapCatalogueRows_Inr using catalogueOf_wf by blast

text \<open>Entries of one kind, found among all rows.\<close>

lemma mapR_Inr_set_iff: "mapR f xs = Inr ys \<Longrightarrow> y \<in> set ys \<longleftrightarrow> (\<exists>x\<in>set xs. f x = Inr y)"
  unfolding mapR_Inr_map by (auto simp: image_iff) (metis sum.sel(2))+

lemma requireKind_row: "requireKind k nulls row = Inr u \<Longrightarrow> propOf row ''row_kind'' = VStr k"
  by (simp add: requireKind_def split: if_splits)

lemma childEntry_rows:
  "(\<exists>r\<in>set (rowsOfKind k rows). childEntry k nulls f r = Inr e) \<longleftrightarrow> (\<exists>r\<in>set rows. childEntry k nulls f r = Inr e)"
  using requireKind_row by (cases e) (fastforce simp: rowsOfKind_def childEntry_Inr)

lemma schemaEntry_rows:
  "(\<exists>r\<in>set (rowsOfKind ''schema'' rows). schemaEntry r = Inr e) \<longleftrightarrow> (\<exists>r\<in>set rows. schemaEntry r = Inr e)"
  using requireKind_row by (fastforce simp: rowsOfKind_def schemaEntry_def res_simps)

lemma entriesOf_sets:
  assumes "entriesOf h rows E"
  shows "e \<in> set (en_schemas E) \<longleftrightarrow> (\<exists>r\<in>set rows. schemaEntry r = Inr e)"
    "t \<in> set (en_tables E) \<longleftrightarrow> (\<exists>r\<in>set rows. tableEntry r = Inr t)"
    "c \<in> set (en_columns E) \<longleftrightarrow> (\<exists>r\<in>set rows. columnEntry r = Inr c)"
    "k \<in> set (en_constraints E) \<longleftrightarrow> (\<exists>r\<in>set rows. constraintEntry h r = Inr k)"
    "i \<in> set (en_indexes E) \<longleftrightarrow> (\<exists>r\<in>set rows. indexEntry h r = Inr i)"
proof -
  have m: "mapR schemaEntry (rowsOfKind ''schema'' rows) = Inr (en_schemas E)"
    "mapR tableEntry (rowsOfKind ''table'' rows) = Inr (en_tables E)"
    "mapR columnEntry (rowsOfKind ''column'' rows) = Inr (en_columns E)"
    "mapR (constraintEntry h) (rowsOfKind ''constraint'' rows) = Inr (en_constraints E)"
    "mapR (indexEntry h) (rowsOfKind ''index'' rows) = Inr (en_indexes E)"
    using assms by (simp_all add: entriesOf_def)
  note sets = mapR_Inr_set_iff [OF m(1)] mapR_Inr_set_iff [OF m(2)] mapR_Inr_set_iff [OF m(3)]
    mapR_Inr_set_iff [OF m(4)] mapR_Inr_set_iff [OF m(5)]
  show "e \<in> set (en_schemas E) \<longleftrightarrow> (\<exists>r\<in>set rows. schemaEntry r = Inr e)"
    "t \<in> set (en_tables E) \<longleftrightarrow> (\<exists>r\<in>set rows. tableEntry r = Inr t)"
    "c \<in> set (en_columns E) \<longleftrightarrow> (\<exists>r\<in>set rows. columnEntry r = Inr c)"
    "k \<in> set (en_constraints E) \<longleftrightarrow> (\<exists>r\<in>set rows. constraintEntry h r = Inr k)"
    "i \<in> set (en_indexes E) \<longleftrightarrow> (\<exists>r\<in>set rows. indexEntry h r = Inr i)"
    unfolding sets childEntry_rows schemaEntry_rows by (rule refl)+
qed

lemma set_childrenOf: "c \<in> set (childrenOf k es) \<longleftrightarrow> (k, c) \<in> set es"
  by (auto simp: childrenOf_def image_iff)

text \<open>The children of the tables are exactly the entries.\<close>

lemma catalogue_children:
  assumes "entriesOk E" and "fst ` set es \<subseteq> fst ` set (en_tables E)"
    and "\<And>e. set (kids (catalogueTable (filledTable E e))) = set (childrenOf (fst e) es)"
  shows "(\<exists>T\<in>set (catalogueTables (catalogueOf E)). tableId T = k \<and> c \<in> set (kids T)) \<longleftrightarrow> (k, c) \<in> set es"
  using assms(2,3) unfolding set_catalogueTables [OF assms(1)]
  by (auto simp: tableId_def set_childrenOf image_subset_iff) (metis fst_conv imageE surjective_pairing)+

lemma tableAttributes_filled:
  "vt_columns v = [] \<Longrightarrow> vt_constraints v = [] \<Longrightarrow> vt_indexes v = [] \<Longrightarrow>
   tableAttributes (catalogueTable (filledTable E (k, v))) = v"
  by (auto simp: tableAttributes_def catalogueTable_def filledTable_def split: prod.split)

text \<open>C8: A successful catalogue read holds exactly what the rows say: the schemas, tables, columns, constraints
  and indexes in it are those of the rows, none is dropped or made up, none occurs twice, and all are in order.\<close>
theorem catalogue_exact:
  assumes "mapCatalogueRows h rows = Inr cat"
  shows "catalogueWf cat \<and>
    (\<forall>e. (\<exists>S\<in>set (ca_schemas cat). (cs_name S, cs_owner S) = e) \<longleftrightarrow> (\<exists>r\<in>set rows. schemaEntry r = Inr e)) \<and>
    (\<forall>k v. (\<exists>T\<in>set (catalogueTables cat). tableId T = k \<and> tableAttributes T = v) \<longleftrightarrow>
       (\<exists>r\<in>set rows. tableEntry r = Inr (k, v))) \<and>
    (\<forall>k c. (\<exists>T\<in>set (catalogueTables cat). tableId T = k \<and> c \<in> set (ct_columns T)) \<longleftrightarrow>
       (\<exists>r\<in>set rows. columnEntry r = Inr (k, c))) \<and>
    (\<forall>k c. (\<exists>T\<in>set (catalogueTables cat). tableId T = k \<and> c \<in> set (ct_constraints T)) \<longleftrightarrow>
       (\<exists>r\<in>set rows. constraintEntry h r = Inr (k, c))) \<and>
    (\<forall>k i. (\<exists>T\<in>set (catalogueTables cat). tableId T = k \<and> i \<in> set (ct_indexes T)) \<longleftrightarrow>
       (\<exists>r\<in>set rows. indexEntry h r = Inr (k, i)))"
proof -
  from assms obtain E where E: "entriesOf h rows E" and ok: "entriesOk E" and cat: "cat = catalogueOf E"
    unfolding mapCatalogueRows_Inr by blast
  note rows = entriesOf_sets [OF E, symmetric]
  have parents: "fst ` set (en_columns E) \<subseteq> fst ` set (en_tables E)"
    "fst ` set (en_constraints E) \<subseteq> fst ` set (en_tables E)" "fst ` set (en_indexes E) \<subseteq> fst ` set (en_tables E)"
    using ok by (simp_all add: entriesOk_def)
  have kids: "set (ct_columns (catalogueTable (filledTable E e))) = set (childrenOf (fst e) (en_columns E))"
    "set (ct_constraints (catalogueTable (filledTable E e))) = set (childrenOf (fst e) (en_constraints E))"
    "set (ct_indexes (catalogueTable (filledTable E e))) = set (childrenOf (fst e) (en_indexes E))" for e
    by (auto simp: catalogueTable_def filledTable_def split: prod.split)
  have attrs: "(\<exists>T\<in>set (catalogueTables (catalogueOf E)). tableId T = k \<and> tableAttributes T = v) \<longleftrightarrow>
      (k, v) \<in> set (en_tables E)" for k v
  proof -
    have a: "tableAttributes (catalogueTable (filledTable E e)) = snd e" if "e \<in> set (en_tables E)" for e
    proof -
      have "mapR tableEntry (rowsOfKind ''table'' rows) = Inr (en_tables E)" using E by (simp add: entriesOf_def)
      from tableEntries_empty [OF this that] show ?thesis
        using tableAttributes_filled [of "snd e" E "fst e"] by simp
    qed
    show ?thesis
    proof
      assume "\<exists>T\<in>set (catalogueTables (catalogueOf E)). tableId T = k \<and> tableAttributes T = v"
      then obtain e where "e \<in> set (en_tables E)" "tableId (catalogueTable (filledTable E e)) = k"
        "tableAttributes (catalogueTable (filledTable E e)) = v" unfolding set_catalogueTables [OF ok] by blast
      then have "e \<in> set (en_tables E)" "e = (k, v)" using a [of e] by (simp_all add: tableId_def prod_eq_iff)
      then show "(k, v) \<in> set (en_tables E)" by simp
    next
      assume e: "(k, v) \<in> set (en_tables E)"
      then show "\<exists>T\<in>set (catalogueTables (catalogueOf E)). tableId T = k \<and> tableAttributes T = v"
        unfolding set_catalogueTables [OF ok] using a [OF e]
        by (intro bexI [where x = "catalogueTable (filledTable E (k, v))"]) (simp_all add: tableId_def)
    qed
  qed
  have schemas: "(\<exists>S\<in>set (ca_schemas (catalogueOf E)). (cs_name S, cs_owner S) = e) \<longleftrightarrow> e \<in> set (en_schemas E)" for e
    by (auto simp: catalogueOf_def catalogueSchema_def)
  show ?thesis
    unfolding cat rows schemas attrs catalogue_children [OF ok parents(1) kids(1)]
      catalogue_children [OF ok parents(2) kids(2)] catalogue_children [OF ok parents(3) kids(3)]
    using catalogueOf_wf [OF ok] by blast
qed

text \<open>The columns of the small database.\<close>

theorem catalogue_exact_witness:
  "\<exists>cat c. mapCatalogueRows demoHeap demoRows = Inr cat \<and> catalogueWf cat \<and>
     columnEntry (demoColumnRow 2 ''body'' ''text'') = Inr ((''app'', ''notes''), c) \<and>
     (\<exists>T\<in>set (catalogueTables cat). tableId T = (''app'', ''notes'') \<and> c \<in> set (ct_columns T))"
proof -
  obtain cat where cat: "mapCatalogueRows demoHeap demoRows = Inr cat" using demoRows_accepted by blast
  have "case columnEntry (demoColumnRow 2 ''body'' ''text'') of Inr e \<Rightarrow> fst e = (''app'', ''notes'') | Inl x \<Rightarrow> False"
    by code_simp
  then obtain c where c: "columnEntry (demoColumnRow 2 ''body'' ''text'') = Inr ((''app'', ''notes''), c)"
    by (auto split: sum.splits)
  have "demoColumnRow 2 ''body'' ''text'' \<in> set demoRows" by (simp add: demoRows_def)
  with catalogue_exact [OF cat] cat c show ?thesis by blast
qed

end
