(* ===== verification/Snapshot.thy ===== *)
theory Snapshot
  imports CatalogueFacts OperationLog RegistryFacts ExposureRegistry
begin

text \<open>
  The schema snapshot of \<open>src/database/schema-snapshot.ts\<close>: the catalogue, the migration history and the data
  API's exposure state in one immutable value.
\<close>

subsection \<open>Classification and migration history\<close>

datatype SchemaObjectClassification = InternalObject | OperatorObject

definition classifySchemaObject :: "string \<Rightarrow> SchemaObjectClassification" where
  "classifySchemaObject schemaName =
     (if schemaName \<in> {''microjbase'', ''pg_catalog'', ''information_schema''} \<or> startsWith schemaName ''pg_''
      then InternalObject else OperatorObject)"

definition MIGRATION_HISTORY_SQL :: string where
  "MIGRATION_HISTORY_SQL =
     ''SELECT filename, checksum, to_char(applied_at AT TIME ZONE '' @ sq ''UTC'' @ '', '' @
     sq (''YYYY-MM-DD'' @ [dquote] @ ''T'' @ [dquote] @ ''HH24:MI:SS.US'' @ [dquote] @ ''Z'' @ [dquote]) @
     '') AS applied_at FROM microjbase.schema_migrations ORDER BY filename''"

record SchemaMigrationRecord =
  mg_filename :: string
  mg_checksum :: string
  mg_appliedAt :: string

text \<open>The pattern as a picture in which \<open>9\<close> stands for a digit.\<close>

definition appliedAtPattern :: "string \<Rightarrow> bool" where
  "appliedAtPattern s \<longleftrightarrow>
     list_all2 (\<lambda>p c. if p = CHR ''9'' then isDigit c else c = p) ''9999-99-99T99:99:99.999999Z'' s"

definition malformedMigration :: "string \<Rightarrow> thrown" where
  "malformedMigration reason =
     AppErr (mkErr INTERNAL_ERROR (''Malformed schema migration row: '' @ reason) 500 None)"

definition requireMigrationString :: "catalogueRow \<Rightarrow> string \<Rightarrow> thrown + string" where
  "requireMigrationString row field =
     (case propOf row field of
        VStr s \<Rightarrow> if s = [] then Inl (malformedMigration (field @ '' must be a non-empty string'')) else Inr s
      | _ \<Rightarrow> Inl (malformedMigration (field @ '' must be a non-empty string'')))"

definition addMigrationRow ::
  "SchemaMigrationRecord list \<Rightarrow> catalogueRow \<Rightarrow> thrown + SchemaMigrationRecord list" where
  "addMigrationRow seen row =
     bindR (requireMigrationString row ''filename'') (\<lambda>filename.
     if filename \<in> mg_filename ` set seen then
       Inl (malformedMigration (''duplicate migration filename '' @ inQuotes filename))
     else
       bindR (requireMigrationString row ''checksum'') (\<lambda>checksum.
       bindR (requireMigrationString row ''applied_at'') (\<lambda>appliedAt.
       if \<not> appliedAtPattern appliedAt then
         Inl (malformedMigration
           (''applied_at must be a UTC ISO-8601 rendering, got '' @ inQuotes appliedAt))
       else
         Inr (seen @ [\<lparr>mg_filename = filename, mg_checksum = checksum, mg_appliedAt = appliedAt\<rparr>]))))"

definition mapMigrationHistory :: "catalogueRow list \<Rightarrow> thrown + SchemaMigrationRecord list" where
  "mapMigrationHistory rows =
     bindR (foldR addMigrationRow [] rows) (\<lambda>ms. Inr (sort_key mg_filename ms))"

definition readMigrationHistory :: "runtime \<Rightarrow> queryOp \<Rightarrow> SchemaMigrationRecord list io" where
  "readMigrationHistory R query =
     bindM (catchM (query MIGRATION_HISTORY_SQL []) (\<lambda>error. throwM (AppErr (translatePoolError R error)))) (\<lambda>result.
       liftR (mapMigrationHistory (qr_rows result)))"

definition checkSchemaMigrationsReadAccess :: "queryOp \<Rightarrow> unit io" where
  "checkSchemaMigrationsReadAccess query =
     checkPrivilege query (True, ''microjbase.schema_migrations'', ''SELECT'')"

subsection \<open>Assembly\<close>

record SchemaSnapshotTable = SchemaCatalogueTable +
  st_classification :: SchemaObjectClassification
  st_alias :: "string option" \<comment> \<open>\<open>exposure.alias\<close>; \<open>exposure.exposed\<close> is its presence\<close>

record SchemaSnapshotSchema =
  sn_name :: string
  sn_owner :: string
  sn_classification :: SchemaObjectClassification
  sn_tables :: "SchemaSnapshotTable list"

record SchemaSnapshot =
  sp_schemas :: "SchemaSnapshotSchema list"
  sp_migrations :: "SchemaMigrationRecord list"

type_synonym exposureMap = "(string \<times> string) list"

definition snapshotError :: "string \<Rightarrow> thrown" where
  "snapshotError message = AppErr (mkErr INTERNAL_ERROR message 500 None)"

definition addExposure :: "exposureMap \<Rightarrow> ExposedTable \<Rightarrow> thrown + exposureMap" where
  "addExposure byTarget t =
     (let key = et_schema t @ ''.'' @ et_table t
      in if key \<in> fst ` set byTarget then
           Inl (snapshotError (''Exposed table '' @ inQuotes key @ '' is listed more than once''))
         else Inr (byTarget @ [(key, et_alias t)]))"

definition snapshotTable :: "SchemaCatalogueTable \<Rightarrow> string option \<Rightarrow> SchemaSnapshotTable" where
  "snapshotTable table a =
     SchemaCatalogueTable.extend table
       \<lparr>st_classification = classifySchemaObject (ct_schema table), st_alias = a\<rparr>"

definition targetText :: "SchemaCatalogueTable \<Rightarrow> string" where
  "targetText table = ct_schema table @ ''.'' @ ct_name table"

fun snapshotTables ::
  "exposureMap \<Rightarrow> SchemaCatalogueTable list \<Rightarrow> thrown + (SchemaSnapshotTable list \<times> exposureMap)" where
  "snapshotTables byTarget [] = Inr ([], byTarget)"
| "snapshotTables byTarget (table # tables) =
     (let key = targetText table;
          a = map_of byTarget key;
          rest = filter (\<lambda>e. fst e \<noteq> key) byTarget
      in if a \<noteq> None \<and> classifySchemaObject (ct_schema table) = InternalObject then
           Inl (snapshotError (''Internal table '' @ inQuotes key @ '' cannot be exposed to the data API''))
         else
           bindR (snapshotTables rest tables) (\<lambda>(ts, left). Inr (snapshotTable table a # ts, left)))"

fun snapshotSchemas ::
  "exposureMap \<Rightarrow> SchemaCatalogueSchema list \<Rightarrow> thrown + (SchemaSnapshotSchema list \<times> exposureMap)" where
  "snapshotSchemas byTarget [] = Inr ([], byTarget)"
| "snapshotSchemas byTarget (schema # schemas) =
     bindR (snapshotTables byTarget (cs_tables schema)) (\<lambda>(ts, left).
     bindR (snapshotSchemas left schemas) (\<lambda>(rest, left').
       Inr (\<lparr>sn_name = cs_name schema, sn_owner = cs_owner schema,
             sn_classification = classifySchemaObject (cs_name schema), sn_tables = ts\<rparr> # rest, left')))"

text \<open>The comparison never returns 0; the file names of a history are distinct.\<close>

definition createSchemaSnapshot ::
  "SchemaCatalogue \<Rightarrow> SchemaMigrationRecord list \<Rightarrow> ExposedTable list \<Rightarrow> thrown + SchemaSnapshot" where
  "createSchemaSnapshot catalogue migrations exposedTables =
     bindR (foldR addExposure [] exposedTables) (\<lambda>byTarget.
     bindR (snapshotSchemas byTarget (ca_schemas catalogue)) (\<lambda>(schemas, left).
       case sort (map fst left) of
         key # _ \<Rightarrow>
           Inl (snapshotError (''Exposed table '' @ inQuotes key @ '' is not present in the schema catalogue''))
       | [] \<Rightarrow>
           Inr \<lparr>sp_schemas = schemas, sp_migrations = sort_key mg_filename migrations\<rparr>))"

definition readSchemaSnapshot :: "runtime \<Rightarrow> queryOp \<Rightarrow> registry \<Rightarrow> SchemaSnapshot io" where
  "readSchemaSnapshot R query reg =
     bindM (readSchemaCatalogue R query) (\<lambda>catalogue.
     bindM (readMigrationHistory R query) (\<lambda>migrations.
       liftR (createSchemaSnapshot catalogue migrations (registryList reg))))"

subsection \<open>The exposure of a snapshot is the registry's\<close>

definition snapshotTablesOf :: "SchemaSnapshot \<Rightarrow> SchemaSnapshotTable list" where
  "snapshotTablesOf snap = concat (map sn_tables (sp_schemas snap))"

text \<open>All tables in one pass.\<close>

lemma snapshotTables_append:
  "snapshotTables m (ts @ us) =
    bindR (snapshotTables m ts) (\<lambda>(xs, left). bindR (snapshotTables left us) (\<lambda>(ys, left'). Inr (xs @ ys, left')))"
proof (induction ts arbitrary: m)
  case Nil
  show ?case by (cases "snapshotTables m us") auto
next
  case (Cons t ts)
  let ?m = "filter (\<lambda>e. fst e \<noteq> targetText t) m"
  show ?case
  proof (cases "snapshotTables ?m ts")
    case (Inr r)
    then show ?thesis by (cases "snapshotTables (snd r) us") (auto simp: Let_def Cons.IH split: prod.split)
  qed (auto simp: Let_def Cons.IH)
qed

lemma snapshotSchemas_tables:
  "snapshotSchemas m ss = Inr (xs, left) \<Longrightarrow>
   snapshotTables m (concat (map cs_tables ss)) = Inr (concat (map sn_tables xs), left) \<and>
   map sn_name xs = map cs_name ss"
  by (induction ss arbitrary: m xs) (auto simp: res_simps snapshotTables_append case_prod_unfold)

text \<open>Two tables may share a text only where no exposure has it.\<close>

definition unambiguous :: "exposureMap \<Rightarrow> SchemaCatalogueTable list \<Rightarrow> bool" where
  "unambiguous m ts \<longleftrightarrow> distinct (map targetText (filter (\<lambda>t. targetText t \<in> fst ` set m) ts))"

lemma unambiguous_Cons:
  assumes "unambiguous m (t # ts)"
  shows "unambiguous (filter P m) ts"
    and "u \<in> set ts \<Longrightarrow> targetText u = targetText t \<Longrightarrow> targetText t \<notin> fst ` set m"
proof -
  have "distinct (map targetText (filter (\<lambda>t. targetText t \<in> fst ` set m) ts))"
    using assms by (simp add: unambiguous_def split: if_splits)
  then have "distinct (map targetText (filter (\<lambda>t. targetText t \<in> fst ` set (filter P m))
      (filter (\<lambda>t. targetText t \<in> fst ` set m) ts)))" by (rule distinct_map_filter)
  moreover have "filter (\<lambda>t. targetText t \<in> fst ` set (filter P m)) (filter (\<lambda>t. targetText t \<in> fst ` set m) ts) =
      filter (\<lambda>t. targetText t \<in> fst ` set (filter P m)) ts" by (auto intro!: filter_cong)
  ultimately show "unambiguous (filter P m) ts" unfolding unambiguous_def by simp
  show "u \<in> set ts \<Longrightarrow> targetText u = targetText t \<Longrightarrow> targetText t \<notin> fst ` set m"
    using assms by (auto simp: unambiguous_def image_iff split: if_splits) (metis fst_conv)+
qed

lemma map_of_filter_key: "k \<noteq> k' \<Longrightarrow> map_of (filter (\<lambda>e. fst e \<noteq> k') m) k = map_of m k"
  by (induction m) auto

lemma snapshotTables_Inr:
  "snapshotTables m ts = Inr (xs, left) \<Longrightarrow> unambiguous m ts \<Longrightarrow>
   xs = map (\<lambda>t. snapshotTable t (map_of m (targetText t))) ts \<and>
   left = filter (\<lambda>e. fst e \<notin> targetText ` set ts) m \<and>
   (\<forall>t\<in>set ts. map_of m (targetText t) \<noteq> None \<longrightarrow> classifySchemaObject (ct_schema t) = OperatorObject)"
proof (induction ts arbitrary: m xs)
  case (Cons t ts)
  let ?m = "filter (\<lambda>e. fst e \<noteq> targetText t) m"
  from Cons.prems(1) obtain ys where ys: "snapshotTables ?m ts = Inr (ys, left)"
    "xs = snapshotTable t (map_of m (targetText t)) # ys"
    "map_of m (targetText t) \<noteq> None \<longrightarrow> classifySchemaObject (ct_schema t) \<noteq> InternalObject"
    by (auto simp: Let_def res_simps split: if_splits prod.splits)
  note IH = Cons.IH [OF ys(1) unambiguous_Cons(1) [OF Cons.prems(2)]]
  have same: "map_of ?m (targetText u) = map_of m (targetText u)" if "u \<in> set ts" for u
  proof (cases "targetText u = targetText t")
    case True
    then have k: "targetText u \<notin> fst ` set m" using unambiguous_Cons(2) [OF Cons.prems(2) that True] by simp
    then have "map_of m (targetText u) = None" by (simp add: map_of_eq_None_iff)
    moreover have "map_of ?m (targetText u) = None" using k by (auto simp: map_of_eq_None_iff)
    ultimately show ?thesis by simp
  qed (rule map_of_filter_key)
  have "classifySchemaObject s \<noteq> InternalObject \<longleftrightarrow> classifySchemaObject s = OperatorObject" for s
    by (cases "classifySchemaObject s") auto
  moreover have "filter (\<lambda>e. fst e \<notin> targetText ` set ts) ?m = filter (\<lambda>e. fst e \<notin> targetText ` set (t # ts)) m"
    by (auto intro!: filter_cong)
  ultimately show ?case using IH ys(2,3) same by auto
qed simp

text \<open>Exposures with legal names stand for one table only.\<close>

definition dotFree :: "string \<Rightarrow> bool" where
  "dotFree s \<longleftrightarrow> CHR ''.'' \<notin> set s"

lemma targetText_plain:
  assumes "dotFree s" and "dotFree t" and "targetText T = s @ ''.'' @ t"
  shows "ct_schema T = s \<and> ct_name T = t"
proof -
  have "count_list (targetText T) (CHR ''.'') = 1"
    using assms by (simp add: dotFree_def count_notin)
  then have "CHR ''.'' \<notin> set (ct_schema T)"
    by (auto simp: targetText_def count_list_0_iff)
  then show ?thesis
    using assms split_at_sep [of "CHR ''.''" "ct_schema T" s "ct_name T" t]
    by (simp add: targetText_def dotFree_def)
qed

lemma addExposure_loop:
  "foldR addExposure [] exposed = Inr m \<longleftrightarrow>
    m = map (\<lambda>t. (et_schema t @ ''.'' @ et_table t, et_alias t)) exposed \<and>
    distinct (map (\<lambda>t. et_schema t @ ''.'' @ et_table t) exposed)"
proof -
  let ?entry = "\<lambda>t. Inr (et_schema t @ ''.'' @ et_table t, et_alias t) :: thrown + (string \<times> string)"
  have step: "addExposure acc t = Inr x \<longleftrightarrow>
      (\<exists>e. ?entry t = Inr e \<and> True \<and> fst e \<notin> fst ` set acc \<and> x = acc @ [e])" for acc t x
    by (auto simp: addExposure_def Let_def)
  have m: "mapR ?entry exposed = Inr es \<longleftrightarrow> es = map (\<lambda>t. (et_schema t @ ''.'' @ et_table t, et_alias t)) exposed" for es
    unfolding mapR_Inr_map by simp
  show ?thesis
    unfolding foldR_collect [where key = fst and ok = "\<lambda>_. True" and entry = ?entry, OF step] m
    by (auto simp: comp_def)
qed

lemma sort_eq_Nil: "sort xs = [] \<longleftrightarrow> xs = []"
proof -
  have "length (sort xs) = length xs" by simp
  then show ?thesis by (metis length_0_conv)
qed

lemma case_left: "(case xs of k # _ \<Rightarrow> Inl (f k) | [] \<Rightarrow> Inr y) = Inr z \<longleftrightarrow> xs = [] \<and> y = z"
  by (cases xs) auto

lemma distinct_tableIds:
  assumes "catalogueWf cat"
  shows "distinct (map tableId (catalogueTables cat))"
proof -
  have one: "distinct (map tableId (cs_tables S))" if "S \<in> set (ca_schemas cat)" for S
  proof -
    have "distinct (map ct_name (cs_tables S))"
      using assms that by (auto simp: catalogueWf_def strict_sorted_iff)
    then show ?thesis by (auto simp: distinct_map inj_on_def tableId_def)
  qed
  have "distinct (map tableId (concat (map cs_tables ss)))"
    if "set ss \<subseteq> set (ca_schemas cat)" "distinct (map cs_name ss)" for ss
    using that
  proof (induction ss)
    case (Cons S ss)
    have "tableId T \<noteq> tableId U" if "T \<in> set (cs_tables S)" "S' \<in> set ss" "U \<in> set (cs_tables S')" for T S' U
    proof -
      have "ct_schema T = cs_name S" "ct_schema U = cs_name S'"
        using that Cons.prems(1) assms by (auto simp: catalogueWf_def)
      moreover have "cs_name S \<noteq> cs_name S'" using that(2) Cons.prems(2) by auto
      ultimately show ?thesis by (simp add: tableId_def)
    qed
    then have "tableId ` set (cs_tables S) \<inter> tableId ` set (concat (map cs_tables ss)) = {}" by fastforce
    moreover have "distinct (map tableId (concat (map cs_tables ss)))" using Cons by simp
    ultimately show ?case using Cons.prems(1) one [of S] by (simp add: image_UN)
  qed simp
  moreover have "distinct (map cs_name (ca_schemas cat))"
    using assms by (simp add: catalogueWf_def strict_sorted_iff)
  ultimately show ?thesis unfolding catalogueTables_def by simp
qed

lemma unambiguous_catalogue:
  assumes "catalogueWf cat" and "\<forall>e\<in>set exposed. dotFree (et_schema e) \<and> dotFree (et_table e)"
    and "fst ` set m = (\<lambda>e. et_schema e @ ''.'' @ et_table e) ` set exposed"
  shows "unambiguous m (catalogueTables cat)"
proof -
  let ?l = "filter (\<lambda>t. targetText t \<in> fst ` set m) (catalogueTables cat)"
  have d: "distinct (map tableId ?l)" using distinct_tableIds [OF assms(1)] by (rule distinct_map_filter)
  have "tableId T = tableId U" if TU: "T \<in> set ?l" "U \<in> set ?l" "targetText T = targetText U" for T U
  proof -
    from TU(1) obtain e where e: "e \<in> set exposed" "targetText T = et_schema e @ ''.'' @ et_table e"
      unfolding assms(3) by auto
    then have "dotFree (et_schema e)" "dotFree (et_table e)" using assms(2) by auto
    from targetText_plain [OF this e(2)] targetText_plain [OF this, of U] e(2) TU(3)
    show ?thesis by (simp add: tableId_def)
  qed
  then have "inj_on targetText (set ?l)" using d by (auto simp: distinct_map inj_on_def)
  then show ?thesis using d unfolding unambiguous_def by (auto simp: distinct_map)
qed

lemma snapshotTable_simps [simp]:
  "SchemaCatalogueTable.truncate (snapshotTable t a) = t" "st_alias (snapshotTable t a) = a"
  "st_classification (snapshotTable t a) = classifySchemaObject (ct_schema t)"
  "ct_schema (snapshotTable t a) = ct_schema t" "ct_name (snapshotTable t a) = ct_name t"
  by (simp_all add: snapshotTable_def SchemaCatalogueTable.defs)

text \<open>C31: A snapshot shows exactly the catalogue's tables, each with exactly the exposure the registry lists for it;
  every exposed table exists and none is internal.  The registry's names hold no dot; the catalogue's may.\<close>
theorem snapshot_exposure_exact:
  assumes "catalogueWf cat" and "\<forall>e\<in>set exposed. dotFree (et_schema e) \<and> dotFree (et_table e)"
    and "createSchemaSnapshot cat ms exposed = Inr snap"
  shows "map SchemaCatalogueTable.truncate (snapshotTablesOf snap) = catalogueTables cat \<and>
    map sn_name (sp_schemas snap) = map cs_name (ca_schemas cat) \<and>
    (\<forall>T\<in>set (snapshotTablesOf snap).
       (\<forall>a. st_alias T = Some a \<longleftrightarrow>
          (\<exists>e\<in>set exposed. et_alias e = a \<and> et_schema e = ct_schema T \<and> et_table e = ct_name T)) \<and>
       (st_alias T \<noteq> None \<longrightarrow> st_classification T = OperatorObject)) \<and>
    (\<forall>e\<in>set exposed. \<exists>T\<in>set (catalogueTables cat). tableId T = (et_schema e, et_table e))"
proof -
  let ?key = "\<lambda>e. et_schema e @ ''.'' @ et_table e"
  let ?m = "map (\<lambda>e. (?key e, et_alias e)) exposed"
  from assms(3) obtain schemas left where d: "distinct (map ?key exposed)"
    and ss: "snapshotSchemas ?m (ca_schemas cat) = Inr (schemas, left)" and left: "left = []"
    and snap: "sp_schemas snap = schemas"
    by (auto simp: createSchemaSnapshot_def res_simps addExposure_loop case_left sort_eq_Nil)
  have u: "unambiguous ?m (catalogueTables cat)"
    by (rule unambiguous_catalogue [OF assms(1,2)]) (simp add: image_image)
  from snapshotSchemas_tables [OF ss] have t: "snapshotTables ?m (catalogueTables cat) = Inr (snapshotTablesOf snap, left)"
    and names: "map sn_name schemas = map cs_name (ca_schemas cat)"
    by (simp_all add: catalogueTables_def snapshotTablesOf_def snap)
  note r = snapshotTables_Inr [OF t u]
  have key: "?key e = targetText T \<longleftrightarrow> et_schema e = ct_schema T \<and> et_table e = ct_name T" if "e \<in> set exposed" for e T
    using that assms(2) targetText_plain [of "et_schema e" "et_table e" T] by (auto simp: targetText_def)
  have look: "map_of ?m (targetText T) = Some a \<longleftrightarrow>
      (\<exists>e\<in>set exposed. et_alias e = a \<and> et_schema e = ct_schema T \<and> et_table e = ct_name T)" for T a
  proof -
    have "distinct (map fst ?m)" using d by (simp add: comp_def)
    then have "map_of ?m (targetText T) = Some a \<longleftrightarrow> (\<exists>e\<in>set exposed. ?key e = targetText T \<and> et_alias e = a)"
      by (subst map_of_eq_Some_iff) (auto simp: image_iff intro: sym)
    then show ?thesis using key by blast
  qed
  have "\<exists>T\<in>set (catalogueTables cat). tableId T = (et_schema e, et_table e)" if e: "e \<in> set exposed" for e
  proof -
    have "filter (\<lambda>e. fst e \<notin> targetText ` set (catalogueTables cat)) ?m = []" using r left by simp
    then have "?key e \<in> targetText ` set (catalogueTables cat)" using e by (auto simp: filter_empty_conv)
    then obtain T where T: "T \<in> set (catalogueTables cat)" "?key e = targetText T" by auto
    then have "tableId T = (et_schema e, et_table e)" using key [OF e, of T] by (simp add: tableId_def)
    with T(1) show ?thesis by blast
  qed
  then show ?thesis
    using r look names snap by (auto simp: comp_def)
qed

text \<open>The small database with its table exposed.\<close>

definition demoExposed :: ExposedTable where
  "demoExposed = \<lparr>et_ref = 0, et_alias = ''n'', et_schema = ''app'', et_table = ''notes'', et_readable = [],
     et_insertable = [], et_updatable = []\<rparr>"

theorem snapshot_exposure_exact_witness:
  "\<exists>cat snap. mapCatalogueRows demoHeap demoRows = Inr cat \<and> createSchemaSnapshot cat [] [demoExposed] = Inr snap \<and>
     (\<exists>T\<in>set (catalogueTables cat). tableId T = (''app'', ''notes''))"
proof -
  have "case mapCatalogueRows demoHeap demoRows of Inl e \<Rightarrow> False
        | Inr cat \<Rightarrow> (case createSchemaSnapshot cat [] [demoExposed] of Inl e \<Rightarrow> False | Inr snap \<Rightarrow> True)"
    by code_simp
  then obtain cat snap where c: "mapCatalogueRows demoHeap demoRows = Inr cat"
    "createSchemaSnapshot cat [] [demoExposed] = Inr snap" by (auto split: sum.splits)
  have "\<forall>e\<in>set [demoExposed]. dotFree (et_schema e) \<and> dotFree (et_table e)" by code_simp
  from snapshot_exposure_exact [OF mapCatalogueRows_wf [OF c(1)] this c(2)] c
  show ?thesis by (auto simp: demoExposed_def)
qed

end
