(* ===== verification/DdlAtomicity.thy ===== *)
theory DdlAtomicity
  imports DdlExecutor DdlSafety OperationClaims
begin

text \<open>
  What an execution of \<open>src/database/schema-ddl.ts\<close> makes durable: everything or nothing, with the completed
  history row in the same transaction.
\<close>

subsection \<open>Transactions as the server sees them\<close>

text \<open>
  The statements of the open transaction that were answered without an error, and the statement lists of
  the transactions committed so far.
\<close>

record txTrace =
  tt_open :: "event list option"
  tt_done :: "event list list"

fun isStatement :: "event \<Rightarrow> bool" where
  "isStatement (EvQuery t vs) = True"
| "isStatement (EvExtended t) = True"
| "isStatement _ = False"

definition txStep :: "bool \<Rightarrow> txTrace \<Rightarrow> event \<Rightarrow> txTrace" where
  "txStep ok s ev =
     (if \<not> ok then s
      else if ev = evBegin then s\<lparr>tt_open := Some []\<rparr>
      else if ev = evCommit then
        \<lparr>tt_open = None, tt_done = tt_done s @ (case tt_open s of Some b \<Rightarrow> [b] | None \<Rightarrow> [])\<rparr>
      else if ev = evRollback then s\<lparr>tt_open := None\<rparr>
      else if isStatement ev then s\<lparr>tt_open := map_option (\<lambda>b. b @ [ev]) (tt_open s)\<rparr>
      else s)"

definition answered :: "runtime \<Rightarrow> event list \<Rightarrow> event \<Rightarrow> bool" where
  "answered R w ev \<longleftrightarrow> (case db R (w @ [ev]) of Inr x \<Rightarrow> True | Inl e \<Rightarrow> False)"

fun txTrack :: "runtime \<Rightarrow> event list \<Rightarrow> txTrace \<Rightarrow> event list \<Rightarrow> txTrace" where
  "txTrack R w s [] = s"
| "txTrack R w s (e # es) = txTrack R (w @ [e]) (txStep (answered R w e) s e) es"

lemma txTrack_append: "txTrack R w s (es @ es') = txTrack R (w @ es) (txTrack R w s es) es'"
  by (induction es arbitrary: w s) simp_all

subsection \<open>A program logic for the trace\<close>

definition trk :: "runtime \<Rightarrow> 'a io \<Rightarrow> txTrace \<Rightarrow> (txTrace \<Rightarrow> thrown + 'a \<Rightarrow> bool) \<Rightarrow> bool" where
  "trk R m s Q \<longleftrightarrow> (\<forall>w. \<exists>es r. m w = (r, w @ es) \<and> Q (txTrack R w s es) r)"

lemma trkD: "trk R m s Q \<Longrightarrow> m w = (r, w') \<Longrightarrow> \<exists>es. w' = w @ es \<and> Q (txTrack R w s es) r"
  unfolding trk_def by (metis Pair_inject)

lemma trk_weaken: "trk R m s P \<Longrightarrow> (\<And>s' r. P s' r \<Longrightarrow> Q s' r) \<Longrightarrow> trk R m s Q"
  unfolding trk_def by meson

lemma trk_return: "Q s (Inr x) \<Longrightarrow> trk R (returnM x) s Q"
  unfolding trk_def returnM_def by (intro allI exI [where x = "[]"]) simp

lemma trk_throw: "Q s (Inl e) \<Longrightarrow> trk R (throwM e) s Q"
  unfolding trk_def throwM_def by (intro allI exI [where x = "[]"]) simp

lemma trk_liftR: "Q s r \<Longrightarrow> trk R (liftR r) s Q"
  unfolding trk_def liftR_def by (intro allI exI [where x = "[]"]) simp

lemma trk_perform:
  assumes "\<And>x. Q (txStep True s ev) (Inr x)" and "\<And>e. Q s (Inl e)"
  shows "trk R (perform R ev) s Q"
  unfolding trk_def perform_def
proof
  fix w
  show "\<exists>es r. (db R (w @ [ev]), w @ [ev]) = (r, w @ es) \<and> Q (txTrack R w s es) r"
    using assms by (intro exI [where x = "[ev]"] exI [where x = "db R (w @ [ev])"])
      (cases "db R (w @ [ev])", auto simp: answered_def txStep_def)
qed

lemma trk_release: "Q s (Inr ()) \<Longrightarrow> trk R (releaseClient d) s Q"
  unfolding trk_def releaseClient_def
  by (intro allI exI [where x = "[EvRelease d]"]) (simp add: txStep_def)

lemma trk_bind:
  assumes "trk R m s P" and "\<And>s' e. P s' (Inl e) \<Longrightarrow> Q s' (Inl e)"
    and "\<And>s' x. P s' (Inr x) \<Longrightarrow> trk R (f x) s' Q"
  shows "trk R (bindM m f) s Q"
  unfolding trk_def
proof
  fix w
  obtain es r where m: "m w = (r, w @ es)" "P (txTrack R w s es) r" using assms(1) unfolding trk_def by blast
  show "\<exists>es r. bindM m f w = (r, w @ es) \<and> Q (txTrack R w s es) r"
  proof (cases r)
    case (Inl e)
    with m assms(2) show ?thesis by (auto simp: bindM_def)
  next
    case (Inr x)
    with m assms(3) obtain es' r' where "f x (w @ es) = (r', (w @ es) @ es')"
      "Q (txTrack R (w @ es) (txTrack R w s es) es') r'" unfolding trk_def by blast
    with m Inr show ?thesis
      by (intro exI [where x = "es @ es'"] exI [where x = r']) (simp add: bindM_def txTrack_append)
  qed
qed

lemma trk_catch:
  assumes "trk R m s P" and "\<And>s' x. P s' (Inr x) \<Longrightarrow> Q s' (Inr x)"
    and "\<And>s' e. P s' (Inl e) \<Longrightarrow> trk R (k e) s' Q"
  shows "trk R (catchM m k) s Q"
  unfolding trk_def
proof
  fix w
  obtain es r where m: "m w = (r, w @ es)" "P (txTrack R w s es) r" using assms(1) unfolding trk_def by blast
  show "\<exists>es r. catchM m k w = (r, w @ es) \<and> Q (txTrack R w s es) r"
  proof (cases r)
    case (Inr x)
    with m assms(2) show ?thesis by (auto simp: catchM_def)
  next
    case (Inl e)
    with m assms(3) obtain es' r' where "k e (w @ es) = (r', (w @ es) @ es')"
      "Q (txTrack R (w @ es) (txTrack R w s es) es') r'" unfolding trk_def by blast
    with m Inl show ?thesis
      by (intro exI [where x = "es @ es'"] exI [where x = r']) (simp add: catchM_def txTrack_append)
  qed
qed

lemma trk_finally:
  assumes "trk R m s P" and "\<And>s' r. P s' r \<Longrightarrow> trk R f s' (\<lambda>s'' u. case u of Inl e \<Rightarrow> Q s'' (Inl e) | Inr x \<Rightarrow> Q s'' r)"
  shows "trk R (finallyM m f) s Q"
  unfolding trk_def
proof
  fix w
  obtain es r where m: "m w = (r, w @ es)" "P (txTrack R w s es) r" using assms(1) unfolding trk_def by blast
  obtain es' u where f: "f (w @ es) = (u, (w @ es) @ es')"
    "case u of Inl e \<Rightarrow> Q (txTrack R (w @ es) (txTrack R w s es) es') (Inl e)
     | Inr x \<Rightarrow> Q (txTrack R (w @ es) (txTrack R w s es) es') r"
    using assms(2) [OF m(2)] unfolding trk_def by blast
  show "\<exists>es r. finallyM m f w = (r, w @ es) \<and> Q (txTrack R w s es) r"
    using m(1) f by (cases u) (auto simp: finallyM_def txTrack_append)
qed

text \<open>Statements of the operation log, issued inside a transaction.\<close>

definition LOG_STATEMENTS :: "string list" where
  "LOG_STATEMENTS =
     [INSERT_SQL, SELECT_BY_KEY_SQL, RESTART_FAILED_SQL, SUCCEED_SQL, SELECT_BY_ID_SQL]"

fun logEvent :: "event \<Rightarrow> bool" where
  "logEvent (EvQuery t vs) = (t \<in> set LOG_STATEMENTS)"
| "logEvent _ = False"

lemma log_not_control:
  "t \<in> set LOG_STATEMENTS \<Longrightarrow> t \<noteq> ''BEGIN'' \<and> t \<noteq> ''COMMIT'' \<and> t \<noteq> ''ROLLBACK''"
  by (auto simp: LOG_STATEMENTS_def INSERT_SQL_def SELECT_BY_KEY_SQL_def RESTART_FAILED_SQL_def SUCCEED_SQL_def
      SELECT_BY_ID_SQL_def)

abbreviation inTx :: "event list \<Rightarrow> txTrace" where
  "inTx b \<equiv> \<lparr>tt_open = Some b, tt_done = []\<rparr>"

abbreviation noTx :: txTrace where
  "noTx \<equiv> \<lparr>tt_open = None, tt_done = []\<rparr>"

fun extended :: "event \<Rightarrow> string option" where
  "extended (EvExtended s) = Some s"
| "extended _ = None"

definition planStatements :: "event list \<Rightarrow> string list" where
  "planStatements b = List.map_filter extended b"

lemma planStatements_append [simp]: "planStatements (b @ c) = planStatements b @ planStatements c"
  by (simp add: planStatements_def List.map_filter_def)

lemma planStatements_simps [simp]:
  "planStatements [] = []" "planStatements (EvQuery t vs # b) = planStatements b"
  "planStatements (EvExtended s # b) = s # planStatements b"
  by (simp_all add: planStatements_def List.map_filter_simps)

lemma track_log:
  "list_all logEvent es \<Longrightarrow> \<exists>b'. txTrack R w (inTx b) es = inTx (b @ b') \<and> planStatements b' = []"
proof (induction es arbitrary: w b)
  case Nil
  then show ?case by (intro exI [where x = "[]"]) simp
next
  case (Cons e es)
  then obtain t vs where e: "e = EvQuery t vs" "t \<in> set LOG_STATEMENTS" by (cases e) auto
  have s: "txStep ok (inTx b) e = inTx (b @ (if ok then [e] else []))" for ok
    using e log_not_control [OF e(2)] by (simp add: txStep_def)
  from Cons obtain b' where "txTrack R (w @ [e]) (inTx (b @ (if answered R w e then [e] else []))) es =
      inTx ((b @ (if answered R w e then [e] else [])) @ b')" "planStatements b' = []" by fastforce
  moreover have "planStatements (if ok then [e] else []) = []" for ok using e(1) by simp
  ultimately show ?case
    by (intro exI [where x = "(if answered R w e then [e] else []) @ b'"]) (simp only: txTrack.simps s, simp)
qed

lemma trk_log:
  assumes "emitsOnly logEvent m"
  shows "trk R m (inTx b) (\<lambda>s r. \<exists>b'. s = inTx (b @ b') \<and> planStatements b' = [])"
  using assms track_log unfolding trk_def emitsOnly_def outcome_def by meson

lemma emits_queryRow:
  "t \<in> set LOG_STATEMENTS \<Longrightarrow> emitsOnly logEvent (queryRow (executorLog D key) t vs)"
  unfolding queryRow_def executorLog_def by (auto intro!: io_intros)

lemma emits_logGet: "emitsOnly logEvent (logGet (executorLog D key) k)"
  unfolding logGet_def
  by (intro io_intros emits_queryRow) (auto simp: LOG_STATEMENTS_def intro: io_intros split: list.split)

lemma emits_retry: "emitsOnly logEvent (retryFailed n (executorLog D key) rec)"
proof (induction n)
  case (Suc n)
  show ?case unfolding retryFailed.simps
    by (intro io_intros emits_queryRow)
       (auto simp: LOG_STATEMENTS_def Suc.IH intro!: io_intros emits_logGet split: list.split option.split)
qed (simp add: io_intros)

lemma emits_logBegin: "emitsOnly logEvent (logBegin (executorLog D key) input)"
  unfolding logBegin_def Let_def classifyExisting_def
  by (intro io_intros emits_queryRow)
     (auto simp: LOG_STATEMENTS_def intro!: io_intros emits_logGet emits_retry split: list.split option.split)

subsection \<open>The executor's parts\<close>

lemma trk_client:
  assumes "\<And>x. Q (txStep True s (EvQuery t vs)) (Inr x)" and "\<And>e. Q s (Inl e)"
  shows "trk R (clientQuery R t vs) s Q"
  using assms by (rule trk_perform)

lemma txStep_simps [simp]:
  "txStep True s evBegin = s\<lparr>tt_open := Some []\<rparr>"
  "txStep True s evCommit = \<lparr>tt_open = None, tt_done = tt_done s @ (case tt_open s of Some b \<Rightarrow> [b] | None \<Rightarrow> [])\<rparr>"
  "txStep True s evRollback = s\<lparr>tt_open := None\<rparr>"
  "txStep ok s EvConnect = s"
  "txStep True (inTx b) (EvExtended x) = inTx (b @ [EvExtended x])"
  by (simp_all add: txStep_def)

lemma trk_connect:
  "trk R (poolConnect R c) noTx (\<lambda>s r. s = noTx)"
  unfolding poolConnect_def guardNotClosed_def
  by (auto intro!: trk_bind [where P = "\<lambda>s r. s = noTx"] trk_catch [where P = "\<lambda>s r. s = noTx"]
      trk_throw trk_return trk_perform)

text \<open>A best-effort rollback commits nothing.\<close>

lemma trk_rollback:
  "trk R (rollbackQuietly R) (inTx b) (\<lambda>s r. tt_done s = [] \<and> r = Inr ())"
  unfolding rollbackQuietly_def
  by (rule trk_catch [where P = "\<lambda>s r. tt_done s = [] \<and> (\<forall>u. r = Inr u \<longrightarrow> u = ())"])
     (auto intro!: trk_bind [where P = "\<lambda>s r. tt_done s = []"] trk_client trk_return)

lemma trk_rollback_throw:
  "trk R (bindM (rollbackQuietly R) (\<lambda>_. throwM e)) (inTx b) (\<lambda>s r. tt_done s = [] \<and> r = Inl e)"
  by (rule trk_bind [OF trk_rollback]) (auto intro: trk_throw)

lemma trk_harden:
  "trk R (hardenAndLock R) (inTx b) (\<lambda>s r. \<exists>b'. s = inTx (b @ b') \<and> planStatements b' = [])"
proof -
  have n: "ADMIN_TRANSACTION_HARDENING_SQL \<noteq> ''BEGIN''" "ADMIN_TRANSACTION_HARDENING_SQL \<noteq> ''COMMIT''"
    "ADMIN_TRANSACTION_HARDENING_SQL \<noteq> ''ROLLBACK''" "LOCK_SQL \<noteq> ''BEGIN''" "LOCK_SQL \<noteq> ''COMMIT''" "LOCK_SQL \<noteq> ''ROLLBACK''"
    by (simp_all add: ADMIN_TRANSACTION_HARDENING_SQL_def LOCK_SQL_def)
  let ?P = "\<lambda>s (r :: thrown + qresult). \<exists>b'. s = inTx (b @ b') \<and> planStatements b' = []"
  have one: "trk R (clientQuery R t vs) (inTx (b @ c)) ?P"
    if "t \<noteq> ''BEGIN''" "t \<noteq> ''COMMIT''" "t \<noteq> ''ROLLBACK''" "planStatements c = []" for t vs c
    using that by (intro trk_client) (auto simp: txStep_def intro: exI [where x = "c @ [EvQuery t vs]"])
  show ?thesis unfolding hardenAndLock_def
  proof (rule trk_bind [where P = ?P])
    show "trk R (clientQuery R ADMIN_TRANSACTION_HARDENING_SQL []) (inTx b) ?P"
      using one [of ADMIN_TRANSACTION_HARDENING_SQL "[]" "[]"] n by simp
    fix s' x assume "\<exists>b'. s' = inTx (b @ b') \<and> planStatements b' = []"
    then obtain b' where b': "s' = inTx (b @ b')" "planStatements b' = []" by blast
    show "trk R (bindM (clientQuery R LOCK_SQL [VStr SCHEMA_DDL_LOCK_KEY]) (\<lambda>_. returnM ())) s'
        (\<lambda>s r. \<exists>b'. s = inTx (b @ b') \<and> planStatements b' = [])"
      unfolding b'(1) by (rule trk_bind [OF one]) (use n b' in \<open>auto intro: trk_return\<close>)
  qed auto
qed

text \<open>The plan's statements, up to the first that fails.\<close>

lemma trk_statements:
  "trk R (runStatements R ss) (inTx b)
     (\<lambda>s r. \<exists>b'. s = inTx (b @ b') \<and> (\<forall>u. r = Inr u \<longrightarrow> planStatements b' = ss))"
proof (induction ss arbitrary: b)
  case Nil
  show ?case unfolding runStatements.simps by (rule trk_return) (auto intro: exI [where x = "[]"])
next
  case (Cons x ss)
  show ?case unfolding runStatements.simps
  proof (rule trk_bind [where P = "\<lambda>s r. s = inTx b \<and> (\<exists>e. r = Inl e) \<or> s = inTx (b @ [EvExtended x])"])
    show "trk R (runPlanStatement R x) (inTx b)
      (\<lambda>s r. s = inTx b \<and> (\<exists>e. r = Inl e) \<or> s = inTx (b @ [EvExtended x]))"
      unfolding runPlanStatement_def
      by (rule trk_bind [where P = "\<lambda>s r. s = inTx b \<and> (\<exists>e. r = Inl e) \<or> s = inTx (b @ [EvExtended x]) \<and> (\<exists>y. r = Inr y)"])
         (auto intro!: trk_perform trk_return)
  next
    fix s' e assume "s' = inTx b \<and> (\<exists>e'. Inl e = (Inl e' :: thrown + unit)) \<or> s' = inTx (b @ [EvExtended x])"
    then show "\<exists>b'. s' = inTx (b @ b') \<and> (\<forall>u. (Inl e :: thrown + unit) = Inr u \<longrightarrow> planStatements b' = x # ss)"
      by auto
  next
    fix s' u assume "s' = inTx b \<and> (\<exists>e'. Inr u = (Inl e' :: thrown + unit)) \<or> s' = inTx (b @ [EvExtended x])"
    then have s': "s' = inTx (b @ [EvExtended x])" by auto
    show "trk R (runStatements R ss) s'
        (\<lambda>s r. \<exists>b'. s = inTx (b @ b') \<and> (\<forall>u. r = Inr u \<longrightarrow> planStatements b' = x # ss))"
      unfolding s' by (rule trk_weaken [OF Cons]) (auto intro: exI [where x = "EvExtended x # _"])
  qed
qed

lemma emits_getById: "emitsOnly logEvent (getById (executorLog D key) i)"
  unfolding getById_def
  by (intro io_intros emits_queryRow) (auto simp: LOG_STATEMENTS_def intro: io_intros split: list.split)

text \<open>The completion of the history row is one of the answered statements.\<close>

definition completes :: "int \<Rightarrow> event list \<Rightarrow> bool" where
  "completes i b \<longleftrightarrow> (\<exists>vs. EvQuery SUCCEED_SQL (VNum (JFin (of_int i)) # vs) \<in> set b)"

lemma trk_succeed:
  "trk (dd_runtime D) (logSucceed (executorLog D key) i res) (inTx b)
     (\<lambda>s r. \<exists>b'. s = inTx (b @ b') \<and> planStatements b' = [] \<and> (\<forall>u. r = Inr u \<longrightarrow> completes i b'))"
proof -
  let ?ev = "EvQuery SUCCEED_SQL [VNum (JFin (of_int i)), VStr (jsonStringify res)]"
  let ?R = "dd_runtime D"
  have n: "SUCCEED_SQL \<noteq> ''BEGIN''" "SUCCEED_SQL \<noteq> ''COMMIT''" "SUCCEED_SQL \<noteq> ''ROLLBACK''"
    using log_not_control [of SUCCEED_SQL] by (simp_all add: LOG_STATEMENTS_def)
  let ?P = "\<lambda>s (r :: thrown + qresult). s = inTx b \<and> (\<exists>e. r = Inl e) \<or> s = inTx (b @ [?ev]) \<and> (\<exists>y. r = Inr y)"
  have q: "trk ?R (clientQuery ?R SUCCEED_SQL [VNum (JFin (of_int i)), VStr (jsonStringify res)]) (inTx b) ?P"
    by (rule trk_client) (use n in \<open>auto simp: txStep_def\<close>)
  have row: "trk ?R (queryRow (executorLog D key) SUCCEED_SQL [VNum (JFin (of_int i)), VStr (jsonStringify res)]) (inTx b) ?P"
    unfolding queryRow_def executorLog_def log_env.simps
    by (rule trk_catch [where P = ?P, OF trk_catch [OF q]]) (auto intro!: trk_throw)
  show ?thesis unfolding logSucceed_def
  proof (rule trk_bind [OF row])
    fix s' e assume "s' = inTx b \<and> (\<exists>e'. Inl e = (Inl e' :: thrown + qresult)) \<or> s' = inTx (b @ [?ev]) \<and> (\<exists>y. Inl e = (Inr y :: thrown + qresult))"
    then show "\<exists>b'. s' = inTx (b @ b') \<and> planStatements b' = [] \<and>
        (\<forall>u. (Inl e :: thrown + SchemaOperationRecord) = Inr u \<longrightarrow> completes i b')"
      by (auto intro: exI [where x = "[]"])
  next
    fix s' x assume "s' = inTx b \<and> (\<exists>e'. Inr x = (Inl e' :: thrown + qresult)) \<or> s' = inTx (b @ [?ev]) \<and> (\<exists>y. Inr x = (Inr y :: thrown + qresult))"
    then have s': "s' = inTx (b @ [?ev])" by auto
    have c: "completes i (?ev # b')" for b' by (auto simp: completes_def)
    show "trk ?R (if qr_rows x = [] then throwM (notRunning i) else getById (executorLog D key) i) s'
        (\<lambda>s r. \<exists>b'. s = inTx (b @ b') \<and> planStatements b' = [] \<and> (\<forall>u. r = Inr u \<longrightarrow> completes i b'))"
    proof (cases "qr_rows x = []")
      case True
      then show ?thesis unfolding s'
        by (simp, intro trk_throw exI [where x = "[?ev]"]) simp
    next
      case False
      have "trk ?R (getById (executorLog D key) i) (inTx (b @ [?ev]))
        (\<lambda>s r. \<exists>b'. s = inTx (b @ b') \<and> planStatements b' = [] \<and> (\<forall>u. r = Inr u \<longrightarrow> completes i b'))"
      proof (rule trk_weaken [OF trk_log [OF emits_getById]], elim exE conjE)
        fix s r b' assume "s = inTx ((b @ [?ev]) @ b')" "planStatements b' = []"
        then show "\<exists>b'. s = inTx (b @ b') \<and> planStatements b' = [] \<and> (\<forall>u. r = Inr u \<longrightarrow> completes i b')"
          using c by (intro exI [where x = "?ev # b'"]) simp
      qed
      with False show ?thesis unfolding s' by simp
    qed
  qed
qed

subsection \<open>The whole execution\<close>

text \<open>What may be durable when the execution has ended with \<open>r\<close>.\<close>

definition atomicOutcome :: "string list \<Rightarrow> txTrace \<Rightarrow> thrown + ExecuteOutcome \<Rightarrow> bool" where
  "atomicOutcome statements s r \<longleftrightarrow>
     (case r of
        Inl e \<Rightarrow> tt_done s = []
      | Inr out \<Rightarrow>
          if ex_dryRun out \<or> ex_replayed out then tt_done s = []
          else (\<exists>b i. tt_done s = [b] \<and> planStatements b = statements \<and> completes i b))"

lemma trk_dryBody:
  "trk R (dryRunBody R ss) noTx (\<lambda>s r. tt_done s = [])"
  unfolding dryRunBody_def
proof (rule trk_catch [where P = "\<lambda>s r. tt_done s = []"])
  let ?D = "\<lambda>s (r :: thrown + unit). tt_done s = []"
  show "trk R (bindM (clientQuery R ''BEGIN'' []) (\<lambda>_.
      finallyM (bindM (hardenAndLock R) (\<lambda>_. runStatements R ss))
        (bindM (clientQuery R ''ROLLBACK'' []) (\<lambda>_. returnM ())))) noTx ?D"
  proof (rule trk_bind [where P = "\<lambda>s r. s = noTx \<and> (\<exists>e. r = Inl e) \<or> s = inTx []"])
    fix s' x assume "s' = noTx \<and> (\<exists>e. Inr x = (Inl e :: thrown + qresult)) \<or> s' = inTx []"
    then have s': "s' = inTx []" by auto
    show "trk R (finallyM (bindM (hardenAndLock R) (\<lambda>_. runStatements R ss))
        (bindM (clientQuery R ''ROLLBACK'' []) (\<lambda>_. returnM ()))) s' ?D"
      unfolding s'
    proof (rule trk_finally [where P = "\<lambda>s r. \<exists>b. s = inTx b"])
      show "trk R (bindM (hardenAndLock R) (\<lambda>_. runStatements R ss)) (inTx []) (\<lambda>s r. \<exists>b. s = inTx b)"
        by (rule trk_bind [OF trk_harden]) (auto intro: trk_weaken [OF trk_statements])
    next
      fix s'' and r :: "thrown + unit" assume "\<exists>b. s'' = inTx b"
      then show "trk R (bindM (clientQuery R ''ROLLBACK'' []) (\<lambda>_. returnM ())) s''
          (\<lambda>s u. case u of Inl e \<Rightarrow> tt_done s = [] | Inr x \<Rightarrow> tt_done s = [])"
        by (auto intro!: trk_bind [where P = "\<lambda>s r. tt_done s = []"] trk_client trk_return)
    qed
  qed (auto intro!: trk_client)
qed (auto intro!: trk_throw)

lemma trk_dryRun: "trk (dd_runtime D) (executeDryRun D ss) noTx (atomicOutcome ss)"
  unfolding executeDryRun_def
proof (rule trk_bind [OF trk_connect])
  fix s' u assume "s' = noTx"
  then show "trk (dd_runtime D) (bindM (finallyM (dryRunBody (dd_runtime D) ss) (releaseClient False))
      (\<lambda>_. returnM \<lparr>ex_dryRun = True, ex_replayed = False, ex_record = None\<rparr>)) s' (atomicOutcome ss)"
    by (auto intro!: trk_bind [where P = "\<lambda>s r. tt_done s = []"] trk_finally [OF trk_dryBody] trk_release trk_return
        simp: atomicOutcome_def)
qed (simp add: atomicOutcome_def)

lemma trk_beginPhase:
  "trk (dd_runtime D) (beginPhase D ss opts) (inTx [])
     (\<lambda>s r. case r of Inl e \<Rightarrow> tt_done s = [] | Inr out \<Rightarrow> \<exists>b. s = inTx b \<and> planStatements b = [])"
  unfolding beginPhase_def
proof (rule trk_catch [where P = "\<lambda>s r. \<exists>b. s = inTx b \<and> planStatements b = []"])
  show "trk (dd_runtime D) (bindM (hardenAndLock (dd_runtime D)) (\<lambda>_.
          logBegin (executorLog D (eo_key opts))
            \<lparr>bo_key = eo_key opts, bo_commandType = eo_commandType opts, bo_command = eo_command opts,
             bo_actor = eo_actor opts, bo_statements = Some ss\<rparr>)) (inTx [])
      (\<lambda>s r. \<exists>b. s = inTx b \<and> planStatements b = [])"
    by (rule trk_bind [OF trk_harden]) (auto intro!: trk_weaken [OF trk_log [OF emits_logBegin]])
next
  fix s' e assume "\<exists>b. s' = inTx b \<and> planStatements b = []"
  then show "trk (dd_runtime D) (bindM (rollbackQuietly (dd_runtime D)) (\<lambda>_.
      throwM (AppErr (translateConcurrentWaitError (dd_runtime D) e (eo_key opts))))) s'
      (\<lambda>s r. case r of Inl e \<Rightarrow> tt_done s = [] | Inr out \<Rightarrow> \<exists>b. s = inTx b \<and> planStatements b = [])"
    by (auto intro: trk_weaken [OF trk_rollback_throw])
qed simp

lemma trk_runPhase:
  assumes "planStatements b = []"
  shows "trk (dd_runtime D) (runPhase D ss opts rec) (inTx b) (atomicOutcome ss)"
  unfolding runPhase_def
proof (rule trk_catch [where P = "\<lambda>s r. case r of Inl e \<Rightarrow> \<exists>b. s = inTx b | Inr out \<Rightarrow> atomicOutcome ss s (Inr out)"])
  let ?R = "dd_runtime D"
  let ?P = "\<lambda>s (r :: thrown + ExecuteOutcome). case r of Inl e \<Rightarrow> \<exists>b. s = inTx b | Inr out \<Rightarrow> atomicOutcome ss s (Inr out)"
  show "trk ?R (bindM (runStatements ?R ss) (\<lambda>_.
        bindM (logSucceed (executorLog D (eo_key opts)) (so_id rec)
                 (JObj [(''statementCount'', JNum (JFin (of_nat (length ss))))])) (\<lambda>record.
        bindM (clientQuery ?R ''COMMIT'' []) (\<lambda>_.
          returnM \<lparr>ex_dryRun = False, ex_replayed = False, ex_record = Some record\<rparr>)))) (inTx b) ?P"
  proof (rule trk_bind [OF trk_statements])
    fix s' u assume "\<exists>b'. s' = inTx (b @ b') \<and> (\<forall>v. Inr u = (Inr v :: thrown + unit) \<longrightarrow> planStatements b' = ss)"
    then obtain c where c: "s' = inTx c" "planStatements c = ss" using assms by auto
    show "trk ?R (bindM (logSucceed (executorLog D (eo_key opts)) (so_id rec)
                 (JObj [(''statementCount'', JNum (JFin (of_nat (length ss))))])) (\<lambda>record.
        bindM (clientQuery ?R ''COMMIT'' []) (\<lambda>_.
          returnM \<lparr>ex_dryRun = False, ex_replayed = False, ex_record = Some record\<rparr>))) s' ?P"
      unfolding c(1)
    proof (rule trk_bind [OF trk_succeed])
      fix s'' rc
      assume "\<exists>b'. s'' = inTx (c @ b') \<and> planStatements b' = [] \<and>
        (\<forall>v. Inr rc = (Inr v :: thrown + SchemaOperationRecord) \<longrightarrow> completes (so_id rec) b')"
      then obtain b' where b': "s'' = inTx (c @ b')" "planStatements b' = []" "completes (so_id rec) b'" by auto
      have "completes (so_id rec) (c @ b')" using b'(3) by (auto simp: completes_def)
      with b' c show "trk ?R (bindM (clientQuery ?R ''COMMIT'' []) (\<lambda>_.
          returnM \<lparr>ex_dryRun = False, ex_replayed = False, ex_record = Some rc\<rparr>)) s'' ?P"
        by (auto intro!: trk_bind [where P = "\<lambda>s r. case r of Inl e \<Rightarrow> \<exists>b. s = inTx b | Inr x \<Rightarrow>
              s = \<lparr>tt_open = None, tt_done = [c @ b']\<rparr>"] trk_client trk_return simp: atomicOutcome_def)
    qed auto
  qed auto
next
  fix s' and e :: thrown assume "case Inl e of Inl e \<Rightarrow> \<exists>b. s' = inTx b | Inr out \<Rightarrow> atomicOutcome ss s' (Inr out)"
  then show "trk (dd_runtime D) (bindM (rollbackQuietly (dd_runtime D)) (\<lambda>_.
      throwM (AppErr (translateDdlError (dd_runtime D) e)))) s' (atomicOutcome ss)"
    by (auto intro: trk_weaken [OF trk_rollback_throw] simp: atomicOutcome_def)
qed simp

lemma trk_real: "trk (dd_runtime D) (executeReal D ss opts) noTx (atomicOutcome ss)"
  unfolding executeReal_def
proof (rule trk_bind [OF trk_connect])
  let ?R = "dd_runtime D"
  fix s' and u :: unit assume s': "s' = noTx"
  show "trk ?R (finallyM
         (bindM (clientQuery ?R ''BEGIN'' []) (\<lambda>_.
          bindM (beginPhase D ss opts) (\<lambda>begun.
            (case begun of
               Replay rec \<Rightarrow>
                 bindM (rollbackQuietly ?R) (\<lambda>_.
                   returnM \<lparr>ex_dryRun = False, ex_replayed = True, ex_record = Some rec\<rparr>)
             | InProgress rec \<Rightarrow>
                 bindM (rollbackQuietly ?R) (\<lambda>_. throwM (AppErr (inProgressError (eo_key opts))))
             | Accepted rec retry \<Rightarrow> runPhase D ss opts rec))))
         (releaseClient False)) s' (atomicOutcome ss)"
    unfolding s'
  proof (rule trk_finally [where P = "atomicOutcome ss"])
    show "trk ?R (bindM (clientQuery ?R ''BEGIN'' []) (\<lambda>_.
          bindM (beginPhase D ss opts) (\<lambda>begun.
            (case begun of
               Replay rec \<Rightarrow>
                 bindM (rollbackQuietly ?R) (\<lambda>_.
                   returnM \<lparr>ex_dryRun = False, ex_replayed = True, ex_record = Some rec\<rparr>)
             | InProgress rec \<Rightarrow>
                 bindM (rollbackQuietly ?R) (\<lambda>_. throwM (AppErr (inProgressError (eo_key opts))))
             | Accepted rec retry \<Rightarrow> runPhase D ss opts rec)))) noTx (atomicOutcome ss)"
    proof (rule trk_bind [where P = "\<lambda>s r. s = noTx \<and> (\<exists>e. r = Inl e) \<or> s = inTx [] \<and> (\<exists>x. r = Inr x)"])
      fix s' x assume "s' = noTx \<and> (\<exists>e. Inr x = (Inl e :: thrown + qresult)) \<or> s' = inTx [] \<and> (\<exists>y. Inr x = (Inr y :: thrown + qresult))"
      then have s': "s' = inTx []" by auto
      show "trk ?R (bindM (beginPhase D ss opts) (\<lambda>begun.
            (case begun of
               Replay rec \<Rightarrow>
                 bindM (rollbackQuietly ?R) (\<lambda>_.
                   returnM \<lparr>ex_dryRun = False, ex_replayed = True, ex_record = Some rec\<rparr>)
             | InProgress rec \<Rightarrow>
                 bindM (rollbackQuietly ?R) (\<lambda>_. throwM (AppErr (inProgressError (eo_key opts))))
             | Accepted rec retry \<Rightarrow> runPhase D ss opts rec))) s' (atomicOutcome ss)"
        unfolding s'
      proof (rule trk_bind [OF trk_beginPhase])
        fix s'' and begun :: SchemaOperationBeginOutcome
        assume "case Inr begun of Inl e \<Rightarrow> tt_done s'' = [] | Inr out \<Rightarrow> \<exists>b. s'' = inTx b \<and> planStatements b = []"
        then obtain b where b: "s'' = inTx b" "planStatements b = []" by auto
        show "trk ?R (case begun of
               Replay rec \<Rightarrow>
                 bindM (rollbackQuietly ?R) (\<lambda>_.
                   returnM \<lparr>ex_dryRun = False, ex_replayed = True, ex_record = Some rec\<rparr>)
             | InProgress rec \<Rightarrow>
                 bindM (rollbackQuietly ?R) (\<lambda>_. throwM (AppErr (inProgressError (eo_key opts))))
             | Accepted rec retry \<Rightarrow> runPhase D ss opts rec) s'' (atomicOutcome ss)"
        proof (cases begun)
          case (Accepted rec retry)
          then show ?thesis unfolding b(1) by (simp add: trk_runPhase [OF b(2)])
        next
          case (Replay rec)
          then show ?thesis unfolding b(1)
            by (auto intro!: trk_bind [OF trk_rollback] trk_return simp: atomicOutcome_def)
        next
          case (InProgress rec)
          then show ?thesis unfolding b(1)
            by (auto intro!: trk_weaken [OF trk_rollback_throw] simp: atomicOutcome_def)
        qed
      qed (auto simp: atomicOutcome_def)
    qed (auto intro!: trk_client simp: atomicOutcome_def)
  next
    fix s' and r :: "thrown + ExecuteOutcome" assume "atomicOutcome ss s' r"
    then show "trk ?R (releaseClient False) s'
        (\<lambda>s u. case u of Inl e \<Rightarrow> atomicOutcome ss s (Inl e) | Inr x \<Rightarrow> atomicOutcome ss s r)"
      by (auto intro: trk_release)
  qed
qed (simp add: atomicOutcome_def)


definition demoPlan :: DdlPlan where
  "demoPlan = sealPlan [''DROP TABLE '' @ [dquote] @ ''a'' @ [dquote] @ ''.'' @ [dquote] @ ''b'' @ [dquote]] ''drop table a.b''"

definition demoOptions :: ExecuteOptions where
  "demoOptions = \<lparr>eo_key = ''k1'', eo_commandType = ''drop_table'', eo_command = JObj [], eo_actor = ''ann'',
     eo_dryRun = False\<rparr>"

definition demoDdl :: ddl_env where
  "demoDdl = \<lparr>dd_runtime = le_runtime demoEnv, dd_closed = False, dd_sha = (\<lambda>_. [171]), dd_hmac = (\<lambda>_. [1])\<rparr>"


text \<open>
  A server that refuses the hardening statement and the rollback: the client goes back to the pool as it
  is, inside the transaction it opened.
\<close>

definition brokenRuntime :: runtime where
  "brokenRuntime = okRuntime\<lparr>db := (\<lambda>w. if length w = 3 \<or> length w = 4 then Inl (ErrObj ''Query read timeout'' [])
     else Inr emptyResult)\<rparr>"

text \<open>When a rollback fails too, the executor still gives the client back undestroyed, with its transaction
  open; the transaction helper of the data API destroys the client in this case.\<close>
theorem failed_rollback_keeps_client:
  "\<exists>D es. snd (execute D [demoPlan] demoOptions []) = es \<and> last es = EvRelease False \<and>
     tt_open (txTrack (dd_runtime D) [] noTx es) \<noteq> None"
proof -
  define D where "D = demoDdl\<lparr>dd_runtime := brokenRuntime\<rparr>"
  have "snd (execute D [demoPlan] demoOptions []) =
      [EvConnect, evBegin, EvQuery ADMIN_TRANSACTION_HARDENING_SQL [], evRollback, EvRelease False]"
    unfolding D_def by code_simp
  moreover have "tt_open (txTrack (dd_runtime D) [] noTx
      [EvConnect, evBegin, EvQuery ADMIN_TRANSACTION_HARDENING_SQL [], evRollback, EvRelease False]) \<noteq> None"
    unfolding D_def by code_simp
  ultimately show ?thesis by (intro exI [where x = D]) simp
qed

text \<open>Nothing is sent to the server, not even a connection is taken, unless every plan was sealed by
  the compiler and holds a statement; and then only the statements of the plans are sent as such.\<close>
theorem unsealed_plan_refused:
  assumes "\<exists>p\<in>set plans. \<not> pl_sealed p \<or> pl_statements p = []"
  shows "\<exists>e. execute D plans opts w = (Inl (AppErr e), w) \<and> ae_status e = 400"
proof -
  have "\<exists>m. plansStatements ps = Inl (invalidInput m)"
    if "\<exists>p\<in>set ps. \<not> pl_sealed p \<or> pl_statements p = []" for ps
    using that
  proof (induction ps)
    case (Cons p ps)
    then show ?case
      by (cases "pl_sealed p \<and> pl_statements p \<noteq> []") (auto simp: assertPlanSealed_def)
  qed simp
  moreover have "plans \<noteq> []" using assms by auto
  ultimately obtain m where "statementsOf plans = Inl (invalidInput m)"
    using assms by (auto simp: statementsOf_def)
  then show ?thesis by (simp add: execute_def io_simps invalidInput_def)
qed

lemma unsealed_plan_refused_witness:
  "\<exists>e. execute \<lparr>dd_runtime = okRuntime, dd_closed = False, dd_sha = id, dd_hmac = id\<rparr>
     [\<lparr>pl_statements = [''DROP TABLE users''], pl_description = [], pl_sealed = False\<rparr>]
     \<lparr>eo_key = ''k'', eo_commandType = ''x'', eo_command = JObj [], eo_actor = ''a'', eo_dryRun = False\<rparr> [] =
     (Inl (AppErr e), []) \<and> ae_status e = 400"
  by (rule unsealed_plan_refused) simp

subsection \<open>What an execution throws\<close>

definition throwsApp :: "'a io \<Rightarrow> bool" where
  "throwsApp m \<longleftrightarrow> (\<forall>w e w'. m w = (Inl e, w') \<longrightarrow> (\<exists>a. e = AppErr a))"

lemma throwsApp_translated:
  "throwsApp (catchM m (\<lambda>e. bindM (rollbackQuietly R) (\<lambda>_. throwM (AppErr (f e)))))"
  "throwsApp (catchM m (\<lambda>e. throwM (AppErr (f e))))"
  by (auto simp: throwsApp_def catchM_def bindM_def throwM_def rollbackQuietly_def io_simps
      split: prod.splits sum.splits)

lemma throwsApp_bind: "throwsApp m \<Longrightarrow> (\<And>x. throwsApp (f x)) \<Longrightarrow> throwsApp (bindM m f)"
  by (fastforce simp: throwsApp_def bindM_def split: prod.splits sum.splits)

lemma throwsApp_release: "throwsApp m \<Longrightarrow> throwsApp (finallyM m (releaseClient d))"
  by (auto simp: throwsApp_def finallyM_def releaseClient_def split: prod.splits)

lemma throwsApp_simple: "throwsApp (returnM x)" "throwsApp (throwM (AppErr a))" "throwsApp (rollbackQuietly R)"
  by (auto simp: throwsApp_def io_simps rollbackQuietly_def split: sum.splits)

lemma throwsApp_connect: "throwsApp (poolConnect R c)"
  by (auto simp: throwsApp_def poolConnect_def guardNotClosed_def io_simps split: sum.splits)

lemma throwsApp_dryRun: "throwsApp (executeDryRun D ss)"
  unfolding executeDryRun_def dryRunBody_def
  by (intro throwsApp_bind throwsApp_connect throwsApp_release throwsApp_translated throwsApp_simple)

text \<open>After \<open>BEGIN\<close> has been answered, only public errors are thrown.\<close>

definition afterBegin :: "ddl_env \<Rightarrow> string list \<Rightarrow> ExecuteOptions \<Rightarrow> ExecuteOutcome io" where
  "afterBegin D ss opts =
     bindM (beginPhase D ss opts) (\<lambda>begun.
       (case begun of
          Replay rec \<Rightarrow>
            bindM (rollbackQuietly (dd_runtime D)) (\<lambda>_.
              returnM \<lparr>ex_dryRun = False, ex_replayed = True, ex_record = Some rec\<rparr>)
        | InProgress rec \<Rightarrow>
            bindM (rollbackQuietly (dd_runtime D)) (\<lambda>_. throwM (AppErr (inProgressError (eo_key opts))))
        | Accepted rec retry \<Rightarrow> runPhase D ss opts rec))"

lemma throwsApp_afterBegin: "throwsApp (afterBegin D ss opts)"
  unfolding afterBegin_def
proof (rule throwsApp_bind)
  show "throwsApp (beginPhase D ss opts)" unfolding beginPhase_def by (rule throwsApp_translated)
  show "throwsApp (case begun of
          Replay rec \<Rightarrow>
            bindM (rollbackQuietly (dd_runtime D)) (\<lambda>_.
              returnM \<lparr>ex_dryRun = False, ex_replayed = True, ex_record = Some rec\<rparr>)
        | InProgress rec \<Rightarrow>
            bindM (rollbackQuietly (dd_runtime D)) (\<lambda>_. throwM (AppErr (inProgressError (eo_key opts))))
        | Accepted rec retry \<Rightarrow> runPhase D ss opts rec)" for begun
    by (cases begun)
       (auto simp: runPhase_def intro!: throwsApp_bind throwsApp_simple throwsApp_translated)
qed



end
