(* ===== verification/AdminLane.thy ===== *)
theory AdminLane
  imports Snapshot DdlAtomicity "HOL-Library.Sublist"
begin

text \<open>
  What the four command services of the admin lane share (\<open>src/database/schema-mutations.ts\<close>,
  \<open>schema-constraints.ts\<close>, \<open>schema-rls.ts\<close>, \<open>schema-exposure.ts\<close>): their dependencies, the look at the
  operation log, the guards over the catalogue, the call of the executor; and the contract under which
  their commands are proved safe.
\<close>

subsection \<open>Dependencies\<close>

text \<open>
  The pool is its \<open>query\<close>; the catalogue reader and the executor are their one operation each.  The registry
  is its content when a guard reads it.
\<close>

record admin_deps =
  ad_runtime :: runtime
  ad_query :: queryOp
  ad_catalogue :: "SchemaCatalogue io"
  ad_registry :: registry
  ad_adminRole :: string
  ad_runtimeRole :: string
  ad_sha :: "bytes \<Rightarrow> bytes"
  ad_hmac :: "bytes \<Rightarrow> bytes"
  ad_execute :: "DdlPlan list \<Rightarrow> ExecuteOptions \<Rightarrow> ExecuteOutcome io"

text \<open>The lane as \<open>main.ts\<close> composes it, everything on the admin pool.\<close>

definition adminLane :: "ddl_env \<Rightarrow> registry \<Rightarrow> string \<Rightarrow> string \<Rightarrow> admin_deps" where
  "adminLane D reg adminRole runtimeRole =
     (let query = poolQuery (dd_runtime D) (dd_closed D)
      in \<lparr>ad_runtime = dd_runtime D, ad_query = query,
          ad_catalogue = readSchemaCatalogue (dd_runtime D) query, ad_registry = reg,
          ad_adminRole = adminRole, ad_runtimeRole = runtimeRole,
          ad_sha = dd_sha D, ad_hmac = dd_hmac D, ad_execute = execute D\<rparr>)"

definition adminLog :: "admin_deps \<Rightarrow> log_env" where
  "adminLog d =
     \<lparr>le_runtime = ad_runtime d, le_sha = ad_sha d, le_hmac = ad_hmac d, le_query = ad_query d\<rparr>"

record MutationCommandBase =
  mb_key :: string
  mb_actor :: string
  mb_dryRun :: bool \<comment> \<open>\<open>input.dryRun === true\<close>\<close>

record TableCommand = MutationCommandBase +
  tc_schema :: string
  tc_table :: string

record ColumnCommand = TableCommand +
  cc_column :: string

subsection \<open>Errors and guards\<close>

definition refuse :: "string \<Rightarrow> thrown" where
  "refuse message = AppErr (mkErr VALIDATION_ERROR message 400 None)"

definition notFound :: "string \<Rightarrow> thrown" where
  "notFound message = AppErr (mkErr TABLE_NOT_FOUND message 404 None)"

definition conflict :: "string \<Rightarrow> thrown" where
  "conflict message = AppErr (mkErr CONFLICT message 409 None)"

definition schemaOperationFailed :: thrown where
  "schemaOperationFailed = AppErr (mkErr INTERNAL_ERROR ''Schema operation failed'' 500 None)"

text \<open>\<open>if (b) throw e\<close>.\<close>

definition guardR :: "bool \<Rightarrow> thrown \<Rightarrow> thrown + unit" where
  "guardR b e = (if b then Inl e else Inr ())"

definition assertOperatorSchema :: "string \<Rightarrow> thrown + unit" where
  "assertOperatorSchema schema =
     guardR (classifySchemaObject (toLowerCase schema) \<noteq> OperatorObject)
       (refuse ''Internal schemas cannot be modified'')"

definition requireSchema :: "SchemaCatalogue \<Rightarrow> string \<Rightarrow> thrown + SchemaCatalogueSchema" where
  "requireSchema catalogue schema =
     bindR (assertOperatorSchema schema) (\<lambda>_.
       (case find (\<lambda>e. cs_name e = schema) (ca_schemas catalogue) of
          None \<Rightarrow> Inl (notFound ''Referenced schema does not exist'')
        | Some found \<Rightarrow> Inr found))"

definition requireTable :: "SchemaCatalogue \<Rightarrow> string \<Rightarrow> string \<Rightarrow> thrown + SchemaCatalogueTable" where
  "requireTable catalogue schema table =
     bindR (requireSchema catalogue schema) (\<lambda>s.
       (case find (\<lambda>e. ct_name e = table) (cs_tables s) of
          None \<Rightarrow> Inl (notFound ''Referenced table does not exist'')
        | Some found \<Rightarrow> Inr found))"

definition assertOwned :: "admin_deps \<Rightarrow> SchemaCatalogueTable \<Rightarrow> thrown + unit" where
  "assertOwned d table =
     guardR (ct_owner table \<noteq> ad_adminRole d)
       (refuse ''Only tables owned by the schema-admin role can be mutated'')"

definition registered :: "registry \<Rightarrow> string \<Rightarrow> string \<Rightarrow> bool" where
  "registered reg schema table \<longleftrightarrow>
     list_ex (\<lambda>e. et_schema e = schema \<and> et_table e = table) (registryList reg)"

subsection \<open>Replay first, then the executor\<close>

definition hasExistingRecord :: "admin_deps \<Rightarrow> string \<Rightarrow> bool io" where
  "hasExistingRecord d key = bindM (logGet (adminLog d) key) (\<lambda>r. returnM (r \<noteq> None))"

definition preflightApplies :: "admin_deps \<Rightarrow> 'a MutationCommandBase_scheme \<Rightarrow> bool io" where
  "preflightApplies d input =
     (if mb_dryRun input then returnM True
      else bindM (hasExistingRecord d (mb_key input)) (\<lambda>b. returnM (\<not> b)))"

definition preflight :: "admin_deps \<Rightarrow> 'a MutationCommandBase_scheme \<Rightarrow> unit io \<Rightarrow> unit io" where
  "preflight d input checks = bindM (preflightApplies d input) (\<lambda>b. if b then checks else returnM ())"

definition submit ::
  "admin_deps \<Rightarrow> 'a MutationCommandBase_scheme \<Rightarrow> string \<Rightarrow> json \<Rightarrow> DdlPlan list \<Rightarrow> ExecuteOutcome io" where
  "submit d input commandType command plans =
     ad_execute d plans
       \<lparr>eo_key = mb_key input, eo_commandType = commandType, eo_command = command,
        eo_actor = mb_actor input, eo_dryRun = mb_dryRun input\<rparr>"

text \<open>The members \<open>schema\<close> and \<open>table\<close> every recorded command starts with.\<close>

definition tableMembers :: "string \<Rightarrow> string \<Rightarrow> (string \<times> json) list" where
  "tableMembers schema table = [(''schema'', JStr schema), (''table'', JStr table)]"

subsection \<open>What a command may do before the executor\<close>

text \<open>Before the executor a command only asks the pool.\<close>

fun poolRead :: "event \<Rightarrow> bool" where
  "poolRead (EvPool t vs) = True"
| "poolRead _ = False"

definition reads :: "event list \<Rightarrow> event list \<Rightarrow> bool" where
  "reads w w' \<longleftrightarrow> (\<exists>es. w' = w @ es \<and> list_all poolRead es)"

lemma reads_refl [simp]: "reads w w"
  by (simp add: reads_def)

lemma reads_trans: "reads w v \<Longrightarrow> reads v u \<Longrightarrow> reads w u"
  unfolding reads_def by force

lemma reads_prefix: "reads w v \<Longrightarrow> prefix w v"
  by (auto simp: reads_def)

lemma emitsOnly_reads: "emitsOnly poolRead m \<Longrightarrow> m w = (r, w') \<Longrightarrow> reads w w'"
  unfolding emitsOnly_def reads_def by (drule outcomeD) auto

text \<open>
  \<open>vetted d A m\<close>: \<open>m\<close> only reads, and returns only after it read a catalogue that satisfies \<open>A\<close>.
  \<open>cleared\<close>: the same of a stretch of history, or the key's record was found there and the command is no dry
  run.  \<open>gated\<close>: \<open>m\<close> throws after reads alone, or is a cleared call of the executor.
\<close>

definition sawCatalogue :: "admin_deps \<Rightarrow> (SchemaCatalogue \<Rightarrow> bool) \<Rightarrow> event list \<Rightarrow> event list \<Rightarrow> bool" where
  "sawCatalogue d A w w' \<longleftrightarrow>
     (\<exists>v v' cat. prefix w v \<and> ad_catalogue d v = (Inr cat, v') \<and> prefix v' w' \<and> A cat)"

definition sawRecord :: "admin_deps \<Rightarrow> string \<Rightarrow> event list \<Rightarrow> event list \<Rightarrow> bool" where
  "sawRecord d key w w' \<longleftrightarrow>
     (\<exists>v v' rec. prefix w v \<and> logGet (adminLog d) key v = (Inr (Some rec), v') \<and> prefix v' w')"

definition vetted :: "admin_deps \<Rightarrow> (SchemaCatalogue \<Rightarrow> bool) \<Rightarrow> 'a io \<Rightarrow> bool" where
  "vetted d A m \<longleftrightarrow>
     (\<forall>w r w'. m w = (r, w') \<longrightarrow> reads w w' \<and> (\<forall>x. r = Inr x \<longrightarrow> sawCatalogue d A w w'))"

definition cleared ::
  "admin_deps \<Rightarrow> bool \<Rightarrow> string \<Rightarrow> (SchemaCatalogue \<Rightarrow> bool) \<Rightarrow> event list \<Rightarrow> event list \<Rightarrow> bool" where
  "cleared d dry key A w w' \<longleftrightarrow> \<not> dry \<and> sawRecord d key w w' \<or> sawCatalogue d A w w'"

definition staged :: "admin_deps \<Rightarrow> bool \<Rightarrow> string \<Rightarrow> (SchemaCatalogue \<Rightarrow> bool) \<Rightarrow> 'a io \<Rightarrow> bool" where
  "staged d dry key A m \<longleftrightarrow>
     (\<forall>w r w'. m w = (r, w') \<longrightarrow> reads w w' \<and> (\<forall>x. r = Inr x \<longrightarrow> cleared d dry key A w w'))"

definition submits :: "admin_deps \<Rightarrow> (DdlPlan list \<Rightarrow> ExecuteOptions \<Rightarrow> bool) \<Rightarrow> ExecuteOutcome io \<Rightarrow> bool" where
  "submits d P m \<longleftrightarrow>
     (\<forall>w. (\<exists>e. m w = (Inl e, w)) \<or> (\<exists>plans opts. P plans opts \<and> m w = ad_execute d plans opts w))"

definition gated ::
  "admin_deps \<Rightarrow> bool \<Rightarrow> string \<Rightarrow> (SchemaCatalogue \<Rightarrow> bool) \<Rightarrow> (DdlPlan list \<Rightarrow> ExecuteOptions \<Rightarrow> bool) \<Rightarrow>
   ExecuteOutcome io \<Rightarrow> bool" where
  "gated d dry key A P m \<longleftrightarrow>
     (\<forall>w. (\<exists>e w'. m w = (Inl e, w') \<and> reads w w') \<or>
          (\<exists>plans opts w'. P plans opts \<and> reads w w' \<and> cleared d dry key A w w' \<and>
             m w = ad_execute d plans opts w'))"

subsection \<open>Rules\<close>

lemma liftR_bind: "bindM (liftR r) f w = (case r of Inl e \<Rightarrow> (Inl e, w) | Inr x \<Rightarrow> f x w)"
  by (simp add: bindM_def liftR_def split: sum.split)

lemma gated_check: "(\<And>x. r = Inr x \<Longrightarrow> gated d dry key A P (f x)) \<Longrightarrow> gated d dry key A P (bindM (liftR r) f)"
  by (cases r) (auto simp: gated_def liftR_bind)

lemma submits_check: "(\<And>x. r = Inr x \<Longrightarrow> submits d P (f x)) \<Longrightarrow> submits d P (bindM (liftR r) f)"
  by (cases r) (auto simp: submits_def liftR_bind)

lemma submits_execute: "P plans opts \<Longrightarrow> submits d P (ad_execute d plans opts)"
  unfolding submits_def by blast

lemma gated_stage:
  assumes "staged d dry key A m" and "\<And>x. submits d P (f x)"
  shows "gated d dry key A P (bindM m f)"
  unfolding gated_def
proof
  fix w
  obtain r w' where m: "m w = (r, w')" by (cases "m w")
  show "(\<exists>e w'. bindM m f w = (Inl e, w') \<and> reads w w') \<or>
      (\<exists>plans opts w'. P plans opts \<and> reads w w' \<and> cleared d dry key A w w' \<and>
         bindM m f w = ad_execute d plans opts w')"
  proof (cases r)
    case (Inl e)
    with m assms(1) show ?thesis unfolding staged_def by (auto simp: bindM_def)
  next
    case (Inr x)
    with m assms(1) have "reads w w'" "cleared d dry key A w w'" unfolding staged_def by blast+
    moreover from assms(2) [of x] have "(\<exists>e. f x w' = (Inl e, w')) \<or>
        (\<exists>plans opts. P plans opts \<and> f x w' = ad_execute d plans opts w')" unfolding submits_def by blast
    moreover have "bindM m f w = f x w'" using m Inr by (simp add: bindM_def)
    ultimately show ?thesis by metis
  qed
qed

lemma vetted_check: "(\<And>x. r = Inr x \<Longrightarrow> vetted d A (f x)) \<Longrightarrow> vetted d A (bindM (liftR r) f)"
  by (cases r) (auto simp: vetted_def liftR_bind)

lemma vetted_catalogue:
  assumes "emitsOnly poolRead (ad_catalogue d)" and "\<And>cat. emitsOnly poolRead (k cat)"
    and "\<And>cat. yields (k cat) (\<lambda>_. A cat)"
  shows "vetted d A (bindM (ad_catalogue d) k)"
  unfolding vetted_def
proof (intro allI impI)
  fix w r w' assume run: "bindM (ad_catalogue d) k w = (r, w')"
  obtain c v where c: "ad_catalogue d w = (c, v)" by (cases "ad_catalogue d w")
  note rc = emitsOnly_reads [OF assms(1) c]
  show "reads w w' \<and> (\<forall>x. r = Inr x \<longrightarrow> sawCatalogue d A w w')"
  proof (cases c)
    case (Inl e)
    with run c rc show ?thesis by (auto simp: bindM_def)
  next
    case (Inr cat)
    with run c have k: "k cat v = (r, w')" by (simp add: bindM_def)
    note rk = emitsOnly_reads [OF assms(2) k]
    have "sawCatalogue d A w w'" if "r = Inr x" for x
      using c Inr reads_prefix [OF rk] yieldsD [OF assms(3), of cat v x w'] k that
      unfolding sawCatalogue_def by (intro exI [where x = w] exI [where x = v] exI [where x = cat]) simp
    with reads_trans [OF rc rk] show ?thesis by blast
  qed
qed

lemma emits_adminGet:
  assumes "\<And>sql vs. emitsOnly poolRead (ad_query d sql vs)"
  shows "emitsOnly poolRead (logGet (adminLog d) key)"
  unfolding logGet_def queryRow_def adminLog_def
  by (auto intro!: io_intros assms split: list.split)

text \<open>The look at the log, then the checks unless a record was found.\<close>

lemma staged_lookup:
  assumes q: "\<And>sql vs. emitsOnly poolRead (ad_query d sql vs)"
    and fresh: "vetted d A (f None)" and seen: "\<And>rec. (if dry then vetted d A (f (Some rec)) else emitsOnly poolRead (f (Some rec)))"
  shows "staged d dry key A (bindM (logGet (adminLog d) key) f)"
  unfolding staged_def
proof (intro allI impI)
  fix w r w' assume run: "bindM (logGet (adminLog d) key) f w = (r, w')"
  obtain g v where g: "logGet (adminLog d) key w = (g, v)" by (cases "logGet (adminLog d) key w")
  note rg = emitsOnly_reads [OF emits_adminGet [OF q] g]
  show "reads w w' \<and> (\<forall>x. r = Inr x \<longrightarrow> cleared d dry key A w w')"
  proof (cases g)
    case (Inl e)
    with run g rg show ?thesis by (auto simp: bindM_def)
  next
    case (Inr found)
    with run g have f: "f found v = (r, w')" by (simp add: bindM_def)
    have vet: "reads w w' \<and> (\<forall>x. r = Inr x \<longrightarrow> cleared d dry key A w w')" if "vetted d A (f found)"
    proof -
      from that f have "reads v w'" "\<forall>x. r = Inr x \<longrightarrow> sawCatalogue d A v w'" unfolding vetted_def by blast+
      moreover have "sawCatalogue d A v w' \<Longrightarrow> sawCatalogue d A w w'"
        unfolding sawCatalogue_def using reads_prefix [OF rg] by (meson prefix_order.trans)
      ultimately show ?thesis using reads_trans [OF rg] unfolding cleared_def by blast
    qed
    show ?thesis
    proof (cases "found = None \<or> dry")
      case True
      then show ?thesis using vet fresh seen by (cases found) auto
    next
      case False
      then obtain rec where rec: "found = Some rec" by auto
      with False seen have "emitsOnly poolRead (f found)" by auto
      from emitsOnly_reads [OF this f] have rf: "reads v w'" .
      moreover have "cleared d dry key A w w'"
        using False rec g Inr reads_prefix [OF rf] unfolding cleared_def sawRecord_def by blast
      ultimately show ?thesis using reads_trans [OF rg] by blast
    qed
  qed
qed

lemma vetted_staged: "vetted d A m \<Longrightarrow> staged d dry key A m"
  unfolding vetted_def staged_def cleared_def by blast

lemma bindM_assoc: "bindM (bindM m f) g = bindM m (\<lambda>x. bindM (f x) g)"
  by (rule ext) (auto simp: bindM_def split: prod.splits sum.splits)

lemma bindM_return [simp]: "bindM (returnM x) f = f x"
  by (rule ext) (simp add: bindM_def returnM_def)

lemma staged_preflight:
  assumes q: "\<And>sql vs. emitsOnly poolRead (ad_query d sql vs)" and checks: "vetted d A checks"
  shows "staged d (mb_dryRun input) (mb_key input) A (preflight d input checks)"
proof (cases "mb_dryRun input")
  case True
  then show ?thesis using checks by (simp add: preflight_def preflightApplies_def vetted_staged)
next
  case False
  then show ?thesis
    unfolding preflight_def preflightApplies_def hasExistingRecord_def
    by (simp add: bindM_assoc)
       (rule staged_lookup [OF q], use checks in \<open>auto intro: io_intros\<close>)
qed

subsection \<open>The contract of the lane\<close>

lemma planStatements_quiet: "list_all (\<lambda>e. extended e = None) es \<Longrightarrow> planStatements es = []"
  by (induction es) (simp_all add: planStatements_def List.map_filter_simps)

lemma planStatements_reads: "reads w w' \<Longrightarrow> \<exists>es. w' = w @ es \<and> planStatements es = []"
proof -
  have "poolRead e \<Longrightarrow> extended e = None" for e by (cases e) auto
  then have "list_all poolRead es \<Longrightarrow> planStatements es = []" for es
    by (intro planStatements_quiet) (auto simp: list_all_iff)
  then show "reads w w' \<Longrightarrow> ?thesis" unfolding reads_def by blast
qed

text \<open>
  The pool and the catalogue reader only ask the pool; the executor sends the statements of the plans it was
  given, in order and as far as it gets, and no other statement as such.
\<close>

locale admin_lane =
  fixes d :: admin_deps
  assumes query_reads: "emitsOnly poolRead (ad_query d sql vs)"
    and catalogue_reads: "emitsOnly poolRead (ad_catalogue d)"
    and executor_sends: "outcome (ad_execute d plans opts)
      (\<lambda>es r. planStatements es = [] \<or> (\<exists>ss. statementsOf plans = Inr ss \<and> prefix (planStatements es) ss))"
begin

text \<open>A gated command whose statements reach the server was cleared before the first of them.\<close>

lemma gated_sends:
  assumes "gated d dry key A P m" and "m w = (r, w')"
  shows "\<exists>es. w' = w @ es \<and>
    (planStatements es \<noteq> [] \<longrightarrow>
      (\<exists>v plans opts ss. prefix v w' \<and> reads w v \<and> cleared d dry key A w v \<and> P plans opts \<and>
         statementsOf plans = Inr ss \<and> prefix (planStatements es) ss))"
proof -
  from assms consider
      e where "r = Inl e" "reads w w'"
    | plans opts v where "P plans opts" "reads w v" "cleared d dry key A w v" "ad_execute d plans opts v = (r, w')"
    unfolding gated_def by (metis prod.inject)
  then show ?thesis
  proof cases
    case 1
    then show ?thesis using planStatements_reads [OF 1(2)] by blast
  next
    case 2
    from outcomeD [OF executor_sends 2(4)] obtain es where es: "w' = v @ es"
      "planStatements es = [] \<or> (\<exists>ss. statementsOf plans = Inr ss \<and> prefix (planStatements es) ss)" by blast
    from planStatements_reads [OF 2(2)] obtain es0 where es0: "v = w @ es0" "planStatements es0 = []" by blast
    have s: "w' = w @ (es0 @ es)" "planStatements (es0 @ es) = planStatements es" "prefix v w'" using es es0 by simp_all
    show ?thesis
    proof (rule exI [where x = "es0 @ es"], intro conjI impI)
      assume "planStatements (es0 @ es) \<noteq> []"
      with s es obtain ss where "statementsOf plans = Inr ss" "prefix (planStatements (es0 @ es)) ss" by auto
      with s 2 show "\<exists>v plans opts ss. prefix v w' \<and> reads w v \<and> cleared d dry key A w v \<and> P plans opts \<and>
         statementsOf plans = Inr ss \<and> prefix (planStatements (es0 @ es)) ss" by blast
    qed (rule s)
  qed
qed

end

subsection \<open>The composed lane keeps the contract\<close>

lemma planStatements_perform: "extended ev = None \<Longrightarrow> outcome (perform R ev) (\<lambda>es r. planStatements es = [])"
  by (rule outcome_perform) (simp add: planStatements_def List.map_filter_simps)

abbreviation silent :: "event \<Rightarrow> bool" where
  "silent e \<equiv> extended e = None"

lemma emits_silent_statements: "emitsOnly silent m \<Longrightarrow> outcome m (\<lambda>es r. planStatements es = [])"
  unfolding emitsOnly_def by (erule outcome_weaken) (rule planStatements_quiet)

lemma silent_finally:
  assumes "outcome m P" and "emitsOnly silent f"
    and "\<And>es r. P es r \<Longrightarrow> Q (planStatements es)"
  shows "outcome (finallyM m f) (\<lambda>es r. Q (planStatements es))"
  unfolding outcome_def
proof
  fix w
  obtain es r where m: "m w = (r, w @ es)" "P es r" using outcome_run [OF assms(1)] by blast
  obtain es' u where f: "f (w @ es) = (u, (w @ es) @ es')" "planStatements es' = []"
    using outcome_run [OF emits_silent_statements [OF assms(2)]] by blast
  show "\<exists>es r. finallyM m f w = (r, w @ es) \<and> Q (planStatements es)"
    using m f assms(3) [OF m(2)]
    by (intro exI [where x = "es @ es'"] exI [where x = "case u of Inl e \<Rightarrow> Inl e | Inr x \<Rightarrow> r"])
       (auto simp: finallyM_def split: sum.split)
qed

lemma sent_statements: "outcome (runStatements R ss) (\<lambda>es r. prefix (planStatements es) ss)"
proof (induction ss)
  case (Cons s ss)
  show ?case unfolding runStatements.simps
  proof (rule outcome_bind [where P = "\<lambda>es r. es = [EvExtended s]"])
    show "outcome (runPlanStatement R s) (\<lambda>es r. es = [EvExtended s])"
      unfolding runPlanStatement_def
      by (rule outcome_bind [OF outcome_perform [where P = "\<lambda>es r. es = [EvExtended s]"]]) (auto intro: outcome_return)
  qed (auto intro: outcome_weaken [OF Cons])
qed (simp add: outcome_return)

abbreviation sendsUpTo :: "string list \<Rightarrow> 'a io \<Rightarrow> bool" where
  "sendsUpTo ss m \<equiv> outcome m (\<lambda>es r. prefix (planStatements es) ss)"

lemma silent_sends: "emitsOnly silent m \<Longrightarrow> sendsUpTo ss m"
  by (rule outcome_weaken [OF emits_silent_statements]) auto

lemma sends_after_silent: "emitsOnly silent m \<Longrightarrow> (\<And>x. sendsUpTo ss (f x)) \<Longrightarrow> sendsUpTo ss (bindM m f)"
  by (rule outcome_bind [OF emits_silent_statements]) (auto intro: outcome_weaken)

lemma silent_after_sends:
  "sendsUpTo ss m \<Longrightarrow> (\<And>x. emitsOnly silent (f x)) \<Longrightarrow> sendsUpTo ss (bindM m f)"
  "sendsUpTo ss m \<Longrightarrow> (\<And>e. emitsOnly silent (k e)) \<Longrightarrow> sendsUpTo ss (catchM m k)"
  by (rule outcome_bind, assumption, simp, rule outcome_weaken [OF emits_silent_statements], simp_all)
     (rule outcome_catch, assumption, simp, rule outcome_weaken [OF emits_silent_statements], simp_all)

lemma sends_finally: "sendsUpTo ss m \<Longrightarrow> emitsOnly silent f \<Longrightarrow> sendsUpTo ss (finallyM m f)"
  using silent_finally [where Q = "\<lambda>xs. prefix xs ss"] by blast

lemma silent_release: "emitsOnly silent (releaseClient b)"
  by (simp add: emitsOnly_def outcome_def releaseClient_def)

lemma silent_connect: "emitsOnly silent (poolConnect R c)"
  unfolding poolConnect_def guardNotClosed_def by (auto intro!: io_intros)

lemma silent_log: "emitsOnly logEvent m \<Longrightarrow> emitsOnly silent m"
proof (erule emitsOnly_mono)
  show "logEvent e \<Longrightarrow> silent e" for e by (cases e) auto
qed

lemma silent_client: "emitsOnly silent (clientQuery R t vs)"
  by (auto intro!: io_intros)

lemma silent_rollback: "emitsOnly silent (rollbackQuietly R)"
  unfolding rollbackQuietly_def by (intro io_intros) simp_all

lemma silent_harden: "emitsOnly silent (hardenAndLock R)"
  unfolding hardenAndLock_def by (intro io_intros) simp_all

lemma silent_begin: "emitsOnly silent (beginPhase D ss opts)"
  unfolding beginPhase_def by (intro io_intros silent_harden silent_rollback silent_log [OF emits_logBegin])

lemma silent_succeed: "emitsOnly silent (logSucceed (executorLog D key) i res)"
  unfolding logSucceed_def
  by (rule silent_log, intro io_intros emits_queryRow)
     (auto simp: LOG_STATEMENTS_def intro!: io_intros emits_getById)

lemma sends_run: "sendsUpTo ss (runPhase D ss opts rec)"
  unfolding runPhase_def
  by (intro silent_after_sends sent_statements io_intros silent_succeed silent_client silent_rollback)

lemma sends_real: "sendsUpTo ss (executeReal D ss opts)"
proof -
  have "sendsUpTo ss (case begun of
      Replay rec \<Rightarrow> bindM (rollbackQuietly (dd_runtime D)) (\<lambda>_.
        returnM \<lparr>ex_dryRun = False, ex_replayed = True, ex_record = Some rec\<rparr>)
    | InProgress rec \<Rightarrow> bindM (rollbackQuietly (dd_runtime D)) (\<lambda>_. throwM (AppErr (inProgressError (eo_key opts))))
    | Accepted rec retry \<Rightarrow> runPhase D ss opts rec)" for begun
    by (cases begun) (auto intro!: silent_sends sends_run io_intros silent_rollback)
  then show ?thesis unfolding executeReal_def
    by (intro sends_after_silent sends_finally silent_connect silent_release silent_client silent_begin)
qed

lemma sends_dry: "sendsUpTo ss (executeDryRun D ss)"
  unfolding executeDryRun_def dryRunBody_def
  by (intro sends_after_silent silent_after_sends sends_finally silent_connect silent_release silent_client silent_harden
      sent_statements io_intros) simp_all

lemma execute_sends:
  "outcome (execute D plans opts)
     (\<lambda>es r. planStatements es = [] \<or> (\<exists>ss. statementsOf plans = Inr ss \<and> prefix (planStatements es) ss))"
  unfolding execute_def
  by (rule outcome_liftR_bind)
     (auto intro: outcome_weaken [OF sends_real] outcome_weaken [OF sends_dry])

lemma pool_reads: "emitsOnly poolRead (poolQuery R c sql vs)"
  unfolding poolQuery_def guardNotClosed_def by (auto intro!: io_intros)

interpretation lane: admin_lane "adminLane D reg adminRole runtimeRole" for D reg adminRole runtimeRole
proof
  show "emitsOnly poolRead (ad_query (adminLane D reg adminRole runtimeRole) sql vs)" for sql vs
    by (simp add: adminLane_def Let_def pool_reads)
  show "emitsOnly poolRead (ad_catalogue (adminLane D reg adminRole runtimeRole))"
    unfolding adminLane_def readSchemaCatalogue_def by (auto simp: Let_def intro!: io_intros pool_reads)
  show "outcome (ad_execute (adminLane D reg adminRole runtimeRole) plans opts)
      (\<lambda>es r. planStatements es = [] \<or> (\<exists>ss. statementsOf plans = Inr ss \<and> prefix (planStatements es) ss))" for plans opts
    using execute_sends by (simp add: adminLane_def Let_def)
qed

end
