(* ===== verification/Mutations.thy ===== *)
theory Mutations
  imports AdminLane
begin

text \<open>
  The typed table and column commands of \<open>src/database/schema-mutations.ts\<close>, one definition per command:
  syntactic checks, the preflight over log and catalogue, the compiled plan behind the exposure guard, the
  recorded command, the executor.
\<close>

subsection \<open>Commands\<close>

record ManagedColumnSpec =
  mc_name :: string
  mc_type :: string
  mc_nullable :: bool
  mc_default :: DdlColumnDefault

record CreateTableCommand = TableCommand +
  cr_columns :: "ManagedColumnSpec list"

record RenameTableCommand = TableCommand +
  rt_newName :: string

record DropTableCommand = TableCommand +
  dt_confirm :: string

record AddColumnCommand = TableCommand +
  ac_column :: ManagedColumnSpec

record RenameColumnCommand = ColumnCommand +
  rc_newName :: string

record DropColumnCommand = ColumnCommand +
  dc_confirm :: string

record SetColumnDefaultCommand = ColumnCommand +
  sd_default :: DdlColumnDefault

record ChangeColumnTypeCommand = ColumnCommand +
  tt_toType :: DdlColumnType

subsection \<open>Checks without the database\<close>

definition assertNotReservedTableName :: "string \<Rightarrow> thrown + unit" where
  "assertNotReservedTableName name =
     guardR (startsWith (toLowerCase name) ''pg_'') (refuse ''Table names starting with pg_ are reserved'')"

definition assertNotIdColumnName :: "string \<Rightarrow> thrown + unit" where
  "assertNotIdColumnName name =
     guardR (toLowerCase name = ''id'')
       (refuse (''The '' @ inQuotes ''id'' @ '' column is managed by the table lifecycle''))"

text \<open>The JSON of a primitive; no other literal survives the compiler, which runs first.\<close>

fun primitiveJson :: "jsval \<Rightarrow> json" where
  "primitiveJson (VStr s) = JStr s"
| "primitiveJson (VNum n) = JNum n"
| "primitiveJson (VBool b) = JBool b"
| "primitiveJson _ = JNull"

fun defaultJson :: "DdlColumnDefault \<Rightarrow> json" where
  "defaultJson DefNone = JObj [(''kind'', JStr ''none'')]"
| "defaultJson (DefLiteral v) = JObj [(''kind'', JStr ''literal''), (''value'', primitiveJson v)]"
| "defaultJson DefCurrentTimestamp = JObj [(''kind'', JStr ''current_timestamp'')]"
| "defaultJson DefRandomUuid = JObj [(''kind'', JStr ''random_uuid'')]"

definition describeColumn :: "ManagedColumnSpec \<Rightarrow> json" where
  "describeColumn c =
     JObj [(''name'', JStr (mc_name c)), (''type'', JStr (mc_type c)), (''nullable'', JBool (mc_nullable c)),
           (''default'', defaultJson (mc_default c))]"

definition mapCatalogueType :: "string \<Rightarrow> DdlColumnType option" where
  "mapCatalogueType = map_of
     [(''text'', TyText), (''integer'', TyInteger), (''bigint'', TyBigint), (''boolean'', TyBoolean),
      (''uuid'', TyUuid), (''timestamp without time zone'', TyTimestamp),
      (''timestamp with time zone'', TyTimestamptz), (''date'', TyDate), (''numeric'', TyNumeric),
      (''jsonb'', TyJsonb)]"

subsection \<open>Checks over the catalogue\<close>

definition primaryKeyColumns :: "SchemaCatalogueTable \<Rightarrow> string list" where
  "primaryKeyColumns table =
     (case find (\<lambda>c. cn_classification c = PrimaryKey) (ct_constraints table) of
        Some c \<Rightarrow> cn_columns c
      | None \<Rightarrow> [])"

definition columnHasDependencies :: "SchemaCatalogueTable \<Rightarrow> string \<Rightarrow> bool" where
  "columnHasDependencies table column \<longleftrightarrow>
     list_ex (\<lambda>c. column \<in> set (cn_columns c)) (ct_constraints table) \<or>
     list_ex (\<lambda>i. Some column \<in> set (ix_columns i)) (ct_indexes table)"

definition blocksDrop :: "string \<Rightarrow> string \<Rightarrow> SchemaCatalogueTable \<Rightarrow> SchemaConstraint \<Rightarrow> bool" where
  "blocksDrop schema table t c \<longleftrightarrow>
     (case cn_references c of
        None \<Rightarrow> False
      | Some target \<Rightarrow>
          ft_schema target = schema \<and> ft_table target = table \<and>
          (ct_schema t \<noteq> schema \<or> ct_name t \<noteq> table))"

definition countForeignKeyReferences :: "SchemaCatalogue \<Rightarrow> string \<Rightarrow> string \<Rightarrow> nat" where
  "countForeignKeyReferences catalogue schema table =
     sum_list (map (\<lambda>s. sum_list (map (\<lambda>t. length (filter (blocksDrop schema table t) (ct_constraints t)))
       (cs_tables s))) (ca_schemas catalogue))"

definition ID_COLUMN_SPEC :: ManagedColumnSpec where
  "ID_COLUMN_SPEC = \<lparr>mc_name = ''id'', mc_type = ''uuid'', mc_nullable = False, mc_default = DefRandomUuid\<rparr>"

definition assertNotExposed :: "admin_deps \<Rightarrow> string \<Rightarrow> string \<Rightarrow> thrown + unit" where
  "assertNotExposed d schema table =
     guardR (registered (ad_registry d) schema table)
       (conflict ''Table is exposed to the data API and must be unexposed before it can be mutated'')"

definition guardExposed :: "string \<Rightarrow> string \<Rightarrow> DdlPlan \<Rightarrow> thrown + DdlPlan list" where
  "guardExposed schema table plan =
     bindR (compileAssertNotExposed schema table) (\<lambda>g. Inr [g, plan])"

definition requireColumn :: "SchemaCatalogueTable \<Rightarrow> string \<Rightarrow> thrown + SchemaCatalogueColumn" where
  "requireColumn table column =
     (case find (\<lambda>e. sc_name e = column) (ct_columns table) of
        None \<Rightarrow> Inl (notFound ''Referenced column does not exist'')
      | Some found \<Rightarrow> Inr found)"

definition assertPlainColumn :: "SchemaCatalogueColumn \<Rightarrow> thrown + unit" where
  "assertPlainColumn column =
     bindR (guardR (sc_generated column \<noteq> NotGenerated) (refuse ''Generated columns cannot be modified'')) (\<lambda>_.
       guardR (sc_identity column \<noteq> NoIdentity) (refuse ''Identity columns cannot be modified''))"

definition assertNotPrimaryKeyColumn :: "SchemaCatalogueTable \<Rightarrow> string \<Rightarrow> thrown + unit" where
  "assertNotPrimaryKeyColumn table column =
     guardR (column \<in> set (primaryKeyColumns table)) (refuse ''Primary key columns cannot be modified'')"

text \<open>The four steps most commands open their preflight with.\<close>

definition mutableTable ::
  "admin_deps \<Rightarrow> string \<Rightarrow> string \<Rightarrow> SchemaCatalogue \<Rightarrow> thrown + SchemaCatalogueTable" where
  "mutableTable d schema table catalogue =
     bindR (requireTable catalogue schema table) (\<lambda>t.
     bindR (assertOwned d t) (\<lambda>_.
     bindR (assertNotExposed d schema table) (\<lambda>_. Inr t)))"

text \<open>A query that answers with one boolean.\<close>

definition booleanAnswer :: "string \<Rightarrow> qresult \<Rightarrow> thrown + bool" where
  "booleanAnswer field result =
     (case row0 result of
        None \<Rightarrow> Inl schemaOperationFailed
      | Some r \<Rightarrow> (case propOf r field of VBool b \<Rightarrow> Inr b | _ \<Rightarrow> Inl schemaOperationFailed))"

definition tableHasRows :: "admin_deps \<Rightarrow> string \<Rightarrow> string \<Rightarrow> bool io" where
  "tableHasRows d schema table =
     bindM (liftR (quoteIdentifier schema)) (\<lambda>s.
     bindM (liftR (quoteIdentifier table)) (\<lambda>t.
     bindM (ad_query d (''SELECT EXISTS (SELECT 1 FROM '' @ s @ ''.'' @ t @ '' LIMIT 1) AS has_rows'') []) (\<lambda>result.
       liftR (booleanAnswer ''has_rows'' result))))"

definition columnHasNulls :: "admin_deps \<Rightarrow> string \<Rightarrow> string \<Rightarrow> string \<Rightarrow> bool io" where
  "columnHasNulls d schema table column =
     bindM (liftR (quoteIdentifier schema)) (\<lambda>s.
     bindM (liftR (quoteIdentifier table)) (\<lambda>t.
     bindM (liftR (quoteIdentifier column)) (\<lambda>c.
     bindM (ad_query d
              (''SELECT EXISTS (SELECT 1 FROM '' @ s @ ''.'' @ t @ '' WHERE '' @ c @
               '' IS NULL LIMIT 1) AS has_nulls'') []) (\<lambda>result.
       liftR (booleanAnswer ''has_nulls'' result)))))"

definition recordedCommandType :: "heap \<Rightarrow> SchemaOperationRecord \<Rightarrow> string \<Rightarrow> thrown + DdlColumnType" where
  "recordedCommandType h record field =
     (let value = (if isJsonObject h (so_command record) then propOf (ownProps h (so_command record)) field
                   else VUndef)
      in case (case value of VStr s \<Rightarrow> isDdlColumnType s | _ \<Rightarrow> None) of
           None \<Rightarrow> Inl (malformedRecord (''command.'' @ field @ '' is not a managed column type''))
         | Some t \<Rightarrow> Inr t)"

subsection \<open>Tables\<close>

definition columnSpec :: "ManagedColumnSpec \<Rightarrow> bool \<Rightarrow> DdlColumnSpec" where
  "columnSpec c primaryKey =
     \<lparr>dc_name = mc_name c, dc_type = mc_type c, dc_nullable = mc_nullable c, dc_default = mc_default c,
      dc_primaryKey = primaryKey\<rparr>"

definition checkColumnName :: "ManagedColumnSpec \<Rightarrow> thrown + unit" where
  "checkColumnName c =
     bindR (assertDdlIdentifier (mc_name c)) (\<lambda>_. assertNotIdColumnName (mc_name c))"

definition createTableChecks :: "CreateTableCommand \<Rightarrow> SchemaCatalogue \<Rightarrow> thrown + unit" where
  "createTableChecks input catalogue =
     bindR (requireSchema catalogue (tc_schema input)) (\<lambda>s.
     bindR (guardR (list_ex (\<lambda>e. ct_name e = tc_table input) (cs_tables s)) (conflict ''Relation already exists'')) (\<lambda>_.
     bindR (guardR (cr_columns input = []) (refuse ''a table needs at least one column'')) (\<lambda>_.
     bindR (mapR checkColumnName (cr_columns input)) (\<lambda>_. Inr ()))))"

definition createTable :: "admin_deps \<Rightarrow> CreateTableCommand \<Rightarrow> ExecuteOutcome io" where
  "createTable d input =
     bindM (liftR (assertDdlIdentifier (tc_table input))) (\<lambda>_.
     bindM (liftR (assertNotReservedTableName (tc_table input))) (\<lambda>_.
     bindM (preflight d input
              (bindM (ad_catalogue d) (\<lambda>catalogue. liftR (createTableChecks input catalogue)))) (\<lambda>_.
     bindM (liftR (compileCreateTable (tc_schema input) (tc_table input)
              (columnSpec ID_COLUMN_SPEC True # map (\<lambda>c. columnSpec c False) (cr_columns input)))) (\<lambda>plan.
       submit d input ''schema.table.create''
         (JObj (tableMembers (tc_schema input) (tc_table input) @
            [(''columns'', JArr (map (\<lambda>c. Some (describeColumn c)) (cr_columns input)))]))
         [plan]))))"

text \<open>The rest of a command whose plan goes behind the exposure guard.\<close>

definition submitGuarded ::
  "admin_deps \<Rightarrow> 'a TableCommand_scheme \<Rightarrow> string \<Rightarrow> (string \<times> json) list \<Rightarrow> thrown + DdlPlan \<Rightarrow> ExecuteOutcome io" where
  "submitGuarded d input commandType members planR =
     bindM (liftR planR) (\<lambda>plan.
     bindM (liftR (guardExposed (tc_schema input) (tc_table input) plan)) (\<lambda>plans.
       submit d input commandType (JObj (tableMembers (tc_schema input) (tc_table input) @ members)) plans))"

definition renameTableChecks :: "admin_deps \<Rightarrow> RenameTableCommand \<Rightarrow> SchemaCatalogue \<Rightarrow> thrown + unit" where
  "renameTableChecks d input catalogue =
     bindR (requireSchema catalogue (tc_schema input)) (\<lambda>s.
     bindR (mutableTable d (tc_schema input) (tc_table input) catalogue) (\<lambda>_.
       guardR (list_ex (\<lambda>e. ct_name e = rt_newName input) (cs_tables s)) (conflict ''Relation already exists'')))"

definition renameTable :: "admin_deps \<Rightarrow> RenameTableCommand \<Rightarrow> ExecuteOutcome io" where
  "renameTable d input =
     bindM (liftR (assertDdlIdentifier (tc_table input))) (\<lambda>_.
     bindM (liftR (assertDdlIdentifier (rt_newName input))) (\<lambda>_.
     bindM (liftR (assertNotReservedTableName (rt_newName input))) (\<lambda>_.
     bindM (preflight d input
              (bindM (ad_catalogue d) (\<lambda>catalogue. liftR (renameTableChecks d input catalogue)))) (\<lambda>_.
       submitGuarded d input ''schema.table.rename'' [(''newName'', JStr (rt_newName input))]
         (compileRenameTable (tc_schema input) (tc_table input) (rt_newName input))))))"

definition dropTableChecks :: "admin_deps \<Rightarrow> DropTableCommand \<Rightarrow> SchemaCatalogue \<Rightarrow> thrown + unit" where
  "dropTableChecks d input catalogue =
     bindR (mutableTable d (tc_schema input) (tc_table input) catalogue) (\<lambda>_.
       let references = countForeignKeyReferences catalogue (tc_schema input) (tc_table input)
       in guardR (0 < references)
            (conflict (''Table is referenced by '' @ natStr references @
               '' foreign key constraint(s) and cannot be dropped'')))"

definition dropTable :: "admin_deps \<Rightarrow> DropTableCommand \<Rightarrow> ExecuteOutcome io" where
  "dropTable d input =
     bindM (liftR (assertDdlIdentifier (tc_table input))) (\<lambda>_.
     bindM (preflight d input
              (bindM (liftR (guardR (dt_confirm input \<noteq> tc_schema input @ ''.'' @ tc_table input)
                 (refuse (''Destructive drops require the exact confirmation value '' @
                    inQuotes ''schema.table'')))) (\<lambda>_.
               bindM (ad_catalogue d) (\<lambda>catalogue. liftR (dropTableChecks d input catalogue))))) (\<lambda>_.
       submitGuarded d input ''schema.table.drop'' [(''confirmed'', JBool True)]
         (compileDropTable (tc_schema input) (tc_table input))))"

subsection \<open>Columns\<close>

definition addColumnChecks :: "admin_deps \<Rightarrow> AddColumnCommand \<Rightarrow> SchemaCatalogue \<Rightarrow> unit io" where
  "addColumnChecks d input catalogue =
     bindM (liftR (mutableTable d (tc_schema input) (tc_table input) catalogue)) (\<lambda>t.
     bindM (liftR (guardR (list_ex (\<lambda>e. sc_name e = mc_name (ac_column input)) (ct_columns t))
       (conflict ''Column already exists''))) (\<lambda>_.
     if \<not> mc_nullable (ac_column input) \<and> mc_default (ac_column input) = DefNone then
       bindM (tableHasRows d (tc_schema input) (tc_table input)) (\<lambda>hasRows.
         liftR (guardR hasRows
           (refuse ''A NOT NULL column without a default cannot be added to a table with existing rows'')))
     else returnM ()))"

definition addColumn :: "admin_deps \<Rightarrow> AddColumnCommand \<Rightarrow> ExecuteOutcome io" where
  "addColumn d input =
     bindM (liftR (assertDdlIdentifier (tc_table input))) (\<lambda>_.
     bindM (liftR (checkColumnName (ac_column input))) (\<lambda>_.
     bindM (preflight d input (bindM (ad_catalogue d) (addColumnChecks d input))) (\<lambda>_.
       submitGuarded d input ''schema.column.add'' [(''column'', describeColumn (ac_column input))]
         (compileAddColumn (tc_schema input) (tc_table input) (columnSpec (ac_column input) False)))))"

text \<open>The two syntactic checks of a column command.\<close>

definition checkColumnTarget :: "'a ColumnCommand_scheme \<Rightarrow> thrown + unit" where
  "checkColumnTarget input =
     bindR (assertDdlIdentifier (tc_table input)) (\<lambda>_. assertDdlIdentifier (cc_column input))"

definition mutableColumn ::
  "admin_deps \<Rightarrow> 'a ColumnCommand_scheme \<Rightarrow> SchemaCatalogue \<Rightarrow> thrown + (SchemaCatalogueTable \<times> SchemaCatalogueColumn)" where
  "mutableColumn d input catalogue =
     bindR (mutableTable d (tc_schema input) (tc_table input) catalogue) (\<lambda>t.
     bindR (requireColumn t (cc_column input)) (\<lambda>c. Inr (t, c)))"

definition plainColumn ::
  "admin_deps \<Rightarrow> 'a ColumnCommand_scheme \<Rightarrow> SchemaCatalogue \<Rightarrow> thrown + (SchemaCatalogueTable \<times> SchemaCatalogueColumn)" where
  "plainColumn d input catalogue =
     bindR (mutableColumn d input catalogue) (\<lambda>(t, c).
     bindR (assertPlainColumn c) (\<lambda>_. Inr (t, c)))"

definition renameColumnChecks :: "admin_deps \<Rightarrow> RenameColumnCommand \<Rightarrow> SchemaCatalogue \<Rightarrow> thrown + unit" where
  "renameColumnChecks d input catalogue =
     bindR (plainColumn d input catalogue) (\<lambda>(t, c).
     bindR (assertNotPrimaryKeyColumn t (cc_column input)) (\<lambda>_.
       guardR (list_ex (\<lambda>e. sc_name e = rc_newName input) (ct_columns t)) (conflict ''Column already exists'')))"

definition renameColumn :: "admin_deps \<Rightarrow> RenameColumnCommand \<Rightarrow> ExecuteOutcome io" where
  "renameColumn d input =
     bindM (liftR (checkColumnTarget input)) (\<lambda>_.
     bindM (liftR (assertDdlIdentifier (rc_newName input))) (\<lambda>_.
     bindM (liftR (assertNotIdColumnName (rc_newName input))) (\<lambda>_.
     bindM (preflight d input
              (bindM (ad_catalogue d) (\<lambda>catalogue. liftR (renameColumnChecks d input catalogue)))) (\<lambda>_.
       submitGuarded d input ''schema.column.rename''
         [(''column'', JStr (cc_column input)), (''newName'', JStr (rc_newName input))]
         (compileRenameColumn (tc_schema input) (tc_table input) (cc_column input) (rc_newName input))))))"

definition dropColumnChecks :: "admin_deps \<Rightarrow> DropColumnCommand \<Rightarrow> SchemaCatalogue \<Rightarrow> thrown + unit" where
  "dropColumnChecks d input catalogue =
     bindR (plainColumn d input catalogue) (\<lambda>(t, c).
     bindR (assertNotPrimaryKeyColumn t (cc_column input)) (\<lambda>_.
       guardR (columnHasDependencies t (cc_column input))
         (conflict ''Column is used by a constraint or index and cannot be dropped'')))"

definition dropColumn :: "admin_deps \<Rightarrow> DropColumnCommand \<Rightarrow> ExecuteOutcome io" where
  "dropColumn d input =
     bindM (liftR (checkColumnTarget input)) (\<lambda>_.
     bindM (preflight d input
              (bindM (liftR (guardR
                 (dc_confirm input \<noteq> tc_schema input @ ''.'' @ tc_table input @ ''.'' @ cc_column input)
                 (refuse (''Destructive drops require the exact confirmation value '' @
                    inQuotes ''schema.table.column'')))) (\<lambda>_.
               bindM (ad_catalogue d) (\<lambda>catalogue. liftR (dropColumnChecks d input catalogue))))) (\<lambda>_.
       submitGuarded d input ''schema.column.drop''
         [(''column'', JStr (cc_column input)), (''confirmed'', JBool True)]
         (compileDropColumn (tc_schema input) (tc_table input) (cc_column input))))"

definition managedType :: "SchemaCatalogueColumn \<Rightarrow> thrown + DdlColumnType" where
  "managedType c =
     (case mapCatalogueType (sc_renderedType c) of
        None \<Rightarrow> Inl (refuse ''Column type is not managed by the schema type allowlist'')
      | Some t \<Rightarrow> Inr t)"

text \<open>The type a retried key compiles with is the recorded one, that of a new key and of a dry run the live one.\<close>

definition typeFromLog ::
  "admin_deps \<Rightarrow> 'a ColumnCommand_scheme \<Rightarrow> string \<Rightarrow> (SchemaCatalogue \<Rightarrow> thrown + DdlColumnType) \<Rightarrow> DdlColumnType io" where
  "typeFromLog d input field live =
     bindM (logGet (adminLog d) (mb_key input)) (\<lambda>existing.
       (case existing of
          None \<Rightarrow> bindM (ad_catalogue d) (\<lambda>catalogue. liftR (live catalogue))
        | Some record \<Rightarrow>
            if mb_dryRun input then bindM (ad_catalogue d) (\<lambda>catalogue. liftR (live catalogue))
            else liftR (recordedCommandType (heap (ad_runtime d)) record field)))"

definition setDefaultType :: "admin_deps \<Rightarrow> 'a ColumnCommand_scheme \<Rightarrow> SchemaCatalogue \<Rightarrow> thrown + DdlColumnType" where
  "setDefaultType d input catalogue =
     bindR (plainColumn d input catalogue) (\<lambda>(t, c). managedType c)"

definition setColumnDefault :: "admin_deps \<Rightarrow> SetColumnDefaultCommand \<Rightarrow> ExecuteOutcome io" where
  "setColumnDefault d input =
     bindM (liftR (checkColumnTarget input)) (\<lambda>_.
     bindM (typeFromLog d input ''type'' (setDefaultType d input)) (\<lambda>type.
       submitGuarded d input ''schema.column.default.set''
         [(''column'', JStr (cc_column input)), (''default'', defaultJson (sd_default input)),
          (''type'', JStr (typeName type))]
         (compileSetColumnDefault (tc_schema input) (tc_table input) (cc_column input) type (sd_default input))))"

definition dropColumnDefault :: "admin_deps \<Rightarrow> ColumnCommand \<Rightarrow> ExecuteOutcome io" where
  "dropColumnDefault d input =
     bindM (liftR (checkColumnTarget input)) (\<lambda>_.
     bindM (preflight d input
              (bindM (ad_catalogue d) (\<lambda>catalogue.
                 liftR (bindR (plainColumn d input catalogue) (\<lambda>_. Inr ()))))) (\<lambda>_.
       submitGuarded d input ''schema.column.default.drop'' [(''column'', JStr (cc_column input))]
         (compileDropColumnDefault (tc_schema input) (tc_table input) (cc_column input))))"

definition setNotNullChecks :: "admin_deps \<Rightarrow> ColumnCommand \<Rightarrow> SchemaCatalogue \<Rightarrow> unit io" where
  "setNotNullChecks d input catalogue =
     bindM (liftR (mutableColumn d input catalogue)) (\<lambda>_.
     bindM (columnHasNulls d (tc_schema input) (tc_table input) (cc_column input)) (\<lambda>hasNulls.
       liftR (guardR hasNulls (refuse ''Column contains NULL values and cannot be marked NOT NULL''))))"

definition setColumnNotNull :: "admin_deps \<Rightarrow> ColumnCommand \<Rightarrow> ExecuteOutcome io" where
  "setColumnNotNull d input =
     bindM (liftR (checkColumnTarget input)) (\<lambda>_.
     bindM (preflight d input (bindM (ad_catalogue d) (setNotNullChecks d input))) (\<lambda>_.
       submitGuarded d input ''schema.column.not_null.set'' [(''column'', JStr (cc_column input))]
         (compileSetNotNull (tc_schema input) (tc_table input) (cc_column input))))"

definition dropColumnNotNull :: "admin_deps \<Rightarrow> ColumnCommand \<Rightarrow> ExecuteOutcome io" where
  "dropColumnNotNull d input =
     bindM (liftR (checkColumnTarget input)) (\<lambda>_.
     bindM (preflight d input
              (bindM (ad_catalogue d) (\<lambda>catalogue.
                 liftR (bindR (mutableColumn d input catalogue) (\<lambda>_. Inr ()))))) (\<lambda>_.
       submitGuarded d input ''schema.column.not_null.drop'' [(''column'', JStr (cc_column input))]
         (compileDropNotNull (tc_schema input) (tc_table input) (cc_column input))))"

definition changeTypeSource :: "admin_deps \<Rightarrow> 'a ColumnCommand_scheme \<Rightarrow> SchemaCatalogue \<Rightarrow> thrown + DdlColumnType" where
  "changeTypeSource d input catalogue =
     bindR (plainColumn d input catalogue) (\<lambda>(t, c).
     bindR (assertNotPrimaryKeyColumn t (cc_column input)) (\<lambda>_.
     bindR (guardR (sc_defaultExpression c \<noteq> None)
              (refuse ''Drop the column default before changing the column type'')) (\<lambda>_.
     bindR (guardR (columnHasDependencies t (cc_column input))
              (conflict ''Column is used by a constraint or index and cannot be type-changed'')) (\<lambda>_.
       managedType c))))"

definition changeColumnType :: "admin_deps \<Rightarrow> ChangeColumnTypeCommand \<Rightarrow> ExecuteOutcome io" where
  "changeColumnType d input =
     bindM (liftR (checkColumnTarget input)) (\<lambda>_.
     bindM (typeFromLog d input ''fromType'' (changeTypeSource d input)) (\<lambda>fromType.
       submitGuarded d input ''schema.column.type.change''
         [(''column'', JStr (cc_column input)), (''fromType'', JStr (typeName fromType)),
          (''toType'', JStr (typeName (tt_toType input)))]
         (compileChangeColumnType (tc_schema input) (tc_table input) (cc_column input) fromType (tt_toType input))))"

end
