(* ===== verification/MutationFacts.thy ===== *)
theory MutationFacts
  imports Mutations
begin

text \<open>
  What a command of \<open>src/database/schema-mutations.ts\<close> may do: its statements reach the server only behind the
  preflight and the exposure guard, and a retried key compiles the operation it recorded.
\<close>

subsection \<open>The service\<close>

datatype mutation =
    CreateTable CreateTableCommand
  | RenameTable RenameTableCommand
  | DropTable DropTableCommand
  | AddColumn AddColumnCommand
  | RenameColumn RenameColumnCommand
  | DropColumn DropColumnCommand
  | SetColumnDefault SetColumnDefaultCommand
  | DropColumnDefault ColumnCommand
  | SetColumnNotNull ColumnCommand
  | DropColumnNotNull ColumnCommand
  | ChangeColumnType ChangeColumnTypeCommand

fun runMutation :: "admin_deps \<Rightarrow> mutation \<Rightarrow> ExecuteOutcome io" where
  "runMutation d (CreateTable c) = createTable d c"
| "runMutation d (RenameTable c) = renameTable d c"
| "runMutation d (DropTable c) = dropTable d c"
| "runMutation d (AddColumn c) = addColumn d c"
| "runMutation d (RenameColumn c) = renameColumn d c"
| "runMutation d (DropColumn c) = dropColumn d c"
| "runMutation d (SetColumnDefault c) = setColumnDefault d c"
| "runMutation d (DropColumnDefault c) = dropColumnDefault d c"
| "runMutation d (SetColumnNotNull c) = setColumnNotNull d c"
| "runMutation d (DropColumnNotNull c) = dropColumnNotNull d c"
| "runMutation d (ChangeColumnType c) = changeColumnType d c"

fun baseOf :: "mutation \<Rightarrow> TableCommand" where
  "baseOf (CreateTable c) = TableCommand.truncate c"
| "baseOf (RenameTable c) = TableCommand.truncate c"
| "baseOf (DropTable c) = TableCommand.truncate c"
| "baseOf (AddColumn c) = TableCommand.truncate c"
| "baseOf (RenameColumn c) = TableCommand.truncate c"
| "baseOf (DropColumn c) = TableCommand.truncate c"
| "baseOf (SetColumnDefault c) = TableCommand.truncate c"
| "baseOf (DropColumnDefault c) = TableCommand.truncate c"
| "baseOf (SetColumnNotNull c) = TableCommand.truncate c"
| "baseOf (DropColumnNotNull c) = TableCommand.truncate c"
| "baseOf (ChangeColumnType c) = TableCommand.truncate c"

subsection \<open>What the preflight must have seen\<close>

text \<open>A table of an operator schema that the schema-admin role owns and the data API does not expose.\<close>

definition manages :: "admin_deps \<Rightarrow> SchemaCatalogue \<Rightarrow> string \<Rightarrow> string \<Rightarrow> SchemaCatalogueTable \<Rightarrow> bool" where
  "manages d cat schema table T \<longleftrightarrow>
     classifySchemaObject (toLowerCase schema) = OperatorObject \<and>
     (\<exists>S\<in>set (ca_schemas cat). cs_name S = schema \<and> T \<in> set (cs_tables S)) \<and>
     ct_name T = table \<and> ct_owner T = ad_adminRole d \<and>
     (\<forall>e\<in>set (registryList (ad_registry d)). (et_schema e, et_table e) \<noteq> (schema, table))"

definition hasColumn :: "SchemaCatalogueTable \<Rightarrow> string \<Rightarrow> (SchemaCatalogueColumn \<Rightarrow> bool) \<Rightarrow> bool" where
  "hasColumn T name Q \<longleftrightarrow> (\<exists>c\<in>set (ct_columns T). sc_name c = name \<and> Q c)"

definition ordinary :: "SchemaCatalogueColumn \<Rightarrow> bool" where
  "ordinary c \<longleftrightarrow> sc_generated c = NotGenerated \<and> sc_identity c = NoIdentity"

definition referencedElsewhere :: "SchemaCatalogue \<Rightarrow> string \<Rightarrow> string \<Rightarrow> bool" where
  "referencedElsewhere cat schema table \<longleftrightarrow>
     (\<exists>S\<in>set (ca_schemas cat). \<exists>T\<in>set (cs_tables S). \<exists>c\<in>set (ct_constraints T). \<exists>target.
        cn_references c = Some target \<and> ft_schema target = schema \<and> ft_table target = table \<and>
        tableId T \<noteq> (schema, table))"

fun permitted :: "admin_deps \<Rightarrow> mutation \<Rightarrow> SchemaCatalogue \<Rightarrow> bool" where
  "permitted d (CreateTable c) cat \<longleftrightarrow>
     classifySchemaObject (toLowerCase (tc_schema c)) = OperatorObject \<and>
     (\<exists>S\<in>set (ca_schemas cat). cs_name S = tc_schema c \<and> tc_table c \<notin> ct_name ` set (cs_tables S)) \<and>
     cr_columns c \<noteq> [] \<and> (\<forall>x\<in>set (cr_columns c). toLowerCase (mc_name x) \<noteq> ''id'')"
| "permitted d (RenameTable c) cat \<longleftrightarrow>
     (\<exists>T. manages d cat (tc_schema c) (tc_table c) T) \<and>
     (\<exists>S\<in>set (ca_schemas cat). cs_name S = tc_schema c \<and> rt_newName c \<notin> ct_name ` set (cs_tables S))"
| "permitted d (DropTable c) cat \<longleftrightarrow>
     (\<exists>T. manages d cat (tc_schema c) (tc_table c) T) \<and> dt_confirm c = tc_schema c @ ''.'' @ tc_table c \<and>
     \<not> referencedElsewhere cat (tc_schema c) (tc_table c)"
| "permitted d (AddColumn c) cat \<longleftrightarrow>
     (\<exists>T. manages d cat (tc_schema c) (tc_table c) T \<and> mc_name (ac_column c) \<notin> sc_name ` set (ct_columns T))"
| "permitted d (RenameColumn c) cat \<longleftrightarrow>
     (\<exists>T. manages d cat (tc_schema c) (tc_table c) T \<and> hasColumn T (cc_column c) ordinary \<and>
        cc_column c \<notin> set (primaryKeyColumns T) \<and> rc_newName c \<notin> sc_name ` set (ct_columns T))"
| "permitted d (DropColumn c) cat \<longleftrightarrow>
     dc_confirm c = tc_schema c @ ''.'' @ tc_table c @ ''.'' @ cc_column c \<and>
     (\<exists>T. manages d cat (tc_schema c) (tc_table c) T \<and> hasColumn T (cc_column c) ordinary \<and>
        cc_column c \<notin> set (primaryKeyColumns T) \<and> \<not> columnHasDependencies T (cc_column c))"
| "permitted d (SetColumnDefault c) cat \<longleftrightarrow>
     (\<exists>T. manages d cat (tc_schema c) (tc_table c) T \<and>
        hasColumn T (cc_column c) (\<lambda>x. ordinary x \<and> mapCatalogueType (sc_renderedType x) \<noteq> None))"
| "permitted d (DropColumnDefault c) cat \<longleftrightarrow>
     (\<exists>T. manages d cat (tc_schema c) (tc_table c) T \<and> hasColumn T (cc_column c) ordinary)"
| "permitted d (SetColumnNotNull c) cat \<longleftrightarrow>
     (\<exists>T. manages d cat (tc_schema c) (tc_table c) T \<and> hasColumn T (cc_column c) (\<lambda>_. True))"
| "permitted d (DropColumnNotNull c) cat \<longleftrightarrow>
     (\<exists>T. manages d cat (tc_schema c) (tc_table c) T \<and> hasColumn T (cc_column c) (\<lambda>_. True))"
| "permitted d (ChangeColumnType c) cat \<longleftrightarrow>
     (\<exists>T. manages d cat (tc_schema c) (tc_table c) T \<and>
        hasColumn T (cc_column c) (\<lambda>x. ordinary x \<and> sc_defaultExpression x = None \<and>
          mapCatalogueType (sc_renderedType x) \<noteq> None) \<and>
        cc_column c \<notin> set (primaryKeyColumns T) \<and> \<not> columnHasDependencies T (cc_column c))"

text \<open>What is handed to the executor: the key and mode of the command, and the exposure guard in front.\<close>

definition handedOver :: "mutation \<Rightarrow> DdlPlan list \<Rightarrow> ExecuteOptions \<Rightarrow> bool" where
  "handedOver m plans opts \<longleftrightarrow>
     eo_key opts = mb_key (baseOf m) \<and> eo_dryRun opts = mb_dryRun (baseOf m) \<and>
     (case m of
        CreateTable c \<Rightarrow> length plans = 1
      | _ \<Rightarrow> \<exists>g p. plans = [g, p] \<and> compileAssertNotExposed (tc_schema (baseOf m)) (tc_table (baseOf m)) = Inr g)"

subsection \<open>The checks, inverted\<close>

lemma guardR_Inr [simp]: "guardR b e = Inr x \<longleftrightarrow> \<not> b"
  by (simp add: guardR_def)

lemma find_SomeD: "find P xs = Some x \<Longrightarrow> x \<in> set xs \<and> P x"
  by (auto simp: find_Some_iff)

lemma requireSchema_Inr:
  "requireSchema cat s = Inr S \<Longrightarrow>
     classifySchemaObject (toLowerCase s) = OperatorObject \<and> S \<in> set (ca_schemas cat) \<and> cs_name S = s"
  by (auto simp: requireSchema_def assertOperatorSchema_def res_simps dest!: find_SomeD split: option.splits)

lemma requireTable_Inr:
  "requireTable cat s t = Inr T \<Longrightarrow>
     classifySchemaObject (toLowerCase s) = OperatorObject \<and>
     (\<exists>S\<in>set (ca_schemas cat). cs_name S = s \<and> T \<in> set (cs_tables S)) \<and> ct_name T = t"
  unfolding requireTable_def bindR_Inr_iff by (fastforce dest: find_SomeD requireSchema_Inr split: option.splits)

lemma mutableTable_Inr: "mutableTable d s t cat = Inr T \<Longrightarrow> manages d cat s t T"
  unfolding mutableTable_def manages_def
  by (auto simp: res_simps assertOwned_def assertNotExposed_def registered_def list_ex_iff dest!: requireTable_Inr)

lemma mutableColumn_Inr:
  "mutableColumn d input cat = Inr (T, c) \<Longrightarrow>
     manages d cat (tc_schema input) (tc_table input) T \<and> c \<in> set (ct_columns T) \<and> sc_name c = cc_column input"
  by (auto simp: mutableColumn_def requireColumn_def res_simps dest!: find_SomeD mutableTable_Inr split: option.splits)

lemma plainColumn_Inr:
  "plainColumn d input cat = Inr (T, c) \<Longrightarrow>
     manages d cat (tc_schema input) (tc_table input) T \<and> c \<in> set (ct_columns T) \<and> sc_name c = cc_column input \<and>
     ordinary c"
  by (auto simp: plainColumn_def assertPlainColumn_def ordinary_def res_simps dest!: mutableColumn_Inr)

lemma hasColumnI: "c \<in> set (ct_columns T) \<Longrightarrow> sc_name c = n \<Longrightarrow> Q c \<Longrightarrow> hasColumn T n Q"
  by (auto simp: hasColumn_def)

lemma mapR_all: "mapR f xs = Inr ys \<Longrightarrow> x \<in> set xs \<Longrightarrow> \<exists>y. f x = Inr y"
  by (induction xs arbitrary: ys) (auto simp: res_simps)

lemma noReferences:
  "countForeignKeyReferences cat s t = 0 \<Longrightarrow> \<not> referencedElsewhere cat s t"
  by (fastforce simp: countForeignKeyReferences_def referencedElsewhere_def blocksDrop_def tableId_def sum_list_eq_0_iff
      filter_empty_conv)

subsection \<open>Every command is gated\<close>

lemma yields_check: "(\<And>x. r = Inr x \<Longrightarrow> yields (f x) P) \<Longrightarrow> yields (bindM (liftR r) f) P"
  by (rule yields_bind_of [OF yields_liftR [where P = "\<lambda>x. r = Inr x"]])

context admin_lane
begin

lemmas silent_reads = io_intros query_reads catalogue_reads

lemma reads_tableHasRows: "emitsOnly poolRead (tableHasRows d s t)"
  unfolding tableHasRows_def by (intro silent_reads)

lemma reads_columnHasNulls: "emitsOnly poolRead (columnHasNulls d s t c)"
  unfolding columnHasNulls_def by (intro silent_reads)

text \<open>A command whose checks are pure once the catalogue is read.\<close>

lemma vetted_pure:
  "(\<And>cat x. r cat = Inr x \<Longrightarrow> A cat) \<Longrightarrow> vetted d A (bindM (ad_catalogue d) (\<lambda>cat. liftR (r cat)))"
  by (rule vetted_catalogue [OF catalogue_reads]) (auto intro: silent_reads yields_liftR)

lemma gated_preflight:
  assumes "vetted d A checks" and "submits d P f"
  shows "gated d (mb_dryRun input) (mb_key input) A P (bindM (preflight d input checks) (\<lambda>_. f))"
  using assms by (intro gated_stage staged_preflight query_reads)

lemma submits_guarded:
  assumes "\<And>g p opts. compileAssertNotExposed (tc_schema input) (tc_table input) = Inr g \<Longrightarrow>
      eo_key opts = mb_key input \<Longrightarrow> eo_dryRun opts = mb_dryRun input \<Longrightarrow> P [g, p] opts"
  shows "submits d P (submitGuarded d input ct ms planR)"
  unfolding submitGuarded_def submit_def
  by (intro submits_check submits_execute) (auto simp: guardExposed_def res_simps intro!: assms)

lemma gated_createTable: "gated d (mb_dryRun c) (mb_key c) (permitted d (CreateTable c)) (handedOver (CreateTable c)) (createTable d c)"
  unfolding createTable_def
proof (intro gated_check gated_preflight vetted_pure)
  fix cat x assume "createTableChecks c cat = Inr x"
  then show "permitted d (CreateTable c) cat"
    by (fastforce simp: createTableChecks_def res_simps list_ex_iff checkColumnName_def
        assertNotIdColumnName_def dest!: requireSchema_Inr dest: mapR_all)
next
  show "submits d (handedOver (CreateTable c)) (bindM (liftR (compileCreateTable (tc_schema c) (tc_table c)
      (columnSpec ID_COLUMN_SPEC True # map (\<lambda>c. columnSpec c False) (cr_columns c)))) (\<lambda>plan.
      submit d c ''schema.table.create''
        (JObj (tableMembers (tc_schema c) (tc_table c) @
          [(''columns'', JArr (map (\<lambda>c. Some (describeColumn c)) (cr_columns c)))])) [plan]))"
    unfolding submit_def by (intro submits_check submits_execute) (simp add: handedOver_def TableCommand.defs)
qed

lemmas handed = handedOver_def TableCommand.defs

lemma gated_renameTable: "gated d (mb_dryRun c) (mb_key c) (permitted d (RenameTable c)) (handedOver (RenameTable c)) (renameTable d c)"
  unfolding renameTable_def
proof (intro gated_check gated_preflight vetted_pure submits_guarded)
  fix cat x assume "renameTableChecks d c cat = Inr x"
  then show "permitted d (RenameTable c) cat"
    by (fastforce simp: renameTableChecks_def res_simps list_ex_iff dest: requireSchema_Inr mutableTable_Inr)
qed (simp add: handed)

lemma gated_dropTable: "gated d (mb_dryRun c) (mb_key c) (permitted d (DropTable c)) (handedOver (DropTable c)) (dropTable d c)"
  unfolding dropTable_def
proof (intro gated_check gated_preflight vetted_check vetted_pure submits_guarded)
  fix u cat x
  assume "guardR (dt_confirm c \<noteq> tc_schema c @ ''.'' @ tc_table c)
      (refuse (''Destructive drops require the exact confirmation value '' @ inQuotes ''schema.table'')) = Inr u"
    and "dropTableChecks d c cat = Inr x"
  then show "permitted d (DropTable c) cat"
    by (auto simp: dropTableChecks_def res_simps Let_def dest: mutableTable_Inr noReferences)
qed (simp add: handed)

lemma gated_addColumn: "gated d (mb_dryRun c) (mb_key c) (permitted d (AddColumn c)) (handedOver (AddColumn c)) (addColumn d c)"
  unfolding addColumn_def
proof (intro gated_check gated_preflight vetted_catalogue submits_guarded)
  show "emitsOnly poolRead (addColumnChecks d c cat)" for cat
    unfolding addColumnChecks_def by (auto intro!: silent_reads reads_tableHasRows)
  show "yields (addColumnChecks d c cat) (\<lambda>_. permitted d (AddColumn c) cat)" for cat
    unfolding addColumnChecks_def
    by (rule yields_check, rule yields_check)
       (fastforce intro!: yields_bind yields_liftR yields_return simp: list_ex_iff dest!: mutableTable_Inr)
qed (simp_all add: handed catalogue_reads)

lemma gated_renameColumn: "gated d (mb_dryRun c) (mb_key c) (permitted d (RenameColumn c)) (handedOver (RenameColumn c)) (renameColumn d c)"
  unfolding renameColumn_def
proof (intro gated_check gated_preflight vetted_pure submits_guarded)
  fix cat x assume "renameColumnChecks d c cat = Inr x"
  then show "permitted d (RenameColumn c) cat"
    by (fastforce simp: renameColumnChecks_def res_simps list_ex_iff assertNotPrimaryKeyColumn_def
        intro: hasColumnI dest!: plainColumn_Inr)
qed (simp add: handed)

lemma gated_dropColumn: "gated d (mb_dryRun c) (mb_key c) (permitted d (DropColumn c)) (handedOver (DropColumn c)) (dropColumn d c)"
  unfolding dropColumn_def
proof (intro gated_check gated_preflight vetted_check vetted_pure submits_guarded)
  fix u cat x
  assume "guardR (dc_confirm c \<noteq> tc_schema c @ ''.'' @ tc_table c @ ''.'' @ cc_column c)
      (refuse (''Destructive drops require the exact confirmation value '' @ inQuotes ''schema.table.column'')) = Inr u"
    and "dropColumnChecks d c cat = Inr x"
  then show "permitted d (DropColumn c) cat"
    by (fastforce simp: dropColumnChecks_def res_simps assertNotPrimaryKeyColumn_def
        intro: hasColumnI dest!: plainColumn_Inr)
qed (simp add: handed)

lemma gated_dropColumnDefault:
  "gated d (mb_dryRun c) (mb_key c) (permitted d (DropColumnDefault c)) (handedOver (DropColumnDefault c)) (dropColumnDefault d c)"
  unfolding dropColumnDefault_def
proof (intro gated_check gated_preflight vetted_pure submits_guarded)
  fix cat x assume "bindR (plainColumn d c cat) (\<lambda>_. Inr ()) = Inr x"
  then show "permitted d (DropColumnDefault c) cat"
    by (fastforce simp: res_simps intro: hasColumnI dest!: plainColumn_Inr)
qed (simp add: handed)

lemma gated_setColumnNotNull:
  "gated d (mb_dryRun c) (mb_key c) (permitted d (SetColumnNotNull c)) (handedOver (SetColumnNotNull c)) (setColumnNotNull d c)"
  unfolding setColumnNotNull_def
proof (intro gated_check gated_preflight vetted_catalogue submits_guarded)
  show "emitsOnly poolRead (setNotNullChecks d c cat)" for cat
    unfolding setNotNullChecks_def by (auto intro!: silent_reads reads_columnHasNulls)
  show "yields (setNotNullChecks d c cat) (\<lambda>_. permitted d (SetColumnNotNull c) cat)" for cat
    unfolding setNotNullChecks_def
    by (rule yields_check)
       (auto intro!: yields_bind yields_liftR hasColumnI dest!: mutableColumn_Inr)
qed (simp_all add: handed catalogue_reads)

lemma gated_dropColumnNotNull:
  "gated d (mb_dryRun c) (mb_key c) (permitted d (DropColumnNotNull c)) (handedOver (DropColumnNotNull c)) (dropColumnNotNull d c)"
  unfolding dropColumnNotNull_def
proof (intro gated_check gated_preflight vetted_pure submits_guarded)
  fix cat x assume "bindR (mutableColumn d c cat) (\<lambda>_. Inr ()) = Inr x"
  then show "permitted d (DropColumnNotNull c) cat"
    by (fastforce simp: res_simps intro: hasColumnI dest!: mutableColumn_Inr)
qed (simp add: handed)

lemma staged_typeFromLog:
  assumes "\<And>cat x. live cat = Inr x \<Longrightarrow> A cat"
  shows "staged d (mb_dryRun input) (mb_key input) A (typeFromLog d input field live)"
  unfolding typeFromLog_def
  by (rule staged_lookup [OF query_reads]) (auto intro!: vetted_pure silent_reads assms)

lemma gated_setColumnDefault:
  "gated d (mb_dryRun c) (mb_key c) (permitted d (SetColumnDefault c)) (handedOver (SetColumnDefault c)) (setColumnDefault d c)"
  unfolding setColumnDefault_def
proof (intro gated_check gated_stage staged_typeFromLog submits_guarded)
  fix cat x assume "setDefaultType d c cat = Inr x"
  then show "permitted d (SetColumnDefault c) cat"
    by (fastforce simp: setDefaultType_def managedType_def res_simps intro: hasColumnI dest!: plainColumn_Inr split: option.splits)
qed (simp add: handed)

lemma gated_changeColumnType:
  "gated d (mb_dryRun c) (mb_key c) (permitted d (ChangeColumnType c)) (handedOver (ChangeColumnType c)) (changeColumnType d c)"
  unfolding changeColumnType_def
proof (intro gated_check gated_stage staged_typeFromLog submits_guarded)
  fix cat x assume "changeTypeSource d c cat = Inr x"
  then show "permitted d (ChangeColumnType c) cat"
    by (fastforce simp: changeTypeSource_def managedType_def assertNotPrimaryKeyColumn_def res_simps
        intro: hasColumnI dest!: plainColumn_Inr split: option.splits)
qed (simp add: handed)

lemma gated_mutation:
  "gated d (mb_dryRun (baseOf m)) (mb_key (baseOf m)) (permitted d m) (handedOver m) (runMutation d m)"
  using gated_createTable gated_renameTable gated_dropTable gated_addColumn gated_renameColumn gated_dropColumn
    gated_setColumnDefault gated_dropColumnDefault gated_setColumnNotNull gated_dropColumnNotNull gated_changeColumnType
  by (cases m) (simp_all add: TableCommand.defs)

end

subsection \<open>Statements reach the server only behind the guards\<close>

lemma guard_plan_first:
  assumes "compileAssertNotExposed s t = Inr g" and "statementsOf [g, p] = Inr ss" and "prefix xs ss" and "xs \<noteq> []"
  shows "exposedGuardStatement s t = Inr (hd xs)"
proof -
  from assms(1) obtain q where q: "exposedGuardStatement s t = Inr q" "g = sealPlan [q] (''assert '' @ onTable s t @ '' is not exposed'')"
    by (auto simp: compileAssertNotExposed_def res_simps)
  have "hd ss = q" using assms(2) q(2) by (auto simp: statementsOf_def sealPlan_def res_simps split: if_splits)
  then show ?thesis using q(1) assms(3,4) by (auto simp: prefix_def)
qed

fun createsTable :: "mutation \<Rightarrow> bool" where
  "createsTable (CreateTable c) = True"
| "createsTable _ = False"

lemma handedOver_guarded:
  "handedOver m plans opts \<Longrightarrow> \<not> createsTable m \<Longrightarrow>
     \<exists>g p. plans = [g, p] \<and> compileAssertNotExposed (tc_schema (baseOf m)) (tc_table (baseOf m)) = Inr g"
  by (cases m) (auto simp: handedOver_def)

text \<open>C3: Whatever the server answers, a table or column command sends a statement of its plan only after this
  call either found the key's record in the log and is no dry run, or read a catalogue in which the command is
  permitted: an owned, unexposed table of an operator schema, the exact confirmation, and for columns no generated,
  identity, key or dependent column.  The first statement of every command on an existing table is the durable
  exposure guard, and until then the call has only read.\<close>
theorem mutation_guarded:
  assumes "runMutation (adminLane D reg adminRole runtimeRole) m w = (r, w')"
  shows "\<exists>es. w' = w @ es \<and>
    (planStatements es \<noteq> [] \<longrightarrow>
      (\<exists>v. prefix v w' \<and> reads w v \<and>
        (\<not> mb_dryRun (baseOf m) \<and> sawRecord (adminLane D reg adminRole runtimeRole) (mb_key (baseOf m)) w v \<or>
         sawCatalogue (adminLane D reg adminRole runtimeRole)
           (permitted (adminLane D reg adminRole runtimeRole) m) w v)) \<and>
      (createsTable m \<or>
       exposedGuardStatement (tc_schema (baseOf m)) (tc_table (baseOf m)) = Inr (hd (planStatements es))))"
proof -
  from lane.gated_sends [OF lane.gated_mutation assms] obtain es where es: "w' = w @ es"
    "planStatements es \<noteq> [] \<longrightarrow>
      (\<exists>v plans opts ss. prefix v w' \<and> reads w v \<and>
         cleared (adminLane D reg adminRole runtimeRole) (mb_dryRun (baseOf m)) (mb_key (baseOf m))
           (permitted (adminLane D reg adminRole runtimeRole) m) w v \<and> handedOver m plans opts \<and>
         statementsOf plans = Inr ss \<and> prefix (planStatements es) ss)" by blast
  show ?thesis
  proof (rule exI [where x = es], intro conjI impI es(1))
    assume ne: "planStatements es \<noteq> []"
    with es(2) obtain v plans opts ss where v: "prefix v w'" "reads w v"
      "cleared (adminLane D reg adminRole runtimeRole) (mb_dryRun (baseOf m)) (mb_key (baseOf m))
        (permitted (adminLane D reg adminRole runtimeRole) m) w v"
      and h: "handedOver m plans opts" "statementsOf plans = Inr ss" "prefix (planStatements es) ss" by blast
    show "\<exists>v. prefix v w' \<and> reads w v \<and>
        (\<not> mb_dryRun (baseOf m) \<and> sawRecord (adminLane D reg adminRole runtimeRole) (mb_key (baseOf m)) w v \<or>
         sawCatalogue (adminLane D reg adminRole runtimeRole)
           (permitted (adminLane D reg adminRole runtimeRole) m) w v)"
      using v unfolding cleared_def by blast
    show "createsTable m \<or> exposedGuardStatement (tc_schema (baseOf m)) (tc_table (baseOf m)) = Inr (hd (planStatements es))"
      using handedOver_guarded [OF h(1)] guard_plan_first [OF _ _ h(3) ne] h(2) by auto
  qed
qed

text \<open>A server that answers queries of the pool with the small catalogue, and everything else without rows.\<close>

definition demoAnswers :: "event list \<Rightarrow> thrown + qresult" where
  "demoAnswers w =
     (case last w of
        EvPool t vs \<Rightarrow> Inr (if vs = [] then \<lparr>qr_rows = demoRows, qr_count = None\<rparr> else emptyResult)
      | _ \<Rightarrow> Inr emptyResult)"

definition demoAdmin :: ddl_env where
  "demoAdmin =
     \<lparr>dd_runtime = okRuntime\<lparr>heap := demoHeap, db := demoAnswers\<rparr>, dd_closed = False,
      dd_sha = (\<lambda>_. [171]), dd_hmac = (\<lambda>_. [1])\<rparr>"

definition demoLane :: admin_deps where
  "demoLane = adminLane demoAdmin [] ''admin'' ''app_user''"

lemma demoLane_simps [simp]:
  "ad_query demoLane = poolQuery (okRuntime\<lparr>heap := demoHeap, db := demoAnswers\<rparr>) False"
  "ad_catalogue demoLane = readSchemaCatalogue (okRuntime\<lparr>heap := demoHeap, db := demoAnswers\<rparr>) (ad_query demoLane)"
  "ad_registry demoLane = []" "ad_adminRole demoLane = ''admin''" "ad_execute demoLane = execute demoAdmin"
  by (simp_all add: demoLane_def adminLane_def demoAdmin_def Let_def)

lemma demo_catalogue:
  "mapCatalogueRows demoHeap demoRows = Inr cat \<Longrightarrow>
     ad_catalogue demoLane w = (Inr cat, w @ [EvPool SCHEMA_CATALOGUE_SQL []])"
  by (simp add: readSchemaCatalogue_def poolQuery_def guardNotClosed_def io_simps okRuntime_def demoAnswers_def)

text \<open>A dry run against a server that answers everything but the pool's queries without rows.\<close>

lemma dry_run_sends:
  assumes db: "\<And>v e. \<not> poolRead e \<Longrightarrow> db (dd_runtime D) (v @ [e]) = Inr emptyResult" and c: "\<not> dd_closed D"
    and "statementsOf plans = Inr ss" and "eo_dryRun opts"
  shows "planStatements (snd (execute D plans opts w)) = planStatements w @ ss"
proof -
  have run: "runStatements (dd_runtime D) ss v = (Inr (), v @ map EvExtended ss)" for ss v
    by (induction ss arbitrary: v) (simp_all add: runPlanStatement_def io_simps db)
  have ex: "map (the \<circ> extended \<circ> EvExtended) xs = xs" for xs by (simp add: comp_def)
  show ?thesis using assms
    by (simp add: execute_def executeDryRun_def dryRunBody_def finallyM_def hardenAndLock_def releaseClient_def
        poolConnect_def guardNotClosed_def io_simps run planStatements_def List.map_filter_simps
        flip: append_assoc) (simp add: List.map_filter_def ex)
qed

lemma demo_dry_run:
  "statementsOf plans = Inr ss \<Longrightarrow> eo_dryRun opts \<Longrightarrow>
     planStatements (snd (execute demoAdmin plans opts w)) = planStatements w @ ss"
proof (rule dry_run_sends)
  show "db (dd_runtime demoAdmin) (v @ [e]) = Inr emptyResult" if "\<not> poolRead e" for v e
    using that by (cases e) (simp_all add: demoAdmin_def demoAnswers_def)
qed (simp_all add: demoAdmin_def)

definition demoDropColumn :: DropColumnCommand where
  "demoDropColumn = \<lparr>mb_key = ''k1'', mb_actor = ''ann'', mb_dryRun = True, tc_schema = ''app'',
     tc_table = ''notes'', cc_column = ''body'', dc_confirm = ''app.notes.body''\<rparr>"

lemma demo_drop_sends: "length (planStatements (snd (dropColumn demoLane demoDropColumn []))) = 2"
proof -
  let ?c = demoDropColumn
  have "case mapCatalogueRows demoHeap demoRows of
      Inl e \<Rightarrow> False
    | Inr cat \<Rightarrow> (case dropColumnChecks demoLane ?c cat of Inl e \<Rightarrow> False | Inr u \<Rightarrow> True)"
    by code_simp
  then obtain cat where cat: "mapCatalogueRows demoHeap demoRows = Inr cat" "dropColumnChecks demoLane ?c cat = Inr ()"
    by (auto split: sum.splits)
  have "case bindR (compileDropColumn ''app'' ''notes'' ''body'') (guardExposed ''app'' ''notes'') of
      Inl e \<Rightarrow> False
    | Inr plans \<Rightarrow> (case statementsOf plans of Inl e \<Rightarrow> False | Inr ss \<Rightarrow> length ss = 2)"
    by code_simp
  then obtain plan plans ss where p: "compileDropColumn ''app'' ''notes'' ''body'' = Inr plan"
    "guardExposed ''app'' ''notes'' plan = Inr plans" "statementsOf plans = Inr ss" "length ss = 2"
    by (cases "compileDropColumn ''app'' ''notes'' ''body''") (auto split: sum.splits)
  have t: "checkColumnTarget ?c = Inr ()" by code_simp
  have confirm: "dc_confirm ?c = tc_schema ?c @ ''.'' @ tc_table ?c @ ''.'' @ cc_column ?c" by code_simp
  have dry: "mb_dryRun ?c" "tc_schema ?c = ''app''" "tc_table ?c = ''notes''" "cc_column ?c = ''body''"
    by (simp_all add: demoDropColumn_def)
  have "dropColumn demoLane ?c [] = execute demoAdmin plans
      \<lparr>eo_key = mb_key ?c, eo_commandType = ''schema.column.drop'',
       eo_command = JObj (tableMembers ''app'' ''notes'' @ [(''column'', JStr ''body''), (''confirmed'', JBool True)]),
       eo_actor = mb_actor ?c, eo_dryRun = True\<rparr> [EvPool SCHEMA_CATALOGUE_SQL []]"
    using p cat(2) t confirm dry
    by (simp add: dropColumn_def preflight_def preflightApplies_def submitGuarded_def submit_def
        guardR_def io_simps demo_catalogue [OF cat(1)] del: demoLane_simps(2))
  moreover have "planStatements [EvPool t vs] = []" for t vs by (simp add: planStatements_def List.map_filter_simps)
  ultimately show ?thesis using p(4) by (simp add: demo_dry_run [OF p(3)])
qed

theorem mutation_guarded_witness:
  "\<exists>es. snd (runMutation (adminLane demoAdmin [] ''admin'' ''app_user'') (DropColumn demoDropColumn) []) = es \<and>
     length (planStatements es) = 2 \<and>
     exposedGuardStatement ''app'' ''notes'' = Inr (hd (planStatements es))"
proof -
  let ?run = "runMutation (adminLane demoAdmin [] ''admin'' ''app_user'') (DropColumn demoDropColumn) []"
  have "?run = dropColumn demoLane demoDropColumn []" by (simp only: runMutation.simps demoLane_def)
  then have n: "length (planStatements (snd ?run)) = 2" by (simp only: demo_drop_sends)
  then have ne: "planStatements (snd ?run) \<noteq> []" by (metis length_0_conv zero_neq_numeral)
  have b: "tc_schema (baseOf (DropColumn demoDropColumn)) = ''app''"
    "tc_table (baseOf (DropColumn demoDropColumn)) = ''notes''" "\<not> createsTable (DropColumn demoDropColumn)"
    by (simp_all add: demoDropColumn_def TableCommand.defs)
  have "?run = (fst ?run, snd ?run)" by simp
  from mutation_guarded [OF this, unfolded b] ne
  have "exposedGuardStatement ''app'' ''notes'' = Inr (hd (planStatements (snd ?run)))"
    by (elim exE conjE) (simp only: append_Nil not_False_eq_True simp_thms b(3))
  with n show ?thesis by blast
qed

subsection \<open>A retried key runs the operation it recorded\<close>

text \<open>What a command on an existing table hands to the executor, or why it does not compile.\<close>

definition tableOperation ::
  "'a TableCommand_scheme \<Rightarrow> string \<Rightarrow> (string \<times> json) list \<Rightarrow> thrown + DdlPlan \<Rightarrow>
   thrown + (DdlPlan list \<times> ExecuteOptions)" where
  "tableOperation input commandType members planR =
     bindR planR (\<lambda>plan.
     bindR (guardExposed (tc_schema input) (tc_table input) plan) (\<lambda>plans.
       Inr (plans, \<lparr>eo_key = mb_key input, eo_commandType = commandType,
         eo_command = JObj (tableMembers (tc_schema input) (tc_table input) @ members),
         eo_actor = mb_actor input, eo_dryRun = mb_dryRun input\<rparr>)))"

definition runOperation ::
  "admin_deps \<Rightarrow> thrown + (DdlPlan list \<times> ExecuteOptions) \<Rightarrow> ExecuteOutcome io" where
  "runOperation d operation =
     (case operation of Inl e \<Rightarrow> throwM e | Inr (plans, opts) \<Rightarrow> ad_execute d plans opts)"

lemma submitGuarded_operation:
  "submitGuarded d input ct ms planR = runOperation d (tableOperation input ct ms planR)"
  by (rule ext)
     (auto simp: submitGuarded_def submit_def runOperation_def tableOperation_def io_simps
       split: sum.splits)

text \<open>The change of a column's type from \<open>F\<close>, and the member of the recorded command that names \<open>F\<close>.\<close>

definition changeTypeOperation ::
  "ChangeColumnTypeCommand \<Rightarrow> DdlColumnType \<Rightarrow> thrown + (DdlPlan list \<times> ExecuteOptions)" where
  "changeTypeOperation c F =
     tableOperation c ''schema.column.type.change''
       [(''column'', JStr (cc_column c)), (''fromType'', JStr (typeName F)),
        (''toType'', JStr (typeName (tt_toType c)))]
       (compileChangeColumnType (tc_schema c) (tc_table c) (cc_column c) F (tt_toType c))"

definition recordsType :: "heap \<Rightarrow> SchemaOperationRecord \<Rightarrow> string \<Rightarrow> DdlColumnType \<Rightarrow> bool" where
  "recordsType h rec field F \<longleftrightarrow>
     isJsonObject h (so_command rec) \<and> propOf (ownProps h (so_command rec)) field = VStr (typeName F)"

lemma recordedCommandType_Inr: "recordsType h rec field F \<Longrightarrow> recordedCommandType h rec field = Inr F"
  by (simp add: recordsType_def recordedCommandType_def isDdlColumnType_Some split: option.split)
     (metis isDdlColumnType_Some option.inject option.distinct(1))

text \<open>C18: A type change that is retried with its key runs the same operation again, statement for statement and
  with the same recorded command, hence under the same checksum: its source type is the one the record names, and
  the catalogue, where the column may have the new type by now, is not read.\<close>
theorem retry_same_operation:
  assumes "\<not> mb_dryRun c" and "checkColumnTarget c = Inr ()"
    and "logGet (adminLog d) (mb_key c) w = (Inr None, w1)" and "ad_catalogue d w1 = (Inr cat, w2)"
    and "changeTypeSource d c cat = Inr F"
    and "logGet (adminLog d') (mb_key c) v = (Inr (Some rec), v')"
    and "recordsType (heap (ad_runtime d')) rec ''fromType'' F"
  shows "changeColumnType d c w = runOperation d (changeTypeOperation c F) w2 \<and>
    changeColumnType d' c v = runOperation d' (changeTypeOperation c F) v' \<and>
    (\<forall>plans opts. changeTypeOperation c F = Inr (plans, opts) \<longrightarrow>
       (\<exists>ms. eo_command opts = JObj ms \<and> map_of ms ''fromType'' = Some (JStr (typeName F))))"
proof -
  have "eo_command opts = JObj (tableMembers (tc_schema c) (tc_table c) @
      [(''column'', JStr (cc_column c)), (''fromType'', JStr (typeName F)), (''toType'', JStr (typeName (tt_toType c)))])"
    if "changeTypeOperation c F = Inr (plans, opts)" for plans opts
    using that by (auto simp: changeTypeOperation_def tableOperation_def res_simps)
  then have "\<forall>plans opts. changeTypeOperation c F = Inr (plans, opts) \<longrightarrow>
      (\<exists>ms. eo_command opts = JObj ms \<and> map_of ms ''fromType'' = Some (JStr (typeName F)))"
    by (auto simp: tableMembers_def)
  then show ?thesis
    using assms recordedCommandType_Inr [OF assms(7)]
    by (simp add: changeColumnType_def typeFromLog_def submitGuarded_operation changeTypeOperation_def io_simps)
qed

text \<open>The command on a fresh database, and retried where the row of its success is in the log.\<close>

definition changeRow :: "(string \<times> jsval) list" where
  "changeRow =
     [(''status'', VStr ''succeeded''), (''id'', VStr ''7''), (''command'', VRef 1), (''result'', VNull),
      (''created_at'', VRef 2), (''finished_at'', VNull), (''idempotency_key'', VStr ''k2''),
      (''command_type'', VStr ''schema.column.type.change''), (''checksum'', VStr ''ab''),
      (''actor_fingerprint'', VStr ''01''), (''error_code'', VNull)]"

definition changeRows :: "catalogueRow list" where
  "changeRows = demoRows @ [demoColumnRow 3 ''count'' ''integer'']"

definition changeAnswers :: "bool \<Rightarrow> event list \<Rightarrow> thrown + qresult" where
  "changeAnswers logged w =
     (case last w of
        EvPool t vs \<Rightarrow>
          Inr (if vs = [] then \<lparr>qr_rows = changeRows, qr_count = None\<rparr>
               else if logged then \<lparr>qr_rows = [changeRow], qr_count = None\<rparr>
               else emptyResult)
      | _ \<Rightarrow> Inr emptyResult)"

definition changeHeap :: heap where
  "changeHeap = demoHeap @ [OObj ObjectProto [(''fromType'', VStr ''integer'')], ODate (Some 0)]"

definition changeLane :: "bool \<Rightarrow> admin_deps" where
  "changeLane logged =
     adminLane (demoAdmin\<lparr>dd_runtime := okRuntime\<lparr>heap := changeHeap, db := changeAnswers logged\<rparr>\<rparr>) []
       ''admin'' ''app_user''"

definition demoChange :: ChangeColumnTypeCommand where
  "demoChange = \<lparr>mb_key = ''k2'', mb_actor = ''ann'', mb_dryRun = False, tc_schema = ''app'',
     tc_table = ''notes'', cc_column = ''count'', tt_toType = TyBigint\<rparr>"

lemma changeLane_simps:
  "ad_runtime (changeLane b) = okRuntime\<lparr>heap := changeHeap, db := changeAnswers b\<rparr>"
  "ad_query (changeLane b) = poolQuery (okRuntime\<lparr>heap := changeHeap, db := changeAnswers b\<rparr>) False"
  "ad_catalogue (changeLane b) = readSchemaCatalogue (okRuntime\<lparr>heap := changeHeap, db := changeAnswers b\<rparr>)
     (poolQuery (okRuntime\<lparr>heap := changeHeap, db := changeAnswers b\<rparr>) False)"
  by (simp_all add: changeLane_def adminLane_def demoAdmin_def Let_def)

lemma change_lookup:
  "logGet (adminLog (changeLane b)) ''k2'' w =
     (if b then bindR (mapOperationRow changeHeap changeRow) (\<lambda>x. Inr (Some x)) else Inr None,
      w @ [EvPool SELECT_BY_KEY_SQL [VStr ''k2'']])"
proof -
  have "validateIdempotencyKey ''k2'' = Inr ()" by code_simp
  then show ?thesis
    by (simp add: logGet_def queryRow_def adminLog_def changeLane_simps poolQuery_def guardNotClosed_def io_simps
        okRuntime_def changeAnswers_def emptyResult_def)
qed

theorem retry_same_operation_witness:
  "\<exists>plans opts v'. changeTypeOperation demoChange TyInteger = Inr (plans, opts) \<and>
     changeColumnType (changeLane True) demoChange [] = ad_execute (changeLane True) plans opts v'"
proof -
  have "case mapOperationRow changeHeap changeRow of
      Inl e \<Rightarrow> False | Inr rec \<Rightarrow> recordsType changeHeap rec ''fromType'' TyInteger" by code_simp
  then obtain rec where rec: "mapOperationRow changeHeap changeRow = Inr rec"
    "recordsType (heap (ad_runtime (changeLane True))) rec ''fromType'' TyInteger"
    by (auto simp: changeLane_simps split: sum.splits)
  have "case mapCatalogueRows changeHeap changeRows of
      Inl e \<Rightarrow> False | Inr cat \<Rightarrow> (case changeTypeSource (changeLane False) demoChange cat of Inl e \<Rightarrow> False | Inr F \<Rightarrow> F = TyInteger)"
    by code_simp
  then obtain cat where cat: "mapCatalogueRows changeHeap changeRows = Inr cat"
    "changeTypeSource (changeLane False) demoChange cat = Inr TyInteger" by (auto split: sum.splits)
  have read: "ad_catalogue (changeLane False) w = (Inr cat, w @ [EvPool SCHEMA_CATALOGUE_SQL []])" for w
    using cat(1) by (simp add: changeLane_simps readSchemaCatalogue_def poolQuery_def guardNotClosed_def io_simps
        okRuntime_def changeAnswers_def)
  have op: "case changeTypeOperation demoChange TyInteger of Inl e \<Rightarrow> False | Inr x \<Rightarrow> True" by code_simp
  then obtain plans opts where plans: "changeTypeOperation demoChange TyInteger = Inr (plans, opts)"
    by (auto split: sum.splits)
  have key: "mb_key demoChange = ''k2''" "\<not> mb_dryRun demoChange" by (simp_all add: demoChange_def)
  have t: "checkColumnTarget demoChange = Inr ()" by code_simp
  have fresh: "logGet (adminLog (changeLane False)) (mb_key demoChange) [] = (Inr None, [] @ [EvPool SELECT_BY_KEY_SQL [VStr ''k2'']])"
    unfolding key(1) change_lookup by simp
  have seen: "logGet (adminLog (changeLane True)) (mb_key demoChange) [] = (Inr (Some rec), [] @ [EvPool SELECT_BY_KEY_SQL [VStr ''k2'']])"
    unfolding key(1) change_lookup using rec(1) by simp
  from retry_same_operation [OF key(2) t fresh read cat(2) seen rec(2)] plans
  show ?thesis by (auto simp: runOperation_def)
qed

end
