(* ===== verification/Constraints.thy ===== *)
theory Constraints
  imports MutationFacts
begin

text \<open>
  The index, unique-constraint and foreign-key commands of \<open>src/database/schema-constraints.ts\<close>, and what they
  may do.
\<close>

subsection \<open>Commands\<close>

record KeyCommand = TableCommand +
  kc_columns :: "string list"
  kc_name :: "string option"

record DropNamedCommand = TableCommand +
  dn_name :: string

record AddForeignKeyCommand = KeyCommand +
  af_refSchema :: string
  af_refTable :: string
  af_refColumns :: "string list"
  af_onUpdate :: string
  af_onDelete :: string

subsection \<open>Checks over the catalogue\<close>

definition assertOwnedAs :: "admin_deps \<Rightarrow> SchemaCatalogueTable \<Rightarrow> string \<Rightarrow> thrown + unit" where
  "assertOwnedAs d table label =
     guardR (ct_owner table \<noteq> ad_adminRole d)
       (refuse (label @ '' is not owned by the schema-admin role and cannot be modified''))"

definition ownedTable ::
  "admin_deps \<Rightarrow> SchemaCatalogue \<Rightarrow> string \<Rightarrow> string \<Rightarrow> string \<Rightarrow> thrown + SchemaCatalogueTable" where
  "ownedTable d catalogue schema table label =
     bindR (requireTable catalogue schema table) (\<lambda>t.
     bindR (assertOwnedAs d t label) (\<lambda>_. Inr t))"

definition requireColumns :: "SchemaCatalogueTable \<Rightarrow> string list \<Rightarrow> thrown + unit" where
  "requireColumns table columns =
     bindR (mapR (\<lambda>column.
        guardR (\<not> list_ex (\<lambda>e. sc_name e = column) (ct_columns table))
          (notFound (''Column '' @ column @ '' does not exist on '' @ ct_name table))) columns) (\<lambda>_. Inr ())"

definition findIndexOwner :: "SchemaCatalogue \<Rightarrow> string \<Rightarrow> string \<Rightarrow> SchemaCatalogueTable option" where
  "findIndexOwner catalogue schema name =
     (case find (\<lambda>e. cs_name e = schema) (ca_schemas catalogue) of
        None \<Rightarrow> None
      | Some s \<Rightarrow> find (\<lambda>t. list_ex (\<lambda>i. ix_name i = name) (ct_indexes t)) (cs_tables s))"

definition findConstraint :: "SchemaCatalogueTable \<Rightarrow> string \<Rightarrow> SchemaConstraint option" where
  "findConstraint table name = find (\<lambda>c. cn_name c = name) (ct_constraints table)"

definition lookupColumn :: "SchemaCatalogueTable \<Rightarrow> string \<Rightarrow> SchemaCatalogueColumn option" where
  "lookupColumn table column = find (\<lambda>e. sc_name e = column) (ct_columns table)"

text \<open>Every command asks the log first; a dry run is no exception here.\<close>

definition unlessRecorded :: "admin_deps \<Rightarrow> 'a MutationCommandBase_scheme \<Rightarrow> unit io \<Rightarrow> unit io" where
  "unlessRecorded d input checks =
     bindM (hasExistingRecord d (mb_key input)) (\<lambda>b. if b then returnM () else checks)"

definition indexFree :: "SchemaCatalogue \<Rightarrow> string \<Rightarrow> string \<Rightarrow> thrown + unit" where
  "indexFree catalogue schema name =
     guardR (findIndexOwner catalogue schema name \<noteq> None) (conflict (''Index '' @ name @ '' already exists''))"

definition constraintFree :: "SchemaCatalogueTable \<Rightarrow> string \<Rightarrow> thrown + unit" where
  "constraintFree table name =
     guardR (findConstraint table name \<noteq> None) (conflict (''Constraint '' @ name @ '' already exists''))"

subsection \<open>Recorded members\<close>

definition stringsJson :: "string list \<Rightarrow> json" where
  "stringsJson xs = JArr (map (\<lambda>s. Some (JStr s)) xs)"

definition nameMember :: "string option \<Rightarrow> (string \<times> json) list" where
  "nameMember name = (case name of None \<Rightarrow> [] | Some n \<Rightarrow> [(''name'', JStr n)])"

definition submitPlain ::
  "admin_deps \<Rightarrow> 'a TableCommand_scheme \<Rightarrow> string \<Rightarrow> (string \<times> json) list \<Rightarrow> thrown + DdlPlan \<Rightarrow> ExecuteOutcome io" where
  "submitPlain d input commandType members planR =
     bindM (liftR planR) (\<lambda>plan.
       submit d input commandType (JObj (tableMembers (tc_schema input) (tc_table input) @ members)) [plan])"

subsection \<open>The commands\<close>

definition createIndexChecks :: "admin_deps \<Rightarrow> KeyCommand \<Rightarrow> SchemaCatalogue \<Rightarrow> thrown + unit" where
  "createIndexChecks d input catalogue =
     bindR (ownedTable d catalogue (tc_schema input) (tc_table input) ''Table'') (\<lambda>t.
     bindR (requireColumns t (kc_columns input)) (\<lambda>_.
     let name = chosenName (ad_sha d) (kc_name input) ''idx'' (tc_table input) (kc_columns input)
     in bindR (indexFree catalogue (tc_schema input) name) (\<lambda>_. constraintFree t name)))"

definition createIndex :: "admin_deps \<Rightarrow> KeyCommand \<Rightarrow> ExecuteOutcome io" where
  "createIndex d input =
     bindM (unlessRecorded d input
              (bindM (ad_catalogue d) (\<lambda>catalogue. liftR (createIndexChecks d input catalogue)))) (\<lambda>_.
       submitPlain d input ''schema.index.create''
         ((''columns'', stringsJson (kc_columns input)) # nameMember (kc_name input))
         (compileCreateIndex (ad_sha d) (tc_schema input) (tc_table input) (kc_columns input) (kc_name input)))"

definition dropIndexChecks :: "admin_deps \<Rightarrow> DropNamedCommand \<Rightarrow> SchemaCatalogue \<Rightarrow> thrown + unit" where
  "dropIndexChecks d input catalogue =
     bindR (ownedTable d catalogue (tc_schema input) (tc_table input) ''Table'') (\<lambda>t.
       if list_ex (\<lambda>i. ix_name i = dn_name input) (ct_indexes t) then Inr ()
       else if findConstraint t (dn_name input) \<noteq> None then
         Inl (conflict (dn_name input @ '' is backed by a constraint; drop the constraint instead''))
       else (case findIndexOwner catalogue (tc_schema input) (dn_name input) of
               Some owner \<Rightarrow>
                 Inl (conflict (''Index '' @ dn_name input @ '' belongs to '' @ ct_name owner @ '', not '' @ tc_table input))
             | None \<Rightarrow> Inl (notFound (''Index '' @ dn_name input @ '' does not exist''))))"

definition dropIndex :: "admin_deps \<Rightarrow> DropNamedCommand \<Rightarrow> ExecuteOutcome io" where
  "dropIndex d input =
     bindM (unlessRecorded d input
              (bindM (ad_catalogue d) (\<lambda>catalogue. liftR (dropIndexChecks d input catalogue)))) (\<lambda>_.
       submitPlain d input ''schema.index.drop'' [(''name'', JStr (dn_name input))]
         (compileDropIndex (tc_schema input) (dn_name input)))"

definition addUniqueChecks :: "admin_deps \<Rightarrow> KeyCommand \<Rightarrow> SchemaCatalogue \<Rightarrow> thrown + unit" where
  "addUniqueChecks d input catalogue =
     bindR (ownedTable d catalogue (tc_schema input) (tc_table input) ''Table'') (\<lambda>t.
     bindR (requireColumns t (kc_columns input)) (\<lambda>_.
     let name = chosenName (ad_sha d) (kc_name input) ''uniq'' (tc_table input) (kc_columns input)
     in bindR (constraintFree t name) (\<lambda>_. indexFree catalogue (tc_schema input) name)))"

definition addUniqueConstraint :: "admin_deps \<Rightarrow> KeyCommand \<Rightarrow> ExecuteOutcome io" where
  "addUniqueConstraint d input =
     bindM (unlessRecorded d input
              (bindM (ad_catalogue d) (\<lambda>catalogue. liftR (addUniqueChecks d input catalogue)))) (\<lambda>_.
       submitPlain d input ''schema.constraint.unique.add''
         ((''columns'', stringsJson (kc_columns input)) # nameMember (kc_name input))
         (compileAddUniqueConstraint (ad_sha d) (tc_schema input) (tc_table input) (kc_columns input)
            (kc_name input)))"

definition dropConstraintChecks :: "admin_deps \<Rightarrow> DropNamedCommand \<Rightarrow> SchemaCatalogue \<Rightarrow> thrown + unit" where
  "dropConstraintChecks d input catalogue =
     bindR (ownedTable d catalogue (tc_schema input) (tc_table input) ''Table'') (\<lambda>t.
       (case findConstraint t (dn_name input) of
          None \<Rightarrow> Inl (notFound (''Constraint '' @ dn_name input @ '' does not exist''))
        | Some c \<Rightarrow>
            bindR (guardR (cn_classification c = PrimaryKey)
              (refuse ''Primary keys are managed by the table lifecycle and cannot be dropped directly'')) (\<lambda>_.
            guardR (cn_classification c = CheckConstraint \<or> cn_classification c = Exclusion)
              (refuse ((if cn_classification c = CheckConstraint then ''check'' else ''exclusion'') @
                 '' constraints are read-only metadata and cannot be managed'')))))"

definition dropConstraint :: "admin_deps \<Rightarrow> DropNamedCommand \<Rightarrow> ExecuteOutcome io" where
  "dropConstraint d input =
     bindM (unlessRecorded d input
              (bindM (ad_catalogue d) (\<lambda>catalogue. liftR (dropConstraintChecks d input catalogue)))) (\<lambda>_.
       submitPlain d input ''schema.constraint.drop'' [(''name'', JStr (dn_name input))]
         (compileDropConstraint (tc_schema input) (tc_table input) (dn_name input)))"

definition nullableColumn :: "SchemaCatalogueTable \<Rightarrow> string \<Rightarrow> bool" where
  "nullableColumn table column = (case lookupColumn table column of None \<Rightarrow> False | Some c \<Rightarrow> sc_isNullable c)"

definition typesMatch :: "SchemaCatalogueTable \<Rightarrow> SchemaCatalogueTable \<Rightarrow> string \<times> string \<Rightarrow> thrown + unit" where
  "typesMatch table target = (\<lambda>(column, referenced).
     (case (lookupColumn table column, lookupColumn target referenced) of
        (Some a, Some b) \<Rightarrow>
          (case (mapCatalogueType (sc_renderedType a), mapCatalogueType (sc_renderedType b)) of
             (Some fromType, Some toType) \<Rightarrow>
               guardR (fromType \<noteq> toType)
                 (refuse (''Foreign key column types must match ('' @ sc_renderedType a @ '' references '' @
                    sc_renderedType b @ '')''))
           | _ \<Rightarrow> Inr ())
      | _ \<Rightarrow> Inr ()))"

definition addForeignKeyChecks :: "admin_deps \<Rightarrow> AddForeignKeyCommand \<Rightarrow> SchemaCatalogue \<Rightarrow> thrown + unit" where
  "addForeignKeyChecks d input catalogue =
     bindR (ownedTable d catalogue (tc_schema input) (tc_table input) ''Referencing table'') (\<lambda>t.
     bindR (ownedTable d catalogue (af_refSchema input) (af_refTable input) ''Referenced table'') (\<lambda>target.
     bindR (requireColumns t (kc_columns input)) (\<lambda>_.
     bindR (requireColumns target (af_refColumns input)) (\<lambda>_.
     bindR (guardR (length (kc_columns input) \<noteq> length (af_refColumns input))
              (refuse ''A foreign key must reference the same number of columns it constrains'')) (\<lambda>_.
     bindR (guardR ((af_onUpdate input = ''set_null'' \<or> af_onDelete input = ''set_null'') \<and>
                    \<not> list_all (nullableColumn t) (kc_columns input))
              (refuse ''SET NULL requires every referencing column to be nullable'')) (\<lambda>_.
     bindR (mapR (typesMatch t target) (zip (kc_columns input) (af_refColumns input))) (\<lambda>_.
       constraintFree t
         (chosenName (ad_sha d) (kc_name input) ''fkey'' (tc_table input) (kc_columns input)))))))))"

definition foreignKeySpec :: "AddForeignKeyCommand \<Rightarrow> AddForeignKeySpec" where
  "foreignKeySpec input =
     \<lparr>fk_schema = tc_schema input, fk_table = tc_table input, fk_columns = kc_columns input,
      fk_refSchema = af_refSchema input, fk_refTable = af_refTable input, fk_refColumns = af_refColumns input,
      fk_onUpdate = af_onUpdate input, fk_onDelete = af_onDelete input, fk_name = kc_name input\<rparr>"

definition addForeignKey :: "admin_deps \<Rightarrow> AddForeignKeyCommand \<Rightarrow> ExecuteOutcome io" where
  "addForeignKey d input =
     bindM (unlessRecorded d input
              (bindM (ad_catalogue d) (\<lambda>catalogue. liftR (addForeignKeyChecks d input catalogue)))) (\<lambda>_.
       submitPlain d input ''schema.foreign_key.add''
         ([(''columns'', stringsJson (kc_columns input)),
           (''references'', JObj (tableMembers (af_refSchema input) (af_refTable input) @
              [(''columns'', stringsJson (af_refColumns input))])),
           (''onUpdate'', JStr (af_onUpdate input)), (''onDelete'', JStr (af_onDelete input))] @
          nameMember (kc_name input))
         (compileAddForeignKey (ad_sha d) (foreignKeySpec input)))"

end
