(* ===== verification/ConstraintFacts.thy ===== *)
theory ConstraintFacts
  imports Constraints
begin

text \<open>
  What a command of \<open>src/database/schema-constraints.ts\<close> may send, and what a dry run of it is not asked.
\<close>

datatype constraint_command =
    CreateIndex KeyCommand
  | DropIndex DropNamedCommand
  | AddUniqueConstraint KeyCommand
  | DropConstraint DropNamedCommand
  | AddForeignKey AddForeignKeyCommand

fun runConstraint :: "admin_deps \<Rightarrow> constraint_command \<Rightarrow> ExecuteOutcome io" where
  "runConstraint d (CreateIndex c) = createIndex d c"
| "runConstraint d (DropIndex c) = dropIndex d c"
| "runConstraint d (AddUniqueConstraint c) = addUniqueConstraint d c"
| "runConstraint d (DropConstraint c) = dropConstraint d c"
| "runConstraint d (AddForeignKey c) = addForeignKey d c"

fun constraintBase :: "constraint_command \<Rightarrow> TableCommand" where
  "constraintBase (CreateIndex c) = TableCommand.truncate c"
| "constraintBase (DropIndex c) = TableCommand.truncate c"
| "constraintBase (AddUniqueConstraint c) = TableCommand.truncate c"
| "constraintBase (DropConstraint c) = TableCommand.truncate c"
| "constraintBase (AddForeignKey c) = TableCommand.truncate c"

fun constraintPlan :: "admin_deps \<Rightarrow> constraint_command \<Rightarrow> thrown + DdlPlan" where
  "constraintPlan d (CreateIndex c) =
     compileCreateIndex (ad_sha d) (tc_schema c) (tc_table c) (kc_columns c) (kc_name c)"
| "constraintPlan d (DropIndex c) = compileDropIndex (tc_schema c) (dn_name c)"
| "constraintPlan d (AddUniqueConstraint c) =
     compileAddUniqueConstraint (ad_sha d) (tc_schema c) (tc_table c) (kc_columns c) (kc_name c)"
| "constraintPlan d (DropConstraint c) = compileDropConstraint (tc_schema c) (tc_table c) (dn_name c)"
| "constraintPlan d (AddForeignKey c) = compileAddForeignKey (ad_sha d) (foreignKeySpec c)"

subsection \<open>What the preflight must have seen\<close>

definition owns :: "admin_deps \<Rightarrow> SchemaCatalogue \<Rightarrow> string \<Rightarrow> string \<Rightarrow> SchemaCatalogueTable \<Rightarrow> bool" where
  "owns d cat schema table T \<longleftrightarrow>
     classifySchemaObject (toLowerCase schema) = OperatorObject \<and>
     (\<exists>S\<in>set (ca_schemas cat). cs_name S = schema \<and> T \<in> set (cs_tables S)) \<and>
     ct_name T = table \<and> ct_owner T = ad_adminRole d"

text \<open>The name is taken neither by an index of the schema's catalogue entry nor by a constraint of the table.\<close>

definition nameFree :: "SchemaCatalogue \<Rightarrow> string \<Rightarrow> SchemaCatalogueTable \<Rightarrow> string \<Rightarrow> bool" where
  "nameFree cat schema T n \<longleftrightarrow> findIndexOwner cat schema n = None \<and> n \<notin> cn_name ` set (ct_constraints T)"

abbreviation hasColumns :: "SchemaCatalogueTable \<Rightarrow> string list \<Rightarrow> bool" where
  "hasColumns T cs \<equiv> set cs \<subseteq> sc_name ` set (ct_columns T)"

fun constraintPermitted :: "admin_deps \<Rightarrow> constraint_command \<Rightarrow> SchemaCatalogue \<Rightarrow> bool" where
  "constraintPermitted d (CreateIndex c) cat \<longleftrightarrow>
     (\<exists>T. owns d cat (tc_schema c) (tc_table c) T \<and> hasColumns T (kc_columns c) \<and>
        nameFree cat (tc_schema c) T (chosenName (ad_sha d) (kc_name c) ''idx'' (tc_table c) (kc_columns c)))"
| "constraintPermitted d (DropIndex c) cat \<longleftrightarrow>
     (\<exists>T. owns d cat (tc_schema c) (tc_table c) T \<and> dn_name c \<in> ix_name ` set (ct_indexes T))"
| "constraintPermitted d (AddUniqueConstraint c) cat \<longleftrightarrow>
     (\<exists>T. owns d cat (tc_schema c) (tc_table c) T \<and> hasColumns T (kc_columns c) \<and>
        nameFree cat (tc_schema c) T (chosenName (ad_sha d) (kc_name c) ''uniq'' (tc_table c) (kc_columns c)))"
| "constraintPermitted d (DropConstraint c) cat \<longleftrightarrow>
     (\<exists>T k. owns d cat (tc_schema c) (tc_table c) T \<and> k \<in> set (ct_constraints T) \<and> cn_name k = dn_name c \<and>
        cn_classification k \<in> {UniqueKey, ForeignKey})"
| "constraintPermitted d (AddForeignKey c) cat \<longleftrightarrow>
     (\<exists>T U. owns d cat (tc_schema c) (tc_table c) T \<and> owns d cat (af_refSchema c) (af_refTable c) U \<and>
        hasColumns T (kc_columns c) \<and> hasColumns U (af_refColumns c) \<and>
        length (kc_columns c) = length (af_refColumns c) \<and>
        (af_onUpdate c = ''set_null'' \<or> af_onDelete c = ''set_null'' \<longrightarrow> (\<forall>x\<in>set (kc_columns c). nullableColumn T x)) \<and>
        (\<forall>p\<in>set (zip (kc_columns c) (af_refColumns c)). typesMatch T U p = Inr ()) \<and>
        chosenName (ad_sha d) (kc_name c) ''fkey'' (tc_table c) (kc_columns c) \<notin> cn_name ` set (ct_constraints T))"

definition constraintHanded :: "admin_deps \<Rightarrow> constraint_command \<Rightarrow> DdlPlan list \<Rightarrow> ExecuteOptions \<Rightarrow> bool" where
  "constraintHanded d m plans opts \<longleftrightarrow>
     eo_key opts = mb_key (constraintBase m) \<and> eo_dryRun opts = mb_dryRun (constraintBase m) \<and>
     (\<exists>p. constraintPlan d m = Inr p \<and> plans = [p])"

subsection \<open>The checks, inverted\<close>

lemma ownedTable_Inr: "ownedTable d cat s t l = Inr T \<Longrightarrow> owns d cat s t T"
  unfolding ownedTable_def owns_def by (auto simp: res_simps assertOwnedAs_def dest!: requireTable_Inr)

lemma requireColumns_Inr: "requireColumns T cs = Inr u \<Longrightarrow> hasColumns T cs"
  by (fastforce simp: requireColumns_def res_simps list_ex_iff dest: mapR_all)

lemma find_None: "find P xs = None \<longleftrightarrow> (\<forall>x\<in>set xs. \<not> P x)"
  by (auto simp: find_None_iff)

lemma constraintFree_Inr: "constraintFree T n = Inr u \<longleftrightarrow> n \<notin> cn_name ` set (ct_constraints T)"
  by (auto simp: constraintFree_def findConstraint_def find_None)

lemma indexFree_Inr: "indexFree cat s n = Inr u \<longleftrightarrow> findIndexOwner cat s n = None"
  by (simp add: indexFree_def)

context admin_lane
begin

lemma gated_unlessRecorded:
  assumes "vetted d A checks" and "submits d P f"
  shows "gated d False (mb_key input) A P (bindM (unlessRecorded d input checks) (\<lambda>_. f))"
proof (rule gated_stage)
  show "staged d False (mb_key input) A (unlessRecorded d input checks)"
    unfolding unlessRecorded_def hasExistingRecord_def bindM_assoc
    by (rule staged_lookup [OF query_reads]) (use assms in \<open>auto intro: io_intros\<close>)
qed (rule assms)

lemma submits_plain:
  assumes "\<And>p opts. planR = Inr p \<Longrightarrow> eo_key opts = mb_key input \<Longrightarrow> eo_dryRun opts = mb_dryRun input \<Longrightarrow> P [p] opts"
  shows "submits d P (submitPlain d input ct ms planR)"
  unfolding submitPlain_def submit_def by (intro submits_check submits_execute) (auto intro!: assms)

text \<open>A gated command that hands over one plan sends the statements of that plan.\<close>

lemma single_plan_sends:
  assumes "gated d dry key A P m" and "\<And>plans opts. P plans opts \<Longrightarrow> \<exists>p. planR = Inr p \<and> plans = [p]"
    and "m w = (r, w')"
  shows "\<exists>es. w' = w @ es \<and>
    (planStatements es \<noteq> [] \<longrightarrow>
      (\<exists>p. planR = Inr p \<and> prefix (planStatements es) (pl_statements p)) \<and>
      (\<exists>v. prefix v w' \<and> reads w v \<and> cleared d dry key A w v))"
proof -
  have one: "ss = pl_statements p" if "statementsOf [p] = Inr ss" for p ss
    using that by (auto simp: statementsOf_def res_simps split: if_splits)
  from gated_sends [OF assms(1,3)] obtain es where es: "w' = w @ es"
    "planStatements es \<noteq> [] \<longrightarrow>
      (\<exists>v plans opts ss. prefix v w' \<and> reads w v \<and> cleared d dry key A w v \<and> P plans opts \<and>
         statementsOf plans = Inr ss \<and> prefix (planStatements es) ss)" by blast
  have "\<exists>p. planR = Inr p \<and> prefix (planStatements es) (pl_statements p)"
    "\<exists>v. prefix v w' \<and> reads w v \<and> cleared d dry key A w v" if "planStatements es \<noteq> []"
    using es(2) that assms(2) one by blast+
  with es(1) show ?thesis by blast
qed

lemmas inverted = ownedTable_Inr requireColumns_Inr

lemma gated_constraint:
  "gated d False (mb_key (constraintBase m)) (constraintPermitted d m) (constraintHanded d m) (runConstraint d m)"
proof (cases m)
  case (CreateIndex c)
  have "gated d False (mb_key c) (constraintPermitted d m) (constraintHanded d m) (createIndex d c)"
    unfolding createIndex_def
  proof (intro gated_unlessRecorded vetted_pure submits_plain)
    fix cat x assume "createIndexChecks d c cat = Inr x"
    then show "constraintPermitted d m cat"
      by (fastforce simp: CreateIndex createIndexChecks_def res_simps Let_def nameFree_def constraintFree_Inr indexFree_Inr
          dest: inverted)
  qed (simp add: CreateIndex constraintHanded_def TableCommand.defs)
  then show ?thesis by (simp add: CreateIndex TableCommand.defs)
next
  case (DropIndex c)
  have "gated d False (mb_key c) (constraintPermitted d m) (constraintHanded d m) (dropIndex d c)"
    unfolding dropIndex_def
  proof (intro gated_unlessRecorded vetted_pure submits_plain)
    fix cat x assume "dropIndexChecks d c cat = Inr x"
    then obtain T where "owns d cat (tc_schema c) (tc_table c) T" "list_ex (\<lambda>i. ix_name i = dn_name c) (ct_indexes T)"
      by (auto simp: dropIndexChecks_def res_simps dest!: ownedTable_Inr split: if_splits option.splits)
    moreover from this(2) have "dn_name c \<in> ix_name ` set (ct_indexes T)" unfolding list_ex_iff by (metis image_eqI)
    ultimately show "constraintPermitted d m cat" unfolding DropIndex by auto
  qed (simp add: DropIndex constraintHanded_def TableCommand.defs)
  then show ?thesis by (simp add: DropIndex TableCommand.defs)
next
  case (AddUniqueConstraint c)
  have "gated d False (mb_key c) (constraintPermitted d m) (constraintHanded d m) (addUniqueConstraint d c)"
    unfolding addUniqueConstraint_def
  proof (intro gated_unlessRecorded vetted_pure submits_plain)
    fix cat x assume "addUniqueChecks d c cat = Inr x"
    then show "constraintPermitted d m cat"
      by (fastforce simp: AddUniqueConstraint addUniqueChecks_def res_simps Let_def nameFree_def constraintFree_Inr
          indexFree_Inr dest: inverted)
  qed (simp add: AddUniqueConstraint constraintHanded_def TableCommand.defs)
  then show ?thesis by (simp add: AddUniqueConstraint TableCommand.defs)
next
  case (DropConstraint c)
  have kinds: "k \<noteq> PrimaryKey \<Longrightarrow> k \<noteq> CheckConstraint \<Longrightarrow> k \<noteq> Exclusion \<Longrightarrow> k \<in> {UniqueKey, ForeignKey}" for k
    by (cases k) auto
  have "gated d False (mb_key c) (constraintPermitted d m) (constraintHanded d m) (dropConstraint d c)"
    unfolding dropConstraint_def
  proof (intro gated_unlessRecorded vetted_pure submits_plain)
    fix cat x assume "dropConstraintChecks d c cat = Inr x"
    then obtain T k where T: "owns d cat (tc_schema c) (tc_table c) T" "findConstraint T (dn_name c) = Some k"
      "cn_classification k \<noteq> PrimaryKey" "cn_classification k \<noteq> CheckConstraint" "cn_classification k \<noteq> Exclusion"
      by (auto simp: dropConstraintChecks_def res_simps dest!: ownedTable_Inr split: option.splits)
    moreover from T(2) have "k \<in> set (ct_constraints T)" "cn_name k = dn_name c"
      unfolding findConstraint_def by (auto dest: find_SomeD)
    ultimately show "constraintPermitted d m cat" using kinds by (auto simp: DropConstraint)
  qed (simp add: DropConstraint constraintHanded_def TableCommand.defs)
  then show ?thesis by (simp add: DropConstraint TableCommand.defs)
next
  case (AddForeignKey c)
  have "gated d False (mb_key c) (constraintPermitted d m) (constraintHanded d m) (addForeignKey d c)"
    unfolding addForeignKey_def
  proof (intro gated_unlessRecorded vetted_pure submits_plain)
    fix cat x assume "addForeignKeyChecks d c cat = Inr x"
    then obtain T U us where c: "owns d cat (tc_schema c) (tc_table c) T" "owns d cat (af_refSchema c) (af_refTable c) U"
      "hasColumns T (kc_columns c)" "hasColumns U (af_refColumns c)" "length (kc_columns c) = length (af_refColumns c)"
      "af_onUpdate c = ''set_null'' \<or> af_onDelete c = ''set_null'' \<longrightarrow> list_all (nullableColumn T) (kc_columns c)"
      "mapR (typesMatch T U) (zip (kc_columns c) (af_refColumns c)) = Inr us"
      "constraintFree T (chosenName (ad_sha d) (kc_name c) ''fkey'' (tc_table c) (kc_columns c)) = Inr x"
      unfolding addForeignKeyChecks_def bindR_Inr_iff guardR_Inr by (auto dest!: inverted)
    have "typesMatch T U p = Inr ()" if "p \<in> set (zip (kc_columns c) (af_refColumns c))" for p
      using mapR_all [OF c(7) that] by simp
    then show "constraintPermitted d m cat"
      using c(1-6,8) unfolding AddForeignKey constraintPermitted.simps constraintFree_Inr list_all_iff
      by (intro exI [where x = T] exI [where x = U]) blast
  qed (simp add: AddForeignKey constraintHanded_def TableCommand.defs)
  then show ?thesis by (simp add: AddForeignKey TableCommand.defs)
qed

end

text \<open>C17: Whatever the server answers, an index, unique or foreign-key command sends only statements of its own
  compiled plan, in order, and only after this call found the key's record in the log or read a catalogue in which
  the command is permitted: tables owned by the schema-admin role in operator schemas, existing columns, a free name,
  for a drop a listed index or a unique or foreign key, and for a foreign key matching types and nullable columns
  under SET NULL.\<close>
theorem constraint_guarded:
  assumes "runConstraint (adminLane D reg adminRole runtimeRole) m w = (r, w')"
  shows "\<exists>es. w' = w @ es \<and>
    (planStatements es \<noteq> [] \<longrightarrow>
      (\<exists>p. constraintPlan (adminLane D reg adminRole runtimeRole) m = Inr p \<and> prefix (planStatements es) (pl_statements p)) \<and>
      (\<exists>v. prefix v w' \<and> reads w v \<and>
        (sawRecord (adminLane D reg adminRole runtimeRole) (mb_key (constraintBase m)) w v \<or>
         sawCatalogue (adminLane D reg adminRole runtimeRole)
           (constraintPermitted (adminLane D reg adminRole runtimeRole) m) w v)))"
  using lane.single_plan_sends [OF lane.gated_constraint, where planR = "constraintPlan (adminLane D reg adminRole runtimeRole) m", OF _ assms]
  unfolding constraintHanded_def cleared_def by blast

text \<open>A log that holds the key, a catalogue that cannot be read.\<close>

definition reusedAnswers :: "event list \<Rightarrow> thrown + qresult" where
  "reusedAnswers w =
     (case last w of
        EvPool t vs \<Rightarrow> if vs = [] then Inl (ErrObj ''no catalogue'' []) else Inr \<lparr>qr_rows = [changeRow], qr_count = None\<rparr>
      | _ \<Rightarrow> Inr emptyResult)"

definition reusedAdmin :: ddl_env where
  "reusedAdmin = demoAdmin\<lparr>dd_runtime := okRuntime\<lparr>heap := changeHeap, db := reusedAnswers\<rparr>\<rparr>"

definition reusedDrop :: DropNamedCommand where
  "reusedDrop = \<lparr>mb_key = ''k2'', mb_actor = ''ann'', mb_dryRun = True, tc_schema = ''app'', tc_table = ''notes'',
     dn_name = ''notes_pkey''\<rparr>"

definition reusedLane :: admin_deps where
  "reusedLane = adminLane reusedAdmin [] ''admin'' ''app_user''"

lemma reused_lookup:
  "hasExistingRecord reusedLane ''k2'' w = (Inr True, w @ [EvPool SELECT_BY_KEY_SQL [VStr ''k2'']])"
proof -
  have v: "validateIdempotencyKey ''k2'' = Inr ()" by code_simp
  have "case mapOperationRow changeHeap changeRow of Inl e \<Rightarrow> False | Inr x \<Rightarrow> True" by code_simp
  then obtain rec where "mapOperationRow changeHeap changeRow = Inr rec" by (auto split: sum.splits)
  then show ?thesis using v
    by (simp add: hasExistingRecord_def logGet_def queryRow_def adminLog_def reusedLane_def adminLane_def reusedAdmin_def
        demoAdmin_def Let_def poolQuery_def guardNotClosed_def io_simps okRuntime_def reusedAnswers_def)
qed

lemma reused_blind: "fst (ad_catalogue reusedLane v) \<noteq> Inr cat"
  by (simp add: reusedLane_def adminLane_def reusedAdmin_def demoAdmin_def Let_def readSchemaCatalogue_def
      poolQuery_def guardNotClosed_def io_simps okRuntime_def reusedAnswers_def)

lemma reused_sends:
  assumes "statementsOf [plan] = Inr ss" and "compileDropConstraint ''app'' ''notes'' ''notes_pkey'' = Inr plan"
  shows "planStatements (snd (dropConstraint reusedLane reusedDrop [])) = ss"
proof -
  have dry: "planStatements (snd (execute reusedAdmin [plan] opts w)) = planStatements w @ ss" if "eo_dryRun opts" for opts w
    using assms(1) that
  proof (intro dry_run_sends)
    show "db (dd_runtime reusedAdmin) (v @ [e]) = Inr emptyResult" if "\<not> poolRead e" for v e
      using that by (cases e) (simp_all add: reusedAdmin_def demoAdmin_def reusedAnswers_def)
  qed (simp_all add: reusedAdmin_def demoAdmin_def)
  have c: "mb_key reusedDrop = ''k2''" "mb_dryRun reusedDrop" "tc_schema reusedDrop = ''app''"
    "tc_table reusedDrop = ''notes''" "dn_name reusedDrop = ''notes_pkey''" by (simp_all add: reusedDrop_def)
  have e: "ad_execute reusedLane = execute reusedAdmin" by (simp add: reusedLane_def adminLane_def Let_def)
  have p: "planStatements [EvPool t vs] = []" for t vs by (simp add: planStatements_def List.map_filter_simps)
  show ?thesis
    using assms(2) by (simp add: dropConstraint_def unlessRecorded_def submitPlain_def submit_def io_simps c e reused_lookup
        dry p)
qed


theorem constraint_guarded_witness:
  "\<exists>es p. snd (runConstraint (adminLane reusedAdmin [] ''admin'' ''app_user'') (DropConstraint reusedDrop) []) = es \<and>
     planStatements es \<noteq> [] \<and> compileDropConstraint ''app'' ''notes'' ''notes_pkey'' = Inr p \<and>
     prefix (planStatements es) (pl_statements p)"
proof -
  let ?run = "runConstraint (adminLane reusedAdmin [] ''admin'' ''app_user'') (DropConstraint reusedDrop) []"
  have "case compileDropConstraint ''app'' ''notes'' ''notes_pkey'' of
      Inl e \<Rightarrow> False | Inr p \<Rightarrow> (case statementsOf [p] of Inl e \<Rightarrow> False | Inr ss \<Rightarrow> ss \<noteq> [])" by code_simp
  then obtain p ss where p: "compileDropConstraint ''app'' ''notes'' ''notes_pkey'' = Inr p" "statementsOf [p] = Inr ss" "ss \<noteq> []"
    by (auto split: sum.splits)
  have "?run = dropConstraint reusedLane reusedDrop []" by (simp only: runConstraint.simps reusedLane_def)
  then have ne: "planStatements (snd ?run) \<noteq> []" using reused_sends [OF p(2,1)] p(3) by (simp only: not_False_eq_True)
  have q: "constraintPlan (adminLane reusedAdmin [] ''admin'' ''app_user'') (DropConstraint reusedDrop) =
      compileDropConstraint ''app'' ''notes'' ''notes_pkey''" by (simp add: reusedDrop_def)
  have "?run = (fst ?run, snd ?run)" by simp
  from constraint_guarded [OF this] ne
  have "\<exists>p. compileDropConstraint ''app'' ''notes'' ''notes_pkey'' = Inr p \<and> prefix (planStatements (snd ?run)) (pl_statements p)"
    unfolding q by (elim exE conjE) (simp only: append_Nil not_False_eq_True simp_thms)
  with ne show ?thesis by blast
qed

end
