(* ===== verification/RowSecurity.thy ===== *)
theory RowSecurity
  imports ConstraintFacts
begin

text \<open>
  Enabling and disabling row-level security, and the ownership policies (\<open>src/database/schema-rls.ts\<close>), with what
  their commands may do.
\<close>

subsection \<open>Commands\<close>

record DisableRowSecurityCommand = TableCommand +
  dr_confirm :: string

record OwnershipPolicyCommand = ColumnCommand +
  op_template :: string

subsection \<open>Guards\<close>

definition requireOwnedTable ::
  "admin_deps \<Rightarrow> SchemaCatalogue \<Rightarrow> string \<Rightarrow> string \<Rightarrow> thrown + SchemaCatalogueTable" where
  "requireOwnedTable d catalogue schema table =
     bindR (requireTable catalogue schema table) (\<lambda>t.
     bindR (assertOwned d t) (\<lambda>_. Inr t))"

definition simpleOrRefuse :: "string list \<Rightarrow> thrown + unit" where
  "simpleOrRefuse names = guardR (\<not> list_all simpleIdentifier names) (refuse ''Invalid SQL identifier'')"

definition disableNotExposed :: "admin_deps \<Rightarrow> string \<Rightarrow> string \<Rightarrow> thrown + unit" where
  "disableNotExposed d schema table =
     guardR (registered (ad_registry d) schema table)
       (conflict ''Table is exposed to the data API and row-level security cannot be disabled'')"

definition POLICY_EXISTS_SQL :: string where
  "POLICY_EXISTS_SQL =
     ''SELECT EXISTS ( SELECT 1 FROM pg_catalog.pg_policy pol '' @
     ''JOIN pg_catalog.pg_class c ON c.oid = pol.polrelid '' @
     ''JOIN pg_catalog.pg_namespace n ON n.oid = c.relnamespace '' @
     ''WHERE n.nspname = $1 AND c.relname = $2 AND pol.polname = $3 ) AS present''"

definition policyExists :: "admin_deps \<Rightarrow> string \<Rightarrow> string \<Rightarrow> string \<Rightarrow> bool io" where
  "policyExists d schema table name =
     bindM (ad_query d POLICY_EXISTS_SQL [VStr schema, VStr table, VStr name]) (\<lambda>result.
       liftR (booleanAnswer ''present'' result))"

subsection \<open>Row-level security\<close>

definition enableRowSecurity :: "admin_deps \<Rightarrow> TableCommand \<Rightarrow> ExecuteOutcome io" where
  "enableRowSecurity d input =
     bindM (liftR (simpleOrRefuse [tc_table input])) (\<lambda>_.
     bindM (preflight d input
              (bindM (ad_catalogue d) (\<lambda>catalogue.
                 liftR (bindR (requireOwnedTable d catalogue (tc_schema input) (tc_table input)) (\<lambda>_. Inr ()))))) (\<lambda>_.
       submitPlain d input ''schema.rls.enable'' []
         (compileEnableRowSecurity (tc_schema input) (tc_table input))))"

definition disableChecks :: "admin_deps \<Rightarrow> DisableRowSecurityCommand \<Rightarrow> SchemaCatalogue \<Rightarrow> thrown + unit" where
  "disableChecks d input catalogue =
     bindR (requireOwnedTable d catalogue (tc_schema input) (tc_table input)) (\<lambda>_.
       disableNotExposed d (tc_schema input) (tc_table input))"

definition disableRowSecurity :: "admin_deps \<Rightarrow> DisableRowSecurityCommand \<Rightarrow> ExecuteOutcome io" where
  "disableRowSecurity d input =
     bindM (liftR (simpleOrRefuse [tc_table input])) (\<lambda>_.
     bindM (preflight d input
              (bindM (liftR (guardR (dr_confirm input \<noteq> tc_schema input @ ''.'' @ tc_table input)
                 (refuse (''Disabling row-level security requires the exact confirmation value '' @
                    inQuotes ''schema.table'')))) (\<lambda>_.
               bindM (ad_catalogue d) (\<lambda>catalogue. liftR (disableChecks d input catalogue))))) (\<lambda>_.
       submitPlain d input ''schema.rls.disable'' [(''confirmed'', JBool True)]
         (compileDisableRowSecurity (tc_schema input) (tc_table input))))"

subsection \<open>Ownership policies\<close>

definition policyMembers :: "OwnershipPolicyCommand \<Rightarrow> (string \<times> json) list" where
  "policyMembers input = [(''column'', JStr (cc_column input)), (''template'', JStr (op_template input))]"

definition ownershipColumnChecks :: "OwnershipPolicyCommand \<Rightarrow> SchemaCatalogueTable \<Rightarrow> thrown + unit" where
  "ownershipColumnChecks input table =
     (case lookupColumn table (cc_column input) of
        None \<Rightarrow> Inl (notFound ''Referenced column does not exist'')
      | Some c \<Rightarrow>
          bindR (guardR (sc_generated c \<noteq> NotGenerated \<or> sc_identity c \<noteq> NoIdentity)
                   (refuse ''Generated and identity columns cannot be ownership columns'')) (\<lambda>_.
            guardR (mapCatalogueType (sc_renderedType c) \<noteq> Some TyUuid)
              (refuse ''Ownership column must be type uuid'')))"

definition createPolicyChecks :: "admin_deps \<Rightarrow> OwnershipPolicyCommand \<Rightarrow> string \<Rightarrow> SchemaCatalogue \<Rightarrow> unit io" where
  "createPolicyChecks d input name catalogue =
     bindM (liftR (bindR (requireOwnedTable d catalogue (tc_schema input) (tc_table input))
              (ownershipColumnChecks input))) (\<lambda>_.
     bindM (policyExists d (tc_schema input) (tc_table input) name) (\<lambda>present.
       liftR (guardR present (conflict (''Ownership policy '' @ name @ '' already exists'')))))"

definition createOwnershipPolicy :: "admin_deps \<Rightarrow> OwnershipPolicyCommand \<Rightarrow> ExecuteOutcome io" where
  "createOwnershipPolicy d input =
     bindM (liftR (simpleOrRefuse [tc_table input, cc_column input])) (\<lambda>_.
     let name = ownershipPolicyName (ad_sha d) (tc_table input) (cc_column input) (op_template input) in
     bindM (preflight d input (bindM (ad_catalogue d) (createPolicyChecks d input name))) (\<lambda>_.
       submitPlain d input ''schema.policy.create'' (policyMembers input)
         (compileCreateOwnershipPolicy (ad_sha d) (tc_schema input) (tc_table input) (cc_column input)
            (op_template input) (ad_runtimeRole d))))"

definition removePolicyChecks :: "admin_deps \<Rightarrow> OwnershipPolicyCommand \<Rightarrow> string \<Rightarrow> SchemaCatalogue \<Rightarrow> unit io" where
  "removePolicyChecks d input name catalogue =
     bindM (liftR (requireOwnedTable d catalogue (tc_schema input) (tc_table input))) (\<lambda>_.
     bindM (policyExists d (tc_schema input) (tc_table input) name) (\<lambda>present.
       liftR (guardR (\<not> present) (conflict (''Ownership policy '' @ name @ '' does not exist'')))))"

definition removeOwnershipPolicy :: "admin_deps \<Rightarrow> OwnershipPolicyCommand \<Rightarrow> ExecuteOutcome io" where
  "removeOwnershipPolicy d input =
     bindM (liftR (simpleOrRefuse [tc_table input, cc_column input])) (\<lambda>_.
     let name = ownershipPolicyName (ad_sha d) (tc_table input) (cc_column input) (op_template input) in
     bindM (preflight d input (bindM (ad_catalogue d) (removePolicyChecks d input name))) (\<lambda>_.
       submitPlain d input ''schema.policy.remove'' (policyMembers input)
         (compileDropOwnershipPolicy (ad_sha d) (tc_schema input) (tc_table input) (cc_column input)
            (op_template input))))"

subsection \<open>What the commands may do\<close>

datatype security_command =
    EnableRowSecurity TableCommand
  | DisableRowSecurity DisableRowSecurityCommand
  | CreateOwnershipPolicy OwnershipPolicyCommand
  | RemoveOwnershipPolicy OwnershipPolicyCommand

fun runSecurity :: "admin_deps \<Rightarrow> security_command \<Rightarrow> ExecuteOutcome io" where
  "runSecurity d (EnableRowSecurity c) = enableRowSecurity d c"
| "runSecurity d (DisableRowSecurity c) = disableRowSecurity d c"
| "runSecurity d (CreateOwnershipPolicy c) = createOwnershipPolicy d c"
| "runSecurity d (RemoveOwnershipPolicy c) = removeOwnershipPolicy d c"

fun securityBase :: "security_command \<Rightarrow> TableCommand" where
  "securityBase (EnableRowSecurity c) = c"
| "securityBase (DisableRowSecurity c) = TableCommand.truncate c"
| "securityBase (CreateOwnershipPolicy c) = TableCommand.truncate c"
| "securityBase (RemoveOwnershipPolicy c) = TableCommand.truncate c"

fun securityPlan :: "admin_deps \<Rightarrow> security_command \<Rightarrow> thrown + DdlPlan" where
  "securityPlan d (EnableRowSecurity c) = compileEnableRowSecurity (tc_schema c) (tc_table c)"
| "securityPlan d (DisableRowSecurity c) = compileDisableRowSecurity (tc_schema c) (tc_table c)"
| "securityPlan d (CreateOwnershipPolicy c) =
     compileCreateOwnershipPolicy (ad_sha d) (tc_schema c) (tc_table c) (cc_column c) (op_template c) (ad_runtimeRole d)"
| "securityPlan d (RemoveOwnershipPolicy c) =
     compileDropOwnershipPolicy (ad_sha d) (tc_schema c) (tc_table c) (cc_column c) (op_template c)"

fun securityPermitted :: "admin_deps \<Rightarrow> security_command \<Rightarrow> SchemaCatalogue \<Rightarrow> bool" where
  "securityPermitted d (EnableRowSecurity c) cat \<longleftrightarrow> (\<exists>T. owns d cat (tc_schema c) (tc_table c) T)"
| "securityPermitted d (DisableRowSecurity c) cat \<longleftrightarrow>
     dr_confirm c = tc_schema c @ ''.'' @ tc_table c \<and> (\<exists>T. manages d cat (tc_schema c) (tc_table c) T)"
| "securityPermitted d (CreateOwnershipPolicy c) cat \<longleftrightarrow>
     (\<exists>T. owns d cat (tc_schema c) (tc_table c) T \<and>
        hasColumn T (cc_column c) (\<lambda>x. ordinary x \<and> mapCatalogueType (sc_renderedType x) = Some TyUuid))"
| "securityPermitted d (RemoveOwnershipPolicy c) cat \<longleftrightarrow> (\<exists>T. owns d cat (tc_schema c) (tc_table c) T)"

definition securityHanded :: "admin_deps \<Rightarrow> security_command \<Rightarrow> DdlPlan list \<Rightarrow> ExecuteOptions \<Rightarrow> bool" where
  "securityHanded d m plans opts \<longleftrightarrow>
     eo_key opts = mb_key (securityBase m) \<and> eo_dryRun opts = mb_dryRun (securityBase m) \<and>
     (\<exists>p. securityPlan d m = Inr p \<and> plans = [p])"

lemma requireOwnedTable_Inr: "requireOwnedTable d cat s t = Inr T \<Longrightarrow> owns d cat s t T"
  unfolding requireOwnedTable_def owns_def by (auto simp: res_simps assertOwned_def dest!: requireTable_Inr)

lemma owns_manages:
  "owns d cat s t T \<Longrightarrow> \<not> registered (ad_registry d) s t \<Longrightarrow> manages d cat s t T"
  by (auto simp: owns_def manages_def registered_def list_ex_iff)

lemma ownershipColumnChecks_Inr:
  "ownershipColumnChecks c T = Inr u \<Longrightarrow>
     hasColumn T (cc_column c) (\<lambda>x. ordinary x \<and> mapCatalogueType (sc_renderedType x) = Some TyUuid)"
  unfolding ownershipColumnChecks_def lookupColumn_def
  by (auto simp: res_simps ordinary_def intro!: hasColumnI dest!: find_SomeD split: option.splits)

context admin_lane
begin

lemma reads_policyExists: "emitsOnly poolRead (policyExists d s t n)"
  unfolding policyExists_def by (intro silent_reads)

lemma gated_security:
  "gated d (mb_dryRun (securityBase m)) (mb_key (securityBase m)) (securityPermitted d m) (securityHanded d m) (runSecurity d m)"
proof (cases m)
  case (EnableRowSecurity c)
  have "gated d (mb_dryRun c) (mb_key c) (securityPermitted d m) (securityHanded d m) (enableRowSecurity d c)"
    unfolding enableRowSecurity_def
  proof (intro gated_check gated_preflight vetted_pure submits_plain)
    fix cat x assume "bindR (requireOwnedTable d cat (tc_schema c) (tc_table c)) (\<lambda>_. Inr ()) = Inr x"
    then show "securityPermitted d m cat"
      by (auto simp: EnableRowSecurity res_simps dest!: requireOwnedTable_Inr)
  qed (simp add: EnableRowSecurity securityHanded_def)
  then show ?thesis by (simp add: EnableRowSecurity)
next
  case (DisableRowSecurity c)
  have "gated d (mb_dryRun c) (mb_key c) (securityPermitted d m) (securityHanded d m) (disableRowSecurity d c)"
    unfolding disableRowSecurity_def
  proof (intro gated_check gated_preflight vetted_check vetted_pure submits_plain)
    fix u cat x
    assume "guardR (dr_confirm c \<noteq> tc_schema c @ ''.'' @ tc_table c)
        (refuse (''Disabling row-level security requires the exact confirmation value '' @ inQuotes ''schema.table'')) = Inr u"
      and "disableChecks d c cat = Inr x"
    then show "securityPermitted d m cat"
      by (auto simp: DisableRowSecurity disableChecks_def disableNotExposed_def res_simps
          dest!: requireOwnedTable_Inr intro: owns_manages)
  qed (simp add: DisableRowSecurity securityHanded_def TableCommand.defs)
  then show ?thesis by (simp add: DisableRowSecurity TableCommand.defs)
next
  case (CreateOwnershipPolicy c)
  have "gated d (mb_dryRun c) (mb_key c) (securityPermitted d m) (securityHanded d m) (createOwnershipPolicy d c)"
    unfolding createOwnershipPolicy_def Let_def
  proof (intro gated_check gated_preflight vetted_catalogue submits_plain)
    show "emitsOnly poolRead (createPolicyChecks d c n cat)" for n cat
      unfolding createPolicyChecks_def by (intro silent_reads reads_policyExists)
    show "yields (createPolicyChecks d c n cat) (\<lambda>_. securityPermitted d m cat)" for n cat
      unfolding createPolicyChecks_def
      by (rule yields_check)
         (auto intro!: yields_bind yields_liftR simp: CreateOwnershipPolicy res_simps
           dest!: requireOwnedTable_Inr ownershipColumnChecks_Inr)
  qed (simp_all add: CreateOwnershipPolicy securityHanded_def TableCommand.defs catalogue_reads)
  then show ?thesis by (simp add: CreateOwnershipPolicy TableCommand.defs)
next
  case (RemoveOwnershipPolicy c)
  have "gated d (mb_dryRun c) (mb_key c) (securityPermitted d m) (securityHanded d m) (removeOwnershipPolicy d c)"
    unfolding removeOwnershipPolicy_def Let_def
  proof (intro gated_check gated_preflight vetted_catalogue submits_plain)
    show "emitsOnly poolRead (removePolicyChecks d c n cat)" for n cat
      unfolding removePolicyChecks_def by (intro silent_reads reads_policyExists)
    show "yields (removePolicyChecks d c n cat) (\<lambda>_. securityPermitted d m cat)" for n cat
      unfolding removePolicyChecks_def
      by (rule yields_check)
         (auto intro!: yields_bind yields_liftR simp: RemoveOwnershipPolicy dest!: requireOwnedTable_Inr)
  qed (simp_all add: RemoveOwnershipPolicy securityHanded_def TableCommand.defs catalogue_reads)
  then show ?thesis by (simp add: RemoveOwnershipPolicy TableCommand.defs)
qed

end

lemma disable_guard:
  "compileDisableRowSecurity s t = Inr p \<Longrightarrow> prefix xs (pl_statements p) \<Longrightarrow> xs \<noteq> [] \<Longrightarrow>
     exposedGuardStatement s t = Inr (hd xs)"
  by (cases xs) (auto simp: compileDisableRowSecurity_def res_simps sealPlan_def)

fun disables :: "security_command \<Rightarrow> bool" where
  "disables (DisableRowSecurity c) = True"
| "disables _ = False"

text \<open>C16: Row security is enabled, forced or disabled, and ownership policies come and go, only by the statements of
  the compiled plan and only after this call found the key's record and is no dry run, or read a catalogue in which
  the command is permitted: an owned table of an operator schema, for a policy on a plain uuid column, for disabling
  the exact confirmation and an unexposed table.  Disabling starts with the durable exposure guard.\<close>
theorem security_guarded:
  assumes "runSecurity (adminLane D reg adminRole runtimeRole) m w = (r, w')"
  shows "\<exists>es. w' = w @ es \<and>
    (planStatements es \<noteq> [] \<longrightarrow>
      (\<exists>p. securityPlan (adminLane D reg adminRole runtimeRole) m = Inr p \<and> prefix (planStatements es) (pl_statements p)) \<and>
      (\<exists>v. prefix v w' \<and> reads w v \<and>
        (\<not> mb_dryRun (securityBase m) \<and> sawRecord (adminLane D reg adminRole runtimeRole) (mb_key (securityBase m)) w v \<or>
         sawCatalogue (adminLane D reg adminRole runtimeRole)
           (securityPermitted (adminLane D reg adminRole runtimeRole) m) w v)) \<and>
      (disables m \<longrightarrow>
        exposedGuardStatement (tc_schema (securityBase m)) (tc_table (securityBase m)) = Inr (hd (planStatements es))))"
proof -
  have g: "exposedGuardStatement (tc_schema (securityBase m)) (tc_table (securityBase m)) = Inr (hd xs)"
    if "disables m" "securityPlan (adminLane D reg adminRole runtimeRole) m = Inr p" "prefix xs (pl_statements p)" "xs \<noteq> []"
    for p xs
    using that disable_guard by (cases m) (auto simp: TableCommand.defs)
  show ?thesis
    using lane.single_plan_sends [OF lane.gated_security, where planR = "securityPlan (adminLane D reg adminRole runtimeRole) m", OF _ assms] g
    unfolding securityHanded_def cleared_def by blast
qed

definition demoDisable :: DisableRowSecurityCommand where
  "demoDisable = \<lparr>mb_key = ''k2'', mb_actor = ''ann'', mb_dryRun = True, tc_schema = ''app'', tc_table = ''notes'',
     dr_confirm = ''app.notes''\<rparr>"

lemma demo_disable_sends: "length (planStatements (snd (disableRowSecurity demoLane demoDisable []))) = 3"
proof -
  have "case mapCatalogueRows demoHeap demoRows of
      Inl e \<Rightarrow> False
    | Inr cat \<Rightarrow> (case disableChecks demoLane demoDisable cat of Inl e \<Rightarrow> False | Inr u \<Rightarrow> True)"
    by code_simp
  then obtain cat where cat: "mapCatalogueRows demoHeap demoRows = Inr cat" "disableChecks demoLane demoDisable cat = Inr ()"
    by (auto split: sum.splits)
  have "case compileDisableRowSecurity ''app'' ''notes'' of
      Inl e \<Rightarrow> False
    | Inr plan \<Rightarrow> (case statementsOf [plan] of Inl e \<Rightarrow> False | Inr ss \<Rightarrow> length ss = 3)"
    by code_simp
  then obtain plan ss where p: "compileDisableRowSecurity ''app'' ''notes'' = Inr plan"
    "statementsOf [plan] = Inr ss" "length ss = 3" by (auto split: sum.splits)
  have t: "simpleOrRefuse [tc_table demoDisable] = Inr ()" by code_simp
  have c: "mb_dryRun demoDisable" "tc_schema demoDisable = ''app''" "tc_table demoDisable = ''notes''"
    "dr_confirm demoDisable = ''app'' @ ''.'' @ ''notes''" by (simp_all add: demoDisable_def)
  have "planStatements [EvPool t vs] = []" for t vs by (simp add: planStatements_def List.map_filter_simps)
  then show ?thesis using p cat(2) t c
    by (simp add: disableRowSecurity_def preflight_def preflightApplies_def submitPlain_def submit_def
        guardR_def io_simps demo_catalogue [OF cat(1)] demo_dry_run [OF p(2)] del: demoLane_simps(2))
qed

theorem security_guarded_witness:
  "\<exists>es. snd (runSecurity (adminLane demoAdmin [] ''admin'' ''app_user'') (DisableRowSecurity demoDisable) []) = es \<and>
     length (planStatements es) = 3 \<and> exposedGuardStatement ''app'' ''notes'' = Inr (hd (planStatements es))"
proof -
  let ?run = "runSecurity (adminLane demoAdmin [] ''admin'' ''app_user'') (DisableRowSecurity demoDisable) []"
  have "?run = disableRowSecurity demoLane demoDisable []" by (simp only: runSecurity.simps demoLane_def)
  then have n: "length (planStatements (snd ?run)) = 3" by (simp only: demo_disable_sends)
  then have ne: "planStatements (snd ?run) \<noteq> []" by (metis length_0_conv zero_neq_numeral)
  have b: "tc_schema (securityBase (DisableRowSecurity demoDisable)) = ''app''"
    "tc_table (securityBase (DisableRowSecurity demoDisable)) = ''notes''"
    by (simp_all add: demoDisable_def TableCommand.defs)
  have "?run = (fst ?run, snd ?run)" by simp
  from security_guarded [OF this, unfolded b] ne
  have "exposedGuardStatement ''app'' ''notes'' = Inr (hd (planStatements (snd ?run)))"
    by (elim exE conjE) (simp only: append_Nil not_False_eq_True simp_thms disables.simps)
  with n show ?thesis by blast
qed

end
