(* ===== verification/Exposure.thy ===== *)
theory Exposure
  imports RowSecurity ExposureRegistry
begin

text \<open>
  Moving tables in and out of the data API (\<open>src/database/schema-exposure.ts\<close>): the verification of a
  candidate, the probe that renders the module's own comparison on the server, and the two commands.  Probes
  that the code starts together in a \<open>Promise.all\<close> run one after another here, in the order they are started,
  and stop at the first that fails.
\<close>

subsection \<open>Commands and statements\<close>

record ExposeTableCommand = TableCommand +
  xp_alias :: string

record ExposureVerification =
  xv_readable :: "string list"
  xv_insertable :: "string list"
  xv_updatable :: "string list"

definition CANDIDATE_EXISTS_SQL :: string where
  "CANDIDATE_EXISTS_SQL =
     ''SELECT EXISTS ( SELECT 1 FROM pg_catalog.pg_class c '' @
     ''JOIN pg_catalog.pg_namespace n ON n.oid = c.relnamespace '' @
     ''WHERE n.nspname = $1 AND c.relname = $2 AND c.relkind = '' @ sq ''r'' @ '' ) AS exists''"

definition CANDIDATE_RLS_SQL :: string where
  "CANDIDATE_RLS_SQL =
     ''SELECT c.relrowsecurity, c.relforcerowsecurity FROM pg_catalog.pg_class c '' @
     ''JOIN pg_catalog.pg_namespace n ON n.oid = c.relnamespace '' @
     ''WHERE n.nspname = $1 AND c.relname = $2 AND c.relkind = '' @ sq ''r''"

definition APPLICABLE_POLICIES_SQL :: string where
  "APPLICABLE_POLICIES_SQL =
     ''SELECT pol.polname AS policy_name, pol.polcmd AS command, pol.polpermissive AS permissive '' @
     ''FROM pg_catalog.pg_policy pol JOIN pg_catalog.pg_class c ON c.oid = pol.polrelid '' @
     ''JOIN pg_catalog.pg_namespace n ON n.oid = c.relnamespace '' @
     ''WHERE n.nspname = $1 AND c.relname = $2 AND ( pol.polroles = ARRAY[0]::oid[] OR EXISTS ( '' @
     ''SELECT 1 FROM pg_catalog.unnest(pol.polroles) AS policy_role '' @
     ''WHERE pg_catalog.pg_has_role($3, policy_role, '' @ sq ''MEMBER'' @ '') ) )''"

definition CANDIDATE_KEY_SQL :: string where
  "CANDIDATE_KEY_SQL =
     ''SELECT a.attname AS column_name, pg_catalog.format_type(a.atttypid, a.atttypmod) AS data_type '' @
     ''FROM pg_catalog.pg_index i JOIN pg_catalog.pg_class c ON c.oid = i.indrelid '' @
     ''JOIN pg_catalog.pg_namespace n ON n.oid = c.relnamespace '' @
     ''JOIN pg_catalog.pg_attribute a ON a.attrelid = c.oid AND a.attnum = ANY(i.indkey) '' @
     ''WHERE n.nspname = $1 AND c.relname = $2 AND i.indisprimary''"

definition CANDIDATE_COLUMNS_SQL :: string where
  "CANDIDATE_COLUMNS_SQL =
     ''SELECT a.attname AS column_name, pg_catalog.format_type(a.atttypid, a.atttypmod) AS data_type, '' @
     ''a.attgenerated, a.attidentity FROM pg_catalog.pg_attribute a '' @
     ''JOIN pg_catalog.pg_class c ON c.oid = a.attrelid '' @
     ''JOIN pg_catalog.pg_namespace n ON n.oid = c.relnamespace '' @
     ''WHERE n.nspname = $1 AND c.relname = $2 AND a.attnum > 0 AND NOT a.attisdropped ORDER BY a.attnum''"

definition PROBE_SESSION_PIN_SQL :: string where
  "PROBE_SESSION_PIN_SQL =
     ''SELECT pg_catalog.set_config('' @ sq ''standard_conforming_strings'' @ '', '' @ sq ''on'' @ '', true), '' @
     ''pg_catalog.set_config('' @ sq ''search_path'' @ '', '' @ sq ''pg_catalog'' @ '', true)''"

text \<open>Both renderings are read with this text; the one in \<open>render\<close> differs in white space only.\<close>

definition POLICY_EXPRESSIONS_SQL :: string where
  "POLICY_EXPRESSIONS_SQL =
     ''SELECT pg_catalog.pg_get_expr(pol.polqual, pol.polrelid) AS using, '' @
     ''pg_catalog.pg_get_expr(pol.polwithcheck, pol.polrelid) AS check '' @
     ''FROM pg_catalog.pg_policy pol JOIN pg_catalog.pg_class c ON c.oid = pol.polrelid '' @
     ''JOIN pg_catalog.pg_namespace n ON n.oid = c.relnamespace '' @
     ''WHERE n.nspname = $1 AND c.relname = $2 AND pol.polname = $3''"

subsection \<open>Module policies\<close>

definition RUNTIME_EXERCISED_COMMANDS :: "(string \<times> string) list" where
  "RUNTIME_EXERCISED_COMMANDS = [(''read'', ''r''), (''insert'', ''a''), (''update'', ''w''), (''delete'', ''d'')]"

definition OWNERSHIP_TEMPLATES :: "string list" where
  "OWNERSHIP_TEMPLATES = [''read'', ''insert'', ''update'', ''delete'']"

text \<open>The loops over columns and templates, as one list of the pairs in the order tried.\<close>

definition modulePolicyIdentity ::
  "(bytes \<Rightarrow> bytes) \<Rightarrow> jsval \<Rightarrow> string \<Rightarrow> string list \<Rightarrow> (string \<times> string) option" where
  "modulePolicyIdentity sha policyName table columnNames =
     find (\<lambda>(column, template). policyName = VStr (ownershipPolicyName sha table column template))
       (concat (map (\<lambda>column. map (Pair column) OWNERSHIP_TEMPLATES) columnNames))"

text \<open>A pair of rendered expressions, \<open>using\<close> and \<open>withCheck\<close>, as the server returned them.\<close>

type_synonym rendered = "jsval \<times> jsval"

record OwnershipComparisonProbe =
  pr_render :: "string \<Rightarrow> string \<Rightarrow> string \<Rightarrow> string \<Rightarrow> rendered io"
  pr_deparse :: "string \<Rightarrow> string \<Rightarrow> string \<Rightarrow> rendered io"

text \<open>The two caches of one verification: comparisons by column and template, candidates by policy name.\<close>

type_synonym probeCaches = "(string \<times> rendered) list \<times> (string \<times> rendered) list"

definition cached :: "string \<Rightarrow> rendered io \<Rightarrow> (string \<times> rendered) list \<Rightarrow> (rendered \<times> (string \<times> rendered) list) io" where
  "cached key ask cache =
     (case map_of cache key of
        Some v \<Rightarrow> returnM (v, cache)
      | None \<Rightarrow> bindM ask (\<lambda>v. returnM (v, mapSet key v cache)))"

definition clausesAgree :: "OwnershipPolicyTemplateShape \<Rightarrow> rendered \<Rightarrow> rendered \<Rightarrow> bool" where
  "clausesAgree shape expected actual \<longleftrightarrow>
     (if ts_using shape then strictEq (fst actual) (fst expected) else fst actual = VNull) \<and>
     (if ts_withCheck shape then strictEq (snd actual) (snd expected) else snd actual = VNull)"

type_synonym policyRow = "(string \<times> jsval) list"

definition noShape :: thrown where
  "noShape = ErrObj ''Cannot read properties of undefined'' []"

definition matchesModuleOwnershipPolicy ::
  "(bytes \<Rightarrow> bytes) \<Rightarrow> OwnershipComparisonProbe \<Rightarrow> string \<Rightarrow> string \<Rightarrow> string list \<Rightarrow> string \<Rightarrow>
   policyRow \<Rightarrow> probeCaches \<Rightarrow> (bool \<times> probeCaches) io" where
  "matchesModuleOwnershipPolicy sha probe schema table columnNames template row caches =
     (case modulePolicyIdentity sha (propOf row ''policy_name'') table columnNames of
        None \<Rightarrow> returnM (False, caches)
      | Some (column, t) \<Rightarrow>
          if t \<noteq> template then returnM (False, caches)
          else
            (case OWNERSHIP_POLICY_TEMPLATES template of
               None \<Rightarrow> throwM noShape
             | Some shape \<Rightarrow>
                 (let name = ownershipPolicyName sha table column template in
                  bindM (cached (column @ '':'' @ template) (pr_render probe schema table column template) (fst caches))
                    (\<lambda>(expected, comparisons).
                  bindM (cached name (pr_deparse probe schema table name) (snd caches))
                    (\<lambda>(actual, candidates).
                  returnM (clausesAgree shape expected actual, (comparisons, candidates)))))))"

text \<open>\<open>Promise.all(rows.map(f))\<close> with the caches passed along.\<close>

fun mapCached ::
  "('a \<Rightarrow> probeCaches \<Rightarrow> (bool \<times> probeCaches) io) \<Rightarrow> 'a list \<Rightarrow> probeCaches \<Rightarrow> (bool list \<times> probeCaches) io" where
  "mapCached f [] caches = returnM ([], caches)"
| "mapCached f (x # xs) caches =
     bindM (f x caches) (\<lambda>(b, caches1).
     bindM (mapCached f xs caches1) (\<lambda>(bs, caches2). returnM (b # bs, caches2)))"

definition policyApplies :: "string \<Rightarrow> policyRow \<Rightarrow> bool" where
  "policyApplies policyCommand row \<longleftrightarrow>
     propOf row ''command'' = VStr policyCommand \<or> propOf row ''command'' = VStr ''*''"

definition checkCommand ::
  "(string \<Rightarrow> policyRow \<Rightarrow> probeCaches \<Rightarrow> (bool \<times> probeCaches) io) \<Rightarrow> string \<Rightarrow> policyRow list \<Rightarrow>
   string \<times> string \<Rightarrow> probeCaches \<Rightarrow> probeCaches io" where
  "checkCommand matches qualified policies = (\<lambda>(template, policyCommand) caches.
     let commandPolicies = filter (policyApplies policyCommand) policies in
     bindM (mapCached (matches template) commandPolicies caches) (\<lambda>(own, caches1).
     if \<not> list_ex id own then
       throwM (refuse (''Table '' @ qualified @ '' has no managed '' @ template @
         '' ownership policy applying to the runtime role''))
     else
       bindM (mapCached (\<lambda>row c. if \<not> truthy (propOf row ''permissive'') then returnM (False, c)
                              else bindM (matches template row c) (\<lambda>(b, c1). returnM (\<not> b, c1)))
                commandPolicies caches1) (\<lambda>(broader, caches2).
       if list_ex id broader then
         throwM (refuse (''A row-level security policy on '' @ qualified @ '' other than the managed '' @ template @
           '' ownership policy applies to the runtime role''))
       else returnM caches2)))"

fun checkPolicies ::
  "(string \<Rightarrow> policyRow \<Rightarrow> probeCaches \<Rightarrow> (bool \<times> probeCaches) io) \<Rightarrow> string \<Rightarrow> policyRow list \<Rightarrow>
   (string \<times> string) list \<Rightarrow> probeCaches \<Rightarrow> unit io" where
  "checkPolicies matches qualified policies [] caches = returnM ()"
| "checkPolicies matches qualified policies (c # cs) caches =
     bindM (checkCommand matches qualified policies c caches) (checkPolicies matches qualified policies cs)"

subsection \<open>Verifying a candidate\<close>

text \<open>One column of the contract: its name, and whether it is readable, insertable, updatable.\<close>

definition columnContract :: "runtime \<Rightarrow> policyRow \<Rightarrow> thrown + (string \<times> bool \<times> bool \<times> bool)" where
  "columnContract R row =
     bindR (typeText (propOf row ''data_type'')) (\<lambda>dataType.
       let name = nameText R (propOf row ''column_name'');
           made = \<not> strictEq (propOf row ''attgenerated'') (VStr []);
           identity = \<not> strictEq (propOf row ''attidentity'') (VStr []);
           supported = isSupportedType dataType
       in Inr (name, supported, supported \<and> \<not> made \<and> \<not> identity,
               supported \<and> name \<noteq> ''id'' \<and> \<not> made \<and> \<not> identity))"

definition contractOf :: "(string \<times> bool \<times> bool \<times> bool) list \<Rightarrow> ExposureVerification" where
  "contractOf cs =
     \<lparr>xv_readable = map fst (filter (\<lambda>(n, r, i, u). r) cs),
      xv_insertable = map fst (filter (\<lambda>(n, r, i, u). i) cs),
      xv_updatable = map fst (filter (\<lambda>(n, r, i, u). u) cs)\<rparr>"

definition candidateSecurity :: "string \<Rightarrow> qresult \<Rightarrow> thrown + unit" where
  "candidateSecurity qualified rls =
     (case row0 rls of
        None \<Rightarrow> Inl (refuse (''Table '' @ qualified @ '' does not exist''))
      | Some r \<Rightarrow>
          bindR (guardR (\<not> truthy (propOf r ''relrowsecurity''))
                   (refuse (''Row-level security is not enabled on '' @ qualified))) (\<lambda>_.
            guardR (\<not> truthy (propOf r ''relforcerowsecurity''))
              (refuse (''Forced row-level security is not enabled on '' @ qualified))))"

definition candidateKey :: "string \<Rightarrow> qresult \<Rightarrow> thrown + unit" where
  "candidateKey qualified pk =
     (case qr_rows pk of
        [r] \<Rightarrow>
          bindR (guardR (\<not> strictEq (propOf r ''column_name'') (VStr ''id''))
                   (refuse (''Primary key on '' @ qualified @ '' must be named '' @ inQuotes ''id''))) (\<lambda>_.
          bindR (typeText (propOf r ''data_type'')) (\<lambda>t.
            guardR (normalizeType t \<noteq> ''uuid'')
              (refuse (''Primary key '' @ inQuotes ''id'' @ '' on '' @ qualified @ '' must be type uuid''))))
      | _ \<Rightarrow> Inl (refuse (''Table '' @ qualified @ '' has no single-column primary key'')))"

definition contractNotEmpty :: "string \<Rightarrow> ExposureVerification \<Rightarrow> thrown + unit" where
  "contractNotEmpty qualified v =
     bindR (guardR (xv_readable v = []) (refuse (''Table '' @ qualified @ '' has no readable columns''))) (\<lambda>_.
     bindR (guardR (xv_insertable v = []) (refuse (''Table '' @ qualified @ '' has no insertable columns''))) (\<lambda>_.
       guardR (xv_updatable v = []) (refuse (''Table '' @ qualified @ '' has no updatable columns''))))"

definition verifyExposureCandidate ::
  "runtime \<Rightarrow> (bytes \<Rightarrow> bytes) \<Rightarrow> queryOp \<Rightarrow> string \<Rightarrow> string \<Rightarrow> string \<Rightarrow> OwnershipComparisonProbe \<Rightarrow>
   ExposureVerification io" where
  "verifyExposureCandidate R sha query runtimeRole schema table probe =
     (let qualified = schema @ ''.'' @ table; args = [VStr schema, VStr table] in
      bindM (query CANDIDATE_EXISTS_SQL args) (\<lambda>found.
      bindM (liftR (guardR (case row0 found of None \<Rightarrow> True | Some r \<Rightarrow> \<not> strictEq (propOf r ''exists'') (VBool True))
                      (refuse (''Table '' @ qualified @ '' does not exist'')))) (\<lambda>_.
      bindM (query CANDIDATE_RLS_SQL args) (\<lambda>rls.
      bindM (liftR (candidateSecurity qualified rls)) (\<lambda>_.
      bindM (query CANDIDATE_KEY_SQL args) (\<lambda>pk.
      bindM (liftR (candidateKey qualified pk)) (\<lambda>_.
      bindM (query CANDIDATE_COLUMNS_SQL args) (\<lambda>cols.
      bindM (liftR (mapR (columnContract R) (qr_rows cols))) (\<lambda>columns.
      let contract = contractOf columns in
      bindM (liftR (contractNotEmpty qualified contract)) (\<lambda>_.
      bindM (query APPLICABLE_POLICIES_SQL [VStr schema, VStr table, VStr runtimeRole]) (\<lambda>policies.
      bindM (checkPolicies (matchesModuleOwnershipPolicy sha probe schema table (map fst columns)) qualified
               (qr_rows policies) RUNTIME_EXERCISED_COMMANDS ([], [])) (\<lambda>_.
        returnM contract))))))))))))"

subsection \<open>The recorded contract\<close>

definition stringArray :: "heap \<Rightarrow> jsval \<Rightarrow> string list option" where
  "stringArray h v =
     (case deref h v of
        Some (OArr xs) \<Rightarrow>
          if list_all (\<lambda>x. case x of Some (VStr s) \<Rightarrow> True | _ \<Rightarrow> False) xs
          then Some (map (\<lambda>x. case x of Some (VStr s) \<Rightarrow> s | _ \<Rightarrow> []) xs) else None
      | _ \<Rightarrow> None)"

definition verificationFromRecord ::
  "heap \<Rightarrow> SchemaOperationRecord \<Rightarrow> ExposeTableCommand \<Rightarrow> thrown + ExposureVerification" where
  "verificationFromRecord h record input =
     (let command = so_command record; recorded = ownProps h command in
      bindR (guardR (\<not> isJsonObject h command) (malformedRecord ''command must be a JSON object'')) (\<lambda>_.
      bindR (guardR (\<not> (strictEq (propOf recorded ''schema'') (VStr (tc_schema input)) \<and>
                        strictEq (propOf recorded ''table'') (VStr (tc_table input)) \<and>
                        strictEq (propOf recorded ''alias'') (VStr (xp_alias input))))
               (keyConflict ''Idempotency key was already used with a different operation'' (so_key record))) (\<lambda>_.
      (case (stringArray h (propOf recorded ''readableColumns''),
             stringArray h (propOf recorded ''insertableColumns''),
             stringArray h (propOf recorded ''updatableColumns'')) of
         (Some r, Some i, Some u) \<Rightarrow> Inr \<lparr>xv_readable = r, xv_insertable = i, xv_updatable = u\<rparr>
       | _ \<Rightarrow> Inl (malformedRecord ''exposure command is missing the recorded column contract'')))))"

subsection \<open>The startup probe\<close>

definition REQUIRED_EXPOSURE_REGISTRY_PRIVILEGES :: "(bool \<times> string \<times> string) list" where
  "REQUIRED_EXPOSURE_REGISTRY_PRIVILEGES =
     [(True, ''microjbase.exposure_registry'', ''SELECT''),
      (True, ''microjbase.exposure_registry'', ''INSERT''),
      (True, ''microjbase.exposure_registry'', ''UPDATE''),
      (True, ''microjbase.exposure_registry_state'', ''SELECT''),
      (False, ''microjbase.exposure_registry_id_seq'', ''USAGE'')]"

definition checkRegistryPrivilege :: "queryOp \<Rightarrow> bool \<times> string \<times> string \<Rightarrow> unit io" where
  "checkRegistryPrivilege query = (\<lambda>(isTable, name, privilege).
     bindM (query (''SELECT '' @ (if isTable then ''pg_catalog.has_table_privilege''
                                 else ''pg_catalog.has_sequence_privilege'') @
                   ''(current_user, $1, $2) AS has'') [VStr name, VStr privilege]) (\<lambda>result.
       (case row0 result of
          None \<Rightarrow> throwM (missingPrivilege name privilege)
        | Some r \<Rightarrow> if truthy (propOf r ''has'') then returnM () else throwM (missingPrivilege name privilege))))"

fun checkExposureRegistryWriteAccess :: "queryOp \<Rightarrow> (bool \<times> string \<times> string) list \<Rightarrow> unit io" where
  "checkExposureRegistryWriteAccess query [] = returnM ()"
| "checkExposureRegistryWriteAccess query (p # ps) =
     bindM (checkRegistryPrivilege query p) (\<lambda>_. checkExposureRegistryWriteAccess query ps)"

subsection \<open>The probe\<close>

definition withPinnedProbeClient :: "runtime \<Rightarrow> unit io \<Rightarrow> 'a io \<Rightarrow> 'a io" where
  "withPinnedProbeClient R connect run =
     bindM connect (\<lambda>_.
       finallyM
         (bindM (clientQuery R ''BEGIN'' []) (\<lambda>_.
            finallyM
              (bindM (clientQuery R PROBE_SESSION_PIN_SQL []) (\<lambda>_. run))
              (rollbackQuietly R)))
         (releaseClient False))"

definition renderedRow :: "qresult \<Rightarrow> thrown + rendered" where
  "renderedRow result =
     (case row0 result of
        None \<Rightarrow> Inl schemaOperationFailed
      | Some r \<Rightarrow> Inr (propOf r ''using'', propOf r ''check''))"

definition probeStatement ::
  "string \<Rightarrow> string \<Rightarrow> string \<Rightarrow> string \<Rightarrow> OwnershipPolicyTemplateShape \<Rightarrow> string \<Rightarrow> thrown + string" where
  "probeStatement probeName schema table role shape comparison =
     bindR (quoteIdentifier probeName) (\<lambda>p.
     bindR (quoteIdentifier schema) (\<lambda>s.
     bindR (quoteIdentifier table) (\<lambda>t.
     bindR (quoteIdentifier role) (\<lambda>r.
       Inr (''CREATE POLICY '' @ p @ '' ON '' @ s @ ''.'' @ t @ '' FOR '' @ ts_command shape @ '' TO '' @ r @
            (if ts_using shape then '' USING ('' @ comparison @ '')'' else []) @
            (if ts_withCheck shape then '' WITH CHECK ('' @ comparison @ '')'' else []))))))"

record exposure_deps =
  xd_lane :: admin_deps
  xd_connect :: "unit io" \<comment> \<open>\<open>pool.connect()\<close>\<close>
  xd_random :: "event list \<Rightarrow> bytes" \<comment> \<open>\<open>randomBytes(8)\<close> at this point of the history\<close>
  xd_refresh :: "unit io" \<comment> \<open>\<open>refreshRuntimeRegistry()\<close>\<close>

definition probeRender :: "exposure_deps \<Rightarrow> string \<Rightarrow> string \<Rightarrow> string \<Rightarrow> string \<Rightarrow> rendered io" where
  "probeRender X schema table column template w =
     (let R = ad_runtime (xd_lane X); probeName = ''mjb_probe_'' @ toHex (xd_random X w) in
      (case OWNERSHIP_POLICY_TEMPLATES template of
         None \<Rightarrow> throwM noShape
       | Some shape \<Rightarrow>
           bindM (liftR (compileOwnershipComparison column)) (\<lambda>comparison.
           withPinnedProbeClient R (xd_connect X)
             (bindM (liftR (probeStatement probeName schema table (ad_runtimeRole (xd_lane X)) shape comparison)) (\<lambda>statement.
              bindM (clientQuery R statement []) (\<lambda>_.
              bindM (clientQuery R POLICY_EXPRESSIONS_SQL [VStr schema, VStr table, VStr probeName]) (\<lambda>result.
                liftR (renderedRow result))))))) w)"

definition probeDeparse :: "exposure_deps \<Rightarrow> string \<Rightarrow> string \<Rightarrow> string \<Rightarrow> rendered io" where
  "probeDeparse X schema table policyName =
     (let R = ad_runtime (xd_lane X) in
      withPinnedProbeClient R (xd_connect X)
        (bindM (clientQuery R POLICY_EXPRESSIONS_SQL [VStr schema, VStr table, VStr policyName]) (\<lambda>result.
           liftR (renderedRow result))))"

definition comparisonProbe :: "exposure_deps \<Rightarrow> OwnershipComparisonProbe" where
  "comparisonProbe X = \<lparr>pr_render = probeRender X, pr_deparse = probeDeparse X\<rparr>"

subsection \<open>The commands\<close>

definition exposableTable :: "admin_deps \<Rightarrow> SchemaCatalogue \<Rightarrow> string \<Rightarrow> string \<Rightarrow> thrown + SchemaCatalogueTable" where
  "exposableTable d catalogue schema table =
     bindR (guardR (classifySchemaObject (toLowerCase schema) \<noteq> OperatorObject)
              (refuse ''Internal schemas cannot be exposed'')) (\<lambda>_.
       (case find (\<lambda>e. cs_name e = schema) (ca_schemas catalogue) of
          None \<Rightarrow> Inl (refuse (''Schema '' @ schema @ '' does not exist''))
        | Some s \<Rightarrow>
            (case find (\<lambda>e. ct_name e = table) (cs_tables s) of
               None \<Rightarrow> Inl (refuse (''Table '' @ schema @ ''.'' @ table @ '' does not exist''))
             | Some found \<Rightarrow>
                 bindR (guardR (ct_owner found \<noteq> ad_adminRole d)
                          (refuse ''Only tables owned by the schema-admin role can be exposed'')) (\<lambda>_. Inr found))))"

definition exposePreflight :: "exposure_deps \<Rightarrow> ExposeTableCommand \<Rightarrow> ExposureVerification io" where
  "exposePreflight X input =
     (let d = xd_lane X; R = ad_runtime d; schema = tc_schema input; table = tc_table input in
      bindM (findExposureByTarget R (ad_query d) schema table) (\<lambda>byTarget.
      bindM (liftR (guardR (case byTarget of None \<Rightarrow> False | Some r \<Rightarrow> ex_exposed r)
                      (conflict (''Table '' @ schema @ ''.'' @ table @ '' is already exposed'')))) (\<lambda>_.
      bindM (findExposureByAlias R (ad_query d) (xp_alias input)) (\<lambda>byAlias.
      bindM (liftR (case byAlias of
                      None \<Rightarrow> Inr ()
                    | Some r \<Rightarrow>
                        guardR (ex_schema r \<noteq> schema \<or> ex_table r \<noteq> table)
                          (conflict (''Alias '' @ inQuotes (xp_alias input) @ '' is already used by '' @
                             ex_schema r @ ''.'' @ ex_table r)))) (\<lambda>_.
      bindM (ad_catalogue d) (\<lambda>catalogue.
      bindM (liftR (exposableTable d catalogue schema table)) (\<lambda>_.
        verifyExposureCandidate R (ad_sha d) (ad_query d) (ad_runtimeRole d) schema table (comparisonProbe X))))))))"

definition exposeContract :: "exposure_deps \<Rightarrow> ExposeTableCommand \<Rightarrow> ExposureVerification io" where
  "exposeContract X input =
     (if mb_dryRun input then exposePreflight X input
      else bindM (logGet (adminLog (xd_lane X)) (mb_key input)) (\<lambda>existing.
        (case existing of
           None \<Rightarrow> exposePreflight X input
         | Some record \<Rightarrow> liftR (verificationFromRecord (heap (ad_runtime (xd_lane X))) record input))))"

definition grantSpec :: "admin_deps \<Rightarrow> ExposeTableCommand \<Rightarrow> ExposureVerification \<Rightarrow> GrantRuntimePrivilegesSpec" where
  "grantSpec d input v =
     \<lparr>gr_schema = tc_schema input, gr_table = tc_table input, gr_role = ad_runtimeRole d,
      gr_schemaUsage = True, gr_delete = True,
      gr_columnGrants = filter (\<lambda>g. snd g \<noteq> [])
        [(''SELECT'', xv_readable v), (''INSERT'', xv_insertable v), (''UPDATE'', xv_updatable v)]\<rparr>"

definition exposePlans :: "admin_deps \<Rightarrow> ExposeTableCommand \<Rightarrow> ExposureVerification \<Rightarrow> thrown + DdlPlan list" where
  "exposePlans d input v =
     bindR (compileGrantRuntimePrivileges (grantSpec d input v)) (\<lambda>grant.
     bindR (compileMarkExposed (xp_alias input) (tc_schema input) (tc_table input)) (\<lambda>mark.
     bindR (compileAssertExposurePrerequisites (tc_schema input) (tc_table input) (ad_runtimeRole d)) (\<lambda>prerequisite.
       Inr [prerequisite, grant, mark])))"

definition exposeMembers :: "ExposeTableCommand \<Rightarrow> ExposureVerification \<Rightarrow> (string \<times> json) list" where
  "exposeMembers input v =
     tableMembers (tc_schema input) (tc_table input) @
     [(''alias'', JStr (xp_alias input)), (''readableColumns'', stringsJson (xv_readable v)),
      (''insertableColumns'', stringsJson (xv_insertable v)), (''updatableColumns'', stringsJson (xv_updatable v))]"

text \<open>The outcome of the executor, after the refresh unless the command is a dry run.\<close>

definition thenRefresh :: "exposure_deps \<Rightarrow> bool \<Rightarrow> ExecuteOutcome io \<Rightarrow> ExecuteOutcome io" where
  "thenRefresh X dry run =
     bindM run (\<lambda>result. bindM (if dry then returnM () else xd_refresh X) (\<lambda>_. returnM result))"

definition expose :: "exposure_deps \<Rightarrow> ExposeTableCommand \<Rightarrow> ExecuteOutcome io" where
  "expose X input =
     bindM (liftR (guardR (\<not> aliasPattern (xp_alias input))
              (refuse (''Alias '' @ inQuotes (xp_alias input) @ '' must match '' @ ALIAS_SOURCE)))) (\<lambda>_.
     bindM (exposeContract X input) (\<lambda>v.
     bindM (liftR (exposePlans (xd_lane X) input v)) (\<lambda>plans.
       thenRefresh X (mb_dryRun input)
         (submit (xd_lane X) input ''schema.exposure.expose'' (JObj (exposeMembers input v)) plans))))"

definition unexposeChecks :: "exposure_deps \<Rightarrow> TableCommand \<Rightarrow> unit io" where
  "unexposeChecks X input =
     (let d = xd_lane X; schema = tc_schema input; table = tc_table input in
      bindM (findExposureByTarget (ad_runtime d) (ad_query d) schema table) (\<lambda>byTarget.
      bindM (liftR (guardR (case byTarget of None \<Rightarrow> True | Some r \<Rightarrow> \<not> ex_exposed r)
                      (conflict (''Table '' @ schema @ ''.'' @ table @ '' is not exposed'')))) (\<lambda>_.
      bindM (ad_catalogue d) (\<lambda>catalogue.
        liftR (bindR (exposableTable d catalogue schema table) (\<lambda>_. Inr ()))))))"

definition unexposePlans :: "admin_deps \<Rightarrow> TableCommand \<Rightarrow> thrown + DdlPlan list" where
  "unexposePlans d input =
     bindR (compileRevokeRuntimePrivileges (tc_schema input) (tc_table input) (ad_runtimeRole d)) (\<lambda>revoke.
     bindR (compileVerifyRuntimePrivilegesRevoked (tc_schema input) (tc_table input) (ad_runtimeRole d)) (\<lambda>verify.
     bindR (compileMarkUnexposed (tc_schema input) (tc_table input)) (\<lambda>mark.
       Inr [revoke, verify, mark])))"

definition unexpose :: "exposure_deps \<Rightarrow> TableCommand \<Rightarrow> ExecuteOutcome io" where
  "unexpose X input =
     bindM (unlessRecorded (xd_lane X) input (unexposeChecks X input)) (\<lambda>_.
     bindM (liftR (unexposePlans (xd_lane X) input)) (\<lambda>plans.
       thenRefresh X (mb_dryRun input)
         (submit (xd_lane X) input ''schema.exposure.unexpose''
            (JObj (tableMembers (tc_schema input) (tc_table input))) plans)))"

end
