(* ===== verification/ExposureFacts.thy ===== *)
theory ExposureFacts
  imports Exposure
begin

text \<open>
  What \<open>src/database/schema-exposure.ts\<close> promises: which tables pass verification, what the probe leaves on
  the server, and what the two commands send.
\<close>

subsection \<open>Which policies are accepted\<close>

text \<open>The probe answers the same whenever it is asked; the server's answers likewise.\<close>

definition steadyProbe ::
  "OwnershipComparisonProbe \<Rightarrow> string \<Rightarrow> string \<Rightarrow> (string \<Rightarrow> string \<Rightarrow> rendered) \<Rightarrow> (string \<Rightarrow> rendered) \<Rightarrow> bool" where
  "steadyProbe probe schema table rd dp \<longleftrightarrow>
     (\<forall>c k w. fst (pr_render probe schema table c k w) = Inr (rd c k)) \<and>
     (\<forall>n w. fst (pr_deparse probe schema table n w) = Inr (dp n))"

definition steadyQuery :: "queryOp \<Rightarrow> (string \<Rightarrow> jsval list \<Rightarrow> thrown + qresult) \<Rightarrow> bool" where
  "steadyQuery query ans \<longleftrightarrow> (\<forall>sql vs w. fst (query sql vs w) = ans sql vs)"

text \<open>A policy of the module's name for the template whose clauses are those the module would create.\<close>

definition isModulePolicy ::
  "(bytes \<Rightarrow> bytes) \<Rightarrow> string \<Rightarrow> string list \<Rightarrow> (string \<Rightarrow> string \<Rightarrow> rendered) \<Rightarrow> (string \<Rightarrow> rendered) \<Rightarrow>
   string \<Rightarrow> policyRow \<Rightarrow> bool" where
  "isModulePolicy sha table columnNames rd dp template row \<longleftrightarrow>
     (\<exists>column shape.
        modulePolicyIdentity sha (propOf row ''policy_name'') table columnNames = Some (column, template) \<and>
        OWNERSHIP_POLICY_TEMPLATES template = Some shape \<and>
        clausesAgree shape (rd column template) (dp (ownershipPolicyName sha table column template)))"

definition onlyModulePolicies ::
  "(string \<Rightarrow> policyRow \<Rightarrow> bool) \<Rightarrow> policyRow list \<Rightarrow> string \<times> string \<Rightarrow> bool" where
  "onlyModulePolicies own policies = (\<lambda>(template, policyCommand).
     (\<exists>p\<in>set policies. policyApplies policyCommand p \<and> own template p) \<and>
     (\<forall>p\<in>set policies. policyApplies policyCommand p \<and> truthy (propOf p ''permissive'') \<longrightarrow> own template p))"

text \<open>The caches hold only what the probe answers.\<close>

definition cachesOk :: "(string \<Rightarrow> string \<Rightarrow> rendered) \<Rightarrow> (string \<Rightarrow> rendered) \<Rightarrow> probeCaches \<Rightarrow> bool" where
  "cachesOk rd dp caches \<longleftrightarrow>
     (\<forall>key v. map_of (fst caches) key = Some v \<longrightarrow>
        (\<exists>c k. k \<in> set OWNERSHIP_TEMPLATES \<and> key = c @ '':'' @ k \<and> v = rd c k)) \<and>
     (\<forall>key v. map_of (snd caches) key = Some v \<longrightarrow> v = dp key)"

lemma cache_key_eq:
  assumes "c @ '':'' @ k = c' @ '':'' @ k'" and "k \<in> set OWNERSHIP_TEMPLATES" and "k' \<in> set OWNERSHIP_TEMPLATES"
  shows "c = c' \<and> k = k'"
proof -
  from assms(1) have "rev k @ '':'' @ rev c = rev k' @ '':'' @ rev c'" by (drule_tac arg_cong [where f = rev]) simp
  with assms(2,3) show ?thesis by (auto simp: OWNERSHIP_TEMPLATES_def)
qed

lemma template_shape: "k \<in> set OWNERSHIP_TEMPLATES \<Longrightarrow> \<exists>shape. OWNERSHIP_POLICY_TEMPLATES k = Some shape"
  by (auto simp: OWNERSHIP_TEMPLATES_def OWNERSHIP_POLICY_TEMPLATES_def)

lemma cached_hit: "map_of cache key = Some v \<Longrightarrow> cached key ask cache w = (Inr (v, cache), w)"
  by (simp add: cached_def returnM_def)

lemma cached_miss:
  "map_of cache key = None \<Longrightarrow> ask w = (Inr v, w') \<Longrightarrow> cached key ask cache w = (Inr (v, mapSet key v cache), w')"
  by (simp add: cached_def returnM_def bindM_def)

lemma cached_render:
  assumes "steadyProbe probe s t rd dp" and "cachesOk rd dp (cmp, cand)" and "k \<in> set OWNERSHIP_TEMPLATES"
  shows "\<exists>cmp' w'. cached (c @ '':'' @ k) (pr_render probe s t c k) cmp w = (Inr (rd c k, cmp'), w') \<and>
    cachesOk rd dp (cmp', cand)"
proof (cases "map_of cmp (c @ '':'' @ k)")
  case None
  obtain w' where ask: "pr_render probe s t c k w = (Inr (rd c k), w')"
    using assms(1) unfolding steadyProbe_def by (metis prod.collapse)
  have "cachesOk rd dp (mapSet (c @ '':'' @ k) (rd c k) cmp, cand)"
    using assms(2,3) unfolding cachesOk_def by (auto split: if_splits simp del: split_paired_All split_paired_Ex)
  with cached_miss [of cmp "c @ '':'' @ k" "pr_render probe s t c k", OF None ask] show ?thesis by blast
next
  case (Some v)
  with assms(2) obtain c' k' where "k' \<in> set OWNERSHIP_TEMPLATES" "c @ '':'' @ k = c' @ '':'' @ k'" "v = rd c' k'"
    unfolding cachesOk_def by (metis fst_conv)
  with cache_key_eq assms(3) have "v = rd c k" by metis
  with cached_hit [OF Some] assms(2) show ?thesis by blast
qed

lemma cached_deparse:
  assumes "steadyProbe probe s t rd dp" and "cachesOk rd dp (cmp, cand)"
  shows "\<exists>cand' w'. cached n (pr_deparse probe s t n) cand w = (Inr (dp n, cand'), w') \<and> cachesOk rd dp (cmp, cand')"
proof (cases "map_of cand n")
  case None
  obtain w' where ask: "pr_deparse probe s t n w = (Inr (dp n), w')"
    using assms(1) unfolding steadyProbe_def by (metis prod.collapse)
  have "cachesOk rd dp (cmp, mapSet n (dp n) cand)" using assms(2) unfolding cachesOk_def by (auto simp del: split_paired_All split_paired_Ex)
  with cached_miss [of cand n "pr_deparse probe s t n", OF None ask] show ?thesis by blast
next
  case (Some v)
  with assms(2) have "v = dp n" unfolding cachesOk_def by (simp del: split_paired_All)
  with cached_hit [OF Some] assms(2) show ?thesis by blast
qed

lemma matches_steady:
  assumes "steadyProbe probe s t rd dp" and "cachesOk rd dp caches" and "k \<in> set OWNERSHIP_TEMPLATES"
  shows "\<exists>caches' w'. matchesModuleOwnershipPolicy sha probe s t cols k row caches w =
      (Inr (isModulePolicy sha t cols rd dp k row, caches'), w') \<and> cachesOk rd dp caches'"
proof (cases "\<exists>c. modulePolicyIdentity sha (propOf row ''policy_name'') t cols = Some (c, k)")
  case False
  then show ?thesis using assms(2)
    by (auto simp: matchesModuleOwnershipPolicy_def isModulePolicy_def returnM_def
        simp del: split_paired_All split_paired_Ex split: option.splits)
next
  case True
  then obtain c where c: "modulePolicyIdentity sha (propOf row ''policy_name'') t cols = Some (c, k)" by blast
  obtain shape where shape: "OWNERSHIP_POLICY_TEMPLATES k = Some shape" using template_shape [OF assms(3)] by blast
  obtain cmp cand where cs: "caches = (cmp, cand)" by (cases caches)
  from cached_render [OF assms(1) assms(2) [unfolded cs] assms(3)] obtain cmp' w1 where
    1: "cached (c @ '':'' @ k) (pr_render probe s t c k) cmp w = (Inr (rd c k, cmp'), w1)" "cachesOk rd dp (cmp', cand)"
    by blast
  let ?n = "ownershipPolicyName sha t c k"
  from cached_deparse [OF assms(1) 1(2)] obtain cand' w2 where
    2: "cached ?n (pr_deparse probe s t ?n) cand w1 = (Inr (dp ?n, cand'), w2)" "cachesOk rd dp (cmp', cand')"
    by blast
  have "isModulePolicy sha t cols rd dp k row = clausesAgree shape (rd c k) (dp ?n)"
    using c shape by (simp add: isModulePolicy_def)
  with 1 2 c shape cs show ?thesis
    by (simp add: matchesModuleOwnershipPolicy_def Let_def bindM_def returnM_def)
qed

lemma mapCached_steady:
  assumes "\<And>x c w. x \<in> set xs \<Longrightarrow> ok c \<Longrightarrow> \<exists>c' w'. f x c w = (Inr (b x, c'), w') \<and> ok c'" and "ok c"
  shows "\<exists>c' w'. mapCached f xs c w = (Inr (map b xs, c'), w') \<and> ok c'"
  using assms
proof (induction xs arbitrary: c w)
  case (Cons x xs)
  from Cons.prems(1) [of x c w] Cons.prems(2) obtain c1 w1 where 1: "f x c w = (Inr (b x, c1), w1)" "ok c1" by auto
  from Cons.IH [of c1 w1] Cons.prems(1) 1(2) obtain c2 w2 where
    2: "mapCached f xs c1 w1 = (Inr (map b xs, c2), w2)" "ok c2" by auto
  from 1 2 show ?case by (simp add: bindM_def returnM_def)
qed (simp add: returnM_def)

lemma checkCommand_steady:
  assumes m: "\<And>row c w. cachesOk rd dp c \<Longrightarrow>
      \<exists>c' w'. matches template row c w = (Inr (own template row, c'), w') \<and> cachesOk rd dp c'"
    and "cachesOk rd dp caches"
  shows "if onlyModulePolicies own policies (template, cmd)
    then \<exists>c' w'. checkCommand matches q policies (template, cmd) caches w = (Inr c', w') \<and> cachesOk rd dp c'
    else \<exists>e w'. checkCommand matches q policies (template, cmd) caches w = (Inl e, w')"
proof -
  let ?ps = "filter (policyApplies cmd) policies"
  let ?f = "\<lambda>row c. if \<not> truthy (propOf row ''permissive'') then returnM (False, c)
                       else bindM (matches template row c) (\<lambda>(b, c1). returnM (\<not> b, c1))"
  let ?b = "\<lambda>row. truthy (propOf row ''permissive'') \<and> \<not> own template row"
  from mapCached_steady [of ?ps "cachesOk rd dp" "matches template" "own template", OF m assms(2)]
  obtain c1 w1 where 1: "mapCached (matches template) ?ps caches w = (Inr (map (own template) ?ps, c1), w1)" "cachesOk rd dp c1"
    by blast
  have "\<exists>c' w'. ?f row c w = (Inr (?b row, c'), w') \<and> cachesOk rd dp c'" if "cachesOk rd dp c" for row c w
    using m [OF that, of row w] that
    by (auto simp: bindM_def returnM_def simp del: split_paired_All split_paired_Ex)
  from mapCached_steady [of ?ps "cachesOk rd dp" ?f ?b, OF this 1(2)] obtain c2 w2 where
    2: "mapCached ?f ?ps c1 w1 = (Inr (map ?b ?ps, c2), w2)" "cachesOk rd dp c2" by blast
  have own: "list_ex id (map (own template) ?ps) \<longleftrightarrow> (\<exists>p\<in>set policies. policyApplies cmd p \<and> own template p)"
    by (auto simp: list_ex_iff)
  have broad: "list_ex id (map ?b ?ps) \<longleftrightarrow>
      \<not> (\<forall>p\<in>set policies. policyApplies cmd p \<and> truthy (propOf p ''permissive'') \<longrightarrow> own template p)"
    by (auto simp: list_ex_iff)
  show ?thesis
    using 1 2
    by (simp add: checkCommand_def Let_def bindM_def throwM_def returnM_def onlyModulePolicies_def own broad)
qed

lemma checkPolicies_steady:
  assumes m: "\<And>template row c w. template \<in> set (map fst cs) \<Longrightarrow> cachesOk rd dp c \<Longrightarrow>
      \<exists>c' w'. matches template row c w = (Inr (own template row, c'), w') \<and> cachesOk rd dp c'"
    and "cachesOk rd dp caches"
  shows "if \<forall>c\<in>set cs. onlyModulePolicies own policies c
    then \<exists>w'. checkPolicies matches q policies cs caches w = (Inr (), w')
    else \<exists>e w'. checkPolicies matches q policies cs caches w = (Inl e, w')"
  using assms
proof (induction cs arbitrary: caches w)
  case (Cons c cs)
  obtain template cmd where c: "c = (template, cmd)" by (cases c)
  have mt: "\<And>row c w. cachesOk rd dp c \<Longrightarrow>
      \<exists>c' w'. matches template row c w = (Inr (own template row, c'), w') \<and> cachesOk rd dp c'"
    using Cons.prems(1) c by simp
  note cmd = checkCommand_steady [of rd dp matches template own caches policies cmd q w, OF mt Cons.prems(2)]
  show ?case
  proof (cases "onlyModulePolicies own policies c")
    case True
    with cmd c obtain c1 w1 where 1: "checkCommand matches q policies c caches w = (Inr c1, w1)" "cachesOk rd dp c1" by auto
    from Cons.IH [of c1 w1] Cons.prems(1) 1 True show ?thesis by (auto simp: bindM_def)
  next
    case False
    with cmd c show ?thesis by (auto simp: bindM_def)
  qed
qed (simp add: returnM_def)

subsection \<open>What a verified candidate is\<close>

text \<open>
  The requirements on what the server answers, and the contract as lists over the column rows: a supported type
  makes a column readable, unless it is generated or an identity column also insertable, and unless it is the key
  also updatable.
\<close>

definition columnName :: "runtime \<Rightarrow> policyRow \<Rightarrow> string" where
  "columnName R row = nameText R (propOf row ''column_name'')"

definition columnSupported :: "policyRow \<Rightarrow> bool" where
  "columnSupported row \<longleftrightarrow> (\<exists>ty. propOf row ''data_type'' = VStr ty \<and> isSupportedType ty)"

definition columnPlain :: "policyRow \<Rightarrow> bool" where
  "columnPlain row \<longleftrightarrow> propOf row ''attgenerated'' = VStr [] \<and> propOf row ''attidentity'' = VStr []"

definition columnsContract :: "runtime \<Rightarrow> policyRow list \<Rightarrow> ExposureVerification" where
  "columnsContract R rows =
     \<lparr>xv_readable = map (columnName R) (filter columnSupported rows),
      xv_insertable = map (columnName R) (filter (\<lambda>r. columnSupported r \<and> columnPlain r) rows),
      xv_updatable = map (columnName R)
        (filter (\<lambda>r. columnSupported r \<and> columnPlain r \<and> columnName R r \<noteq> ''id'') rows)\<rparr>"

definition securedTable :: "qresult \<Rightarrow> qresult \<Rightarrow> qresult \<Rightarrow> bool" where
  "securedTable found rls pk \<longleftrightarrow>
     (\<exists>r. row0 found = Some r \<and> propOf r ''exists'' = VBool True) \<and>
     (\<exists>r. row0 rls = Some r \<and> truthy (propOf r ''relrowsecurity'') \<and> truthy (propOf r ''relforcerowsecurity'')) \<and>
     (\<exists>r ty. qr_rows pk = [r] \<and> propOf r ''column_name'' = VStr ''id'' \<and> propOf r ''data_type'' = VStr ty \<and>
        normalizeType ty = ''uuid'')"

definition exposable ::
  "runtime \<Rightarrow> (bytes \<Rightarrow> bytes) \<Rightarrow> (string \<Rightarrow> jsval list \<Rightarrow> thrown + qresult) \<Rightarrow> (string \<Rightarrow> string \<Rightarrow> rendered) \<Rightarrow>
   (string \<Rightarrow> rendered) \<Rightarrow> string \<Rightarrow> string \<Rightarrow> string \<Rightarrow> ExposureVerification \<Rightarrow> bool" where
  "exposable R sha ans rd dp role s t V \<longleftrightarrow>
     (\<exists>found rls pk cols policies.
        ans CANDIDATE_EXISTS_SQL [VStr s, VStr t] = Inr found \<and>
        ans CANDIDATE_RLS_SQL [VStr s, VStr t] = Inr rls \<and>
        ans CANDIDATE_KEY_SQL [VStr s, VStr t] = Inr pk \<and>
        ans CANDIDATE_COLUMNS_SQL [VStr s, VStr t] = Inr cols \<and>
        ans APPLICABLE_POLICIES_SQL [VStr s, VStr t, VStr role] = Inr policies \<and>
        securedTable found rls pk \<and>
        (\<forall>r\<in>set (qr_rows cols). \<exists>ty. propOf r ''data_type'' = VStr ty) \<and>
        V = columnsContract R (qr_rows cols) \<and>
        xv_readable V \<noteq> [] \<and> xv_insertable V \<noteq> [] \<and> xv_updatable V \<noteq> [] \<and>
        (\<forall>c\<in>set RUNTIME_EXERCISED_COMMANDS.
           onlyModulePolicies (isModulePolicy sha t (map (columnName R) (qr_rows cols)) rd dp) (qr_rows policies) c))"

lemma strictEq_bool: "strictEq v (VBool b) \<longleftrightarrow> v = VBool b"
  by (cases "(v, VBool b)" rule: strictEq.cases) auto

lemma typeText_Inr: "typeText v = Inr ty \<longleftrightarrow> v = VStr ty"
  by (cases v) (auto simp: typeText_def)

lemma columnContract_Inr:
  "columnContract R row = Inr c \<longleftrightarrow>
     (\<exists>ty. propOf row ''data_type'' = VStr ty) \<and>
     c = (columnName R row, columnSupported row, columnSupported row \<and> columnPlain row,
          columnSupported row \<and> columnPlain row \<and> columnName R row \<noteq> ''id'')"
  by (auto simp: columnContract_def res_simps typeText_Inr columnName_def columnSupported_def columnPlain_def Let_def)

lemma mapR_columns:
  "mapR (columnContract R) rows = Inr cs \<longleftrightarrow>
     (\<forall>r\<in>set rows. \<exists>ty. propOf r ''data_type'' = VStr ty) \<and>
     cs = map (\<lambda>r. (columnName R r, columnSupported r, columnSupported r \<and> columnPlain r,
       columnSupported r \<and> columnPlain r \<and> columnName R r \<noteq> ''id'')) rows"
  by (induction rows arbitrary: cs) (auto simp: res_simps columnContract_Inr)

lemma contractOf_columns:
  "contractOf (map (\<lambda>r. (columnName R r, columnSupported r, columnSupported r \<and> columnPlain r,
     columnSupported r \<and> columnPlain r \<and> columnName R r \<noteq> ''id'')) rows) = columnsContract R rows"
  by (simp add: contractOf_def columnsContract_def filter_map comp_def case_prod_unfold)

lemma candidateSecurity_Inr:
  "candidateSecurity q rls = Inr u \<longleftrightarrow>
     (\<exists>r. row0 rls = Some r \<and> truthy (propOf r ''relrowsecurity'') \<and> truthy (propOf r ''relforcerowsecurity''))"
  by (auto simp: candidateSecurity_def guardR_def res_simps split: option.splits)

lemma candidateKey_Inr:
  "candidateKey q pk = Inr u \<longleftrightarrow>
     (\<exists>r ty. qr_rows pk = [r] \<and> propOf r ''column_name'' = VStr ''id'' \<and> propOf r ''data_type'' = VStr ty \<and>
        normalizeType ty = ''uuid'')"
  by (auto simp: candidateKey_def guardR_def res_simps typeText_Inr split: list.splits)

lemma contractNotEmpty_Inr:
  "contractNotEmpty q v = Inr u \<longleftrightarrow> xv_readable v \<noteq> [] \<and> xv_insertable v \<noteq> [] \<and> xv_updatable v \<noteq> []"
  by (auto simp: contractNotEmpty_def guardR_def res_simps)

lemma fst_bind_steady:
  "steadyQuery query ans \<Longrightarrow>
     (fst (bindM (query sql vs) f w) = Inr x \<longleftrightarrow> (\<exists>res. ans sql vs = Inr res \<and> fst (f res (snd (query sql vs w))) = Inr x))"
proof -
  assume "steadyQuery query ans"
  then have "fst (query sql vs w) = ans sql vs" by (simp add: steadyQuery_def)
  then show ?thesis by (cases "query sql vs w") (auto simp: bindM_def split: sum.splits)
qed

lemma fst_bind_liftR:
  "fst (bindM (liftR r) f w) = Inr x \<longleftrightarrow> (\<exists>y. r = Inr y \<and> fst (f y w) = Inr x)"
  by (cases r) (auto simp: liftR_bind)

lemma commands_are_templates: "set (map fst RUNTIME_EXERCISED_COMMANDS) \<subseteq> set OWNERSHIP_TEMPLATES"
  by (simp add: RUNTIME_EXERCISED_COMMANDS_def OWNERSHIP_TEMPLATES_def)

lemma checkPolicies_exact:
  assumes "steadyProbe probe s t rd dp"
  shows "fst (bindM (checkPolicies (matchesModuleOwnershipPolicy sha probe s t cols) q policies RUNTIME_EXERCISED_COMMANDS ([], []))
      (\<lambda>_. returnM V) w) = Inr V' \<longleftrightarrow>
    V' = V \<and> (\<forall>c\<in>set RUNTIME_EXERCISED_COMMANDS. onlyModulePolicies (isModulePolicy sha t cols rd dp) policies c)"
proof -
  have "cachesOk rd dp ([], [])" by (simp add: cachesOk_def)
  moreover have "\<exists>c' w'. matchesModuleOwnershipPolicy sha probe s t cols template row c w =
      (Inr (isModulePolicy sha t cols rd dp template row, c'), w') \<and> cachesOk rd dp c'"
    if "template \<in> set (map fst RUNTIME_EXERCISED_COMMANDS)" "cachesOk rd dp c" for template row c w
    using matches_steady [OF assms that(2)] that(1) commands_are_templates by blast
  ultimately show ?thesis
    using checkPolicies_steady [of RUNTIME_EXERCISED_COMMANDS rd dp
        "matchesModuleOwnershipPolicy sha probe s t cols" "isModulePolicy sha t cols rd dp" "([], [])" policies q w]
    by (auto simp: bindM_def returnM_def split: if_splits)
qed


text \<open>A table with an owner column and its four managed policies.\<close>

definition demoDigest :: "bytes \<Rightarrow> bytes" where
  "demoDigest = (\<lambda>_. replicate 32 0)"

definition demoRendered :: "string \<Rightarrow> string \<Rightarrow> rendered" where
  "demoRendered c k =
     (if k = ''insert'' then VNull else VStr ''e'', if k = ''insert'' \<or> k = ''update'' then VStr ''e'' else VNull)"

definition demoDeparsed :: "string \<Rightarrow> rendered" where
  "demoDeparsed n =
     (case find (\<lambda>k. n = ownershipPolicyName demoDigest ''notes'' ''owner'' k) OWNERSHIP_TEMPLATES of
        None \<Rightarrow> (VNull, VNull)
      | Some k \<Rightarrow> demoRendered ''owner'' k)"

definition demoProbe :: OwnershipComparisonProbe where
  "demoProbe = \<lparr>pr_render = (\<lambda>s t c k. returnM (demoRendered c k)), pr_deparse = (\<lambda>s t n. returnM (demoDeparsed n))\<rparr>"

definition candidateColumn :: "string \<Rightarrow> string \<Rightarrow> policyRow" where
  "candidateColumn n ty =
     [(''column_name'', VStr n), (''data_type'', VStr ty), (''attgenerated'', VStr []), (''attidentity'', VStr [])]"

definition candidatePolicy :: "string \<times> string \<Rightarrow> policyRow" where
  "candidatePolicy = (\<lambda>(k, cmd).
     [(''policy_name'', VStr (ownershipPolicyName demoDigest ''notes'' ''owner'' k)), (''command'', VStr cmd),
      (''permissive'', VBool True)])"

definition candidateAnswers :: "string \<Rightarrow> jsval list \<Rightarrow> thrown + qresult" where
  "candidateAnswers sql vs = Inr \<lparr>qr_rows =
     (if sql = CANDIDATE_EXISTS_SQL then [[(''exists'', VBool True)]]
      else if sql = CANDIDATE_RLS_SQL then [[(''relrowsecurity'', VBool True), (''relforcerowsecurity'', VBool True)]]
      else if sql = CANDIDATE_KEY_SQL then [candidateColumn ''id'' ''uuid'']
      else if sql = CANDIDATE_COLUMNS_SQL then
        [candidateColumn ''id'' ''uuid'', candidateColumn ''owner'' ''uuid'', candidateColumn ''raw'' ''bytea'']
      else map candidatePolicy RUNTIME_EXERCISED_COMMANDS), qr_count = None\<rparr>"

definition demoRuntime :: runtime where
  "demoRuntime = \<lparr>heap = [], strOf = (\<lambda>_. []), stackDepth = 0, db = (\<lambda>_. Inr \<lparr>qr_rows = [], qr_count = None\<rparr>)\<rparr>"

lemma candidate_statements:
  "distinct [CANDIDATE_EXISTS_SQL, CANDIDATE_RLS_SQL, CANDIDATE_KEY_SQL, CANDIDATE_COLUMNS_SQL, APPLICABLE_POLICIES_SQL]"
  by code_simp

lemma candidate_own:
  assumes "(k, cmd) \<in> set RUNTIME_EXERCISED_COMMANDS"
  shows "isModulePolicy demoDigest ''notes'' [''id'', ''owner'', ''raw''] demoRendered demoDeparsed k (candidatePolicy (k, cmd))"
proof -
  have k: "k \<in> set OWNERSHIP_TEMPLATES" using assms commands_are_templates by force
  have "list_all (\<lambda>k. modulePolicyIdentity demoDigest (VStr (ownershipPolicyName demoDigest ''notes'' ''owner'' k)) ''notes''
      [''id'', ''owner'', ''raw''] = Some (''owner'', k)) OWNERSHIP_TEMPLATES" by code_simp
  moreover have "list_all (\<lambda>k. demoDeparsed (ownershipPolicyName demoDigest ''notes'' ''owner'' k) = demoRendered ''owner'' k)
      OWNERSHIP_TEMPLATES" by code_simp
  moreover have "list_all (\<lambda>k. case OWNERSHIP_POLICY_TEMPLATES k of None \<Rightarrow> False
      | Some sh \<Rightarrow> clausesAgree sh (demoRendered ''owner'' k) (demoRendered ''owner'' k)) OWNERSHIP_TEMPLATES" by code_simp
  ultimately show ?thesis using k
    by (auto simp: isModulePolicy_def list_all_iff candidatePolicy_def propOf_def split: option.splits)
qed

lemma candidate_exposable:
  "exposable demoRuntime demoDigest candidateAnswers demoRendered demoDeparsed ''app_user'' ''app'' ''notes''
     (columnsContract demoRuntime [candidateColumn ''id'' ''uuid'', candidateColumn ''owner'' ''uuid'', candidateColumn ''raw'' ''bytea''])"
  (is "exposable _ _ _ _ _ _ _ _ (columnsContract _ ?cols)")
proof -
  have names: "map (columnName demoRuntime) ?cols = [''id'', ''owner'', ''raw'']" by code_simp
  have "onlyModulePolicies (isModulePolicy demoDigest ''notes'' [''id'', ''owner'', ''raw''] demoRendered demoDeparsed)
      (map candidatePolicy RUNTIME_EXERCISED_COMMANDS) c" if "c \<in> set RUNTIME_EXERCISED_COMMANDS" for c
  proof -
    obtain k cmd where c: "c = (k, cmd)" by (cases c)
    have cmd: "policyApplies cmd (candidatePolicy p) \<longleftrightarrow> snd p = cmd \<or> snd p = ''*''" for p
      by (cases p) (simp add: policyApplies_def candidatePolicy_def propOf_def)
    have "list_all (\<lambda>p. snd p \<noteq> ''*'' \<and> list_all (\<lambda>q. snd p = snd q \<longrightarrow> p = q) RUNTIME_EXERCISED_COMMANDS)
        RUNTIME_EXERCISED_COMMANDS" by code_simp
    then have "p = (k, cmd)" if "p \<in> set RUNTIME_EXERCISED_COMMANDS" "snd p = cmd \<or> snd p = ''*''" for p
      using \<open>c \<in> set RUNTIME_EXERCISED_COMMANDS\<close> c that unfolding list_all_iff by (metis snd_conv)
    then show ?thesis using candidate_own that c
      unfolding onlyModulePolicies_def c prod.case set_map bex_simps ball_simps cmd by (metis snd_conv)
  qed
  moreover have "securedTable \<lparr>qr_rows = [[(''exists'', VBool True)]], qr_count = None\<rparr>
      \<lparr>qr_rows = [[(''relrowsecurity'', VBool True), (''relforcerowsecurity'', VBool True)]], qr_count = None\<rparr>
      \<lparr>qr_rows = [candidateColumn ''id'' ''uuid''], qr_count = None\<rparr>"
  proof -
    have "normalizeType ''uuid'' = ''uuid''" by code_simp
    then show ?thesis by (simp add: securedTable_def propOf_def candidateColumn_def)
  qed
  moreover have "xv_readable (columnsContract demoRuntime ?cols) \<noteq> []" "xv_insertable (columnsContract demoRuntime ?cols) \<noteq> []"
    "xv_updatable (columnsContract demoRuntime ?cols) \<noteq> []"
  proof -
    have "isSupportedType ''uuid''" by code_simp
    then show "xv_readable (columnsContract demoRuntime ?cols) \<noteq> []" "xv_insertable (columnsContract demoRuntime ?cols) \<noteq> []"
      "xv_updatable (columnsContract demoRuntime ?cols) \<noteq> []"
      using names by (simp_all add: columnsContract_def columnSupported_def columnPlain_def propOf_def candidateColumn_def)
  qed
  moreover have "\<exists>ty. propOf (candidateColumn n t) ''data_type'' = VStr ty" for n t
    by (simp add: candidateColumn_def propOf_def)
  moreover have ans: "candidateAnswers CANDIDATE_EXISTS_SQL vs = Inr \<lparr>qr_rows = [[(''exists'', VBool True)]], qr_count = None\<rparr>"
    "candidateAnswers CANDIDATE_RLS_SQL vs =
       Inr \<lparr>qr_rows = [[(''relrowsecurity'', VBool True), (''relforcerowsecurity'', VBool True)]], qr_count = None\<rparr>"
    "candidateAnswers CANDIDATE_KEY_SQL vs = Inr \<lparr>qr_rows = [candidateColumn ''id'' ''uuid''], qr_count = None\<rparr>"
    "candidateAnswers CANDIDATE_COLUMNS_SQL vs = Inr \<lparr>qr_rows = ?cols, qr_count = None\<rparr>"
    "candidateAnswers APPLICABLE_POLICIES_SQL vs = Inr \<lparr>qr_rows = map candidatePolicy RUNTIME_EXERCISED_COMMANDS, qr_count = None\<rparr>"
    for vs using candidate_statements distinct_rev [THEN iffD2, OF candidate_statements] unfolding candidateAnswers_def
    by simp_all
  ultimately show ?thesis
    using names unfolding exposable_def ans by simp
qed


subsection \<open>What the probe leaves behind\<close>

text \<open>The histories of a run on a pinned client, the calls of the run itself described by \<open>Q\<close>.\<close>

abbreviation plainQuery :: "string \<Rightarrow> event" where
  "plainQuery sql \<equiv> EvQuery sql []"

definition pinned :: "(event list \<Rightarrow> thrown + 'a \<Rightarrow> bool) \<Rightarrow> event list \<Rightarrow> thrown + 'a \<Rightarrow> bool" where
  "pinned Q es r \<longleftrightarrow>
     isl r \<and> es \<in> {[], [EvConnect], [EvConnect, plainQuery ''BEGIN'', EvRelease False]} \<or>
     (\<exists>body. (body = [] \<and> isl r \<or> Q body r) \<and>
        es = [EvConnect, plainQuery ''BEGIN'', plainQuery PROBE_SESSION_PIN_SQL] @ body @ [plainQuery ''ROLLBACK'', EvRelease False])"

lemma pinned_mono:
  assumes "pinned Q es r" and "\<And>body. Q body r \<Longrightarrow> \<not> (body = [] \<and> isl r) \<Longrightarrow> Q' body r"
  shows "pinned Q' es r"
proof -
  have "body = [] \<and> isl r \<or> Q' body r" if "body = [] \<and> isl r \<or> Q body r" for body
    using that assms(2) [of body] by blast
  with assms(1) show ?thesis unfolding pinned_def by blast
qed

lemma outcome_finally:
  assumes "outcome m P" and "outcome f (\<lambda>es r. es = fs \<and> \<not> isl r)" and "\<And>es r. P es r \<Longrightarrow> Q (es @ fs) r"
  shows "outcome (finallyM m f) Q"
  unfolding outcome_def
proof
  fix w
  obtain es r where m: "m w = (r, w @ es)" "P es r" using outcome_run [OF assms(1)] by blast
  obtain u where f: "f (w @ es) = (Inr u, (w @ es) @ fs)"
    using outcome_run [OF assms(2), of "w @ es"] by (metis sum.collapse(2))
  show "\<exists>es r. finallyM m f w = (r, w @ es) \<and> Q es r"
    using m f assms(3) [OF m(2)] by (intro exI [where x = "es @ fs"] exI [where x = r]) (simp add: finallyM_def)
qed

lemma outcome_rollbackQuietly: "outcome (rollbackQuietly R) (\<lambda>es r. es = [plainQuery ''ROLLBACK''] \<and> \<not> isl r)"
  unfolding rollbackQuietly_def
  by (rule outcome_catch [where P = "\<lambda>es r. es = [plainQuery ''ROLLBACK'']"],
      rule outcome_bind [OF outcome_perform [where P = "\<lambda>es r. es = [plainQuery ''ROLLBACK'']"]])
     (auto intro: outcome_return)

lemma outcome_release: "outcome (releaseClient b) (\<lambda>es r. es = [EvRelease b] \<and> \<not> isl r)"
  by (simp add: outcome_def releaseClient_def)

lemma outcome_connect: "outcome (poolConnect R c) (\<lambda>es r. es = [EvConnect] \<or> es = [] \<and> isl r)"
  unfolding poolConnect_def guardNotClosed_def
  by (cases c) (auto simp: outcome_def bindM_def throwM_def returnM_def catchM_def perform_def split: sum.splits)

lemma pinned_shape:
  assumes "outcome run Q"
  shows "outcome (withPinnedProbeClient R (poolConnect R c) run) (pinned Q)"
  unfolding withPinnedProbeClient_def
proof (rule outcome_bind [OF outcome_connect])
  show "pinned Q es (Inl e)" if "es = [EvConnect] \<or> es = [] \<and> isl (Inl e)" for es e
    using that by (auto simp: pinned_def)
next
  fix es x assume "es = [EvConnect] \<or> es = [] \<and> isl (Inr x)"
  then have es: "es = [EvConnect]" by simp
  let ?inner = "bindM (clientQuery R PROBE_SESSION_PIN_SQL []) (\<lambda>_. run)"
  have "outcome ?inner (\<lambda>es r. \<exists>body. (body = [] \<and> isl r \<or> Q body r) \<and> es = plainQuery PROBE_SESSION_PIN_SQL # body)"
    by (rule outcome_bind [OF outcome_perform [where P = "\<lambda>es r. es = [plainQuery PROBE_SESSION_PIN_SQL]"]])
       (auto intro: outcome_weaken [OF assms])
  from outcome_finally [OF this outcome_rollbackQuietly]
  have "outcome (finallyM ?inner (rollbackQuietly R))
      (\<lambda>es r. \<exists>body. (body = [] \<and> isl r \<or> Q body r) \<and>
         es = plainQuery PROBE_SESSION_PIN_SQL # body @ [plainQuery ''ROLLBACK''])"
    by (rule outcome_weaken) auto
  note in_tx = outcome_weaken [OF this]
  have "outcome (bindM (clientQuery R ''BEGIN'' []) (\<lambda>_. finallyM ?inner (rollbackQuietly R)))
      (\<lambda>es r. isl r \<and> es = [plainQuery ''BEGIN''] \<or>
        (\<exists>body. (body = [] \<and> isl r \<or> Q body r) \<and>
           es = plainQuery ''BEGIN'' # plainQuery PROBE_SESSION_PIN_SQL # body @ [plainQuery ''ROLLBACK'']))"
    by (rule outcome_bind [OF outcome_perform [where P = "\<lambda>es r. es = [plainQuery ''BEGIN'']"]])
       (auto intro: in_tx)
  from outcome_finally [OF this outcome_release [of False], where Q = "\<lambda>es'. pinned Q (es @ es')"]
  show "outcome (finallyM (bindM (clientQuery R ''BEGIN'' []) (\<lambda>_. finallyM ?inner (rollbackQuietly R))) (releaseClient False))
      (\<lambda>es'. pinned Q (es @ es'))"
    by (rule outcome_weaken) (auto simp: pinned_def es)
qed

end
