(* ===== verification/ExposureGuards.thy ===== *)
theory ExposureGuards
  imports ExposureFacts ConstraintFacts
begin

text \<open>
  The exposure commands on the composed lane: what a probe sends, and what must have been read before a command
  sends a statement.
\<close>

subsection \<open>The composed lane\<close>

text \<open>The rebuild that \<open>main.ts\<close> hands to the refresher, on the runtime pool; its ticket and swap send nothing.\<close>

definition exposedMapping :: "ExposureRegistryEntry \<Rightarrow> ExposedTableMapping" where
  "exposedMapping e = \<lparr>mp_alias = ex_alias e, mp_schema = ex_schema e, mp_table = ex_table e\<rparr>"

definition rebuildRuntimeRegistry :: "runtime \<Rightarrow> registry io" where
  "rebuildRuntimeRegistry R =
     (let query = poolQuery R False in
      bindM (readExposureRegistryState R query) (\<lambda>state.
      bindM (buildTableRegistry R query Map.empty 0 (map exposedMapping (xs_exposed state))) (\<lambda>(next, wm).
        returnM next)))"

definition exposureLane :: "ddl_env \<Rightarrow> runtime \<Rightarrow> string \<Rightarrow> string \<Rightarrow> (event list \<Rightarrow> bytes) \<Rightarrow> exposure_deps" where
  "exposureLane D R adminRole runtimeRole random =
     \<lparr>xd_lane = adminLane D [] adminRole runtimeRole, xd_connect = poolConnect (dd_runtime D) (dd_closed D),
      xd_random = random, xd_refresh = bindM (rebuildRuntimeRegistry R) (\<lambda>_. returnM ())\<rparr>"

lemma exposureLane_simps [simp]:
  "xd_lane (exposureLane D R adminRole runtimeRole random) = adminLane D [] adminRole runtimeRole"
  "xd_connect (exposureLane D R adminRole runtimeRole random) = poolConnect (dd_runtime D) (dd_closed D)"
  "xd_random (exposureLane D R adminRole runtimeRole random) = random"
  by (simp_all add: exposureLane_def)

lemma adminLane_simps [simp]:
  "ad_runtime (adminLane D reg adminRole runtimeRole) = dd_runtime D"
  "ad_query (adminLane D reg adminRole runtimeRole) = poolQuery (dd_runtime D) (dd_closed D)"
  "ad_runtimeRole (adminLane D reg adminRole runtimeRole) = runtimeRole"
  "ad_adminRole (adminLane D reg adminRole runtimeRole) = adminRole"
  by (simp_all add: adminLane_def Let_def)

subsection \<open>What a probe sends\<close>

text \<open>The calls between the pin and the ROLLBACK: the policy, then its expressions; fewer only if one failed.\<close>

definition probeCalls :: "string \<Rightarrow> jsval list \<Rightarrow> event list \<Rightarrow> bool \<Rightarrow> bool" where
  "probeCalls statement args body failed \<longleftrightarrow>
     body = [plainQuery statement] \<and> failed \<or>
     body = [plainQuery statement, EvQuery POLICY_EXPRESSIONS_SQL args]"

lemma probe_calls:
  "outcome (bindM (clientQuery R s []) (\<lambda>_. bindM (clientQuery R POLICY_EXPRESSIONS_SQL args) (\<lambda>result. liftR (renderedRow result))))
     (\<lambda>es r. probeCalls s args es (isl r))"
  by (rule outcome_bind [OF outcome_perform [where P = "\<lambda>es r. es = [plainQuery s]"]], simp, simp add: probeCalls_def,
      rule outcome_bind [OF outcome_perform [where P = "\<lambda>es r. es = [EvQuery POLICY_EXPRESSIONS_SQL args]"]])
     (auto simp: probeCalls_def intro: outcome_liftR)

text \<open>C15: Whatever the server answers, a rendering that returns has checked out one client and sent BEGIN, the pin of
  the session, the policy under a fresh name, the read of its expressions and ROLLBACK, in this order, and given the
  client back; one that throws has sent a beginning of that, with the ROLLBACK wherever the transaction was pinned or
  the pin was tried.  Nothing is ever committed.\<close>
theorem probe_rolls_back:
  "outcome (probeRender (exposureLane D R adminRole runtimeRole random) schema table column template)
     (pinned (\<lambda>body r. \<exists>fresh shape comparison statement.
        OWNERSHIP_POLICY_TEMPLATES template = Some shape \<and> compileOwnershipComparison column = Inr comparison \<and>
        probeStatement (''mjb_probe_'' @ toHex fresh) schema table runtimeRole shape comparison = Inr statement \<and>
        probeCalls statement [VStr schema, VStr table, VStr (''mjb_probe_'' @ toHex fresh)] body (isl r)))"
  (is "outcome _ (pinned ?P)")
  unfolding outcome_def
proof
  fix w
  let ?X = "exposureLane D R adminRole runtimeRole random"
  let ?n = "''mjb_probe_'' @ toHex (random w)"
  let ?args = "[VStr schema, VStr table, VStr ?n]"
  show "\<exists>es r. probeRender ?X schema table column template w = (r, w @ es) \<and> pinned ?P es r"
  proof (cases "OWNERSHIP_POLICY_TEMPLATES template")
    case None
    then show ?thesis by (auto simp: probeRender_def throwM_def pinned_def)
  next
    case (Some shape)
    show ?thesis
    proof (cases "compileOwnershipComparison column")
      case (Inl e)
      with Some show ?thesis by (auto simp: probeRender_def liftR_bind pinned_def)
    next
      case (Inr comparison)
      let ?st = "probeStatement ?n schema table runtimeRole shape comparison"
      let ?run = "bindM (liftR ?st) (\<lambda>s. bindM (clientQuery (dd_runtime D) s []) (\<lambda>_.
          bindM (clientQuery (dd_runtime D) POLICY_EXPRESSIONS_SQL ?args) (\<lambda>result. liftR (renderedRow result))))"
      have "outcome ?run (\<lambda>es r. es = [] \<and> isl r \<or> (\<exists>s. ?st = Inr s \<and> probeCalls s ?args es (isl r)))"
        by (rule outcome_liftR_bind) (auto intro: outcome_weaken [OF probe_calls])
      from outcome_run [OF pinned_shape [OF this]] obtain es r where
        run: "withPinnedProbeClient (dd_runtime D) (poolConnect (dd_runtime D) (dd_closed D)) ?run w = (r, w @ es)"
        and p: "pinned (\<lambda>es r. es = [] \<and> isl r \<or> (\<exists>s. ?st = Inr s \<and> probeCalls s ?args es (isl r))) es r" by blast
      have "probeRender ?X schema table column template w = (r, w @ es)"
        using Some Inr run by (simp add: probeRender_def liftR_bind Let_def)
      moreover have "pinned ?P es r" using p
      proof (rule pinned_mono)
        show "?P body r" if "body = [] \<and> isl r \<or> (\<exists>s. ?st = Inr s \<and> probeCalls s ?args body (isl r))" "\<not> (body = [] \<and> isl r)" for body
          using that Some Inr by blast
      qed
      ultimately show ?thesis by blast
    qed
  qed
qed

subsection \<open>What the commands have read\<close>

text \<open>\<open>asked m x w w'\<close>: between the two histories the call \<open>m\<close> returned \<open>x\<close>.\<close>

definition asked :: "'a io \<Rightarrow> 'a \<Rightarrow> event list \<Rightarrow> event list \<Rightarrow> bool" where
  "asked m x w w' \<longleftrightarrow> (\<exists>v v'. prefix w v \<and> m v = (Inr x, v') \<and> prefix v' w')"

text \<open>
  The contract of an expose command comes from the key's record, or from a verification after the target was found
  not exposed, the alias free or the target's own, and the table in a catalogue, owned by the schema-admin role.
\<close>

definition recordedContract :: "exposure_deps \<Rightarrow> ExposeTableCommand \<Rightarrow> ExposureVerification \<Rightarrow> event list \<Rightarrow> event list \<Rightarrow> bool" where
  "recordedContract X input V w w' \<longleftrightarrow>
     \<not> mb_dryRun input \<and>
     (\<exists>rec. asked (logGet (adminLog (xd_lane X)) (mb_key input)) (Some rec) w w' \<and>
        verificationFromRecord (heap (ad_runtime (xd_lane X))) rec input = Inr V)"

definition verifiedContract :: "exposure_deps \<Rightarrow> ExposeTableCommand \<Rightarrow> ExposureVerification \<Rightarrow> event list \<Rightarrow> event list \<Rightarrow> bool" where
  "verifiedContract X input V w w' \<longleftrightarrow>
     (let d = xd_lane X; R = ad_runtime d; s = tc_schema input; t = tc_table input in
      (\<exists>byTarget byAlias cat T.
         asked (findExposureByTarget R (ad_query d) s t) byTarget w w' \<and>
         (\<forall>r. byTarget = Some r \<longrightarrow> \<not> ex_exposed r) \<and>
         asked (findExposureByAlias R (ad_query d) (xp_alias input)) byAlias w w' \<and>
         (\<forall>r. byAlias = Some r \<longrightarrow> ex_schema r = s \<and> ex_table r = t) \<and>
         asked (ad_catalogue d) cat w w' \<and> owns d cat s t T) \<and>
      asked (verifyExposureCandidate R (ad_sha d) (ad_query d) (ad_runtimeRole d) s t (comparisonProbe X)) V w w')"

definition targetExposed :: "exposure_deps \<Rightarrow> TableCommand \<Rightarrow> event list \<Rightarrow> event list \<Rightarrow> bool" where
  "targetExposed X input w w' \<longleftrightarrow>
     (let d = xd_lane X; s = tc_schema input; t = tc_table input in
      \<exists>r cat T. asked (findExposureByTarget (ad_runtime d) (ad_query d) s t) (Some r) w w' \<and> ex_exposed r \<and>
        asked (ad_catalogue d) cat w w' \<and> owns d cat s t T)"

lemma exposableTable_Inr: "exposableTable d cat s t = Inr T \<Longrightarrow> owns d cat s t T"
  by (auto simp: exposableTable_def owns_def res_simps dest!: find_SomeD split: option.splits)

text \<open>A call that extends the history, and what it leaves to do.\<close>

abbreviation grows :: "'a io \<Rightarrow> bool" where
  "grows m \<equiv> outcome m (\<lambda>es r. True)"

lemma growsD: "grows m \<Longrightarrow> m w = (r, w') \<Longrightarrow> prefix w w'"
  by (drule outcomeD) auto

lemma asked_here: "m w = (Inr x, w') \<Longrightarrow> asked m x w w'"
  unfolding asked_def by (intro exI [where x = w] exI [where x = w']) simp

lemma asked_wider: "asked m x v v' \<Longrightarrow> prefix w v \<Longrightarrow> prefix v' w' \<Longrightarrow> asked m x w w'"
  unfolding asked_def by (meson prefix_order.trans)

lemma grows_emits: "emitsOnly p m \<Longrightarrow> grows m"
  unfolding emitsOnly_def by (erule outcome_weaken) simp

lemma emits_silent_pool: "emitsOnly poolRead m \<Longrightarrow> emitsOnly silent m"
proof (erule emitsOnly_mono)
  show "poolRead e \<Longrightarrow> silent e" for e by (cases e) auto
qed

lemma emits_lookup:
  assumes "\<And>sql vs. emitsOnly p (query sql vs)"
  shows "emitsOnly p (findExposureByTarget R query s t)" "emitsOnly p (findExposureByAlias R query a)"
  unfolding findExposureByTarget_def findExposureByAlias_def queryTranslated_def by (auto intro!: io_intros assms)

lemma emits_finally: "emitsOnly p m \<Longrightarrow> emitsOnly p f \<Longrightarrow> emitsOnly p (finallyM m f)"
  unfolding emitsOnly_def outcome_def
proof (intro allI)
  fix w assume m: "\<forall>w. \<exists>es r. m w = (r, w @ es) \<and> list_all p es" and f: "\<forall>w. \<exists>es r. f w = (r, w @ es) \<and> list_all p es"
  obtain es r where 1: "m w = (r, w @ es)" "list_all p es" using m by blast
  obtain es' u where 2: "f (w @ es) = (u, (w @ es) @ es')" "list_all p es'" using f by blast
  show "\<exists>es r. finallyM m f w = (r, w @ es) \<and> list_all p es"
    using 1 2 by (intro exI [where x = "es @ es'"] exI [where x = "case u of Inl e \<Rightarrow> Inl e | Inr x \<Rightarrow> r"])
      (auto simp: finallyM_def split: sum.split)
qed

lemma silent_pinned: "emitsOnly silent run \<Longrightarrow> emitsOnly silent (withPinnedProbeClient R (poolConnect R c) run)"
  unfolding withPinnedProbeClient_def
  by (intro io_intros silent_connect emits_finally silent_rollback silent_release silent_client)

lemma silent_probe:
  "emitsOnly silent (pr_render (comparisonProbe (exposureLane D R a u random)) s t c k)"
  "emitsOnly silent (pr_deparse (comparisonProbe (exposureLane D R a u random)) s t n)"
proof -
  let ?X = "exposureLane D R a u random"
  have "emitsOnly silent (\<lambda>w. (case OWNERSHIP_POLICY_TEMPLATES k of
         None \<Rightarrow> throwM noShape
       | Some shape \<Rightarrow>
           bindM (liftR (compileOwnershipComparison c)) (\<lambda>comparison.
           withPinnedProbeClient (dd_runtime D) (poolConnect (dd_runtime D) (dd_closed D))
             (bindM (liftR (probeStatement n s t u shape comparison)) (\<lambda>statement.
              bindM (clientQuery (dd_runtime D) statement []) (\<lambda>_.
              bindM (clientQuery (dd_runtime D) POLICY_EXPRESSIONS_SQL [VStr s, VStr t, VStr n]) (\<lambda>result.
                liftR (renderedRow result))))))) w)" (is "emitsOnly _ (?m n)") for n
    by (cases "OWNERSHIP_POLICY_TEMPLATES k") (auto intro!: io_intros silent_pinned)
  then have m: "\<exists>es r. ?m n w = (r, w @ es) \<and> list_all silent es" for n w
    unfolding emitsOnly_def by (rule outcome_run)
  have e: "probeRender ?X s t c k w = ?m (''mjb_probe_'' @ toHex (random w)) w" for w
    by (simp only: probeRender_def Let_def exposureLane_simps adminLane_simps)
  show "emitsOnly silent (pr_render (comparisonProbe ?X) s t c k)"
    unfolding emitsOnly_def outcome_def comparisonProbe_def OwnershipComparisonProbe.simps e by (intro allI m)
  show "emitsOnly silent (pr_deparse (comparisonProbe ?X) s t n)"
    by (auto simp: comparisonProbe_def probeDeparse_def Let_def intro!: io_intros silent_pinned)
qed

lemma emits_cached: "emitsOnly p m \<Longrightarrow> emitsOnly p (cached key m c)"
  unfolding cached_def by (auto intro!: io_intros split: option.splits)

lemma emits_matches:
  assumes "\<And>s t c k. emitsOnly p (pr_render probe s t c k)" and "\<And>s t n. emitsOnly p (pr_deparse probe s t n)"
  shows "emitsOnly p (matchesModuleOwnershipPolicy sha probe s t cols k row caches)"
  unfolding matchesModuleOwnershipPolicy_def Let_def
  by (auto intro!: io_intros emits_cached assms split: option.splits prod.splits)

lemma emits_mapCached: "(\<And>x c. emitsOnly p (f x c)) \<Longrightarrow> emitsOnly p (mapCached f xs c)"
  by (induction xs arbitrary: c) (auto intro!: io_intros)

lemma emits_checkPolicies:
  assumes "\<And>k row c. emitsOnly p (m k row c)"
  shows "emitsOnly p (checkPolicies m q policies cs caches)"
proof (induction cs arbitrary: caches)
  case (Cons c cs)
  show ?case unfolding checkPolicies.simps
    by (intro io_intros Cons, cases c)
       (auto simp: checkCommand_def Let_def intro!: io_intros emits_mapCached assms)
qed (simp add: io_intros)

lemma emits_verify:
  assumes "\<And>sql vs. emitsOnly p (query sql vs)"
    and "\<And>s t c k. emitsOnly p (pr_render probe s t c k)" and "\<And>s t n. emitsOnly p (pr_deparse probe s t n)"
  shows "emitsOnly p (verifyExposureCandidate R sha query role s t probe)"
  unfolding verifyExposureCandidate_def Let_def
  by (intro io_intros assms(1) emits_checkPolicies emits_matches assms(2,3))

lemma silent_query: "emitsOnly silent (ad_query (adminLane D reg a u) sql vs)"
  by (simp add: emits_silent_pool pool_reads)

lemma silent_catalogue: "emitsOnly silent (ad_catalogue (adminLane D reg a u))"
  by (rule emits_silent_pool [OF lane.catalogue_reads])

lemma silent_logGet: "emitsOnly silent (logGet (adminLog (adminLane D reg a u)) key)"
  by (rule emits_silent_pool [OF emits_adminGet [OF lane.query_reads]])

lemma silent_lookups:
  "emitsOnly silent (findExposureByTarget R (ad_query (adminLane D reg a u)) s t)"
  "emitsOnly silent (findExposureByAlias R (ad_query (adminLane D reg a u)) al)"
  "emitsOnly silent (verifyExposureCandidate R sha (ad_query (adminLane D reg a u)) role s t
     (comparisonProbe (exposureLane E R' a' u' random)))"
  by (intro emits_lookup emits_verify silent_query silent_probe)+

lemmas silent_parts = silent_query silent_catalogue silent_logGet silent_lookups

lemma silent_preflight: "emitsOnly silent (exposePreflight (exposureLane D R a u random) input)"
  unfolding exposePreflight_def Let_def exposureLane_simps by (intro io_intros silent_parts)

lemma silent_contract: "emitsOnly silent (exposeContract (exposureLane D R a u random) input)"
  unfolding exposeContract_def
  by (auto simp del: adminLane_simps intro!: io_intros silent_preflight silent_logGet split: option.split)

lemma silent_unexposeChecks: "emitsOnly silent (unexposeChecks (exposureLane D R a u random) input)"
  unfolding unexposeChecks_def Let_def exposureLane_simps by (intro io_intros silent_parts)

lemma silent_unlessRecorded:
  "emitsOnly silent m \<Longrightarrow> emitsOnly silent (unlessRecorded (adminLane D reg a u) input m)"
  unfolding unlessRecorded_def hasExistingRecord_def
  by (auto simp del: adminLane_simps intro!: io_intros silent_logGet)

lemma emits_rebuild:
  assumes "\<And>sql vs. emitsOnly p (query sql vs)"
  shows "emitsOnly p (readExposureRegistryState R query)" "emitsOnly p (buildTableRegistry R query wm ref ms)"
proof -
  show "emitsOnly p (readExposureRegistryState R query)"
    unfolding readExposureRegistryState_def queryTranslated_def Let_def
    by (auto intro!: io_intros assms split: option.split jsval.split)
  have v: "emitsOnly p (verifyTable R query m)" for m
    unfolding verifyTable_def Let_def by (auto intro!: io_intros assms split: option.split)
  have "emitsOnly p (buildTables R query wm ref ms)" for wm
    by (induction ms arbitrary: wm ref) (auto intro!: io_intros v split: prod.split)
  then show "emitsOnly p (buildTableRegistry R query wm ref ms)"
    unfolding buildTableRegistry_def by (auto intro!: io_intros split: prod.split)
qed

lemma silent_refresh: "emitsOnly silent (xd_refresh (exposureLane D R a u random))"
  unfolding exposureLane_def rebuildRuntimeRegistry_def Let_def exposure_deps.simps
  by (auto intro!: io_intros emits_rebuild emits_silent_pool [OF pool_reads] split: prod.split)

lemma preflight_verified:
  assumes "exposePreflight (exposureLane D R a u random) input w = (Inr V, w')"
  shows "verifiedContract (exposureLane D R a u random) input V w w'"
proof -
  let ?d = "adminLane D [] a u" and ?X = "exposureLane D R a u random"
  let ?s = "tc_schema input" and ?t = "tc_table input"
  from assms obtain byTarget w1 byAlias w2 cat w3 T where
    run: "findExposureByTarget (ad_runtime ?d) (ad_query ?d) ?s ?t w = (Inr byTarget, w1)"
    "findExposureByAlias (ad_runtime ?d) (ad_query ?d) (xp_alias input) w1 = (Inr byAlias, w2)"
    "ad_catalogue ?d w2 = (Inr cat, w3)"
    "verifyExposureCandidate (ad_runtime ?d) (ad_sha ?d) (ad_query ?d) (ad_runtimeRole ?d) ?s ?t (comparisonProbe ?X) w3 = (Inr V, w')"
    and ok: "\<forall>r. byTarget = Some r \<longrightarrow> \<not> ex_exposed r" "\<forall>r. byAlias = Some r \<longrightarrow> ex_schema r = ?s \<and> ex_table r = ?t"
    "exposableTable ?d cat ?s ?t = Inr T"
    unfolding exposePreflight_def Let_def exposureLane_simps bindM_Inr_iff liftR_Inr_iff
    by (auto simp del: adminLane_simps split: option.splits)
  have p: "prefix w w1" "prefix w1 w2" "prefix w2 w3" "prefix w3 w'"
    by (rule growsD [OF grows_emits [OF silent_lookups(1)] run(1)] growsD [OF grows_emits [OF silent_lookups(2)] run(2)]
        growsD [OF grows_emits [OF silent_catalogue] run(3)] growsD [OF grows_emits [OF silent_lookups(3)] run(4)])+
  then have q: "prefix w w2" "prefix w w3" "prefix w1 w'" "prefix w2 w'" by (meson prefix_order.trans)+
  have "asked (findExposureByTarget (ad_runtime ?d) (ad_query ?d) ?s ?t) byTarget w w'"
    "asked (findExposureByAlias (ad_runtime ?d) (ad_query ?d) (xp_alias input)) byAlias w w'"
    "asked (ad_catalogue ?d) cat w w'"
    "asked (verifyExposureCandidate (ad_runtime ?d) (ad_sha ?d) (ad_query ?d) (ad_runtimeRole ?d) ?s ?t (comparisonProbe ?X)) V w w'"
    unfolding asked_def using run p q by (blast intro: prefix_order.refl)+
  then show ?thesis
    unfolding verifiedContract_def Let_def exposureLane_simps
    by (intro conjI exI [where x = byTarget] exI [where x = byAlias] exI [where x = cat] exI [where x = T]
        ok(1,2) exposableTable_Inr [OF ok(3)])
qed

lemma contract_justified:
  assumes "exposeContract (exposureLane D R a u random) input w = (Inr V, w')"
  shows "recordedContract (exposureLane D R a u random) input V w w' \<or> verifiedContract (exposureLane D R a u random) input V w w'"
proof (cases "mb_dryRun input")
  case True
  with assms show ?thesis by (simp add: exposeContract_def preflight_verified)
next
  case False
  let ?X = "exposureLane D R a u random"
  from False assms obtain existing v where g: "logGet (adminLog (xd_lane ?X)) (mb_key input) w = (Inr existing, v)"
    "(case existing of None \<Rightarrow> exposePreflight ?X input
      | Some record \<Rightarrow> liftR (verificationFromRecord (heap (ad_runtime (xd_lane ?X))) record input)) v = (Inr V, w')"
    unfolding exposeContract_def by (simp only: if_False bindM_Inr_iff) blast
  have p: "prefix w v" using g(1) growsD grows_emits silent_logGet unfolding exposureLane_simps by blast
  show ?thesis
  proof (cases existing)
    case None
    with g(2) have "verifiedContract ?X input V v w'" by (simp add: preflight_verified)
    with p show ?thesis unfolding verifiedContract_def Let_def by (meson asked_wider prefix_order.refl)
  next
    case (Some rec)
    with g have "verificationFromRecord (heap (ad_runtime (xd_lane ?X))) rec input = Inr V" "v = w'"
      by (simp_all add: liftR_Inr_iff)
    with g(1) Some False show ?thesis unfolding recordedContract_def by (blast intro: asked_here)
  qed
qed

lemma unexpose_justified:
  assumes "unexposeChecks (exposureLane D R a u random) input w = (Inr (), w')"
  shows "targetExposed (exposureLane D R a u random) input w w'"
proof -
  let ?d = "adminLane D [] a u"
  let ?s = "tc_schema input" and ?t = "tc_table input"
  from assms obtain r w1 cat T where
    run: "findExposureByTarget (ad_runtime ?d) (ad_query ?d) ?s ?t w = (Inr (Some r), w1)" "ad_catalogue ?d w1 = (Inr cat, w')"
    and ok: "ex_exposed r" "exposableTable ?d cat ?s ?t = Inr T"
    unfolding unexposeChecks_def Let_def exposureLane_simps bindM_Inr_iff liftR_Inr_iff
    by (auto simp: res_simps simp del: adminLane_simps split: option.splits)
  have p: "prefix w w1" "prefix w1 w'"
    by (rule growsD [OF grows_emits [OF silent_lookups(1)] run(1)] growsD [OF grows_emits [OF silent_catalogue] run(2)])+
  have "asked (findExposureByTarget (ad_runtime ?d) (ad_query ?d) ?s ?t) (Some r) w w'" "asked (ad_catalogue ?d) cat w w'"
    unfolding asked_def using run p by (blast intro: prefix_order.refl)+
  then show ?thesis
    unfolding targetExposed_def Let_def exposureLane_simps
    by (intro conjI exI [where x = r] exI [where x = cat] exI [where x = T] ok(1) exposableTable_Inr [OF ok(2)])
qed

lemma unlessRecorded_justified:
  assumes "unlessRecorded (adminLane D reg a u) input checks w = (Inr (), w')"
  shows "asked (hasExistingRecord (adminLane D reg a u) (mb_key input)) True w w' \<or>
    (\<exists>v. prefix w v \<and> checks v = (Inr (), w'))"
proof -
  from assms obtain b v where 1: "hasExistingRecord (adminLane D reg a u) (mb_key input) w = (Inr b, v)"
    "(if b then returnM () else checks) v = (Inr (), w')"
    unfolding unlessRecorded_def bindM_Inr_iff by blast
  have "grows (hasExistingRecord (adminLane D reg a u) (mb_key input))"
    unfolding hasExistingRecord_def by (intro grows_emits [where p = silent] io_intros silent_logGet)
  from growsD [OF this 1(1)] have p: "prefix w v" .
  show ?thesis
  proof (cases b)
    case True
    with 1 show ?thesis unfolding asked_def by (auto simp: returnM_def)
  next
    case False
    with 1 p show ?thesis by auto
  qed
qed

subsection \<open>The commands are guarded\<close>

datatype exposure_command = ExposeTable ExposeTableCommand | UnexposeTable TableCommand

fun runExposure :: "exposure_deps \<Rightarrow> exposure_command \<Rightarrow> ExecuteOutcome io" where
  "runExposure X (ExposeTable c) = expose X c"
| "runExposure X (UnexposeTable c) = unexpose X c"

fun exposureDryRun :: "exposure_command \<Rightarrow> bool" where
  "exposureDryRun (ExposeTable c) = mb_dryRun c"
| "exposureDryRun (UnexposeTable c) = mb_dryRun c"

fun exposureJustified :: "exposure_deps \<Rightarrow> exposure_command \<Rightarrow> DdlPlan list \<Rightarrow> event list \<Rightarrow> event list \<Rightarrow> bool" where
  "exposureJustified X (ExposeTable c) plans w w' \<longleftrightarrow>
     (\<exists>V. (recordedContract X c V w w' \<or> verifiedContract X c V w w') \<and> exposePlans (xd_lane X) c V = Inr plans)"
| "exposureJustified X (UnexposeTable c) plans w w' \<longleftrightarrow>
     (asked (hasExistingRecord (xd_lane X) (mb_key c)) True w w' \<or> (\<exists>v. prefix w v \<and> targetExposed X c v w')) \<and>
     unexposePlans (xd_lane X) c = Inr plans"

text \<open>\<open>runExposure\<close> in two steps: what precedes the executor yields the plans.\<close>

fun exposureReady :: "exposure_deps \<Rightarrow> exposure_command \<Rightarrow> DdlPlan list io" where
  "exposureReady X (ExposeTable c) =
     bindM (liftR (guardR (\<not> aliasPattern (xp_alias c))
              (refuse (''Alias '' @ inQuotes (xp_alias c) @ '' must match '' @ ALIAS_SOURCE)))) (\<lambda>_.
     bindM (exposeContract X c) (\<lambda>v. liftR (exposePlans (xd_lane X) c v)))"
| "exposureReady X (UnexposeTable c) =
     bindM (unlessRecorded (xd_lane X) c (unexposeChecks X c)) (\<lambda>_. liftR (unexposePlans (xd_lane X) c))"

lemma silent_ready: "emitsOnly silent (exposureReady (exposureLane D R a u random) c)"
  by (cases c) (auto simp del: adminLane_simps intro!: io_intros silent_contract silent_unlessRecorded silent_unexposeChecks)

lemma ready_justified:
  assumes "exposureReady (exposureLane D R a u random) c w = (Inr plans, w')"
  shows "exposureJustified (exposureLane D R a u random) c plans w w'"
proof (cases c)
  case (ExposeTable i)
  with assms obtain V where "exposeContract (exposureLane D R a u random) i w = (Inr V, w')"
    "exposePlans (xd_lane (exposureLane D R a u random)) i V = Inr plans"
    by (simp only: exposureReady.simps bindM_Inr_iff liftR_Inr_iff) blast
  with contract_justified show ?thesis unfolding ExposeTable exposureJustified.simps by blast
next
  case (UnexposeTable i)
  let ?X = "exposureLane D R a u random"
  from UnexposeTable assms obtain y where "unlessRecorded (adminLane D [] a u) i (unexposeChecks ?X i) w = (Inr y, w')"
    and plans: "unexposePlans (xd_lane ?X) i = Inr plans"
    by (simp only: exposureReady.simps bindM_Inr_iff liftR_Inr_iff exposureLane_simps) blast
  then have i: "unlessRecorded (adminLane D [] a u) i (unexposeChecks ?X i) w = (Inr (), w')"
    "unexposePlans (xd_lane ?X) i = Inr plans" by simp_all
  from unlessRecorded_justified [OF i(1)] unexpose_justified i(2)
  show ?thesis unfolding UnexposeTable exposureJustified.simps exposureLane_simps by blast
qed

lemma ready_step:
  "(\<exists>e v. bindM m (\<lambda>x. liftR (f x)) w = (Inl e, v) \<and> bindM m (\<lambda>x. bindM (liftR (f x)) (\<lambda>p. run p (opt x))) w = (Inl e, v)) \<or>
   (\<exists>p v y. bindM m (\<lambda>x. liftR (f x)) w = (Inr p, v) \<and> bindM m (\<lambda>x. bindM (liftR (f x)) (\<lambda>p. run p (opt x))) w = run p y v)"
proof -
  obtain r v where m: "m w = (r, v)" by (cases "m w")
  show ?thesis
  proof (cases r)
    case (Inl e)
    with m show ?thesis by (simp add: io_simps)
  next
    case (Inr x)
    with m show ?thesis by (cases "f x") (auto simp: io_simps)
  qed
qed

lemma runExposure_ready:
  "(\<exists>e v. exposureReady X c w = (Inl e, v) \<and> runExposure X c w = (Inl e, v)) \<or>
   (\<exists>plans v opts. exposureReady X c w = (Inr plans, v) \<and>
      runExposure X c w = thenRefresh X (exposureDryRun c) (ad_execute (xd_lane X) plans opts) v)"
proof (cases c)
  case (ExposeTable i)
  show ?thesis
    unfolding ExposeTable exposureReady.simps runExposure.simps exposureDryRun.simps expose_def submit_def
      bindM_assoc [symmetric, where m = "liftR (guardR _ _)"]
    by (rule ready_step [where run = "\<lambda>plans opts. thenRefresh X (mb_dryRun i) (ad_execute (xd_lane X) plans opts)"
        and f = "exposePlans (xd_lane X) i" and opt = "\<lambda>v.
       \<lparr>eo_key = mb_key i, eo_commandType = ''schema.exposure.expose'', eo_command = JObj (exposeMembers i v),
        eo_actor = mb_actor i, eo_dryRun = mb_dryRun i\<rparr>"])
next
  case (UnexposeTable i)
  show ?thesis
    unfolding UnexposeTable exposureReady.simps runExposure.simps exposureDryRun.simps unexpose_def submit_def
    by (rule ready_step [where run = "\<lambda>plans opts. thenRefresh X (mb_dryRun i) (ad_execute (xd_lane X) plans opts)"
        and f = "\<lambda>_. unexposePlans (xd_lane X) i" and opt = "\<lambda>_.
       \<lparr>eo_key = mb_key i, eo_commandType = ''schema.exposure.unexpose'',
        eo_command = JObj (tableMembers (tc_schema i) (tc_table i)), eo_actor = mb_actor i, eo_dryRun = mb_dryRun i\<rparr>"])
qed

text \<open>The executor, then the refresh.\<close>

lemma thenRefresh_sends:
  assumes "thenRefresh (exposureLane D R a u random) dry (ad_execute (adminLane D [] a u) plans opts) w = (r, w')"
  shows "\<exists>es. w' = w @ es \<and>
    (planStatements es = [] \<or> (\<exists>ss. statementsOf plans = Inr ss \<and> prefix (planStatements es) ss)) \<and>
    (\<forall>x. r = Inr x \<longrightarrow> dry \<or> (\<exists>v. prefix w v \<and> xd_refresh (exposureLane D R a u random) v = (Inr (), w')))"
proof -
  let ?X = "exposureLane D R a u random"
  let ?run = "ad_execute (adminLane D [] a u) plans opts"
  obtain es1 r1 where run: "?run w = (r1, w @ es1)"
    "planStatements es1 = [] \<or> (\<exists>ss. statementsOf plans = Inr ss \<and> prefix (planStatements es1) ss)"
    using outcome_run [OF lane.executor_sends] by blast
  show ?thesis
  proof (cases r1)
    case (Inl e)
    with assms run show ?thesis by (auto simp: thenRefresh_def bindM_def)
  next
    case (Inr x)
    let ?m = "if dry then returnM () else xd_refresh ?X"
    have "emitsOnly silent ?m" by (simp add: silent_refresh io_intros)
    from outcome_run [OF emits_silent_statements [OF this]] obtain es2 r2 where
      m: "?m (w @ es1) = (r2, (w @ es1) @ es2)" "planStatements es2 = []" by blast
    have w': "w' = w @ es1 @ es2" "r = (case r2 of Inl e \<Rightarrow> Inl e | Inr u \<Rightarrow> Inr x)"
      using assms run(1) m(1) Inr by (auto simp: thenRefresh_def bindM_def returnM_def split: sum.splits)
    show ?thesis
    proof (intro exI [where x = "es1 @ es2"] conjI)
      show "planStatements (es1 @ es2) = [] \<or> (\<exists>ss. statementsOf plans = Inr ss \<and> prefix (planStatements (es1 @ es2)) ss)"
        using run(2) m(2) by simp
      show "\<forall>y. r = Inr y \<longrightarrow> dry \<or> (\<exists>v. prefix w v \<and> xd_refresh ?X v = (Inr (), w'))"
      proof (intro allI impI)
        fix y assume "r = Inr y"
        then have "r2 = Inr ()" "y = x" using w'(2) by (auto split: sum.splits)
        with m(1) w'(1) show "dry \<or> (\<exists>v. prefix w v \<and> xd_refresh ?X v = (Inr (), w'))"
          by (cases dry) (auto intro!: exI [where x = "w @ es1"])
      qed
    qed (simp add: w')
  qed
qed


definition reusedUnexpose :: TableCommand where
  "reusedUnexpose = \<lparr>mb_key = ''k2'', mb_actor = ''ann'', mb_dryRun = True, tc_schema = ''app'', tc_table = ''notes''\<rparr>"

lemma reused_unexpose_sends:
  assumes "unexposePlans reusedLane reusedUnexpose = Inr plans" and "statementsOf plans = Inr ss"
  shows "planStatements (snd (unexpose (exposureLane reusedAdmin R ''admin'' ''app_user'' random) reusedUnexpose [])) = ss"
proof -
  have dry: "planStatements (snd (execute reusedAdmin plans opts w)) = planStatements w @ ss" if "eo_dryRun opts" for opts w
    using assms(2) that
  proof (intro dry_run_sends)
    show "db (dd_runtime reusedAdmin) (v @ [e]) = Inr emptyResult" if "\<not> poolRead e" for v e
      using that by (cases e) (simp_all add: reusedAdmin_def demoAdmin_def reusedAnswers_def)
  qed (simp_all add: reusedAdmin_def demoAdmin_def)
  have c: "mb_key reusedUnexpose = ''k2''" "mb_dryRun reusedUnexpose" by (simp_all add: reusedUnexpose_def)
  have e: "ad_execute reusedLane = execute reusedAdmin" by (simp add: reusedLane_def adminLane_def Let_def)
  have p: "planStatements [EvPool t vs] = []" for t vs by (simp add: planStatements_def List.map_filter_simps)
  have keep: "snd (thenRefresh X True m w) = snd (m w)" for X and m :: "ExecuteOutcome io" and w
    by (cases "m w") (auto simp: thenRefresh_def io_simps split: sum.split)
  show ?thesis
    using assms(1) unfolding unexpose_def exposureLane_simps reusedLane_def [symmetric]
    by (simp add: unlessRecorded_def submit_def io_simps c e reused_lookup keep dry p)
qed


end
