(* ===== verification/Startup.thy ===== *)
theory Startup
  imports RoleSafety ExposureGuards Config
begin

text \<open>
  The composition root (\<open>start\<close> in \<open>src/main.ts\<close>): the pools, the safety checks, the initial import, the registry,
  the admin lane, and the clean-up of a start that fails.  Fastify's server and its listening are one parameter.
\<close>

subsection \<open>Checks on a pooled client\<close>

definition withClient :: "runtime \<Rightarrow> (queryOp \<Rightarrow> 'a io) \<Rightarrow> unit io" where
  "withClient R check =
     bindM (poolConnect R False) (\<lambda>_.
       finallyM (bindM (check (clientQuery R)) (\<lambda>_. returnM ())) (releaseClient False))"

definition assertRuntimeRoleSafety :: "runtime \<Rightarrow> unit io" where
  "assertRuntimeRoleSafety R = withClient R checkRuntimeRoleSafety"

definition assertSchemaAdminRoleSafety :: "runtime \<Rightarrow> unit io" where
  "assertSchemaAdminRoleSafety A = withClient A checkSchemaAdminRoleSafety"

definition assertSchemaAdminHistoryWriteAccess :: "runtime \<Rightarrow> unit io" where
  "assertSchemaAdminHistoryWriteAccess A = withClient A checkSchemaOperationLogWriteAccess"

definition assertSchemaAdminExposureAccess :: "runtime \<Rightarrow> unit io" where
  "assertSchemaAdminExposureAccess A =
     withClient A (\<lambda>query. checkExposureRegistryWriteAccess query REQUIRED_EXPOSURE_REGISTRY_PRIVILEGES)"

definition assertSchemaAdminMigrationsReadAccess :: "runtime \<Rightarrow> unit io" where
  "assertSchemaAdminMigrationsReadAccess A = withClient A checkSchemaMigrationsReadAccess"

definition readSessionRole :: "runtime \<Rightarrow> string io" where
  "readSessionRole R =
     bindM (poolQuery R False ''SELECT current_user AS role'' []) (\<lambda>result.
       liftR (case row0 result of
                None \<Rightarrow> Inl (roleError ''Could not determine database session role'')
              | Some r \<Rightarrow>
                  (case propOf r ''role'' of
                     VStr s \<Rightarrow> if s = [] then Inl (roleError ''Could not determine database session role'') else Inr s
                   | _ \<Rightarrow> Inl noShape)))"

definition assertSchemaAdminLaneDistinctness :: "runtime \<Rightarrow> runtime \<Rightarrow> unit io" where
  "assertSchemaAdminLaneDistinctness R A =
     withClient R (\<lambda>runtimeQuery. withClient A (\<lambda>adminQuery.
       assertSchemaAdminSessionDistinct runtimeQuery adminQuery))"

definition assertExposedTableSafety :: "runtime \<Rightarrow> target list \<Rightarrow> unit io" where
  "assertExposedTableSafety R tables =
     (if tables = [] then returnM ()
      else withClient R (\<lambda>query.
        bindM (checkTableOwnershipAndRls query tables) (\<lambda>_.
        bindM (checkRuntimeTablePrivileges query tables) (\<lambda>_.
          checkApplicablePolicies query tables))))"

subsection \<open>Starting\<close>

record startup_env =
  su_runtime :: runtime \<comment> \<open>behind the runtime pool\<close>
  su_admin :: runtime \<comment> \<open>behind the schema-admin pool\<close>
  su_serve :: "registry \<Rightarrow> bool \<Rightarrow> unit io" \<comment> \<open>building the server, with or without the admin tree, and listening\<close>

record StartedServer =
  ss_registry :: registry
  ss_roles :: "(string \<times> string) option" \<comment> \<open>the admin and the runtime role of a composed admin lane\<close>

definition exposedTarget :: "ExposureRegistryEntry \<Rightarrow> target" where
  "exposedTarget e = (ex_schema e, ex_table e)"

text \<open>The durable registry, after the one-time import if it never ran; the first build's objects are dropped.\<close>

definition initialExposure :: "runtime \<Rightarrow> ExposedTableMapping list \<Rightarrow> ExposureRegistryState io" where
  "initialExposure R tables =
     (let query = poolQuery R False in
      bindM (readExposureRegistryState R query) (\<lambda>exposureState.
        if xs_initialized exposureState then returnM exposureState
        else bindM (buildTableRegistry R query Map.empty 0 tables) (\<lambda>_.
               importInitialExposure R query tables)))"

definition adminChecks :: "runtime \<Rightarrow> runtime \<Rightarrow> unit io" where
  "adminChecks R A =
     bindM (assertSchemaAdminRoleSafety A) (\<lambda>_.
     bindM (assertSchemaAdminHistoryWriteAccess A) (\<lambda>_.
     bindM (assertSchemaAdminExposureAccess A) (\<lambda>_.
     bindM (assertSchemaAdminMigrationsReadAccess A) (\<lambda>_.
       assertSchemaAdminLaneDistinctness R A))))"

text \<open>The digest of the operator token is decoded only for a composed admin lane.\<close>

definition adminTokenOk :: "AppConfig \<Rightarrow> thrown + unit" where
  "adminTokenOk config =
     (case (cfg_schemaDatabaseUrl config, cfg_adminTokenSha256 config) of
        (Some url, Some digest) \<Rightarrow>
          if decodeAdminTokenDigest digest = None then
            Inl (configError ''MICROJBASE_ADMIN_TOKEN_SHA256''
              ''MICROJBASE_ADMIN_TOKEN_SHA256 must be a 64-character lowercase SHA-256 hex digest'')
          else Inr ()
      | _ \<Rightarrow> Inr ())"

definition whenAdmin :: "AppConfig \<Rightarrow> unit io \<Rightarrow> unit io" where
  "whenAdmin config m = (if cfg_schemaDatabaseUrl config = None then returnM () else m)"

definition adminRoles :: "startup_env \<Rightarrow> AppConfig \<Rightarrow> (string \<times> string) option io" where
  "adminRoles E config =
     (if cfg_schemaDatabaseUrl config = None then returnM None
      else bindM (readSessionRole (su_admin E)) (\<lambda>adminRole.
           bindM (readSessionRole (su_runtime E)) (\<lambda>runtimeRole. returnM (Some (adminRole, runtimeRole)))))"

definition startBody :: "startup_env \<Rightarrow> AppConfig \<Rightarrow> StartedServer io" where
  "startBody E config =
     (let R = su_runtime E; A = su_admin E in
      bindM (assertRuntimeRoleSafety R) (\<lambda>_.
      bindM (initialExposure R (cfg_tables config)) (\<lambda>exposureState.
      bindM (assertExposedTableSafety R (map exposedTarget (xs_exposed exposureState))) (\<lambda>_.
      bindM (whenAdmin config (adminChecks R A)) (\<lambda>_.
      bindM (buildTableRegistry R (poolQuery R False) Map.empty 0 (map exposedMapping (xs_exposed exposureState))) (\<lambda>(registry, wm).
      bindM (adminRoles E config) (\<lambda>roles.
      bindM (liftR (adminTokenOk config)) (\<lambda>_.
      bindM (su_serve E registry (roles \<noteq> None \<and> cfg_adminTokenSha256 config \<noteq> None)) (\<lambda>_.
        returnM \<lparr>ss_registry = registry, ss_roles = roles\<rparr>)))))))))"

definition closeQuietly :: "runtime \<Rightarrow> unit io" where
  "closeQuietly R = catchM (snd (poolClose R False)) (\<lambda>_. returnM ())"

definition start :: "startup_env \<Rightarrow> thrown + AppConfig \<Rightarrow> StartedServer io" where
  "start E parsed =
     bindM (liftR parsed) (\<lambda>config.
       catchM (startBody E config) (\<lambda>error.
         bindM (closeQuietly (su_runtime E)) (\<lambda>_.
         bindM (whenAdmin config (closeQuietly (su_admin E))) (\<lambda>_.
           throwM error))))"

subsection \<open>What a run has performed\<close>

text \<open>
  \<open>performed m Q w w'\<close>: between the histories \<open>w\<close> and \<open>w'\<close> the call \<open>m\<close> was made and returned something in \<open>Q\<close>.
  \<open>ensures m C\<close>: whenever \<open>m\<close> returns, it only extended the history and \<open>C\<close> holds of the stretch it ran.
\<close>

type_synonym stretch = "event list \<Rightarrow> event list \<Rightarrow> bool"

definition performed :: "'a io \<Rightarrow> ('a \<Rightarrow> bool) \<Rightarrow> stretch" where
  "performed m Q w w' \<longleftrightarrow> (\<exists>x. asked m x w w' \<and> Q x)"

definition ensures :: "'a io \<Rightarrow> stretch \<Rightarrow> bool" where
  "ensures m C \<longleftrightarrow> (\<forall>w x w'. m w = (Inr x, w') \<longrightarrow> prefix w w' \<and> C w w')"

definition sticky :: "stretch \<Rightarrow> bool" where
  "sticky C \<longleftrightarrow> (\<forall>w v v' w'. prefix w v \<longrightarrow> C v v' \<longrightarrow> prefix v' w' \<longrightarrow> C w w')"

abbreviation extends :: "'a io \<Rightarrow> bool" where
  "extends m \<equiv> emitsOnly (\<lambda>e. True) m"

named_theorems sticky_intros

lemma sticky_performed [sticky_intros]: "sticky (performed m Q)"
  unfolding sticky_def performed_def by (meson asked_wider)

lemma sticky_conj [sticky_intros]: "sticky C \<Longrightarrow> sticky D \<Longrightarrow> sticky (\<lambda>w w'. C w w' \<and> D w w')"
  unfolding sticky_def by meson

lemma sticky_all [sticky_intros]: "(\<And>x. sticky (C x)) \<Longrightarrow> sticky (\<lambda>w w'. \<forall>x\<in>X. C x w w')"
  unfolding sticky_def by meson

lemma extendsD: "extends m \<Longrightarrow> m w = (r, w') \<Longrightarrow> prefix w w'"
  by (rule growsD [OF grows_emits])

lemma ensures_query:
  assumes "extends m"
  shows "ensures (bindM m (\<lambda>x. liftR (f x))) (performed m (\<lambda>x. \<exists>y. f x = Inr y))"
  unfolding ensures_def performed_def
proof (intro allI impI)
  fix w y w' assume "bindM m (\<lambda>x. liftR (f x)) w = (Inr y, w')"
  then obtain x where "m w = (Inr x, w')" "f x = Inr y" by (auto simp: bindM_Inr_iff liftR_Inr_iff)
  then show "prefix w w' \<and> (\<exists>x. asked m x w w' \<and> (\<exists>y. f x = Inr y))"
    using asked_here [of m w x w'] extendsD [OF assms, of w "Inr x" w'] by blast
qed

lemma ensures_first:
  assumes "ensures m C" and "\<And>x. extends (f x)" and "sticky C"
  shows "ensures (bindM m f) C"
  unfolding ensures_def
proof (intro allI impI)
  fix w y w' assume "bindM m f w = (Inr y, w')"
  then obtain x v where v: "m w = (Inr x, v)" "f x v = (Inr y, w')" by (auto simp: bindM_Inr_iff)
  with assms(1) extendsD [OF assms(2) v(2)] have "prefix w v" "C w v" "prefix v w'" unfolding ensures_def by blast+
  with assms(3) show "prefix w w' \<and> C w w'" unfolding sticky_def by (meson prefix_order.refl prefix_order.trans)
qed

lemma ensures_later:
  assumes "extends m" and "\<And>x. ensures (f x) C" and "sticky C"
  shows "ensures (bindM m f) C"
  unfolding ensures_def
proof (intro allI impI)
  fix w y w' assume "bindM m f w = (Inr y, w')"
  then obtain x v where v: "m w = (Inr x, v)" "f x v = (Inr y, w')" by (auto simp: bindM_Inr_iff)
  with extendsD [OF assms(1) v(1)] assms(2) have "prefix w v" "C v w'" "prefix v w'" unfolding ensures_def by blast+
  with assms(3) show "prefix w w' \<and> C w w'" unfolding sticky_def by (meson prefix_order.refl prefix_order.trans)
qed

lemma ensures_finally:
  assumes "ensures m C" and "extends f" and "sticky C"
  shows "ensures (finallyM m f) C"
  unfolding ensures_def
proof (intro allI impI)
  fix w y w' assume "finallyM m f w = (Inr y, w')"
  then obtain v u where v: "m w = (Inr y, v)" "f v = (Inr u, w')"
    by (auto simp: finallyM_def split: prod.splits sum.splits)
  with assms(1) extendsD [OF assms(2) v(2)] have "prefix w v" "C w v" "prefix v w'" unfolding ensures_def by blast+
  with assms(3) show "prefix w w' \<and> C w w'" unfolding sticky_def by (meson prefix_order.refl prefix_order.trans)
qed

lemma ensures_conj: "ensures m C \<Longrightarrow> ensures m D \<Longrightarrow> ensures m (\<lambda>w w'. C w w' \<and> D w w')"
  unfolding ensures_def by blast

lemma ensures_weaken: "ensures m C \<Longrightarrow> (\<And>w w'. C w w' \<Longrightarrow> C' w w') \<Longrightarrow> ensures m C'"
  unfolding ensures_def by blast

lemma performed_weaken: "performed m Q w w' \<Longrightarrow> (\<And>x. Q x \<Longrightarrow> Q' x) \<Longrightarrow> performed m Q' w w'"
  unfolding performed_def by blast

lemma ensures_check:
  "extends m \<Longrightarrow> (\<And>x y. f x = Inr y \<Longrightarrow> Q x) \<Longrightarrow> ensures (bindM m (\<lambda>x. liftR (f x))) (performed m Q)"
  by (erule ensures_weaken [OF ensures_query]) (auto elim: performed_weaken)

lemma extends_release: "extends (releaseClient b)"
  by (simp add: emitsOnly_def outcome_def releaseClient_def)

lemma extends_connect: "extends (poolConnect R c)"
  unfolding poolConnect_def guardNotClosed_def by (auto intro!: io_intros)

lemma extends_pool: "extends (poolQuery R c sql vs)"
  unfolding poolQuery_def guardNotClosed_def by (auto intro!: io_intros)

lemma extends_client: "extends (clientQuery R sql vs)"
  by (auto intro!: io_intros)

lemmas extends_intros = io_intros extends_release extends_connect extends_client emits_finally

lemma extends_withClient: "extends (check (clientQuery R)) \<Longrightarrow> extends (withClient R check)"
  unfolding withClient_def by (intro extends_intros)

lemma ensures_withClient:
  "ensures (check (clientQuery R)) C \<Longrightarrow> sticky C \<Longrightarrow> ensures (withClient R check) C"
  unfolding withClient_def
  by (intro ensures_later ensures_finally ensures_first extends_connect extends_release io_intros)

subsection \<open>What each check establishes\<close>

definition granted :: "qresult \<Rightarrow> bool" where
  "granted res \<longleftrightarrow> (\<exists>r. row0 res = Some r \<and> truthy (propOf r ''has''))"

definition safeRuntimeRole :: "qresult \<Rightarrow> bool" where
  "safeRuntimeRole res \<longleftrightarrow>
     (\<exists>r. row0 res = Some r \<and> \<not> truthy (propOf r ''rolsuper'') \<and> \<not> truthy (propOf r ''rolbypassrls''))"

definition forcedRls :: "qresult \<Rightarrow> bool" where
  "forcedRls res \<longleftrightarrow>
     (\<exists>r. row0 res = Some r \<and> truthy (propOf r ''relrowsecurity'') \<and> truthy (propOf r ''relforcerowsecurity''))"

definition somePolicyApplies :: "qresult \<Rightarrow> bool" where
  "somePolicyApplies res \<longleftrightarrow> (\<exists>r\<in>set (qr_rows res). truthy (propOf r ''applicable_to_current_user''))"

definition safeAdminRole :: "qresult \<Rightarrow> bool" where
  "safeAdminRole res \<longleftrightarrow>
     (\<exists>r. row0 res = Some r \<and>
        (\<forall>a\<in>{''rolsuper'', ''rolbypassrls'', ''rolcreaterole'', ''rolcreatedb''}. \<not> truthy (propOf r a)) \<and>
        (\<forall>m\<in>set FORBIDDEN_ROLE_MEMBERSHIPS. propOf r (''member_'' @ m) \<noteq> VBool True))"

definition runtimeRoleChecked :: "queryOp \<Rightarrow> stretch" where
  "runtimeRoleChecked query w w' \<longleftrightarrow>
     performed (query RUNTIME_ROLE_SQL []) safeRuntimeRole w w' \<and>
     (\<forall>p\<in>set REQUIRED_PRIVILEGES. performed (privilegeQuery query p) granted w w')"

definition tableChecked :: "queryOp \<Rightarrow> target \<Rightarrow> stretch" where
  "tableChecked query t w w' \<longleftrightarrow>
     performed (query OWNERSHIP_SQL [VStr (fst t), VStr (snd t)]) forcedRls w w' \<and>
     performed (query TABLE_POLICIES_SQL [VStr (fst t), VStr (snd t)]) somePolicyApplies w w'"

definition sessionsDiffer :: "queryOp \<Rightarrow> queryOp \<Rightarrow> stretch" where
  "sessionsDiffer runtimeQuery adminQuery w w' \<longleftrightarrow>
     (\<exists>a b x y. asked (runtimeQuery IDENTITY_SQL []) a w w' \<and> asked (adminQuery IDENTITY_SQL []) b w w' \<and>
        row0 a = Some x \<and> row0 b = Some y \<and> \<not> sameIdentity x y)"

definition adminChecked :: "runtime \<Rightarrow> runtime \<Rightarrow> stretch" where
  "adminChecked R A w w' \<longleftrightarrow>
     performed (clientQuery A ADMIN_ROLE_SQL []) safeAdminRole w w' \<and> sessionsDiffer (clientQuery R) (clientQuery A) w w'"

lemma requireHas_Inr: "requireHas e res = Inr u \<Longrightarrow> granted res"
  by (auto simp: requireHas_def granted_def split: option.splits if_splits)

lemma runtimeRoleRow_Inr: "runtimeRoleRow res = Inr s \<Longrightarrow> safeRuntimeRole res"
  by (auto simp: runtimeRoleRow_def safeRuntimeRole_def split: option.splits if_splits)

lemma ownershipRow_Inr: "ownershipRow t res = Inr s \<Longrightarrow> forcedRls res"
  by (auto simp: ownershipRow_def forcedRls_def split: option.splits if_splits)

lemma policyRows_Inr: "policyRows t res = Inr s \<Longrightarrow> somePolicyApplies res"
  by (auto simp: policyRows_def somePolicyApplies_def list_ex_iff split: if_splits)

lemma adminRoleRow_Inr: "adminRoleRow res = Inr s \<Longrightarrow> safeAdminRole res"
  by (auto simp: adminRoleRow_def safeAdminRole_def adminAttributes_def filter_empty_conv Let_def split: option.splits if_splits)

lemma distinctIdentities_Inr:
  "distinctIdentities a b = Inr u \<Longrightarrow> \<exists>x y. row0 a = Some x \<and> row0 b = Some y \<and> \<not> sameIdentity x y"
  by (auto simp: distinctIdentities_def split: option.splits if_splits)

lemma sticky_checks [sticky_intros]:
  "sticky (runtimeRoleChecked q)" "sticky (tableChecked q t)" "sticky (sessionsDiffer q q')" "sticky (adminChecked R A)"
proof -
  show "sticky (runtimeRoleChecked q)" unfolding runtimeRoleChecked_def by (intro sticky_intros)
  show "sticky (tableChecked q t)" unfolding tableChecked_def by (intro sticky_intros)
  show 1: "sticky (sessionsDiffer q q')" for q q' unfolding sticky_def sessionsDiffer_def by (meson asked_wider)
  show "sticky (adminChecked R A)" unfolding adminChecked_def by (intro sticky_intros 1)
qed

lemma extends_privilege:
  assumes "\<And>sql vs. extends (query sql vs)"
  shows "extends (privilegeQuery query p)" "extends (assertRequiredPrivilege query p)"
    "extends (assertRequiredPrivileges query ps)"
proof -
  show 1: "extends (privilegeQuery query p)" for p
    by (auto simp: privilegeQuery_def assms split: option.split)
  show 2: "extends (assertRequiredPrivilege query p)" for p
    unfolding assertRequiredPrivilege_def by (intro io_intros 1)
  show "extends (assertRequiredPrivileges query ps)"
    by (induction ps) (auto intro!: io_intros 2)
qed

lemma extends_forTables: "(\<And>t. extends (f t)) \<Longrightarrow> extends (forTables f ts)"
  by (induction ts) (auto intro!: io_intros)

lemma ensures_privileges:
  assumes "\<And>sql vs. extends (query sql vs)"
  shows "ensures (assertRequiredPrivileges query ps) (\<lambda>w w'. \<forall>p\<in>set ps. performed (privilegeQuery query p) granted w w')"
proof (induction ps)
  case (Cons p ps)
  have "ensures (assertRequiredPrivilege query p) (performed (privilegeQuery query p) granted)"
    unfolding assertRequiredPrivilege_def by (intro ensures_check extends_privilege assms) (auto intro: requireHas_Inr)
  then have "ensures (assertRequiredPrivileges query (p # ps)) (performed (privilegeQuery query p) granted)"
    unfolding assertRequiredPrivileges.simps by (intro ensures_first extends_privilege assms sticky_intros)
  moreover have "ensures (assertRequiredPrivileges query (p # ps)) (\<lambda>w w'. \<forall>p\<in>set ps. performed (privilegeQuery query p) granted w w')"
    unfolding assertRequiredPrivileges.simps by (intro ensures_later extends_privilege assms Cons sticky_intros)
  ultimately show ?case by (auto dest: ensures_conj)
qed (simp add: ensures_def returnM_def)

lemma ensures_forTables:
  assumes "\<And>t. extends (f t)" and "\<And>t. ensures (f t) (C t)" and "\<And>t. sticky (C t)"
  shows "ensures (forTables f ts) (\<lambda>w w'. \<forall>t\<in>set ts. C t w w')"
proof (induction ts)
  case (Cons t ts)
  have "ensures (forTables f (t # ts)) (C t)"
    unfolding forTables.simps by (rule ensures_first) (auto intro!: assms io_intros extends_forTables)
  moreover have "ensures (forTables f (t # ts)) (\<lambda>w w'. \<forall>t\<in>set ts. C t w w')"
    unfolding forTables.simps
    by (intro ensures_later ensures_first Cons assms sticky_intros io_intros)
  ultimately show ?case by (auto dest: ensures_conj)
qed (simp add: ensures_def returnM_def)

lemma ensures_runtimeRole: "ensures (assertRuntimeRoleSafety R) (runtimeRoleChecked (clientQuery R))"
proof -
  let ?q = "clientQuery R"
  have "ensures (checkRuntimeRoleSafety ?q) (performed (?q RUNTIME_ROLE_SQL []) safeRuntimeRole)"
    unfolding checkRuntimeRoleSafety_def bindM_assoc [symmetric, where m = "?q _ _"]
    by (intro ensures_first ensures_check extends_client sticky_intros io_intros extends_privilege) (auto intro: runtimeRoleRow_Inr)
  moreover have "ensures (checkRuntimeRoleSafety ?q) (\<lambda>w w'. \<forall>p\<in>set REQUIRED_PRIVILEGES. performed (privilegeQuery ?q p) granted w w')"
    unfolding checkRuntimeRoleSafety_def
    by (intro ensures_later ensures_first ensures_privileges extends_client sticky_intros io_intros)
  ultimately show ?thesis
    unfolding assertRuntimeRoleSafety_def
    by (intro ensures_withClient sticky_intros) (auto simp: runtimeRoleChecked_def [abs_def] dest: ensures_conj)
qed

lemma ensures_tables:
  "ensures (assertExposedTableSafety R ts) (\<lambda>w w'. \<forall>t\<in>set ts. tableChecked (clientQuery R) t w w')"
proof (cases "ts = []")
  case True
  then show ?thesis by (simp add: assertExposedTableSafety_def ensures_def returnM_def)
next
  case False
  let ?q = "clientQuery R"
  let ?own = "\<lambda>t. performed (?q OWNERSHIP_SQL [VStr (fst t), VStr (snd t)]) forcedRls"
  let ?pol = "\<lambda>t. performed (?q TABLE_POLICIES_SQL [VStr (fst t), VStr (snd t)]) somePolicyApplies"
  have grow: "extends (checkTableOwnershipAndRls ?q ts)" "extends (checkRuntimeTablePrivileges ?q ts)"
    unfolding checkTableOwnershipAndRls_def checkRuntimeTablePrivileges_def
    by (intro extends_forTables io_intros extends_client, simp)+
  have grow3: "extends (checkApplicablePolicies ?q ts)"
    unfolding checkApplicablePolicies_def by (intro extends_forTables io_intros extends_client) simp
  have own: "ensures (checkTableOwnershipAndRls ?q ts) (\<lambda>w w'. \<forall>t\<in>set ts. ?own t w w')"
    unfolding checkTableOwnershipAndRls_def
    by (intro ensures_forTables ensures_check sticky_intros extends_client io_intros) (auto intro: ownershipRow_Inr)
  have pol: "ensures (checkApplicablePolicies ?q ts) (\<lambda>w w'. \<forall>t\<in>set ts. ?pol t w w')"
    unfolding checkApplicablePolicies_def
    by (intro ensures_first [OF ensures_forTables] ensures_check sticky_intros extends_client io_intros) (auto intro: policyRows_Inr)
  let ?check = "bindM (checkTableOwnershipAndRls ?q ts) (\<lambda>_. bindM (checkRuntimeTablePrivileges ?q ts) (\<lambda>_.
      checkApplicablePolicies ?q ts))"
  have "ensures ?check (\<lambda>w w'. \<forall>t\<in>set ts. ?own t w w')"
    by (intro ensures_first own grow grow3 io_intros sticky_intros)
  moreover have "ensures ?check (\<lambda>w w'. \<forall>t\<in>set ts. ?pol t w w')"
    by (intro ensures_later pol grow sticky_intros)
  ultimately have "ensures ?check (\<lambda>w w'. \<forall>t\<in>set ts. tableChecked ?q t w w')"
    unfolding tableChecked_def by (rule ensures_conj [THEN ensures_weaken]) blast
  with False show ?thesis unfolding assertExposedTableSafety_def
    by (simp only: if_False) (intro ensures_withClient sticky_intros)
qed

lemma ensures_sessions:
  assumes "\<And>sql vs. extends (rq sql vs)" and "\<And>sql vs. extends (aq sql vs)"
  shows "ensures (assertSchemaAdminSessionDistinct rq aq) (sessionsDiffer rq aq)"
  unfolding ensures_def
proof (intro allI impI)
  fix w x w' assume "assertSchemaAdminSessionDistinct rq aq w = (Inr x, w')"
  then obtain a v b where run: "rq IDENTITY_SQL [] w = (Inr a, v)" "aq IDENTITY_SQL [] v = (Inr b, w')"
    and d: "distinctIdentities a b = Inr x"
    unfolding assertSchemaAdminSessionDistinct_def bindM_Inr_iff liftR_Inr_iff by blast
  have p: "prefix w v" "prefix v w'" by (rule extendsD [OF assms(1) run(1)] extendsD [OF assms(2) run(2)])+
  then have "asked (rq IDENTITY_SQL []) a w w'" "asked (aq IDENTITY_SQL []) b w w'"
    unfolding asked_def using run by (blast intro: prefix_order.refl)+
  with distinctIdentities_Inr [OF d] p show "prefix w w' \<and> sessionsDiffer rq aq w w'"
    unfolding sessionsDiffer_def by (meson prefix_order.trans)
qed

lemma extends_probes:
  assumes "\<And>sql vs. extends (query sql vs)" and "\<And>sql vs. extends (query' sql vs)"
  shows "extends (checkSchemaOperationLogWriteAccess query)" "extends (checkExposureRegistryWriteAccess query ps)"
    "extends (checkSchemaMigrationsReadAccess query)" "extends (checkSchemaAdminRoleSafety query)"
    "extends (assertSchemaAdminSessionDistinct query query')"
proof -
  have 1: "extends (checkPrivilege query p)" for p
    by (cases p) (auto simp: checkPrivilege_def intro!: io_intros assms split: option.split)
  have "extends (checkPrivileges query ps)" for ps by (induction ps) (auto intro!: io_intros 1)
  then show "extends (checkSchemaOperationLogWriteAccess query)" by (simp add: checkSchemaOperationLogWriteAccess_def)
  have "extends (checkRegistryPrivilege query p)" for p
    by (cases p) (auto simp: checkRegistryPrivilege_def intro!: io_intros assms split: option.split)
  then show "extends (checkExposureRegistryWriteAccess query ps)" by (induction ps) (auto intro!: io_intros)
  show "extends (checkSchemaMigrationsReadAccess query)" by (simp add: checkSchemaMigrationsReadAccess_def 1)
  show "extends (checkSchemaAdminRoleSafety query)" unfolding checkSchemaAdminRoleSafety_def by (intro io_intros assms)
  show "extends (assertSchemaAdminSessionDistinct query query')"
    unfolding assertSchemaAdminSessionDistinct_def by (intro io_intros assms)
qed

lemmas extends_admin = extends_probes [OF extends_client extends_client]

lemma ensures_admin: "ensures (adminChecks R A) (adminChecked R A)"
proof -
  have grow: "extends (assertSchemaAdminRoleSafety A)" "extends (assertSchemaAdminHistoryWriteAccess A)"
    "extends (assertSchemaAdminExposureAccess A)" "extends (assertSchemaAdminMigrationsReadAccess A)"
    "extends (assertSchemaAdminLaneDistinctness R A)"
    unfolding assertSchemaAdminRoleSafety_def assertSchemaAdminHistoryWriteAccess_def assertSchemaAdminExposureAccess_def
      assertSchemaAdminMigrationsReadAccess_def assertSchemaAdminLaneDistinctness_def
    by (intro extends_withClient extends_admin)+
  have role: "ensures (assertSchemaAdminRoleSafety A) (performed (clientQuery A ADMIN_ROLE_SQL []) safeAdminRole)"
    unfolding assertSchemaAdminRoleSafety_def checkSchemaAdminRoleSafety_def
    by (intro ensures_withClient ensures_check sticky_intros extends_client) (auto intro: adminRoleRow_Inr)
  have sessions: "ensures (assertSchemaAdminLaneDistinctness R A) (sessionsDiffer (clientQuery R) (clientQuery A))"
    unfolding assertSchemaAdminLaneDistinctness_def
    by (intro ensures_withClient ensures_sessions sticky_intros extends_client)
  have "ensures (adminChecks R A) (performed (clientQuery A ADMIN_ROLE_SQL []) safeAdminRole)"
    unfolding adminChecks_def by (intro ensures_first role grow io_intros sticky_intros)
  moreover have "ensures (adminChecks R A) (sessionsDiffer (clientQuery R) (clientQuery A))"
    unfolding adminChecks_def by (intro ensures_later sessions grow sticky_intros)
  ultimately show ?thesis unfolding adminChecked_def by (rule ensures_conj [THEN ensures_weaken]) simp
qed

subsection \<open>A start that returns is safe, one that fails ends the pools\<close>

lemma extends_import:
  assumes "\<And>sql vs. extends (query sql vs)"
  shows "extends (importInitialExposure R query ms)"
  unfolding importInitialExposure_def queryTranslated_def Let_def
  by (auto intro!: io_intros emits_rebuild assms split: option.split)

lemma extends_initial: "extends (initialExposure R ms)"
  unfolding initialExposure_def Let_def
  by (auto intro!: io_intros emits_rebuild extends_import extends_pool)

lemma served_is_exposed:
  assumes "buildTableRegistry R query wm ref (map exposedMapping es) w = (Inr (reg, wm'), w')"
    and "registryGet reg al = Some t"
  shows "(et_schema t, et_table t) \<in> set (map exposedTarget es)"
proof -
  from buildTableRegistry_admitted [OF assms] obtain e v ct where e: "e \<in> set es"
    "exposeTable (et_ref t) (exposedMapping e) v = Inr (t, ct)" by (auto simp: admitted_def)
  from exposeTable_Inr [OF e(2)] have "et_schema t = ex_schema e" "et_table t = ex_table e"
    by (simp_all add: exposedMapping_def)
  with e(1) show ?thesis by (auto simp: exposedTarget_def)
qed


text \<open>A start that fails after the configuration was accepted has ended the runtime pool and, where one was
  created, the schema-admin pool, in this order and last of all, and fails with the error that stopped it.\<close>
theorem failed_start_ends_pools:
  assumes "start E (Inr config) w = (Inl e, w')"
  shows "\<exists>v. startBody E config w = (Inl e, v) \<and>
    w' = v @ EvEnd # (if cfg_schemaDatabaseUrl config = None then [] else [EvEnd])"
proof -
  have quiet: "closeQuietly R v = (Inr (), v @ [EvEnd])" for R v
    by (simp add: closeQuietly_def poolClose_def io_simps split: sum.split)
  obtain r v where body: "startBody E config w = (r, v)" by (cases "startBody E config w")
  with assms show ?thesis
    by (cases r) (auto simp: start_def whenAdmin_def io_simps quiet split: if_splits)
qed

text \<open>A server behind which every check passes: one row with every flag the checks ask for, no exposed table.\<close>

definition gives :: "'a io \<Rightarrow> ('a \<Rightarrow> bool) \<Rightarrow> bool" where
  "gives m P \<longleftrightarrow> (\<forall>w. \<exists>x v. m w = (Inr x, v) \<and> P x)"

lemma gives_bind: "gives m P \<Longrightarrow> (\<And>x. P x \<Longrightarrow> gives (f x) Q) \<Longrightarrow> gives (bindM m f) Q"
proof -
  assume m: "gives m P" and f: "\<And>x. P x \<Longrightarrow> gives (f x) Q"
  have "\<exists>y u. bindM m f w = (Inr y, u) \<and> Q y" for w
  proof -
    obtain x v where 1: "m w = (Inr x, v)" "P x" using m unfolding gives_def by blast
    obtain y u where "f x v = (Inr y, u)" "Q y" using f [OF 1(2)] unfolding gives_def by blast
    with 1 show ?thesis by (simp add: bindM_def)
  qed
  then show ?thesis by (simp add: gives_def)
qed

lemma gives_lift: "r = Inr x \<Longrightarrow> P x \<Longrightarrow> gives (liftR r) P"
  by (simp add: gives_def liftR_def)

lemma gives_return: "P x \<Longrightarrow> gives (returnM x) P"
  by (simp add: gives_def returnM_def)

lemma gives_finally: "gives m P \<Longrightarrow> gives f Q \<Longrightarrow> gives (finallyM m f) P"
proof -
  assume m: "gives m P" and f: "gives f Q"
  have "\<exists>x v. finallyM m f w = (Inr x, v) \<and> P x" for w
  proof -
    obtain x v where 1: "m w = (Inr x, v)" "P x" using m unfolding gives_def by blast
    obtain y u where "f v = (Inr y, u)" using f unfolding gives_def by blast
    with 1 show ?thesis by (simp add: finallyM_def)
  qed
  then show ?thesis by (simp add: gives_def)
qed

definition oneRow :: "string \<Rightarrow> qresult" where
  "oneRow u = \<lparr>qr_rows = [[(''has'', VBool True), (''user'', VStr u), (''role'', VStr u), (''rolname'', VStr u),
     (''initialized'', VBool True), (''imported_at'', VNull)]], qr_count = None\<rparr>"

definition goodServer :: "string \<Rightarrow> runtime" where
  "goodServer u = okRuntime\<lparr>db := \<lambda>w. Inr (if last w = EvPool EXPOSED_SQL [] then emptyResult else oneRow u)\<rparr>"

definition goodStart :: startup_env where
  "goodStart = \<lparr>su_runtime = goodServer ''app_user'', su_admin = goodServer ''app_admin'', su_serve = (\<lambda>reg admin. returnM ())\<rparr>"

definition goodConfig :: AppConfig where
  "goodConfig = \<lparr>cfg_databaseUrl = ''postgres://app'', cfg_migrationDatabaseUrl = None,
     cfg_schemaDatabaseUrl = Some ''postgres://admin'', cfg_adminTokenSha256 = None, cfg_host = ''127.0.0.1'',
     cfg_port = 3000, cfg_logLevel = Info, cfg_sessionTtlSeconds = 3600, cfg_tables = [], cfg_trustProxy = False,
     cfg_maxBodyBytes = 1048576\<rparr>"

lemma gives_client: "gives (clientQuery (goodServer u) sql vs) (\<lambda>r. r = oneRow u)"
  by (simp add: gives_def goodServer_def io_simps okRuntime_def)

lemma gives_checks:
  fixes query :: queryOp
  assumes q: "\<And>sql vs. gives (query sql vs) (\<lambda>r. r = oneRow u)"
  shows "gives (checkRuntimeRoleSafety query) (\<lambda>_. True)" "gives (checkSchemaAdminRoleSafety query) (\<lambda>_. True)"
    "gives (checkSchemaOperationLogWriteAccess query) (\<lambda>_. True)" "gives (checkSchemaMigrationsReadAccess query) (\<lambda>_. True)"
    "gives (checkExposureRegistryWriteAccess query ps) (\<lambda>_. True)"
proof -
  have has: "requireHas e (oneRow u) = Inr ()" for e by (simp add: requireHas_def oneRow_def propOf_def)
  have 1: "gives (assertRequiredPrivileges query ps) (\<lambda>_. True)" for ps
    by (induction ps) (auto simp: assertRequiredPrivilege_def privilegeQuery_def has split: option.split
        intro!: gives_return gives_bind [OF gives_bind [OF q]] gives_lift)
  have role: "\<exists>x. runtimeRoleRow (oneRow u) = Inr x" "\<exists>x. adminRoleRow (oneRow u) = Inr x"
    by (simp_all add: runtimeRoleRow_def adminRoleRow_def adminAttributes_def oneRow_def propOf_def
        FORBIDDEN_ROLE_MEMBERSHIPS_def)
  show "gives (checkRuntimeRoleSafety query) (\<lambda>_. True)"
    unfolding checkRuntimeRoleSafety_def using role(1)
    by (auto intro!: gives_bind [OF q] gives_bind [OF gives_lift] gives_bind [OF 1] gives_return)
  show "gives (checkSchemaAdminRoleSafety query) (\<lambda>_. True)"
    unfolding checkSchemaAdminRoleSafety_def using role(2) by (auto intro!: gives_bind [OF q] gives_lift)
  have 2: "gives (checkPrivilege query p) (\<lambda>_. True)" for p
    by (cases p) (auto simp: checkPrivilege_def oneRow_def propOf_def intro!: gives_bind [OF q] gives_return)
  then show "gives (checkSchemaMigrationsReadAccess query) (\<lambda>_. True)" by (simp add: checkSchemaMigrationsReadAccess_def)
  have "gives (checkPrivileges query ps) (\<lambda>_. True)" for ps by (induction ps) (auto intro!: gives_return gives_bind [OF 2])
  then show "gives (checkSchemaOperationLogWriteAccess query) (\<lambda>_. True)" by (simp add: checkSchemaOperationLogWriteAccess_def)
  have 3: "gives (checkRegistryPrivilege query p) (\<lambda>_. True)" for p
    by (cases p) (auto simp: checkRegistryPrivilege_def oneRow_def propOf_def intro!: gives_bind [OF q] gives_return)
  show "gives (checkExposureRegistryWriteAccess query ps) (\<lambda>_. True)" by (induction ps) (auto intro!: gives_return gives_bind [OF 3])
qed

lemma gives_withClient: "gives (check (clientQuery (goodServer u))) P \<Longrightarrow> gives (withClient (goodServer u) check) (\<lambda>_. True)"
proof -
  assume c: "gives (check (clientQuery (goodServer u))) P"
  have "gives (poolConnect (goodServer u) False) (\<lambda>_. True)" "gives (releaseClient False) (\<lambda>_. True)"
    by (simp_all add: gives_def poolConnect_def guardNotClosed_def releaseClient_def io_simps goodServer_def okRuntime_def)
  then show ?thesis unfolding withClient_def
    by (intro gives_bind gives_finally [where Q = "\<lambda>_. True"] gives_bind [OF c] gives_return) simp_all
qed

lemma gives_server:
  "gives (withClient (goodServer u) checkRuntimeRoleSafety) (\<lambda>_. True)"
  "gives (withClient (goodServer u) checkSchemaAdminRoleSafety) (\<lambda>_. True)"
  "gives (withClient (goodServer u) checkSchemaOperationLogWriteAccess) (\<lambda>_. True)"
  "gives (withClient (goodServer u) checkSchemaMigrationsReadAccess) (\<lambda>_. True)"
  "gives (withClient (goodServer u) (\<lambda>query. checkExposureRegistryWriteAccess query ps)) (\<lambda>_. True)"
  by (rule gives_withClient, rule gives_checks, rule gives_client)+

lemma gives_admin: "gives (adminChecks (goodServer ''app_user'') (goodServer ''app_admin'')) (\<lambda>_. True)"
proof -
  have "distinctIdentities (oneRow ''app_user'') (oneRow ''app_admin'') = Inr ()"
    by (simp add: distinctIdentities_def sameIdentity_def oneRow_def propOf_def)
  then have s: "gives (assertSchemaAdminSessionDistinct (clientQuery (goodServer ''app_user'')) (clientQuery (goodServer ''app_admin''))) (\<lambda>_. True)"
    unfolding assertSchemaAdminSessionDistinct_def
    by (auto intro!: gives_bind [OF gives_client] gives_lift)
  have lane: "gives (assertSchemaAdminLaneDistinctness (goodServer ''app_user'') (goodServer ''app_admin'')) (\<lambda>_. True)"
    unfolding assertSchemaAdminLaneDistinctness_def by (rule gives_withClient, rule gives_withClient, rule s)
  show ?thesis
    unfolding adminChecks_def assertSchemaAdminRoleSafety_def assertSchemaAdminHistoryWriteAccess_def
      assertSchemaAdminExposureAccess_def assertSchemaAdminMigrationsReadAccess_def
    by (intro gives_bind [OF gives_server(2)]
        gives_bind [OF gives_server(3)]
        gives_bind [OF gives_server(5)] gives_bind [OF gives_server(4)]
        lane)
qed

lemma gives_start: "gives (startBody goodStart goodConfig) (\<lambda>S. ss_roles S \<noteq> None)"
proof -
  let ?R = "goodServer ''app_user''" and ?A = "goodServer ''app_admin''"
  have sql: "STATE_SQL \<noteq> EXPOSED_SQL" by code_simp
  have state: "gives (initialExposure ?R ms) (\<lambda>st. xs_exposed st = [])" for ms
    using sql by (auto simp: gives_def initialExposure_def Let_def readExposureRegistryState_def queryTranslated_def io_simps
        poolQuery_def guardNotClosed_def goodServer_def okRuntime_def oneRow_def emptyResult_def propOf_def)
  have role: "gives (readSessionRole (goodServer (c # cs))) (\<lambda>_. True)" for c cs
    by (auto simp: gives_def readSessionRole_def io_simps poolQuery_def guardNotClosed_def goodServer_def okRuntime_def
        oneRow_def propOf_def EXPOSED_SQL_def)
  have runtime: "gives (assertRuntimeRoleSafety ?R) (\<lambda>_. True)"
    unfolding assertRuntimeRoleSafety_def by (rule gives_server(1))
  have tables: "gives (assertExposedTableSafety ?R []) (\<lambda>_. True)"
    by (simp add: assertExposedTableSafety_def gives_return)
  have registry: "gives (buildTableRegistry ?R q Map.empty 0 []) (\<lambda>_. True)" for q
    by (simp add: buildTableRegistry_def gives_return)
  have roles: "gives (adminRoles goodStart goodConfig) (\<lambda>r. r \<noteq> None)"
    by (auto simp: adminRoles_def goodStart_def goodConfig_def intro!: gives_bind [OF role] gives_return)
  have admin: "gives (whenAdmin goodConfig (adminChecks ?R ?A)) (\<lambda>_. True)"
    by (simp add: whenAdmin_def goodConfig_def gives_admin)
  have env: "su_runtime goodStart = ?R" "su_admin goodStart = ?A" "su_serve goodStart reg b = returnM ()"
    "adminTokenOk goodConfig = Inr ()" for reg b
    by (simp_all add: goodStart_def adminTokenOk_def goodConfig_def)
  show ?thesis
    unfolding startBody_def Let_def env
    by (auto intro!: gives_bind [OF runtime] gives_bind [OF state] gives_bind [OF tables] gives_bind [OF admin]
        gives_bind [OF registry] gives_bind [OF roles] gives_bind [OF gives_lift [where P = "\<lambda>_. True"]] gives_return)
qed

lemma good_start: "\<exists>S v. start goodStart (Inr goodConfig) [] = (Inr S, v)"
proof -
  obtain S v where "startBody goodStart goodConfig [] = (Inr S, v)" using gives_start unfolding gives_def by blast
  then show ?thesis by (simp add: start_def io_simps)
qed


definition failingStart :: startup_env where
  "failingStart = goodStart\<lparr>su_runtime := okRuntime\<lparr>db := \<lambda>_. Inl (ErrObj ''refused'' [])\<rparr>\<rparr>"

theorem failed_start_ends_pools_witness:
  "\<exists>e. start failingStart (Inr goodConfig) [] = (Inl e, [EvConnect, EvEnd, EvEnd])"
proof -
  have "\<exists>e. assertRuntimeRoleSafety (su_runtime failingStart) [] = (Inl e, [EvConnect])"
    by (simp add: assertRuntimeRoleSafety_def withClient_def poolConnect_def guardNotClosed_def io_simps
        failingStart_def okRuntime_def)
  then have "\<exists>e. startBody failingStart goodConfig [] = (Inl e, [EvConnect])"
    unfolding startBody_def Let_def by (auto simp: bindM_def [of "assertRuntimeRoleSafety _"])
  then obtain e where b: "startBody failingStart goodConfig [] = (Inl e, [EvConnect])" by blast
  moreover from b have "\<exists>v. start failingStart (Inr goodConfig) [] = (Inl e, v)"
    by (auto simp: start_def io_simps throwM_def closeQuietly_def poolClose_def whenAdmin_def split: sum.splits)
  then obtain v where v: "start failingStart (Inr goodConfig) [] = (Inl e, v)" by blast
  from failed_start_ends_pools [OF v] b have "v = [EvConnect, EvEnd, EvEnd]" by (auto simp: goodConfig_def)
  with v show ?thesis by blast
qed

end
