(* ===== verification/AdminRoutes.thy ===== *)
theory AdminRoutes
  imports AdminGuard ExposureGuards
begin

text \<open>
  The admin tree: the probe and the reads (\<open>src/http/admin-routes.ts\<close>) and the mutating endpoints
  (\<open>src/http/admin-mutation-routes.ts\<close>).  A mutating endpoint is a record: its path, the name the gate
  counts it under, and the mapping of a request to the command it hands to a service.
\<close>

subsection \<open>Requests, services, replies\<close>

record admin_request = request +
  aq_schema :: string
  aq_table :: string
  aq_column :: string
  aq_name :: string
  aq_key :: header \<comment> \<open>\<open>Idempotency-Key\<close>\<close>

text \<open>The commands of the five command services.\<close>

datatype admin_command =
    MutationCommand mutation
  | ConstraintCommand constraint_command
  | ExposureCommand exposure_command
  | SecurityCommand security_command

record admin_services =
  as_heap :: heap
  as_query :: queryOp \<comment> \<open>\<open>deps.pool.query\<close>\<close>
  as_snapshot :: "SchemaSnapshot io"
  as_history :: "jnum option \<Rightarrow> jnum option \<Rightarrow> SchemaOperationRecord list io"
  as_run :: "admin_command \<Rightarrow> ExecuteOutcome io"

record mapped_operation =
  mo_id :: int
  mo_idempotency_key :: string
  mo_command_type :: string
  mo_command :: jsval
  mo_checksum :: string
  mo_status :: SchemaOperationStatus
  mo_actor_fingerprint :: string
  mo_error_code :: "string option"
  mo_result :: jsval
  mo_created_at :: string
  mo_finished_at :: "string option"

datatype admin_payload =
    PHealth
  | PSnapshot SchemaSnapshot
  | PTable SchemaSnapshotTable
  | POutcome bool bool "mapped_operation option"

datatype admin_reply =
    ErrorReply reply
  | SuccessReply int admin_payload
  | HistoryReply "mapped_operation list" jnum jnum

definition mapOperationRecord :: "heap \<Rightarrow> SchemaOperationRecord \<Rightarrow> thrown + mapped_operation" where
  "mapOperationRecord h record =
     bindR (callToISOString h (so_createdAt record)) (\<lambda>created.
     bindR (if truthy (so_finishedAt record)
            then bindR (callToISOString h (so_finishedAt record)) (\<lambda>s. Inr (Some s)) else Inr None) (\<lambda>finished.
       Inr \<lparr>mo_id = so_id record, mo_idempotency_key = so_key record, mo_command_type = so_commandType record,
            mo_command = so_command record, mo_checksum = so_checksum record, mo_status = so_status record,
            mo_actor_fingerprint = so_actorFingerprint record, mo_error_code = so_errorCode record,
            mo_result = so_result record, mo_created_at = created, mo_finished_at = finished\<rparr>))"

definition sendMutationOutcome :: "heap \<Rightarrow> ExecuteOutcome \<Rightarrow> thrown + admin_reply" where
  "sendMutationOutcome h result =
     bindR (case ex_record result of
              None \<Rightarrow> Inr None
            | Some record \<Rightarrow> bindR (mapOperationRecord h record) (\<lambda>m. Inr (Some m))) (\<lambda>record.
       Inr (SuccessReply 200 (POutcome (ex_dryRun result) (ex_replayed result) record)))"

subsection \<open>From bodies to commands\<close>

definition requireObjectField :: "heap \<Rightarrow> body_props \<Rightarrow> string \<Rightarrow> thrown + body_props" where
  "requireObjectField h b field =
     (case getPlainObjectBody h (propOf b field) of
        None \<Rightarrow> Inl (fieldError field ''Must be an object'')
      | Some ps \<Rightarrow> Inr ps)"

definition managedSpec :: "ColumnSpecInput \<Rightarrow> ManagedColumnSpec" where
  "managedSpec s =
     \<lparr>mc_name = ColumnSpecInput.cs_name s, mc_type = cs_type s, mc_nullable = cs_nullable s, mc_default = cs_default s\<rparr>"

text \<open>The elements of a JSON array with their indices; JSON has no holes.\<close>

definition mapColumnSpecArray :: "heap \<Rightarrow> jsval \<Rightarrow> string \<Rightarrow> thrown + ColumnSpecInput list" where
  "mapColumnSpecArray h value field =
     (case deref h value of
        Some (OArr xs) \<Rightarrow>
          if length xs < 1 \<or> length xs > 64 then Inl (fieldError field ''Must be an array of 1 to 64 column specs'')
          else mapR (\<lambda>(i, x). mapColumnSpec h (case x of Some v \<Rightarrow> v | None \<Rightarrow> VUndef)
                       (field @ ''['' @ natStr i @ '']'')) (enumerate 0 xs)
      | _ \<Rightarrow> Inl (fieldError field ''Must be an array of 1 to 64 column specs''))"

definition optionalName :: "body_props \<Rightarrow> thrown + string option" where
  "optionalName b =
     (case propOf b ''name'' of
        VUndef \<Rightarrow> Inr None
      | VStr s \<Rightarrow> if s = [] then Inl (fieldError ''name'' ''Must be a non-empty string'') else Inr (Some s)
      | _ \<Rightarrow> Inl (fieldError ''name'' ''Must be a non-empty string''))"

text \<open>
  What every endpoint does first: the body, its known fields, the members of the command base; \<open>f\<close> maps the rest.
\<close>

definition withBody ::
  "heap \<Rightarrow> admin_request \<Rightarrow> string list \<Rightarrow> (body_props \<Rightarrow> CommandBase \<Rightarrow> thrown + 'a) \<Rightarrow> thrown + 'a" where
  "withBody h req known f =
     bindR (requirePlainBody h (rq_body req)) (\<lambda>b.
     bindR (rejectUnknownFields b known) (\<lambda>_.
     bindR (commandBase (aq_key req) b) (\<lambda>base. f b base)))"

text \<open>A command on the table, or the column, of the path; and on the table the body names.\<close>

definition tableCommand :: "CommandBase \<Rightarrow> string \<Rightarrow> string \<Rightarrow> TableCommand" where
  "tableCommand base schema table =
     \<lparr>mb_key = cb_idempotencyKey base, mb_actor = cb_actor base, mb_dryRun = (cb_dryRun base = Some True),
      tc_schema = schema, tc_table = table\<rparr>"

definition pathTable :: "admin_request \<Rightarrow> CommandBase \<Rightarrow> TableCommand" where
  "pathTable req base = tableCommand base (aq_schema req) (aq_table req)"

definition pathColumn :: "admin_request \<Rightarrow> CommandBase \<Rightarrow> ColumnCommand" where
  "pathColumn req base = TableCommand.extend (pathTable req base) (ColumnCommand.fields (aq_column req))"

definition bodyTable :: "body_props \<Rightarrow> CommandBase \<Rightarrow> thrown + TableCommand" where
  "bodyTable b base =
     bindR (requireStringField b ''schema'') (\<lambda>schema.
     bindR (requireStringField b ''table'') (\<lambda>table. Inr (tableCommand base schema table)))"

type_synonym parser = "heap \<Rightarrow> admin_request \<Rightarrow> thrown + admin_command"

text \<open>Tables.\<close>

definition tablesCreate :: parser where
  "tablesCreate h req =
     withBody h req [''schema'', ''table'', ''columns'', ''dry_run''] (\<lambda>b base.
       bindR (bodyTable b base) (\<lambda>t.
       bindR (mapColumnSpecArray h (propOf b ''columns'') ''columns'') (\<lambda>columns.
         Inr (MutationCommand (CreateTable
           (TableCommand.extend t (CreateTableCommand.fields (map managedSpec columns))))))))"

definition tablesRename :: parser where
  "tablesRename h req =
     withBody h req [''new_name'', ''dry_run''] (\<lambda>b base.
       bindR (requireStringField b ''new_name'') (\<lambda>newName.
         Inr (MutationCommand (RenameTable (TableCommand.extend (pathTable req base) (RenameTableCommand.fields newName))))))"

definition tablesDrop :: parser where
  "tablesDrop h req =
     withBody h req [''confirm'', ''dry_run''] (\<lambda>b base.
       bindR (requireStringField b ''confirm'') (\<lambda>confirm.
         Inr (MutationCommand (DropTable (TableCommand.extend (pathTable req base) (DropTableCommand.fields confirm))))))"

text \<open>Columns.\<close>

definition columnsAdd :: parser where
  "columnsAdd h req =
     withBody h req [''column'', ''dry_run''] (\<lambda>b base.
       bindR (mapColumnSpec h (propOf b ''column'') ''column'') (\<lambda>column.
         Inr (MutationCommand (AddColumn
           (TableCommand.extend (pathTable req base) (AddColumnCommand.fields (managedSpec column)))))))"

definition columnsRename :: parser where
  "columnsRename h req =
     withBody h req [''new_name'', ''dry_run''] (\<lambda>b base.
       bindR (requireStringField b ''new_name'') (\<lambda>newName.
         Inr (MutationCommand (RenameColumn
           (ColumnCommand.extend (pathColumn req base) (RenameColumnCommand.fields newName))))))"

definition columnsDrop :: parser where
  "columnsDrop h req =
     withBody h req [''confirm'', ''dry_run''] (\<lambda>b base.
       bindR (requireStringField b ''confirm'') (\<lambda>confirm.
         Inr (MutationCommand (DropColumn
           (ColumnCommand.extend (pathColumn req base) (DropColumnCommand.fields confirm))))))"

definition columnsDefaultSet :: parser where
  "columnsDefaultSet h req =
     withBody h req [''default'', ''dry_run''] (\<lambda>b base.
       bindR (mapColumnDefault h (propOf b ''default'') ''default'') (\<lambda>dflt.
         Inr (MutationCommand (SetColumnDefault
           (ColumnCommand.extend (pathColumn req base) (SetColumnDefaultCommand.fields dflt))))))"

definition columnsDefaultDrop :: parser where
  "columnsDefaultDrop h req =
     withBody h req [''dry_run''] (\<lambda>b base. Inr (MutationCommand (DropColumnDefault (pathColumn req base))))"

definition columnsNotNullSet :: parser where
  "columnsNotNullSet h req =
     withBody h req [''dry_run''] (\<lambda>b base. Inr (MutationCommand (SetColumnNotNull (pathColumn req base))))"

definition columnsNotNullDrop :: parser where
  "columnsNotNullDrop h req =
     withBody h req [''dry_run''] (\<lambda>b base. Inr (MutationCommand (DropColumnNotNull (pathColumn req base))))"

text \<open>The type is read before the command base; the enum holds exactly the names of the types.\<close>

definition columnsTypeChange :: parser where
  "columnsTypeChange h req =
     bindR (requirePlainBody h (rq_body req)) (\<lambda>b.
     bindR (rejectUnknownFields b [''to_type'', ''dry_run'']) (\<lambda>_.
     bindR (requireEnumField b ''to_type'' DDL_COLUMN_TYPES) (\<lambda>toType.
     bindR (commandBase (aq_key req) b) (\<lambda>base.
       (case isDdlColumnType toType of
          None \<Rightarrow> Inl (fieldError ''to_type'' ''Must be a column type'')
        | Some t \<Rightarrow>
            Inr (MutationCommand (ChangeColumnType
              (ColumnCommand.extend (pathColumn req base) (ChangeColumnTypeCommand.fields t)))))))))"

text \<open>Indexes and constraints.\<close>

definition keyCommand :: "heap \<Rightarrow> admin_request \<Rightarrow> thrown + KeyCommand" where
  "keyCommand h req =
     withBody h req [''columns'', ''name'', ''dry_run''] (\<lambda>b base.
       bindR (requireStringArrayField h b ''columns'' 1 16) (\<lambda>columns.
       bindR (optionalName b) (\<lambda>name.
         Inr (TableCommand.extend (pathTable req base) (KeyCommand.fields columns name)))))"

definition dropNamed :: "heap \<Rightarrow> admin_request \<Rightarrow> thrown + DropNamedCommand" where
  "dropNamed h req =
     withBody h req [''dry_run''] (\<lambda>b base.
       Inr (TableCommand.extend (pathTable req base) (DropNamedCommand.fields (aq_name req))))"

definition indexesCreate :: parser where
  "indexesCreate h req = bindR (keyCommand h req) (\<lambda>c. Inr (ConstraintCommand (CreateIndex c)))"

definition indexesDrop :: parser where
  "indexesDrop h req = bindR (dropNamed h req) (\<lambda>c. Inr (ConstraintCommand (DropIndex c)))"

definition uniqueConstraintsAdd :: parser where
  "uniqueConstraintsAdd h req = bindR (keyCommand h req) (\<lambda>c. Inr (ConstraintCommand (AddUniqueConstraint c)))"

definition constraintsDrop :: parser where
  "constraintsDrop h req = bindR (dropNamed h req) (\<lambda>c. Inr (ConstraintCommand (DropConstraint c)))"

definition foreignKeysAdd :: parser where
  "foreignKeysAdd h req =
     bindR (requirePlainBody h (rq_body req)) (\<lambda>b.
     bindR (rejectUnknownFields b [''columns'', ''references'', ''on_update'', ''on_delete'', ''name'', ''dry_run'']) (\<lambda>_.
     bindR (requireObjectField h b ''references'') (\<lambda>refs.
     bindR (rejectUnknownFields refs [''schema'', ''table'', ''columns'']) (\<lambda>_.
     bindR (commandBase (aq_key req) b) (\<lambda>base.
     bindR (requireStringArrayField h b ''columns'' 1 16) (\<lambda>columns.
     bindR (requireStringField refs ''schema'') (\<lambda>refSchema.
     bindR (requireStringField refs ''table'') (\<lambda>refTable.
     bindR (requireStringArrayField h refs ''columns'' 1 16) (\<lambda>refColumns.
     bindR (requireEnumField b ''on_update'' FOREIGN_KEY_ACTIONS) (\<lambda>onUpdate.
     bindR (requireEnumField b ''on_delete'' FOREIGN_KEY_ACTIONS) (\<lambda>onDelete.
     bindR (optionalName b) (\<lambda>name.
       Inr (ConstraintCommand (AddForeignKey
         (KeyCommand.extend (TableCommand.extend (pathTable req base) (KeyCommand.fields columns name))
            (AddForeignKeyCommand.fields refSchema refTable refColumns onUpdate onDelete))))))))))))))))"

text \<open>Exposure.\<close>

definition exposureExpose :: parser where
  "exposureExpose h req =
     withBody h req [''schema'', ''table'', ''alias'', ''dry_run''] (\<lambda>b base.
       bindR (bodyTable b base) (\<lambda>t.
       bindR (requireStringField b ''alias'') (\<lambda>al.
         Inr (ExposureCommand (ExposeTable (TableCommand.extend t (ExposeTableCommand.fields al)))))))"

definition exposureUnexpose :: parser where
  "exposureUnexpose h req =
     withBody h req [''schema'', ''table'', ''dry_run''] (\<lambda>b base.
       bindR (bodyTable b base) (\<lambda>t. Inr (ExposureCommand (UnexposeTable t))))"

text \<open>Row security and its policies.\<close>

definition rlsEnable :: parser where
  "rlsEnable h req =
     withBody h req [''schema'', ''table'', ''dry_run''] (\<lambda>b base.
       bindR (bodyTable b base) (\<lambda>t. Inr (SecurityCommand (EnableRowSecurity t))))"

definition rlsDisable :: parser where
  "rlsDisable h req =
     withBody h req [''schema'', ''table'', ''confirm'', ''dry_run''] (\<lambda>b base.
       bindR (bodyTable b base) (\<lambda>t.
       bindR (requireStringField b ''confirm'') (\<lambda>confirm.
         Inr (SecurityCommand (DisableRowSecurity (TableCommand.extend t (DisableRowSecurityCommand.fields confirm)))))))"

definition policyCommand :: "heap \<Rightarrow> admin_request \<Rightarrow> thrown + OwnershipPolicyCommand" where
  "policyCommand h req =
     withBody h req [''schema'', ''table'', ''column'', ''template'', ''dry_run''] (\<lambda>b base.
       bindR (bodyTable b base) (\<lambda>t.
       bindR (requireStringField b ''column'') (\<lambda>column.
       bindR (requireEnumField b ''template'' AdminGuard.OWNERSHIP_POLICY_TEMPLATES) (\<lambda>template.
         Inr (ColumnCommand.extend (TableCommand.extend t (ColumnCommand.fields column))
                (OwnershipPolicyCommand.fields template))))))"

definition policiesCreate :: parser where
  "policiesCreate h req = bindR (policyCommand h req) (\<lambda>c. Inr (SecurityCommand (CreateOwnershipPolicy c)))"

definition policiesRemove :: parser where
  "policiesRemove h req = bindR (policyCommand h req) (\<lambda>c. Inr (SecurityCommand (RemoveOwnershipPolicy c)))"

subsection \<open>Routes\<close>

record admin_route =
  ar_path :: string
  ar_endpoint :: string
  ar_command :: parser

definition TABLES_PATH :: string where
  "TABLES_PATH = ''/v1/admin/schema/tables''"

definition TABLE_PATH :: string where
  "TABLE_PATH = TABLES_PATH @ ''/:schema/:table''"

definition COLUMN_PATH :: string where
  "COLUMN_PATH = TABLE_PATH @ ''/columns/:column''"

definition tablesCreateRoute :: admin_route where
  "tablesCreateRoute = \<lparr>ar_path = TABLES_PATH, ar_endpoint = ''tables.create'', ar_command = tablesCreate\<rparr>"

definition tablesRenameRoute :: admin_route where
  "tablesRenameRoute = \<lparr>ar_path = TABLE_PATH @ ''/rename'', ar_endpoint = ''tables.rename'', ar_command = tablesRename\<rparr>"

definition tablesDropRoute :: admin_route where
  "tablesDropRoute = \<lparr>ar_path = TABLE_PATH @ ''/drop'', ar_endpoint = ''tables.drop'', ar_command = tablesDrop\<rparr>"

definition columnsAddRoute :: admin_route where
  "columnsAddRoute = \<lparr>ar_path = TABLE_PATH @ ''/columns'', ar_endpoint = ''columns.add'', ar_command = columnsAdd\<rparr>"

definition columnsRenameRoute :: admin_route where
  "columnsRenameRoute = \<lparr>ar_path = COLUMN_PATH @ ''/rename'', ar_endpoint = ''columns.rename'', ar_command = columnsRename\<rparr>"

definition columnsDropRoute :: admin_route where
  "columnsDropRoute = \<lparr>ar_path = COLUMN_PATH @ ''/drop'', ar_endpoint = ''columns.drop'', ar_command = columnsDrop\<rparr>"

definition columnsDefaultSetRoute :: admin_route where
  "columnsDefaultSetRoute = \<lparr>ar_path = COLUMN_PATH @ ''/default'', ar_endpoint = ''columns.default.set'', ar_command = columnsDefaultSet\<rparr>"

definition columnsDefaultDropRoute :: admin_route where
  "columnsDefaultDropRoute = \<lparr>ar_path = COLUMN_PATH @ ''/default/drop'', ar_endpoint = ''columns.default.drop'', ar_command = columnsDefaultDrop\<rparr>"

definition columnsNotNullSetRoute :: admin_route where
  "columnsNotNullSetRoute = \<lparr>ar_path = COLUMN_PATH @ ''/not-null'', ar_endpoint = ''columns.not_null.set'', ar_command = columnsNotNullSet\<rparr>"

definition columnsNotNullDropRoute :: admin_route where
  "columnsNotNullDropRoute = \<lparr>ar_path = COLUMN_PATH @ ''/nullable'', ar_endpoint = ''columns.not_null.drop'', ar_command = columnsNotNullDrop\<rparr>"

definition columnsTypeChangeRoute :: admin_route where
  "columnsTypeChangeRoute = \<lparr>ar_path = COLUMN_PATH @ ''/type'', ar_endpoint = ''columns.type.change'', ar_command = columnsTypeChange\<rparr>"

definition indexesCreateRoute :: admin_route where
  "indexesCreateRoute = \<lparr>ar_path = TABLE_PATH @ ''/indexes'', ar_endpoint = ''indexes.create'', ar_command = indexesCreate\<rparr>"

definition indexesDropRoute :: admin_route where
  "indexesDropRoute = \<lparr>ar_path = TABLE_PATH @ ''/indexes/:name/drop'', ar_endpoint = ''indexes.drop'', ar_command = indexesDrop\<rparr>"

definition uniqueConstraintsAddRoute :: admin_route where
  "uniqueConstraintsAddRoute = \<lparr>ar_path = TABLE_PATH @ ''/unique-constraints'', ar_endpoint = ''unique_constraints.add'', ar_command = uniqueConstraintsAdd\<rparr>"

definition constraintsDropRoute :: admin_route where
  "constraintsDropRoute = \<lparr>ar_path = TABLE_PATH @ ''/constraints/:name/drop'', ar_endpoint = ''constraints.drop'', ar_command = constraintsDrop\<rparr>"

definition foreignKeysAddRoute :: admin_route where
  "foreignKeysAddRoute = \<lparr>ar_path = TABLE_PATH @ ''/foreign-keys'', ar_endpoint = ''foreign_keys.add'', ar_command = foreignKeysAdd\<rparr>"

definition exposureExposeRoute :: admin_route where
  "exposureExposeRoute = \<lparr>ar_path = ''/v1/admin/schema/exposure'', ar_endpoint = ''exposure.expose'', ar_command = exposureExpose\<rparr>"

definition exposureUnexposeRoute :: admin_route where
  "exposureUnexposeRoute = \<lparr>ar_path = ''/v1/admin/schema/unexpose'', ar_endpoint = ''exposure.unexpose'', ar_command = exposureUnexpose\<rparr>"

definition rlsEnableRoute :: admin_route where
  "rlsEnableRoute = \<lparr>ar_path = ''/v1/admin/schema/rls/enable'', ar_endpoint = ''rls.enable'', ar_command = rlsEnable\<rparr>"

definition rlsDisableRoute :: admin_route where
  "rlsDisableRoute = \<lparr>ar_path = ''/v1/admin/schema/rls/disable'', ar_endpoint = ''rls.disable'', ar_command = rlsDisable\<rparr>"

definition policiesCreateRoute :: admin_route where
  "policiesCreateRoute = \<lparr>ar_path = ''/v1/admin/schema/policies'', ar_endpoint = ''policies.create'', ar_command = policiesCreate\<rparr>"

definition policiesRemoveRoute :: admin_route where
  "policiesRemoveRoute = \<lparr>ar_path = ''/v1/admin/schema/policies/remove'', ar_endpoint = ''policies.remove'', ar_command = policiesRemove\<rparr>"

definition mutationRoutes :: "admin_route list" where
  "mutationRoutes =
     [tablesCreateRoute, tablesRenameRoute, tablesDropRoute, columnsAddRoute, columnsRenameRoute, columnsDropRoute,
      columnsDefaultSetRoute, columnsDefaultDropRoute, columnsNotNullSetRoute, columnsNotNullDropRoute,
      columnsTypeChangeRoute, indexesCreateRoute, indexesDropRoute, uniqueConstraintsAddRoute,
      constraintsDropRoute, foreignKeysAddRoute, exposureExposeRoute, exposureUnexposeRoute, rlsEnableRoute,
      rlsDisableRoute, policiesCreateRoute, policiesRemoveRoute]"

lemmas route_defs = tablesCreateRoute_def tablesRenameRoute_def tablesDropRoute_def columnsAddRoute_def
  columnsRenameRoute_def columnsDropRoute_def columnsDefaultSetRoute_def columnsDefaultDropRoute_def
  columnsNotNullSetRoute_def columnsNotNullDropRoute_def columnsTypeChangeRoute_def indexesCreateRoute_def
  indexesDropRoute_def uniqueConstraintsAddRoute_def constraintsDropRoute_def foreignKeysAddRoute_def
  exposureExposeRoute_def exposureUnexposeRoute_def rlsEnableRoute_def rlsDisableRoute_def
  policiesCreateRoute_def policiesRemoveRoute_def

record admin_gate =
  gt_sha :: "bytes \<Rightarrow> bytes"
  gt_digest :: bytes
  gt_limiter :: RateLimiterOptions

text \<open>Gate, then handler; what the handler throws becomes the reply \<open>onError\<close> makes of it.\<close>

definition gatedRoute ::
  "heap \<Rightarrow> admin_gate \<Rightarrow> int \<Rightarrow> string \<Rightarrow> admin_request \<Rightarrow> (thrown \<Rightarrow> reply) \<Rightarrow> admin_reply io \<Rightarrow>
   limiter_state \<Rightarrow> limiter_state \<times> admin_reply io" where
  "gatedRoute h G now endpoint req onError handler m =
     (case rejectUnlessAdminOperator h (gt_sha G) (gt_digest G) (gt_limiter G) now endpoint (request.truncate req)
        freshReply m of
        (m', Some rejected) \<Rightarrow> (m', returnM (ErrorReply rejected))
      | (m', None) \<Rightarrow> (m', catchM handler (\<lambda>e. returnM (ErrorReply (onError e)))))"

definition mutationRoute ::
  "admin_services \<Rightarrow> admin_gate \<Rightarrow> int \<Rightarrow> admin_route \<Rightarrow> admin_request \<Rightarrow> limiter_state \<Rightarrow> limiter_state \<times> admin_reply io" where
  "mutationRoute S G now route req =
     gatedRoute (as_heap S) G now (ar_endpoint route) req (sendAppError (as_heap S) freshReply)
       (bindM (liftR (ar_command route (as_heap S) req)) (\<lambda>command.
        bindM (as_run S command) (\<lambda>outcome. liftR (sendMutationOutcome (as_heap S) outcome))))"

definition capabilities ::
  "runtime \<Rightarrow> admin_services \<Rightarrow> admin_gate \<Rightarrow> int \<Rightarrow> admin_request \<Rightarrow> limiter_state \<Rightarrow> limiter_state \<times> admin_reply io" where
  "capabilities R S G now req =
     gatedRoute (as_heap S) G now ''capabilities'' req
       (\<lambda>e. let publicError = translatePoolError R e in
          sendError freshReply (ae_status publicError) (codeString (ae_code publicError)) (ae_message publicError) None)
       (bindM (as_query S ''SELECT 1 AS health'' []) (\<lambda>_. returnM (SuccessReply 200 PHealth)))"

definition schemaSnapshot ::
  "admin_services \<Rightarrow> admin_gate \<Rightarrow> int \<Rightarrow> admin_request \<Rightarrow> limiter_state \<Rightarrow> limiter_state \<times> admin_reply io" where
  "schemaSnapshot S G now req =
     gatedRoute (as_heap S) G now ''snapshot'' req (sendAppError (as_heap S) freshReply)
       (bindM (as_snapshot S) (\<lambda>snapshot. returnM (SuccessReply 200 (PSnapshot snapshot))))"

definition tableDetail :: "SchemaSnapshot \<Rightarrow> string \<Rightarrow> string \<Rightarrow> SchemaSnapshotTable option" where
  "tableDetail snapshot schema table =
     (case find (\<lambda>e. sn_name e = schema) (sp_schemas snapshot) of
        None \<Rightarrow> None
      | Some s \<Rightarrow> find (\<lambda>e. ct_name e = table) (sn_tables s))"

definition schemaTable ::
  "admin_services \<Rightarrow> admin_gate \<Rightarrow> int \<Rightarrow> admin_request \<Rightarrow> limiter_state \<Rightarrow> limiter_state \<times> admin_reply io" where
  "schemaTable S G now req =
     gatedRoute (as_heap S) G now ''table'' req (sendAppError (as_heap S) freshReply)
       (bindM (as_snapshot S) (\<lambda>snapshot.
          liftR (case tableDetail snapshot (aq_schema req) (aq_table req) of
                   None \<Rightarrow> Inl (notFound ''Resource not found'')
                 | Some found \<Rightarrow> Inr (SuccessReply 200 (PTable found)))))"

definition HISTORY_LIMIT_MAX :: int where
  "HISTORY_LIMIT_MAX = 500"

definition HISTORY_DEFAULT_LIMIT :: rat where
  "HISTORY_DEFAULT_LIMIT = 50"

text \<open>\<open>Number(raw)\<close> tested by \<open>Number.isInteger\<close> and the bounds.\<close>

definition parseHistoryLimit :: "query_value \<Rightarrow> thrown + jnum" where
  "parseHistoryLimit raw =
     (if raw = QAbsent then Inr (JFin HISTORY_DEFAULT_LIMIT)
      else (case intInRange 1 HISTORY_LIMIT_MAX (queryNumber raw) of
              Some n \<Rightarrow> Inr (JFin (of_int n))
            | None \<Rightarrow> Inl (fieldError ''limit'' (''Must be an integer between 1 and '' @ intStr HISTORY_LIMIT_MAX))))"

definition parseHistoryOffset :: "query_value \<Rightarrow> thrown + jnum" where
  "parseHistoryOffset raw =
     (if raw = QAbsent then Inr (JFin 0)
      else (case queryNumber raw of
              VNum (JFin q) \<Rightarrow>
                if numIsInteger (JFin q) \<and> 0 \<le> q then Inr (JFin q)
                else Inl (fieldError ''offset'' ''Must be an integer of 0 or greater'')
            | _ \<Rightarrow> Inl (fieldError ''offset'' ''Must be an integer of 0 or greater'')))"

definition schemaHistory ::
  "admin_services \<Rightarrow> admin_gate \<Rightarrow> int \<Rightarrow> admin_request \<Rightarrow> limiter_state \<Rightarrow> limiter_state \<times> admin_reply io" where
  "schemaHistory S G now req =
     gatedRoute (as_heap S) G now ''history'' req (sendAppError (as_heap S) freshReply)
       (bindM (liftR (parseHistoryLimit (rq_limit req))) (\<lambda>limit.
        bindM (liftR (parseHistoryOffset (rq_offset req))) (\<lambda>offset.
        bindM (as_history S (Some limit) (Some offset)) (\<lambda>records.
        bindM (liftR (mapR (mapOperationRecord (as_heap S)) records)) (\<lambda>items.
          returnM (HistoryReply items limit offset))))))"

end
