(* ===== verification/AdminRouteFacts.thy ===== *)
theory AdminRouteFacts
  imports AdminRoutes
begin

text \<open>
  The admin tree over the composed services: what a request must bring before anything is called, the command it
  becomes, and that the reading endpoints only read.
\<close>

subsection \<open>The composed services\<close>

definition runCommand :: "admin_deps \<Rightarrow> exposure_deps \<Rightarrow> admin_command \<Rightarrow> ExecuteOutcome io" where
  "runCommand d X command =
     (case command of
        MutationCommand m \<Rightarrow> runMutation d m
      | ConstraintCommand c \<Rightarrow> runConstraint d c
      | ExposureCommand c \<Rightarrow> runExposure X c
      | SecurityCommand c \<Rightarrow> runSecurity d c)"

definition adminServices ::
  "ddl_env \<Rightarrow> runtime \<Rightarrow> registry \<Rightarrow> string \<Rightarrow> string \<Rightarrow> (event list \<Rightarrow> bytes) \<Rightarrow> admin_services" where
  "adminServices D R reg adminRole runtimeRole random =
     (let d = adminLane D reg adminRole runtimeRole
      in \<lparr>as_heap = heap (dd_runtime D), as_query = ad_query d,
          as_snapshot = readSchemaSnapshot (dd_runtime D) (ad_query d) reg,
          as_history = logList (adminLog d),
          as_run = runCommand d (exposureLane D R adminRole runtimeRole random)\<rparr>)"

fun commandTable :: "admin_command \<Rightarrow> TableCommand" where
  "commandTable (MutationCommand m) = baseOf m"
| "commandTable (ConstraintCommand c) = constraintBase c"
| "commandTable (ExposureCommand (ExposeTable c)) = TableCommand.truncate c"
| "commandTable (ExposureCommand (UnexposeTable c)) = c"
| "commandTable (SecurityCommand c) = securityBase c"

subsection \<open>The command a request becomes\<close>

text \<open>The members every command takes from the request: key, actor and dry run; the table is the path's or the body's.\<close>

definition commandOf :: "heap \<Rightarrow> admin_route \<Rightarrow> admin_request \<Rightarrow> TableCommand \<Rightarrow> bool" where
  "commandOf h route req t \<longleftrightarrow>
     (\<exists>b. getPlainObjectBody h (rq_body req) = Some b \<and>
        requireIdempotencyKey (aq_key req) = Inr (mb_key t) \<and> mb_actor t = HTTP_OPERATOR_ACTOR \<and>
        optionalBooleanField b ''dry_run'' = Inr (if propOf b ''dry_run'' = VUndef then None else Some (mb_dryRun t)) \<and>
        (mb_dryRun t \<longrightarrow> propOf b ''dry_run'' = VBool True) \<and>
        (if startsWith (ar_path route) TABLE_PATH then tc_schema t = aq_schema req \<and> tc_table t = aq_table req
         else propOf b ''schema'' = VStr (tc_schema t) \<and> propOf b ''table'' = VStr (tc_table t) \<and>
              tc_schema t \<noteq> [] \<and> tc_table t \<noteq> []))"

definition basedOn :: "heap \<Rightarrow> admin_request \<Rightarrow> body_props \<Rightarrow> CommandBase \<Rightarrow> bool" where
  "basedOn h req b base \<longleftrightarrow> getPlainObjectBody h (rq_body req) = Some b \<and> commandBase (aq_key req) b = Inr base"

lemma requirePlainBody_Inr: "requirePlainBody h v = Inr b \<longleftrightarrow> getPlainObjectBody h v = Some b"
  by (simp add: requirePlainBody_def split: option.split)

lemma withBody_Inr: "withBody h req known f = Inr c \<longleftrightarrow>
    (\<exists>b base. basedOn h req b base \<and> set (map fst b) \<subseteq> set known \<and> f b base = Inr c)"
  by (auto simp: withBody_def basedOn_def res_simps requirePlainBody_Inr rejectUnknownFields_Inr)

lemma optionalBooleanField_Inr:
  "optionalBooleanField b f = Inr r \<longleftrightarrow> propOf b f = VUndef \<and> r = None \<or> (\<exists>v. propOf b f = VBool v \<and> r = Some v)"
  by (auto simp: optionalBooleanField_def split: jsval.splits)

lemma commandOf_path:
  assumes "basedOn h req b base" and "startsWith (ar_path route) TABLE_PATH"
  shows "commandOf h route req (pathTable req base)"
  using assms
  by (auto simp: commandOf_def basedOn_def commandBase_def res_simps optionalBooleanField_Inr pathTable_def tableCommand_def)

lemma commandOf_body:
  assumes "basedOn h req b base" and "\<not> startsWith (ar_path route) TABLE_PATH" and "bodyTable b base = Inr t"
  shows "commandOf h route req t"
  using assms
  by (auto simp: commandOf_def basedOn_def commandBase_def res_simps optionalBooleanField_Inr bodyTable_def tableCommand_def
      requireStringField_Inr)

lemma truncate_extend [simp]:
  "TableCommand.truncate (TableCommand.extend t x) = t"
  "TableCommand.truncate (pathColumn req base) = pathTable req base"
  "TableCommand.truncate (ColumnCommand.extend (pathColumn req base) y) = pathTable req base"
  "TableCommand.truncate (ColumnCommand.extend (TableCommand.extend t r) z) = t"
  "TableCommand.truncate (KeyCommand.extend (TableCommand.extend t u) v) = t"
  by (simp_all add: TableCommand.defs ColumnCommand.defs KeyCommand.defs pathColumn_def)

text \<open>The parsers whose table is the path's, and those whose table is the body's.\<close>

definition pathParser :: "parser \<Rightarrow> bool" where
  "pathParser p \<longleftrightarrow>
     (\<forall>h req c. p h req = Inr c \<longrightarrow> (\<exists>b base. basedOn h req b base \<and> commandTable c = pathTable req base))"

definition bodyParser :: "parser \<Rightarrow> bool" where
  "bodyParser p \<longleftrightarrow>
     (\<forall>h req c. p h req = Inr c \<longrightarrow> (\<exists>b base. basedOn h req b base \<and> bodyTable b base = Inr (commandTable c)))"

lemma path_parsers:
  "pathParser tablesRename" "pathParser tablesDrop" "pathParser columnsAdd" "pathParser columnsRename"
  "pathParser columnsDrop" "pathParser columnsDefaultSet" "pathParser columnsDefaultDrop" "pathParser columnsNotNullSet"
  "pathParser columnsNotNullDrop" "pathParser indexesCreate" "pathParser indexesDrop" "pathParser uniqueConstraintsAdd"
  "pathParser constraintsDrop"
  unfolding pathParser_def tablesRename_def tablesDrop_def columnsAdd_def columnsRename_def columnsDrop_def
    columnsDefaultSet_def columnsDefaultDrop_def columnsNotNullSet_def columnsNotNullDrop_def indexesCreate_def
    indexesDrop_def uniqueConstraintsAdd_def constraintsDrop_def keyCommand_def dropNamed_def
  by (auto simp: withBody_Inr res_simps) blast+

lemma path_parsers_long: "pathParser columnsTypeChange" "pathParser foreignKeysAdd"
  unfolding pathParser_def columnsTypeChange_def foreignKeysAdd_def
  by (auto simp: basedOn_def requirePlainBody_Inr res_simps split: option.splits)

lemma body_parsers:
  "bodyParser tablesCreate" "bodyParser exposureExpose" "bodyParser exposureUnexpose" "bodyParser rlsEnable"
  "bodyParser rlsDisable" "bodyParser policiesCreate" "bodyParser policiesRemove"
  unfolding bodyParser_def tablesCreate_def exposureExpose_def exposureUnexpose_def rlsEnable_def rlsDisable_def
    policiesCreate_def policiesRemove_def policyCommand_def
  by (auto simp: withBody_Inr res_simps) blast+

lemma routes_exact:
  assumes "route \<in> set mutationRoutes" and "ar_command route h req = Inr c"
  shows "commandOf h route req (commandTable c)"
proof -
  have paths: "startsWith (TABLE_PATH @ x) TABLE_PATH" "startsWith (COLUMN_PATH @ x) TABLE_PATH"
    "\<not> startsWith TABLES_PATH TABLE_PATH" for x
    by (simp_all add: COLUMN_PATH_def TABLE_PATH_def TABLES_PATH_def startsWith_def)
  have other: "\<not> startsWith (''/v1/admin/schema/'' @ c # cs) TABLE_PATH" if "c \<noteq> CHR ''t''" for c cs
    using that by (simp add: TABLE_PATH_def TABLES_PATH_def startsWith_def)
  have path: "commandOf h route req (commandTable c)" if "pathParser (ar_command route)" "startsWith (ar_path route) TABLE_PATH"
    using that assms(2) commandOf_path unfolding pathParser_def by metis
  have body: "commandOf h route req (commandTable c)" if "bodyParser (ar_command route)" "\<not> startsWith (ar_path route) TABLE_PATH"
    using that assms(2) commandOf_body unfolding bodyParser_def by metis
  have "pathParser (ar_command route) \<and> startsWith (ar_path route) TABLE_PATH \<or>
      bodyParser (ar_command route) \<and> \<not> startsWith (ar_path route) TABLE_PATH"
    using assms(1) path_parsers path_parsers_long body_parsers paths other
    unfolding mutationRoutes_def by (auto simp: route_defs TABLE_PATH_def [symmetric])
  with path body show ?thesis by blast
qed

text \<open>C19: Whatever a mutating endpoint hands to its service carries the key of the request's header, the one operator
  actor and a dry run exactly if the body asks for one, and is about the table of the path, or, where the path has none,
  about the non-empty names of the body.\<close>
theorem admin_command_exact:
  assumes "route \<in> set mutationRoutes" and "ar_command route h req = Inr c"
  shows "commandOf h route req (commandTable c)"
  by (rule routes_exact [OF assms])

definition enableBody :: heap where
  "enableBody = [OObj ObjectProto [(''schema'', VStr ''app''), (''table'', VStr ''notes''), (''dry_run'', VBool True)]]"

definition enableRequest :: admin_request where
  "enableRequest = \<lparr>rq_ip = ''::1'', rq_authorization = HOne ''Bearer op'', rq_table = [], rq_id = [], rq_limit = QAbsent,
     rq_offset = QAbsent, rq_body = VRef 0, aq_schema = [], aq_table = [], aq_column = [], aq_name = [], aq_key = HOne ''k-1''\<rparr>"

lemma enable_command:
  "rlsEnableRoute \<in> set mutationRoutes"
  "ar_command rlsEnableRoute enableBody enableRequest = Inr (SecurityCommand (EnableRowSecurity
     \<lparr>mb_key = ''k-1'', mb_actor = ''http-operator'', mb_dryRun = True, tc_schema = ''app'', tc_table = ''notes''\<rparr>))"
proof -
  show "rlsEnableRoute \<in> set mutationRoutes" by (simp add: mutationRoutes_def)
  show "ar_command rlsEnableRoute enableBody enableRequest = Inr (SecurityCommand (EnableRowSecurity
     \<lparr>mb_key = ''k-1'', mb_actor = ''http-operator'', mb_dryRun = True, tc_schema = ''app'', tc_table = ''notes''\<rparr>))"
    unfolding rlsEnableRoute_def admin_route.simps by code_simp
qed

theorem admin_command_exact_witness:
  "commandOf enableBody rlsEnableRoute enableRequest
     \<lparr>mb_key = ''k-1'', mb_actor = ''http-operator'', mb_dryRun = True, tc_schema = ''app'', tc_table = ''notes''\<rparr>"
  using admin_command_exact [OF enable_command] by simp

subsection \<open>The gate\<close>

text \<open>A request that is counted, carries the operator's token, and is mapped to a command.\<close>

definition operatorRequest :: "admin_gate \<Rightarrow> int \<Rightarrow> string \<Rightarrow> admin_request \<Rightarrow> limiter_state \<Rightarrow> bool" where
  "operatorRequest G now endpoint req m \<longleftrightarrow>
     allowed (fst (check (gt_limiter G) now (''admin:'' @ endpoint @ '':'' @ rq_ip req) m)) \<and> gt_digest G \<noteq> [] \<and>
     (\<exists>token. extractBearerToken (rq_authorization req) = Some token \<and> gt_sha G (utf8 token) = gt_digest G)"

lemma gatedRoute_run:
  "gatedRoute h G now endpoint req onError handler m = (m', run) \<Longrightarrow>
   (if operatorRequest G now endpoint req m then run = catchM handler (\<lambda>e. returnM (ErrorReply (onError e)))
    else \<exists>rp. run = returnM (ErrorReply rp))"
  by (auto simp: gatedRoute_def rejectUnlessAdminOperator_def operatorRequest_def verifyOperatorToken_iff Let_def
      request.defs split: prod.splits option.splits if_splits)

text \<open>C4: A mutating endpoint always answers, and whatever the service behind it may do: the outside world is touched
  only for a request within its limit whose bearer token has the configured digest and whose header, path and body map to
  a command with an idempotency key, and then only by running exactly this command once.\<close>
theorem admin_change_needs_operator:
  assumes "mutationRoute S G now route req m = (m', run)" and "route \<in> set mutationRoutes" and "run w = (r, w')"
  shows "(\<exists>reply. r = Inr reply) \<and>
    (w' \<noteq> w \<longrightarrow> operatorRequest G now (ar_endpoint route) req m \<and>
      (\<exists>c x. ar_command route (as_heap S) req = Inr c \<and> as_run S c w = (x, w') \<and>
         idempotencyKeyPattern (mb_key (commandTable c)) \<and> mb_actor (commandTable c) = ''http-operator''))"
proof (cases "operatorRequest G now (ar_endpoint route) req m")
  case False
  with gatedRoute_run [OF assms(1) [unfolded mutationRoute_def]] assms(3) show ?thesis by (auto simp: returnM_def)
next
  case True
  let ?handler = "bindM (liftR (ar_command route (as_heap S) req)) (\<lambda>command.
        bindM (as_run S command) (\<lambda>outcome. liftR (sendMutationOutcome (as_heap S) outcome)))"
  from True gatedRoute_run [OF assms(1) [unfolded mutationRoute_def]]
  have run: "run = catchM ?handler (\<lambda>e. returnM (ErrorReply (sendAppError (as_heap S) freshReply e)))" by simp
  show ?thesis
  proof (cases "ar_command route (as_heap S) req")
    case (Inl e)
    with run assms(3) show ?thesis by (auto simp: io_simps)
  next
    case (Inr c)
    have "idempotencyKeyPattern (mb_key (commandTable c))" "mb_actor (commandTable c) = ''http-operator''"
      using routes_exact [OF assms(2) Inr] requireIdempotencyKey_Inr by (auto simp: commandOf_def HTTP_OPERATOR_ACTOR_def)
    moreover obtain x v where "as_run S c w = (x, v)" by (cases "as_run S c w")
    moreover from this have "(\<exists>reply. r = Inr reply) \<and> v = w'"
      using run assms(3) Inr by (cases x; cases "sendMutationOutcome (as_heap S) (projr x)") (auto simp: io_simps dest: sym)
    ultimately show ?thesis using True Inr by auto
  qed
qed

theorem admin_change_needs_operator_witness:
  "\<exists>G run m' r. mutationRoute \<lparr>as_heap = enableBody, as_query = (\<lambda>sql vs. throwM noShape), as_snapshot = throwM noShape,
       as_history = (\<lambda>l k. throwM noShape), as_run = (\<lambda>c w. (Inl noShape, w @ [EvConnect]))\<rparr> G 0 rlsEnableRoute enableRequest [] = (m', run) \<and>
     run [] = (Inr r, [EvConnect]) \<and> operatorRequest G 0 ''rls.enable'' enableRequest []"
proof -
  let ?S = "\<lparr>as_heap = enableBody, as_query = (\<lambda>sql vs. throwM noShape), as_snapshot = throwM noShape,
       as_history = (\<lambda>l k. throwM noShape), as_run = (\<lambda>c w. (Inl noShape, w @ [EvConnect]))\<rparr>"
  let ?G = "\<lparr>gt_sha = id, gt_digest = utf8 ''op'', gt_limiter = defaultRateLimiterOptions\<rparr>"
  obtain m' run where m: "mutationRoute ?S ?G 0 rlsEnableRoute enableRequest [] = (m', run)"
    by (cases "mutationRoute ?S ?G 0 rlsEnableRoute enableRequest []")
  have "allowed (fst (check defaultRateLimiterOptions 0 (''admin:'' @ ''rls.enable'' @ '':'' @ rq_ip enableRequest) []))"
    "utf8 ''op'' \<noteq> []" "extractBearerToken (rq_authorization enableRequest) = Some ''op''" by code_simp+
  then have g: "operatorRequest ?G 0 (ar_endpoint rlsEnableRoute) enableRequest []"
    by (simp add: operatorRequest_def rlsEnableRoute_def)
  have "snd (run []) = [EvConnect]"
    using gatedRoute_run [OF m [unfolded mutationRoute_def]] g enable_command(2) by (simp add: io_simps)
  moreover obtain r w where run: "run [] = (r, w)" by (cases "run []")
  ultimately show ?thesis
    using admin_change_needs_operator [OF m enable_command(1) run] m by (auto simp: rlsEnableRoute_def)
qed

subsection \<open>The reading endpoints\<close>

lemma gatedRoute_reads: "emitsOnly p handler \<Longrightarrow> emitsOnly p (snd (gatedRoute h G now endpoint req onError handler m))"
  unfolding gatedRoute_def by (auto split: prod.split option.split intro!: io_intros)

text \<open>Whatever the server answers, the four reading endpoints of the composed lane send nothing but queries of the
  admin pool: no transaction, no statement of a plan.\<close>
theorem admin_reads_only:
  "emitsOnly poolRead (snd (capabilities R' (adminServices D R reg adminRole runtimeRole random) G now req m)) \<and>
   emitsOnly poolRead (snd (schemaSnapshot (adminServices D R reg adminRole runtimeRole random) G now req m)) \<and>
   emitsOnly poolRead (snd (schemaTable (adminServices D R reg adminRole runtimeRole random) G now req m)) \<and>
   emitsOnly poolRead (snd (schemaHistory (adminServices D R reg adminRole runtimeRole random) G now req m))"
proof -
  let ?d = "adminLane D reg adminRole runtimeRole"
  have q: "emitsOnly poolRead (ad_query ?d sql vs)" for sql vs by (rule lane.query_reads)
  have snap: "emitsOnly poolRead (readSchemaSnapshot (dd_runtime D) (ad_query ?d) reg)"
    unfolding readSchemaSnapshot_def readSchemaCatalogue_def readMigrationHistory_def Let_def by (intro io_intros q)
  have hist: "emitsOnly poolRead (logList (adminLog ?d) l k)" for l k
    unfolding logList_def queryRow_def adminLog_def Let_def by (auto intro!: io_intros q simp del: adminLane_simps)
  show ?thesis
    unfolding capabilities_def schemaSnapshot_def schemaTable_def schemaHistory_def adminServices_def Let_def admin_services.simps
    by (intro conjI gatedRoute_reads io_intros q snap hist)
qed

end
