(* ===== verification/Spec2Isabelle.thy ===== *)
theory Spec2Isabelle
  imports DataRoutes AuthRoutes RegistryFacts ExposureRegistry Config Lifecycle AdminGuard
    OperationClaims DdlNames Refresher Startup AdminRouteFacts
begin

text \<open>
  microJBase serves chosen PostgreSQL tables over HTTP. A request carries a session token; the auth
  service (\<open>src/auth\<close>) turns it into a user, the data service (\<open>src/data\<close>) validates the input, and
  the data repository (\<open>src/database\<close>) runs one transaction whose transaction-local setting
  \<open>microjbase.user_id\<close> is that user, so that the tables' row security decides what is visible. Which
  tables exist is decided at startup by the table registry, from the configured mappings or the durable
  exposure registry. A second, opt-in lane lets an operator with a token change the schema.

  How the theories correspond to the code, in the order they build on each other:

  \<^item> \<open>Prelude\<close>, \<open>JsValues\<close>, \<open>Numbers\<close>, \<open>Dates\<close>, \<open>Driver\<close>: the part of JavaScript and of the driver's
    interface the sources use. Errors are the left side of a sum, with \<open>bindR\<close> as sequencing. Values
    are the datatype \<open>jsval\<close>; objects live on a \<open>heap\<close>, a list of \<open>obj\<close>, so that aliasing and cycles
    exist. \<open>'a io\<close> is a function of the history of external calls: a call is appended to the history as
    an \<open>event\<close>, and the record \<open>runtime\<close> answers it from the whole history. A property proved for every
    \<open>runtime\<close> holds whatever the database does.
  \<^item> \<open>AppErrors\<close> (\<open>core/errors.ts\<close>, \<open>auth/errors.ts\<close>, \<open>data/errors.ts\<close>), \<open>Pool\<close>
    (\<open>database/pool.ts\<close>), \<open>Transactions\<close> (\<open>database/transaction.ts\<close>): thrown values and their public
    form, the translation of driver errors, and \<open>withTransaction\<close>. \<open>txShape\<close> is the specification of a
    transaction: an inductive description of every history it can leave. The locale
    \<open>transaction_runner\<close> states it as a contract; \<open>pooled_runner\<close> is its interpretation.
  \<^item> \<open>Identifiers\<close> (\<open>database/identifier.ts\<close>), \<open>TableTypes\<close> (\<open>database/table-types.ts\<close>),
    \<open>DataRepository\<close> (\<open>database/data-repository.ts\<close>), \<open>DataValidate\<close> and \<open>DataService\<close> (\<open>data\<close>): the
    data lane. The locale \<open>data_repository\<close> is what the service relies on, interpreted on the
    PostgreSQL repository. \<open>readIdentifier\<close> is PostgreSQL's lexer for quoted identifiers, the
    specification of quoting.
  \<^item> \<open>Tokens\<close>, \<open>Credentials\<close>, \<open>AuthRepository\<close>, \<open>AuthService\<close> (\<open>auth\<close>,
    \<open>database/auth-repository.ts\<close>): sessions and passwords, with the locale \<open>auth_repository\<close>.
  \<^item> \<open>RateLimiter\<close>, \<open>HttpReplies\<close>, \<open>DataRoutes\<close>, \<open>AuthRoutes\<close>, \<open>AdminGuard\<close> (\<open>http\<close>): a handler is a
    function from a request and the service operations to a reply; the limiter's table is passed
    explicitly.
  \<^item> \<open>TableRegistry\<close>, \<open>RegistryFacts\<close> (\<open>database/table-registry.ts\<close>), \<open>ExposureRegistry\<close>
    (\<open>database/exposure-registry.ts\<close>), \<open>Config\<close> (\<open>core/config.ts\<close>), \<open>Lifecycle\<close>
    (\<open>core/lifecycle.ts\<close>): startup and shutdown. The locale \<open>verified_registry\<close> says what a built
    registry promises its clients. Shutdown is a step relation with an invariant over its reachable
    states.
  \<^item> \<open>NumberText\<close> and \<open>JsonText\<close>: \<open>String(number)\<close> with its shortest decimal, \<open>JSON.stringify\<close>.
  \<^item> \<open>OperationLog\<close>, \<open>OperationTable\<close>, \<open>OperationClaims\<close> (\<open>database/schema-operation-log.ts\<close>): the
    durable log of schema operations. The table behind it is modelled by what its six statements do, one
    after another in any interleaving; \<open>keyMove\<close> is the life of an idempotency key, \<open>specBegin\<close> the
    atomic specification of a begin, and \<open>takesEffect\<close> says that the several statements of a begin behave
    like one application of it.
  \<^item> \<open>DdlTypes\<close>, \<open>DdlCompiler\<close>, \<open>DdlExecutor\<close> (\<open>database/schema-ddl.ts\<close>): types and literals, plan
    builders, the transactional executor. \<open>DdlLiterals\<close> reads rendered literals back as the server does;
    \<open>SqlLexer\<close> is the scanner of PostgreSQL's quoting and comment rules, over which \<open>DdlSafety\<close> shows that
    a sealed plan holds single commands; \<open>DdlNames\<close> is about derived object names; \<open>DdlAtomicity\<close> tracks
    transactions over the history of an execution (\<open>txTrack\<close>).
  \<^item> \<open>CatalogueSql\<close>, \<open>Catalogue\<close>, \<open>CatalogueFacts\<close> (\<open>database/schema-catalogue.ts\<close>,
    \<open>contracts/schema.ts\<close>), \<open>Snapshot\<close> (\<open>database/schema-snapshot.ts\<close>): the catalogue reader decodes the
    rows of one statement; \<open>catalogueWf\<close> is its invariant, \<open>entriesOf\<close> the specification of what the rows
    say. The snapshot adds classification and exposures.
  \<^item> \<open>AdminLane\<close>: what the admin lane's command services share, with their composition in \<open>main.ts\<close>
    (\<open>adminLane\<close>). A command is \<open>gated\<close> when it consults the log and the catalogue before it hands
    plans to the executor; the locale \<open>admin_lane\<close> says what it relies on (reads send no DDL, the executor
    sends only a prefix of the plans' statements) and is interpreted on the composed lane.
    \<open>Mutations\<close> and \<open>MutationFacts\<close> (\<open>database/schema-mutations.ts\<close>), \<open>Constraints\<close> and
    \<open>ConstraintFacts\<close> (\<open>database/schema-constraints.ts\<close>), \<open>RowSecurity\<close> (\<open>database/schema-rls.ts\<close>) are the
    commands; \<open>permitted\<close>, \<open>constraintPermitted\<close> and \<open>securityPermitted\<close> state what the catalogue must
    show for each of them.
  \<^item> \<open>Exposure\<close>, \<open>ExposureFacts\<close>, \<open>ExposureGuards\<close> (\<open>database/schema-exposure.ts\<close>): the verification of a
    candidate table with its caches, the probe that renders the module's own policy on the server in a
    transaction it rolls back, and the two exposure commands. \<open>exposable\<close> is the specification of a table
    that may be served, \<open>exposureJustified\<close> what must have been read before a command sends a statement;
    \<open>exposureLane\<close> is the composition of \<open>main.ts\<close>.
  \<^item> \<open>Refresher\<close> (\<open>createRuntimeRegistryRefresher\<close> in \<open>main.ts\<close>): commits and overlapping refreshes as a
    step function with the invariant \<open>refreshInv\<close> over the reachable states.
  \<^item> \<open>RoleSafety\<close> (\<open>database/role-safety.ts\<close>, \<open>database/schema-admin-pool.ts\<close>) and \<open>Startup\<close> (\<open>start\<close> in
    \<open>main.ts\<close>): the checks on the roles and the sequence of the start. A history is cut into stretches:
    \<open>performed m P\<close> is a run of \<open>m\<close> with a result in \<open>P\<close>, \<open>ensures m\<close> a run that did not throw.
  \<^item> \<open>AdminRoutes\<close>, \<open>AdminRouteFacts\<close> (\<open>http/admin-routes.ts\<close>, \<open>http/admin-mutation-routes.ts\<close>): a mutating
    endpoint is a record of its path, the name the gate counts it under and its mapping of a request;
    \<open>commandOf\<close> is the command a request becomes, \<open>operatorRequest\<close> what it must bring, and
    \<open>adminServices\<close> the composition with the services above.
  \<^item> This theory composes the data routes with the real services and repositories.

  What the properties show: requests are isolated from each other (identity, transaction shape, the
  composed data API), inputs are refused before the database or reach it only as parameters of a fixed
  statement, errors become constant public errors, credentials are stored only as hashes, the limiter
  is bounded and counts per window, startup fails closed, and the parsers and encoders round-trip. In
  the admin lane, statements are single commands, executions are atomic, a key is claimed by one
  caller at a time, the catalogue is read exactly, and no command sends a statement before its guards
  passed. A table is served only after a verification whose verdict is exact, the probe leaves nothing
  behind, the registry in use never goes back to an older snapshot and the newest refresh takes effect,
  serving starts only after the checks of the roles, tables and policies, and the admin endpoints touch
  nothing outside the process before an operator's token and an idempotency key were accepted.

  Parameters of the model, not defined in \<open>src\<close>: the database and the driver (\<open>runtime\<close>), SHA-256 and
  the random source (\<open>auth_env\<close>), the actor HMAC (\<open>log_env\<close>), Argon2 (external calls), the URL parser and percent decoding, the
  clock. No property assumes anything of them except where its statement says so.

  Conventions: strings are lists of Latin-1 characters, so case mapping and Unicode normalisation are
  modelled by their effect on that range; SQL texts are written with their white space collapsed to
  single blanks; numbers are rationals with NaN and the infinities, rounded to doubles where text is
  read. There is no fuel: \<open>isJsonLoop\<close> ends by a measure on the heap, and \<open>asJson\<close> on cyclic
  values ends in the error a stack overflow causes, its depth being an argument.

  Not modelled: the redaction of secrets for logging and the log lines themselves, \<open>gracefulClose\<close> (which
  \<open>main.ts\<close> does not use), the checks of the pool options ahead of \<open>start\<close>'s \<open>try\<close>, the process entry, the
  Fastify wiring in \<open>http/server.ts\<close>, the health endpoint and the static files of the admin UI, the
  scripts and the browser code of the admin UI: calls into the framework, the file system or the browser.
\<close>

section \<open>The composed data API\<close>

text \<open>
  The data routes over the real services: authentication over the PostgreSQL auth repository, the
  data service over the PostgreSQL data repository, both on one pool with the closed flag \<open>c\<close>.
\<close>

abbreviation pgAuthenticate :: "runtime \<Rightarrow> bool \<Rightarrow> auth_env \<Rightarrow> authOp" where
  "pgAuthenticate R c A \<equiv> authenticate A (findActiveUserByTokenHash R c)"

definition apiGetRows ::
  "runtime \<Rightarrow> bool \<Rightarrow> auth_env \<Rightarrow> (string \<Rightarrow> ExposedTable option) \<Rightarrow> metadata \<Rightarrow> request \<Rightarrow> reply io" where
  "apiGetRows R c A get wm =
     getRows R (pgAuthenticate R c A) (svcList get (repoList R wm (withTransaction R (poolConnect R c))))"

definition apiGetRow ::
  "runtime \<Rightarrow> bool \<Rightarrow> auth_env \<Rightarrow> (string \<Rightarrow> ExposedTable option) \<Rightarrow> metadata \<Rightarrow> request \<Rightarrow> reply io" where
  "apiGetRow R c A get wm =
     getRow R (pgAuthenticate R c A) (svcGet get (repoFindById R wm (withTransaction R (poolConnect R c))))"

definition apiPostRow ::
  "runtime \<Rightarrow> bool \<Rightarrow> auth_env \<Rightarrow> (string \<Rightarrow> ExposedTable option) \<Rightarrow> metadata \<Rightarrow> request \<Rightarrow> reply io" where
  "apiPostRow R c A get wm =
     postRow R (pgAuthenticate R c A)
       (svcCreate (heap R) get (repoCreate R wm (withTransaction R (poolConnect R c))))"

definition apiPatchRow ::
  "runtime \<Rightarrow> bool \<Rightarrow> auth_env \<Rightarrow> (string \<Rightarrow> ExposedTable option) \<Rightarrow> metadata \<Rightarrow> request \<Rightarrow> reply io" where
  "apiPatchRow R c A get wm =
     patchRow R (pgAuthenticate R c A)
       (svcUpdate (heap R) get (repoUpdateById R wm (withTransaction R (poolConnect R c))))"

definition apiDeleteRow ::
  "runtime \<Rightarrow> bool \<Rightarrow> auth_env \<Rightarrow> (string \<Rightarrow> ExposedTable option) \<Rightarrow> metadata \<Rightarrow> request \<Rightarrow> reply io" where
  "apiDeleteRow R c A get wm =
     deleteRow R (pgAuthenticate R c A)
       (svcDelete get (repoDeleteById R wm (withTransaction R (poolConnect R c))))"

subsection \<open>The identities of a history\<close>

text \<open>\<open>runsAs u es\<close>: every data statement of \<open>es\<close> runs as \<open>u\<close>, and no identity is left behind.\<close>

definition runsAs :: "string \<Rightarrow> event list \<Rightarrow> bool" where
  "runsAs u es \<longleftrightarrow> set (blockIdentities freshSession es) \<subseteq> {Some u} \<and>
     foldl sessionStep freshSession es = freshSession"

lemma runsAs_Nil [simp]: "runsAs u []"
  by (simp add: runsAs_def)

lemma txShape_mono:
  "txShape R u P es r \<Longrightarrow> (\<And>qs r. P qs r \<Longrightarrow> Q qs r) \<Longrightarrow> txShape R u Q es r"
  by (induction rule: txShape.induct) (blast intro: txShape.intros)+

lemma crudOutcome_runsAs:
  assumes "crudOutcome R u S P es r" and "\<And>q vals. S q vals \<Longrightarrow> blockQuery (EvQuery q vals)"
  shows "runsAs u es"
proof -
  from assms(1) consider "es = []"
    | q vals where "S q vals"
        "txShape R (Some u) (\<lambda>qs r. qs = [EvQuery q vals] \<and> (\<forall>v. r = Inr v \<longrightarrow> P v)) es r"
    unfolding crudOutcome_def by blast
  then show ?thesis
  proof cases
    case (2 q vals)
    have "txShape R (Some u) (\<lambda>qs r. list_all blockQuery qs) es r"
      by (rule txShape_mono [OF 2(2)]) (use assms(2) [OF 2(1)] in simp)
    from txShape_identities [OF this] show ?thesis by (simp add: runsAs_def)
  qed simp
qed

lemma quotedList_start:
  assumes "quotedList cs = Inr cl"
  shows "cl = ''NULL'' \<or> (\<exists>rest. cl = dquote # rest)"
proof (cases cs)
  case Nil
  with assms show ?thesis by (simp add: quotedList_def)
next
  case (Cons x xs)
  with assms show ?thesis
    by (auto simp: quotedList_def res_simps quoteIdentifier_Inr joinWith_Cons split: if_splits)
qed

lemma statements_blockQuery:
  "listStatement t l off q vals \<Longrightarrow> blockQuery (EvQuery q vals)"
  "findStatement t i q vals \<Longrightarrow> blockQuery (EvQuery q vals)"
  "createStatement t vs q vals \<Longrightarrow> blockQuery (EvQuery q vals)"
  "updateStatement t i vs q vals \<Longrightarrow> blockQuery (EvQuery q vals)"
  "deleteStatement t i q vals \<Longrightarrow> blockQuery (EvQuery q vals)"
  by (auto simp: listStatement_def findStatement_def createStatement_def updateStatement_def
      deleteStatement_def listSql_def findSql_def createSql_def updateSql_def deleteSql_def
      SET_IDENTITY_SQL_def dest!: quotedList_start)

text \<open>Every data operation of the composed services runs as the user it is given.\<close>

lemma services_runAs:
  "outcome (svcList get (repoList R wm (withTransaction R (poolConnect R c))) u al lv ov) (\<lambda>es r. runsAs u es)"
  "outcome (svcGet get (repoFindById R wm (withTransaction R (poolConnect R c))) u al i) (\<lambda>es r. runsAs u es)"
  "outcome (svcCreate h get (repoCreate R wm (withTransaction R (poolConnect R c))) u al v) (\<lambda>es r. runsAs u es)"
  "outcome (svcUpdate h get (repoUpdateById R wm (withTransaction R (poolConnect R c))) u al i v) (\<lambda>es r. runsAs u es)"
  "outcome (svcDelete get (repoDeleteById R wm (withTransaction R (poolConnect R c))) u al i) (\<lambda>es r. runsAs u es)"
proof -
  show "outcome (svcList get (repoList R wm (withTransaction R (poolConnect R c))) u al lv ov) (\<lambda>es r. runsAs u es)"
    by (rule outcome_weaken [OF postgres.svcList_outcome]) (auto dest!: crudOutcome_runsAs statements_blockQuery)
  show "outcome (svcGet get (repoFindById R wm (withTransaction R (poolConnect R c))) u al i) (\<lambda>es r. runsAs u es)"
    by (rule outcome_weaken [OF postgres.svcGet_outcome]) (auto dest!: crudOutcome_runsAs statements_blockQuery)
  show "outcome (svcCreate h get (repoCreate R wm (withTransaction R (poolConnect R c))) u al v) (\<lambda>es r. runsAs u es)"
    by (rule outcome_weaken [OF postgres.svcCreate_outcome]) (auto dest!: crudOutcome_runsAs statements_blockQuery)
  show "outcome (svcUpdate h get (repoUpdateById R wm (withTransaction R (poolConnect R c))) u al i v) (\<lambda>es r. runsAs u es)"
    by (rule outcome_weaken [OF postgres.svcUpdate_outcome]) (auto dest!: crudOutcome_runsAs statements_blockQuery)
  show "outcome (svcDelete get (repoDeleteById R wm (withTransaction R (poolConnect R c))) u al i) (\<lambda>es r. runsAs u es)"
    by (rule outcome_weaken [OF postgres.svcDelete_outcome]) (auto dest!: crudOutcome_runsAs statements_blockQuery)
qed

text \<open>A route is its authentication followed by an operation as the user found.\<close>

definition authenticatedRoute ::
  "runtime \<Rightarrow> bool \<Rightarrow> auth_env \<Rightarrow> request \<Rightarrow> event list \<Rightarrow> (thrown + reply) \<times> event list \<Rightarrow> bool" where
  "authenticatedRoute R c A req w res \<longleftrightarrow>
     (\<exists>rp. fst res = Inr rp) \<and>
     (case extractBearerToken (rq_authorization req) of
        None \<Rightarrow> snd res = w
      | Some t \<Rightarrow>
          (case pgAuthenticate R c A t w of
             (Inl e, w1) \<Rightarrow> snd res = w1
           | (Inr user, w1) \<Rightarrow> \<exists>es. snd res = w1 @ es \<and> runsAs (identityOf R user) es))"

lemma route_authenticated:
  assumes "\<And>u. outcome (k u) (\<lambda>es r. runsAs u es)"
  shows "authenticatedRoute R c A req w
    (tryReply (heap R) freshReply
       (bindM (routeAuthenticate R (pgAuthenticate R c A) (extractBearerToken (rq_authorization req)))
          (\<lambda>u. bindM (k u) (\<lambda>x. returnM (f x)))) w)"
proof -
  have "outcome (tryReply (heap R) freshReply (bindM (k u) (\<lambda>x. returnM (f x))))
      (\<lambda>es r. runsAs u es \<and> (\<exists>rp. r = Inr rp))" for u
    by (rule outcome_tryReply [where P = "\<lambda>es r. runsAs u es"], rule outcome_bind [OF assms])
       (auto intro!: outcome_return)
  then show ?thesis
    unfolding authenticatedRoute_def route_run
    by (auto simp: outcome_def split: option.split prod.split sum.split) (metis fst_conv snd_conv)+
qed

section \<open>Properties\<close>


end
